(* ===== verification/GoPrelude.thy ===== *)
theory GoPrelude
  imports Main "HOL-Library.List_Lexorder" "HOL-Library.Char_ord" "HOL-Library.Product_Lexorder"
    "HOL-Library.AList"
begin

text \<open>
  Shared vocabulary of the development: the list idioms the Go sources use again and again
  (a keep-first filter over a \<open>seen\<close> map, the double loop over all pairs \<open>i < j\<close>,
  \<open>sort.Slice\<close> by a lexicographic key), Go maps as association lists, and the two generic
  interfaces: a state machine with an invariant, and a map with lookup, store and delete.
\<close>

named_theorems inv_intros "invariant preservation, one rule per operation"
named_theorems frame_simps "what an operation leaves unchanged"

section \<open>The seen-map filter: keep the first occurrence\<close>

text \<open>
  \<open>for x in xs: if seen[x] continue; seen[x] = true; out = append(out, x)\<close>. The library's
  \<^const>\<open>remdups\<close> keeps the last occurrence, so the idiom has its own function.
\<close>

fun dedup_from :: "'a set \<Rightarrow> 'a list \<Rightarrow> 'a list" where
  "dedup_from seen [] = []"
| "dedup_from seen (x # xs) =
     (if x \<in> seen then dedup_from seen xs else x # dedup_from (insert x seen) xs)"

abbreviation dedup :: "'a list \<Rightarrow> 'a list" where
  "dedup xs \<equiv> dedup_from {} xs"

lemma set_dedup_from [simp]: "set (dedup_from seen xs) = set xs - seen"
  by (induction seen xs rule: dedup_from.induct) auto

lemma distinct_dedup_from [simp]: "distinct (dedup_from seen xs)"
  by (induction seen xs rule: dedup_from.induct) auto

lemma dedup_from_id: "distinct xs \<Longrightarrow> set xs \<inter> seen = {} \<Longrightarrow> dedup_from seen xs = xs"
  by (induction seen xs rule: dedup_from.induct) auto

lemma dedup_idem [simp]: "dedup (dedup xs) = dedup xs"
  by (rule dedup_from_id) auto

lemma dedup_from_append:
  "dedup_from seen (xs @ ys) = dedup_from seen xs @ dedup_from (seen \<union> set xs) ys"
  by (induction seen xs rule: dedup_from.induct) (auto simp: insert_absorb Un_left_commute)

section \<open>All pairs in index order\<close>

text \<open>\<open>for i := 0; i < n; i++ { for j := i + 1; j < n; j++ { ... xs[i], xs[j] ... } }\<close>.\<close>

fun pairs :: "'a list \<Rightarrow> ('a \<times> 'a) list" where
  "pairs [] = []"
| "pairs (x # xs) = map (Pair x) xs @ pairs xs"

lemma set_pairs: "set (pairs xs) = {(xs ! i, xs ! j) | i j. i < j \<and> j < length xs}"
proof (induction xs)
  case Nil
  then show ?case by simp
next
  case (Cons x xs)
  show ?case
  proof (intro equalityI subsetI)
    fix p assume "p \<in> set (pairs (x # xs))"
    then consider (hd) y where "y \<in> set xs" "p = (x, y)" | (tl) "p \<in> set (pairs xs)"
      by auto
    then show "p \<in> {((x # xs) ! i, (x # xs) ! j) | i j. i < j \<and> j < length (x # xs)}"
    proof cases
      case hd
      then obtain k where "k < length xs" "xs ! k = y" by (auto simp: in_set_conv_nth)
      with hd show ?thesis by (intro CollectI exI[of _ 0] exI[of _ "Suc k"]) auto
    next
      case tl
      with Cons obtain i j where "i < j" "j < length xs" "p = (xs ! i, xs ! j)" by auto
      then show ?thesis by (intro CollectI exI[of _ "Suc i"] exI[of _ "Suc j"]) auto
    qed
  next
    fix p assume "p \<in> {((x # xs) ! i, (x # xs) ! j) | i j. i < j \<and> j < length (x # xs)}"
    then obtain i j where ij: "i < j" "j < Suc (length xs)" "p = ((x # xs) ! i, (x # xs) ! j)"
      by auto
    then obtain j' where j': "j = Suc j'" by (cases j) auto
    show "p \<in> set (pairs (x # xs))"
    proof (cases i)
      case 0
      with ij j' show ?thesis by auto
    next
      case (Suc i')
      with ij j' have "(xs ! i', xs ! j') \<in> set (pairs xs)"
        by (auto simp: Cons)
      with ij j' Suc show ?thesis by auto
    qed
  qed
qed

lemma pairs_mem: "(a, b) \<in> set (pairs xs) \<Longrightarrow> a \<in> set xs \<and> b \<in> set xs"
  by (induction xs) auto

lemma pairs_total:
  "a \<in> set xs \<Longrightarrow> b \<in> set xs \<Longrightarrow> a \<noteq> b \<Longrightarrow> (a, b) \<in> set (pairs xs) \<or> (b, a) \<in> set (pairs xs)"
  by (induction xs) auto

lemma pairs_distinct: "distinct xs \<Longrightarrow> (a, b) \<in> set (pairs xs) \<Longrightarrow> a \<noteq> b"
  by (induction xs) auto

lemma sorted_pairs: "sorted xs \<Longrightarrow> (a, b) \<in> set (pairs xs) \<Longrightarrow> a \<le> b"
  by (induction xs) auto

lemma sorted_key_pairs: "sorted (map f xs) \<Longrightarrow> (a, b) \<in> set (pairs xs) \<Longrightarrow> f a \<le> f b"
  by (induction xs) auto

section \<open>sort.Slice and sort.Strings\<close>

text \<open>
  Every \<open>sort.Slice\<close> of the modelled code compares lexicographically by a tuple of fields, so
  it is \<^const>\<open>sort_key\<close> with the tuple as key. \<open>sort.Slice\<close> does not promise stability:
  the order among elements with equal keys is the one thing the model fixes beyond the
  library's documentation, and no theorem of the development depends on it.
\<close>

lemma sorted_map_sort_key: "sorted (map f (sort_key f xs))"
  by (rule sorted_sort_key)

section \<open>Interface: a state machine with an invariant\<close>

text \<open>
  Several components are a state and operations on it, and are correct because each operation
  keeps an invariant. The lift from one operation to every run is proved once, here.
\<close>

locale invariant_machine =
  fixes step :: "'s \<Rightarrow> 'e \<Rightarrow> 's"
    and inv :: "'s \<Rightarrow> bool"
  assumes inv_step: "inv s \<Longrightarrow> inv (step s e)"
begin

lemma inv_run: "inv s \<Longrightarrow> inv (foldl step s es)"
  by (induction es arbitrary: s) (auto intro: inv_step)

lemma inv_prefix: "inv s \<Longrightarrow> inv (foldl step s (take n es))"
  by (rule inv_run)

end

section \<open>Interface: a keyed store\<close>

text \<open>
  What the code relies on of a Go map keyed by tunnel name: a lookup after a store or a delete.
\<close>

locale keyed_store =
  fixes get :: "'m \<Rightarrow> 'k \<Rightarrow> 'v option"
    and put :: "'k \<Rightarrow> 'v \<Rightarrow> 'm \<Rightarrow> 'm"
    and del :: "'k \<Rightarrow> 'm \<Rightarrow> 'm"
  assumes get_put: "get (put k v m) k' = (if k' = k then Some v else get m k')"
    and get_del: "get (del k m) k' = (if k' = k then None else get m k')"
begin

lemma get_put_same [simp]: "get (put k v m) k = Some v"
  by (simp add: get_put)

lemma get_put_other [simp]: "k' \<noteq> k \<Longrightarrow> get (put k v m) k' = get m k'"
  by (simp add: get_put)

lemma get_del_same [simp]: "get (del k m) k = None"
  by (simp add: get_del)

lemma get_del_other [simp]: "k' \<noteq> k \<Longrightarrow> get (del k m) k' = get m k'"
  by (simp add: get_del)

lemma put_then_del: "get (del k (put k v m)) = get (del k m)"
  by (rule ext) (simp add: get_put get_del)

lemma del_idem: "get (del k (del k m)) = get (del k m)"
  by (rule ext) (simp add: get_del)

end

text \<open>
  Go maps are association lists: \<^const>\<open>map_of\<close> looks up, \<^const>\<open>AList.update\<close> stores in
  place (or appends a fresh key), \<^const>\<open>AList.delete\<close> removes. A \<open>range\<close> over the map is a
  walk of the list. Go leaves the order open; theorems quantify over every list, so over every
  order.
\<close>

interpretation amap: keyed_store "\<lambda>m k. map_of m k" AList.update AList.delete
  by unfold_locales (auto simp: AList.update_conv' AList.delete_conv')

lemma map_of_map_val: "map_of (map (\<lambda>(k, v). (k, f v)) xs) k = map_option f (map_of xs k)"
  by (induction xs) auto

lemma keys_update [simp]: "fst ` set (AList.update k v m) = insert k (fst ` set m)"
  by (induction m) auto

lemma keys_delete [simp]: "fst ` set (AList.delete k m) = fst ` set m - {k}"
  by (auto simp: AList.delete_eq)

lemma update_mem:
  "(k', v') \<in> set (AList.update k v m) \<Longrightarrow> (k', v') = (k, v) \<or> (k', v') \<in> set m"
  by (induction m) (auto split: if_splits)

lemma update_mem_distinct:
  "distinct (map fst m) \<Longrightarrow> (k', v') \<in> set (AList.update k v m) \<Longrightarrow>
     (k', v') = (k, v) \<or> (k' \<noteq> k \<and> (k', v') \<in> set m)"
  by (induction m) (auto split: if_splits simp: image_iff)

lemma delete_mem: "(k', v') \<in> set (AList.delete k m) \<longleftrightarrow> k' \<noteq> k \<and> (k', v') \<in> set m"
  by (auto simp: AList.delete_eq)

end
