(* ===== verification/GoStrings.thy ===== *)
theory GoStrings
  imports GoPrelude
begin

text \<open>
  The part of Go's \<open>strings\<close>, \<open>strconv\<close> and \<open>time\<close> the modelled code calls. A Go string is
  its bytes, a \<^typ>\<open>string\<close>. \<open>TrimSpace\<close> is modelled on every byte string (ASCII and
  multi-byte Unicode white space); case mapping (\<open>ToLower\<close>, \<open>EqualFold\<close>) is modelled on
  ASCII letters and leaves every other byte as it is.
\<close>

section \<open>White space\<close>

text \<open>Width in bytes of a leading white-space rune (\<open>unicode.IsSpace\<close> in UTF-8), 0 if none.\<close>

definition ascii_space :: "char \<Rightarrow> bool" where
  "ascii_space c \<longleftrightarrow> c = CHR '' '' \<or> c = CHR 0x09 \<or> c = CHR 0x0A \<or> c = CHR 0x0B
     \<or> c = CHR 0x0C \<or> c = CHR 0x0D"

definition uni_space :: "string \<Rightarrow> bool" where
  "uni_space b \<longleftrightarrow> b = [CHR 0xC2, CHR 0x85] \<or> b = [CHR 0xC2, CHR 0xA0]
     \<or> b = [CHR 0xE1, CHR 0x9A, CHR 0x80]
     \<or> (\<exists>x \<in> set [0x80, 0x81, 0x82, 0x83, 0x84, 0x85, 0x86, 0x87, 0x88, 0x89, 0x8A, 0xA8, 0xA9, 0xAF].
          b = [CHR 0xE2, CHR 0x80, char_of (x::nat)])
     \<or> b = [CHR 0xE2, CHR 0x81, CHR 0x9F] \<or> b = [CHR 0xE3, CHR 0x80, CHR 0x80]"

definition space_width :: "string \<Rightarrow> nat" where
  "space_width s =
     (if s \<noteq> [] \<and> ascii_space (hd s) then 1
      else if uni_space (take 2 s) then 2
      else if uni_space (take 3 s) then 3
      else 0)"

text \<open>The same for a trailing rune, read off the reversed string.\<close>

definition space_width_rev :: "string \<Rightarrow> nat" where
  "space_width_rev r =
     (if r \<noteq> [] \<and> ascii_space (hd r) then 1
      else if uni_space (rev (take 2 r)) then 2
      else if uni_space (rev (take 3 r)) then 3
      else 0)"

lemma uni_space_len: "uni_space b \<Longrightarrow> length b = 2 \<or> length b = 3"
  by (auto simp: uni_space_def)

lemma space_width_le: "space_width s \<le> length s"
proof -
  have "uni_space (take 2 s) \<Longrightarrow> 2 \<le> length s" using uni_space_len[of "take 2 s"] by auto
  moreover have "uni_space (take 3 s) \<Longrightarrow> \<not> uni_space (take 2 s) \<Longrightarrow> 3 \<le> length s"
    using uni_space_len[of "take 3 s"] by (cases "length s = 2") auto
  ultimately show ?thesis by (cases s) (auto simp: space_width_def)
qed

lemma space_width_rev_le: "space_width_rev s \<le> length s"
proof -
  have "uni_space (rev (take 2 s)) \<Longrightarrow> 2 \<le> length s"
    using uni_space_len[of "rev (take 2 s)"] by auto
  moreover have "uni_space (rev (take 3 s)) \<Longrightarrow> \<not> uni_space (rev (take 2 s)) \<Longrightarrow> 3 \<le> length s"
    using uni_space_len[of "rev (take 3 s)"] by (cases "length s = 2") auto
  ultimately show ?thesis by (cases s) (auto simp: space_width_rev_def)
qed

lemma space_width_Nil [simp]: "space_width [] = 0" "space_width_rev [] = 0"
  by (simp_all add: space_width_def space_width_rev_def uni_space_def)

function trim_left :: "string \<Rightarrow> string" where
  "trim_left s = (if space_width s = 0 then s else trim_left (drop (space_width s) s))"
  by pat_completeness auto
termination
proof (relation "measure length")
  fix s :: string assume "space_width s \<noteq> 0"
  then show "(drop (space_width s) s, s) \<in> measure length" by (cases s) auto
qed auto

function trim_right_rev :: "string \<Rightarrow> string" where
  "trim_right_rev r =
     (if space_width_rev r = 0 then r else trim_right_rev (drop (space_width_rev r) r))"
  by pat_completeness auto
termination
proof (relation "measure length")
  fix s :: string assume "space_width_rev s \<noteq> 0"
  then show "(drop (space_width_rev s) s, s) \<in> measure length" by (cases s) auto
qed auto

declare trim_left.simps [simp del] trim_right_rev.simps [simp del]

definition trim_space :: "string \<Rightarrow> string" where
  "trim_space s = rev (trim_right_rev (rev (trim_left s)))"

definition trimmed :: "string \<Rightarrow> bool" where
  "trimmed s \<longleftrightarrow> space_width s = 0 \<and> space_width_rev (rev s) = 0"

lemma trim_left_id: "space_width s = 0 \<Longrightarrow> trim_left s = s"
  by (subst trim_left.simps) simp

lemma trim_right_rev_id: "space_width_rev s = 0 \<Longrightarrow> trim_right_rev s = s"
  by (subst trim_right_rev.simps) simp

lemma trim_space_trimmed [simp]: "trimmed s \<Longrightarrow> trim_space s = s"
  by (simp add: trimmed_def trim_space_def trim_left_id trim_right_rev_id)

lemma trimmed_Nil [simp]: "trimmed []"
  by (simp add: trimmed_def)

lemma trim_space_Nil [simp]: "trim_space [] = []"
  by simp

lemma trim_left_space [simp]: "trim_left (CHR '' '' # s) = trim_left s"
  by (subst trim_left.simps) (simp add: space_width_def ascii_space_def)

lemma trim_space_space [simp]: "trim_space (CHR '' '' # s) = trim_space s"
  by (simp add: trim_space_def)

lemma trim_right_rev_space [simp]: "trim_right_rev (CHR '' '' # s) = trim_right_rev s"
  by (subst trim_right_rev.simps) (simp add: space_width_rev_def ascii_space_def)

lemma space_width_trim_left: "space_width (trim_left s) = 0"
proof (induction s rule: trim_left.induct)
  case (1 s)
  then show ?case by (cases "space_width s = 0") (simp_all add: trim_left.simps[of s])
qed

lemma space_width_rev_trim: "space_width_rev (trim_right_rev s) = 0"
proof (induction s rule: trim_right_rev.induct)
  case (1 s)
  then show ?case by (cases "space_width_rev s = 0") (simp_all add: trim_right_rev.simps[of s])
qed

lemma trim_right_suffix: "\<exists>n. trim_right_rev s = drop n s"
proof (induction s rule: trim_right_rev.induct)
  case (1 s)
  show ?case
  proof (cases "space_width_rev s = 0")
    case True
    then show ?thesis by (intro exI[of _ 0]) (simp add: trim_right_rev.simps[of s])
  next
    case False
    with 1 obtain n where "trim_right_rev (drop (space_width_rev s) s) = drop n (drop (space_width_rev s) s)"
      by auto
    with False show ?thesis by (subst trim_right_rev.simps) auto
  qed
qed

text \<open>Cutting bytes off the right never uncovers white space on the left.\<close>

lemma uni_space_take: "uni_space (take n (take m s)) \<Longrightarrow> uni_space (take n s) \<or> n > m"
  by (cases "n \<le> m") (simp_all add: min_def)

lemma space_width_take: "space_width s = 0 \<Longrightarrow> space_width (take m s) = 0"
proof -
  assume z: "space_width s = 0"
  have a: "\<not> (s \<noteq> [] \<and> ascii_space (hd s))" and b: "\<not> uni_space (take 2 s)" and c: "\<not> uni_space (take 3 s)"
    using z by (auto simp: space_width_def split: if_splits)
  have "take m s \<noteq> [] \<Longrightarrow> hd (take m s) = hd s" by (cases s; cases m) auto
  with a have a': "\<not> (take m s \<noteq> [] \<and> ascii_space (hd (take m s)))" by auto
  have k: "\<not> uni_space (take k s)" for k
  proof
    assume u: "uni_space (take k s)"
    then have "length (take k s) = 2 \<or> length (take k s) = 3" by (rule uni_space_len)
    then have "take k s = take 2 s \<or> take k s = take 3 s" by (auto simp: min_def split: if_splits)
    with u b c show False by auto
  qed
  have "\<not> uni_space (take 2 (take m s))" "\<not> uni_space (take 3 (take m s))"
    using k by (simp_all add: min_def)
  with a' show ?thesis by (auto simp: space_width_def)
qed

lemma trimmed_trim_space [simp]: "trimmed (trim_space s)"
proof -
  let ?t = "trim_left s"
  obtain n where n: "trim_right_rev (rev ?t) = drop n (rev ?t)" using trim_right_suffix by blast
  then have e: "trim_space s = take (length ?t - n) ?t" by (simp add: trim_space_def rev_drop)
  have "space_width (trim_space s) = 0" unfolding e by (rule space_width_take[OF space_width_trim_left])
  moreover have "space_width_rev (rev (trim_space s)) = 0"
    by (simp add: trim_space_def space_width_rev_trim)
  ultimately show ?thesis by (simp add: trimmed_def)
qed

lemma trim_space_idem [simp]: "trim_space (trim_space s) = trim_space s"
  by simp

section \<open>Case, prefixes, suffixes, splitting, joining\<close>

definition lower_char :: "char \<Rightarrow> char" where
  "lower_char c = (let n = of_char c :: int in if 65 \<le> n \<and> n \<le> 90 then char_of (n + 32) else c)"

text \<open>
  \<open>strings.ToLower\<close> on ASCII text; other bytes stay. What the parser of configurations, which reads any UTF-8 text,
  makes of the two other characters with an ASCII lower case is in \<open>Config\<close>.
\<close>

definition to_lower :: "string \<Rightarrow> string" where
  "to_lower s = map lower_char s"

definition equal_fold :: "string \<Rightarrow> string \<Rightarrow> bool" where
  "equal_fold a b \<longleftrightarrow> to_lower a = to_lower b"

lemma lower_char_idem [simp]: "lower_char (lower_char c) = lower_char c"
proof -
  consider "65 \<le> (of_char c :: int) \<and> (of_char c :: int) \<le> 90" | "\<not> (65 \<le> (of_char c :: int) \<and> (of_char c :: int) \<le> 90)"
    by blast
  then show ?thesis
    by cases (auto simp: lower_char_def Let_def)
qed

lemma to_lower_idem [simp]: "to_lower (to_lower s) = to_lower s"
  by (simp add: to_lower_def)

lemma equal_fold_equivp: "equivp equal_fold"
  by (rule equivpI) (auto simp: equal_fold_def reflp_def symp_def transp_def)

abbreviation has_prefix :: "string \<Rightarrow> string \<Rightarrow> bool" where
  "has_prefix s p \<equiv> take (length p) s = p"

abbreviation has_suffix :: "string \<Rightarrow> string \<Rightarrow> bool" where
  "has_suffix s p \<equiv> length p \<le> length s \<and> drop (length s - length p) s = p"

text \<open>\<open>strings.Contains\<close>, text first.\<close>

fun str_contains :: "string \<Rightarrow> string \<Rightarrow> bool" where
  "str_contains [] p = (p = [])"
| "str_contains (c # s) p = (has_prefix (c # s) p \<or> str_contains s p)"

definition trim_prefix :: "string \<Rightarrow> string \<Rightarrow> string" where
  "trim_prefix s p = (if has_prefix s p then drop (length p) s else s)"

definition trim_suffix :: "string \<Rightarrow> string \<Rightarrow> string" where
  "trim_suffix s p = (if has_suffix s p then take (length s - length p) s else s)"

lemma has_suffix_append [simp]: "has_suffix (a @ b) b"
  by simp

lemma has_suffixE: "has_suffix s p \<Longrightarrow> \<exists>a. s = a @ p"
  by (rule exI[of _ "take (length s - length p) s"]) (metis append_take_drop_id)

text \<open>\<open>strings.SplitN(s, sep, 2)\<close> / \<open>strings.Cut\<close>: the parts around the first separator.\<close>

fun str_cut :: "char \<Rightarrow> string \<Rightarrow> (string \<times> string) option" where
  "str_cut sep [] = None"
| "str_cut sep (c # s) =
     (if c = sep then Some ([], s)
      else case str_cut sep s of None \<Rightarrow> None | Some (a, b) \<Rightarrow> Some (c # a, b))"

fun split_on :: "char \<Rightarrow> string \<Rightarrow> string list" where
  "split_on sep [] = [[]]"
| "split_on sep (c # s) =
     (if c = sep then [] # split_on sep s
      else case split_on sep s of [] \<Rightarrow> [[c]] | p # ps \<Rightarrow> (c # p) # ps)"

fun join :: "string \<Rightarrow> string list \<Rightarrow> string" where
  "join sep [] = []"
| "join sep [x] = x"
| "join sep (x # y # ys) = x @ sep @ join sep (y # ys)"

lemma split_on_nonempty [simp]: "split_on sep s \<noteq> []"
  by (induction s) (auto split: list.splits)

lemma str_cut_first [simp]: "sep \<notin> set a \<Longrightarrow> str_cut sep (a @ sep # b) = Some (a, b)"
  by (induction a) auto

lemma str_cut_SomeD: "str_cut sep s = Some (a, b) \<Longrightarrow> s = a @ sep # b \<and> sep \<notin> set a"
proof (induction s arbitrary: a)
  case (Cons c s)
  show ?case
  proof (cases "c = sep")
    case True
    with Cons.prems show ?thesis by simp
  next
    case False
    with Cons.prems obtain a' where "str_cut sep s = Some (a', b)" "a = c # a'"
      by (cases "str_cut sep s") auto
    with False Cons.IH[of a'] show ?thesis by simp
  qed
qed simp

lemma str_cut_Some: "str_cut sep s = Some (a, b) \<longleftrightarrow> s = a @ sep # b \<and> sep \<notin> set a"
  by (auto dest: str_cut_SomeD)

lemma str_cut_None: "str_cut sep s = None \<longleftrightarrow> sep \<notin> set s"
  by (induction s) (auto split: option.splits)

lemma split_on_nosep [simp]: "sep \<notin> set s \<Longrightarrow> split_on sep s = [s]"
  by (induction s) auto

lemma split_on_append [simp]: "sep \<notin> set a \<Longrightarrow> split_on sep (a @ sep # b) = a # split_on sep b"
  by (induction a) auto

lemma split_on_no_sep_mem: "p \<in> set (split_on sep s) \<Longrightarrow> sep \<notin> set p"
proof (induction s arbitrary: p)
  case (Cons c s)
  then show ?case
    by (cases "split_on sep s") (auto split: if_splits)
qed simp

lemma join_split_on: "join [sep] (split_on sep s) = s"
proof (induction s)
  case (Cons c s)
  then show ?case by (cases "split_on sep s"; cases "tl (split_on sep s)") auto
qed simp

lemma split_on_join:
  "ps \<noteq> [] \<Longrightarrow> \<forall>p \<in> set ps. sep \<notin> set p \<Longrightarrow> split_on sep (join [sep] ps) = ps"
  by (induction "[sep]" ps rule: join.induct) auto

section \<open>Lines \<open>key = value\<close>\<close>

lemma uni_space_high: "uni_space b \<Longrightarrow> c \<in> set b \<Longrightarrow> (of_char c :: nat) \<ge> 0x80"
  by (auto simp: uni_space_def)

lemma uni_space_no_space: "CHR '' '' \<in> set b \<Longrightarrow> \<not> uni_space b"
  using uni_space_high[of b "CHR '' ''"] by auto

lemma take_append_space:
  "length k < n \<Longrightarrow> CHR '' '' \<in> set (take n (k @ CHR '' '' # r))"
  by (simp add: take_Cons')

lemma space_width_append: "k \<noteq> [] \<Longrightarrow> space_width k = 0 \<Longrightarrow> space_width (k @ CHR '' '' # r) = 0"
proof -
  assume k: "k \<noteq> []" "space_width k = 0"
  have "\<not> uni_space (take n (k @ CHR '' '' # r))" if "n = 2 \<or> n = 3" for n
  proof (cases "length k < n")
    case True
    then show ?thesis by (rule uni_space_no_space[OF take_append_space])
  next
    case False
    then have "take n (k @ CHR '' '' # r) = take n k" by simp
    moreover have "\<not> uni_space (take n k)" using that k by (auto simp: space_width_def split: if_splits)
    ultimately show ?thesis by simp
  qed
  with k show ?thesis by (simp add: space_width_def split: if_splits)
qed

lemma uni_space_no_space_rev: "CHR '' '' \<in> set b \<Longrightarrow> \<not> uni_space (rev b)"
  by (rule uni_space_no_space) simp

lemma space_width_rev_append: "k \<noteq> [] \<Longrightarrow> space_width_rev k = 0 \<Longrightarrow> space_width_rev (k @ CHR '' '' # r) = 0"
proof -
  assume k: "k \<noteq> []" "space_width_rev k = 0"
  have "\<not> uni_space (rev (take n (k @ CHR '' '' # r)))" if "n = 2 \<or> n = 3" for n
  proof (cases "length k < n")
    case True
    then show ?thesis by (rule uni_space_no_space_rev[OF take_append_space])
  next
    case False
    then have "take n (k @ CHR '' '' # r) = take n k" by simp
    moreover have "\<not> uni_space (rev (take n k))" using that k by (auto simp: space_width_rev_def split: if_splits)
    ultimately show ?thesis by simp
  qed
  with k show ?thesis by (simp add: space_width_rev_def split: if_splits)
qed

lemma trimmed_pair:
  assumes "trimmed k" "k \<noteq> []" "trimmed v" "v \<noteq> []"
  shows "trimmed (k @ '' = '' @ v)"
proof -
  have "space_width (k @ CHR '' '' # (''= '' @ v)) = 0"
    using assms by (intro space_width_append) (simp_all add: trimmed_def)
  moreover have "space_width_rev (rev v @ CHR '' '' # (''= '' @ rev k)) = 0"
    using assms by (intro space_width_rev_append) (simp_all add: trimmed_def)
  ultimately show ?thesis by (simp add: trimmed_def)
qed

lemma trim_space_right [simp]: "trimmed k \<Longrightarrow> trim_space (k @ '' '') = k"
proof (cases "k = []")
  case True
  then show ?thesis by simp
next
  case False
  assume k: "trimmed k"
  have "trim_left (k @ '' '') = k @ '' ''"
    using space_width_append[of k "[]"] False k by (intro trim_left_id) (simp add: trimmed_def)
  then show ?thesis using k by (simp add: trim_space_def trim_right_rev_id trimmed_def)
qed

lemma trim_space_key_only:
  assumes "trimmed k" "k \<noteq> []"
  shows "trim_space (k @ '' = '') = k @ '' =''"
proof -
  have "space_width (k @ CHR '' '' # ''= '') = 0"
    using assms by (intro space_width_append) (simp_all add: trimmed_def)
  then have "trim_left (k @ '' = '') = k @ '' = ''" by (intro trim_left_id) simp
  moreover have "space_width_rev (''= '' @ rev k) = 0"
    using space_width_rev_append[of "''=''" "rev k"]
    by (simp add: space_width_rev_def ascii_space_def uni_space_no_space uni_space_def)
  ultimately show ?thesis by (simp add: trim_space_def trim_right_rev_id)
qed

text \<open>What a reader that trims, cuts at the first \<open>=\<close> and trims again sees of a written line.\<close>

lemma read_key_line:
  assumes "trimmed k" "k \<noteq> []" "CHR ''='' \<notin> set k" "trimmed v"
  obtains a b where "str_cut (CHR ''='') (trim_space (k @ '' = '' @ v)) = Some (a, b)"
    "trim_space a = k" "trim_space b = v" "trim_space (k @ '' = '' @ v) = k @ CHR '' '' # CHR ''='' # b"
proof (cases "v = []")
  case True
  with assms that[of "k @ '' ''" "[]"] show ?thesis
    using str_cut_first[of "CHR ''=''" "k @ '' ''" "[]"] by (simp add: trim_space_key_only)
next
  case False
  with assms that[of "k @ '' ''" "'' '' @ v"] show ?thesis
    using str_cut_first[of "CHR ''=''" "k @ '' ''" "'' '' @ v"] trimmed_pair[of k v] by simp
qed

section \<open>Numbers\<close>

text \<open>Digits and numbers are integers, so that closed terms evaluate in binary.\<close>

definition digit_val :: "char \<Rightarrow> int option" where
  "digit_val c = (let n = of_char c :: int in if 48 \<le> n \<and> n \<le> 57 then Some (n - 48) else None)"

definition digit_char :: "int \<Rightarrow> char" where
  "digit_char d = char_of (48 + d)"

lemma digit_char_of: "0 \<le> d \<Longrightarrow> d < 10 \<Longrightarrow> (of_char (digit_char d) :: int) = 48 + d"
  by (simp add: digit_char_def)

lemma digit_val_char [simp]: "0 \<le> d \<Longrightarrow> d < 10 \<Longrightarrow> digit_val (digit_char d) = Some d"
  by (simp add: digit_val_def digit_char_of)

fun digits_acc :: "int \<Rightarrow> string \<Rightarrow> int option" where
  "digits_acc n [] = Some n"
| "digits_acc n (c # s) =
     (case digit_val c of None \<Rightarrow> None | Some d \<Rightarrow> digits_acc (n * 10 + d) s)"

definition parse_nat :: "string \<Rightarrow> int option" where
  "parse_nat s = (if s = [] then None else digits_acc 0 s)"

text \<open>
  \<open>strconv.Atoi\<close> on a 64-bit platform: an optional sign, at least one decimal digit and nothing
  else, and a value in the range of \<open>int64\<close>.
\<close>

definition atoi :: "string \<Rightarrow> int option" where
  "atoi s =
     (let (neg, ds) = (case s of c # r \<Rightarrow> if c = CHR ''-'' then (True, r)
                                       else if c = CHR ''+'' then (False, r) else (False, s)
                       | [] \<Rightarrow> (False, s))
      in case parse_nat ds of
           None \<Rightarrow> None
         | Some n \<Rightarrow> if neg then (if n \<le> 2 ^ 63 then Some (- n) else None)
                     else (if n < 2 ^ 63 then Some n else None))"

text \<open>\<open>strconv.ParseUint(s, 10, 32)\<close>.\<close>

definition parse_uint32 :: "string \<Rightarrow> int option" where
  "parse_uint32 s = (case parse_nat s of None \<Rightarrow> None | Some n \<Rightarrow> if n < 2 ^ 32 then Some n else None)"

text \<open>The decimal digits of a non-negative number.\<close>

function dec_str :: "int \<Rightarrow> string" where
  "dec_str n = (if n < 10 then [digit_char n] else dec_str (n div 10) @ [digit_char (n mod 10)])"
  by pat_completeness auto
termination
  by (relation "measure nat") auto

declare dec_str.simps [simp del]

text \<open>\<open>strconv.Itoa\<close>.\<close>

definition itoa :: "int \<Rightarrow> string" where
  "itoa n = (if n < 0 then CHR ''-'' # dec_str (- n) else dec_str n)"

lemma digits_acc_append:
  "digits_acc n (s @ [c]) =
     (case digits_acc n s of None \<Rightarrow> None | Some m \<Rightarrow> map_option (\<lambda>d. m * 10 + d) (digit_val c))"
  by (induction s arbitrary: n) (auto split: option.splits)

lemma digits_acc_dec_str: "0 \<le> n \<Longrightarrow> digits_acc 0 (dec_str n) = Some n"
proof (induction n rule: dec_str.induct)
  case (1 n)
  show ?case
  proof (cases "n < 10")
    case True
    with 1 show ?thesis by (simp add: dec_str.simps[of n])
  next
    case False
    with 1 show ?thesis by (simp add: dec_str.simps[of n] digits_acc_append)
  qed
qed

lemma dec_str_nonempty [simp]: "dec_str n \<noteq> []"
  by (subst dec_str.simps) simp

lemma parse_dec_str [simp]: "0 \<le> n \<Longrightarrow> parse_nat (dec_str n) = Some n"
  by (simp add: parse_nat_def digits_acc_dec_str)

lemma dec_str_digits: "0 \<le> n \<Longrightarrow> c \<in> set (dec_str n) \<Longrightarrow> \<exists>d. 0 \<le> d \<and> d < 10 \<and> c = digit_char d"
proof (induction n rule: dec_str.induct)
  case (1 n)
  show ?case
  proof (cases "n < 10")
    case True
    with 1 show ?thesis by (auto simp: dec_str.simps[of n])
  next
    case False
    then have "c \<in> set (dec_str (n div 10)) \<or> c = digit_char (n mod 10)"
      using 1 by (auto simp: dec_str.simps[of n])
    with False 1 show ?thesis by (auto intro: exI[of _ "n mod 10"])
  qed
qed

lemma dec_str_range: "0 \<le> n \<Longrightarrow> c \<in> set (dec_str n) \<Longrightarrow> 48 \<le> (of_char c :: int) \<and> (of_char c :: int) \<le> 57"
  by (drule (1) dec_str_digits) (auto simp: digit_char_of)

lemma dec_str_not: "0 \<le> n \<Longrightarrow> (of_char c :: int) < 48 \<or> 57 < (of_char c :: int) \<Longrightarrow> c \<notin> set (dec_str n)"
  using dec_str_range by fastforce

lemma atoi_dec_str: "0 \<le> n \<Longrightarrow> n < 2 ^ 63 \<Longrightarrow> atoi (dec_str n) = Some n"
proof -
  assume n: "0 \<le> n" "n < 2 ^ 63"
  obtain c r where cr: "dec_str n = c # r" by (cases "dec_str n") auto
  then have "c \<in> set (dec_str n)" by simp
  then have "c \<noteq> CHR ''-''" "c \<noteq> CHR ''+''" using dec_str_range[OF n(1)] by fastforce+
  moreover have "parse_nat (c # r) = Some n" using parse_dec_str[OF n(1)] cr by simp
  ultimately show ?thesis using n by (simp add: atoi_def cr)
qed

lemma atoi_itoa: "- (2 ^ 63) \<le> n \<Longrightarrow> n < 2 ^ 63 \<Longrightarrow> atoi (itoa n) = Some n"
proof (cases "n < 0")
  case True
  assume "- (2 ^ 63) \<le> n"
  with True show ?thesis by (simp add: atoi_def itoa_def)
qed (simp add: itoa_def atoi_dec_str)

lemma atoi_range: "atoi s = Some n \<Longrightarrow> digits_acc 0 s = Some m \<Longrightarrow> s \<noteq> [] \<Longrightarrow> n < 2 ^ 63"
  by (auto simp: atoi_def Let_def digit_val_def split: list.splits if_splits option.splits)

end
