(* ===== verification/GoNet.thy ===== *)
theory GoNet
  imports GoStrings "HOL-Library.Word"
begin

text \<open>
  The part of Go's \<open>net\<close> and \<open>net/netip\<close> the modelled code calls: address and prefix parsing
  and printing, containment, masking, and the order of \<open>netip.Addr.Compare\<close>. An address is its
  family and its 32 or 128 bits. The lemmas relate \<open>Prefix.Contains\<close> to the set of addresses
  of a prefix, and show that prefixes are laminar: two of them are nested or disjoint.
\<close>

unbundle bit_operations_syntax

section \<open>Addresses\<close>

datatype ip_addr = V4 "32 word" | V6 "128 word"

fun bit_len :: "ip_addr \<Rightarrow> nat" where
  "bit_len (V4 _) = 32"
| "bit_len (V6 _) = 128"

fun is4 :: "ip_addr \<Rightarrow> bool" where
  "is4 (V4 _) = True"
| "is4 (V6 _) = False"

fun is4in6 :: "ip_addr \<Rightarrow> bool" where
  "is4in6 (V4 _) = False"
| "is4in6 (V6 w) = (drop_bit 32 w = 0xFFFF)"

fun is_unspecified :: "ip_addr \<Rightarrow> bool" where
  "is_unspecified (V4 w) = (w = 0)"
| "is_unspecified (V6 w) = (w = 0)"

text \<open>\<open>net.IP\<close> makes no difference between an IPv4 address and its IPv6-mapped form (\<open>To4\<close>).\<close>

fun to_net_ip :: "ip_addr \<Rightarrow> ip_addr" where
  "to_net_ip (V4 w) = V4 w"
| "to_net_ip (V6 w) = (if is4in6 (V6 w) then V4 (ucast w) else V6 w)"

definition net_ip_equal :: "ip_addr \<Rightarrow> ip_addr \<Rightarrow> bool" where
  "net_ip_equal a b \<longleftrightarrow> to_net_ip a = to_net_ip b"

section \<open>Parsing addresses\<close>

definition parse_octet :: "string \<Rightarrow> int option" where
  "parse_octet s =
     (if 1 < length s \<and> hd s = CHR ''0'' then None
      else case parse_nat s of None \<Rightarrow> None | Some n \<Rightarrow> if n \<le> 255 then Some n else None)"

definition parse_ipv4 :: "string \<Rightarrow> int option" where
  "parse_ipv4 s =
     (case map parse_octet (split_on (CHR ''.'') s) of
        [Some a, Some b, Some c, Some d] \<Rightarrow> Some (((a * 256 + b) * 256 + c) * 256 + d)
      | _ \<Rightarrow> None)"

definition hex_val :: "char \<Rightarrow> int option" where
  "hex_val c = (let n = of_char c :: int in
     if 48 \<le> n \<and> n \<le> 57 then Some (n - 48)
     else if 97 \<le> n \<and> n \<le> 102 then Some (n - 87)
     else if 65 \<le> n \<and> n \<le> 70 then Some (n - 55)
     else None)"

definition hex_num :: "string \<Rightarrow> int" where
  "hex_num s = foldl (\<lambda>acc c. acc * 16 + the (hex_val c)) 0 s"

definition is_hex :: "char \<Rightarrow> bool" where
  "is_hex c \<longleftrightarrow> hex_val c \<noteq> None"

text \<open>
  The group loop of \<open>netip.parseIPv6\<close>: at most eight groups (the fuel, which is the
  \<open>for i < 16\<close> bound), an ellipsis position, and an IPv4 tail.
\<close>

fun v6_loop :: "nat \<Rightarrow> string \<Rightarrow> int list \<Rightarrow> nat option \<Rightarrow> (int list \<times> nat option) option" where
  "v6_loop 0 s gs e = (if s = [] then Some (gs, e) else None)"
| "v6_loop (Suc k) s gs e =
     (let hex = takeWhile is_hex s; rest = dropWhile is_hex s in
      if hex = [] \<or> 4 < length hex then None
      else if rest \<noteq> [] \<and> hd rest = CHR ''.'' then
        (if (e = None \<and> length gs \<noteq> 6) \<or> 6 < length gs then None
         else case parse_ipv4 s of None \<Rightarrow> None
              | Some v \<Rightarrow> Some (gs @ [v div 65536, v mod 65536], e))
      else
        (let gs' = gs @ [hex_num hex] in
         case rest of
           [] \<Rightarrow> Some (gs', e)
         | c # r \<Rightarrow>
             if c \<noteq> CHR '':'' \<or> r = [] then None
             else if hd r = CHR '':'' then
               (if e \<noteq> None then None
                else if tl r = [] then Some (gs', Some (length gs'))
                else v6_loop k (tl r) gs' (Some (length gs')))
             else v6_loop k r gs' e))"

definition v6_expand :: "int list \<times> nat option \<Rightarrow> int list option" where
  "v6_expand ge =
     (let (gs, e) = ge in
      if length gs < 8 then
        (case e of None \<Rightarrow> None
         | Some p \<Rightarrow> Some (take p gs @ replicate (8 - length gs) 0 @ drop p gs))
      else if e \<noteq> None then None else Some gs)"

definition parse_ipv6 :: "string \<Rightarrow> (ip_addr \<times> string) option" where
  "parse_ipv6 inp =
     (let (s, zone, bad) = (case str_cut (CHR ''%'') inp of
             None \<Rightarrow> (inp, '''', False) | Some (a, z) \<Rightarrow> (a, z, z = ''''))
      in if bad then None
         else let lead = take 2 s = ''::'' in
           if lead \<and> drop 2 s = [] then Some (V6 0, zone)
           else case v6_loop 8 (if lead then drop 2 s else s) [] (if lead then Some 0 else None) of
             None \<Rightarrow> None
           | Some ge \<Rightarrow>
               (case v6_expand ge of None \<Rightarrow> None
                | Some gs \<Rightarrow> Some (V6 (word_of_int (foldl (\<lambda>acc g. acc * 65536 + g) 0 gs)), zone)))"

text \<open>\<open>netip.ParseAddr\<close>: the address and its zone (empty for none).\<close>

definition parse_addr :: "string \<Rightarrow> (ip_addr \<times> string) option" where
  "parse_addr s =
     (case List.find (\<lambda>c. c = CHR ''.'' \<or> c = CHR '':'' \<or> c = CHR ''%'') s of
        None \<Rightarrow> None
      | Some c \<Rightarrow>
          if c = CHR ''.'' then map_option (\<lambda>v. (V4 (word_of_int v), '''')) (parse_ipv4 s)
          else if c = CHR '':'' then parse_ipv6 s
          else None)"

text \<open>\<open>net.ParseIP\<close>: no zone allowed.\<close>

definition net_parse_ip :: "string \<Rightarrow> ip_addr option" where
  "net_parse_ip s =
     (case parse_addr s of None \<Rightarrow> None
      | Some (a, z) \<Rightarrow> if z = '''' then Some (to_net_ip a) else None)"

section \<open>Networks of package net\<close>

record ip_net =
  net_addr :: ip_addr
  net_ones :: nat
  net_bits :: nat

fun mask_addr :: "nat \<Rightarrow> ip_addr \<Rightarrow> ip_addr" where
  "mask_addr n (V4 w) = V4 (w AND NOT (mask (32 - n)))"
| "mask_addr n (V6 w) = V6 (w AND NOT (mask (128 - n)))"

text \<open>\<open>dtoi\<close>: decimal digits only, below \<open>0xFFFFFF\<close>.\<close>

definition dtoi :: "string \<Rightarrow> int option" where
  "dtoi s = (case parse_nat s of None \<Rightarrow> None | Some n \<Rightarrow> if n < 0xFFFFFF then Some n else None)"

definition parse_cidr :: "string \<Rightarrow> (ip_addr \<times> ip_net) option" where
  "parse_cidr s =
     (case str_cut (CHR ''/'') s of
        None \<Rightarrow> None
      | Some (addr, m) \<Rightarrow>
          (case parse_addr addr of
             None \<Rightarrow> None
           | Some (a, z) \<Rightarrow>
               if z \<noteq> '''' then None
               else case dtoi m of
                 None \<Rightarrow> None
               | Some n \<Rightarrow>
                   if int (bit_len a) < n then None
                   else Some (to_net_ip a,
                     \<lparr>net_addr = mask_addr (nat n) a, net_ones = nat n, net_bits = bit_len a\<rparr>)))"

definition same_net :: "nat \<Rightarrow> 'a::len word \<Rightarrow> 'a word \<Rightarrow> bool" where
  "same_net k a b \<longleftrightarrow> drop_bit k (a XOR b) = 0"

definition ipnet_contains :: "ip_net \<Rightarrow> ip_addr \<Rightarrow> bool" where
  "ipnet_contains n ip =
     (case (to_net_ip (net_addr n), to_net_ip ip) of
        (V4 a, V4 b) \<Rightarrow>
          same_net (32 - (if net_bits n = 32 then net_ones n else net_ones n - 96)) a b
      | (V6 a, V6 b) \<Rightarrow> same_net (128 - net_ones n) a b
      | _ \<Rightarrow> False)"

section \<open>Prefixes of package net/netip\<close>

datatype prefix = Prefix (paddr: ip_addr) (pbits: nat)

fun prefix_masked :: "prefix \<Rightarrow> prefix" where
  "prefix_masked (Prefix a n) = Prefix (mask_addr n a) n"

fun prefix_contains :: "prefix \<Rightarrow> ip_addr \<Rightarrow> bool" where
  "prefix_contains (Prefix (V4 p) n) (V4 a) = same_net (32 - n) a p"
| "prefix_contains (Prefix (V6 p) n) (V6 a) = same_net (128 - n) a p"
| "prefix_contains _ _ = False"

text \<open>The text after the last \<open>/\<close>: \<open>netip.ParsePrefix\<close> splits at \<open>LastIndexByte\<close>.\<close>

definition cut_last :: "char \<Rightarrow> string \<Rightarrow> (string \<times> string) option" where
  "cut_last sep s =
     (case str_cut sep (rev s) of None \<Rightarrow> None | Some (b, a) \<Rightarrow> Some (rev a, rev b))"

definition netip_parse_prefix :: "string \<Rightarrow> prefix option" where
  "netip_parse_prefix s =
     (case cut_last (CHR ''/'') s of
        None \<Rightarrow> None
      | Some (addr, bs) \<Rightarrow>
          (case parse_addr addr of
             None \<Rightarrow> None
           | Some (a, z) \<Rightarrow>
               if z \<noteq> '''' then None
               else if 1 < length bs \<and> \<not> (49 \<le> (of_char (hd bs) :: int) \<and> (of_char (hd bs) :: int) \<le> 57)
               then None
               else case atoi bs of
                 None \<Rightarrow> None
               | Some n \<Rightarrow> if n < 0 \<or> int (bit_len a) < n then None else Some (Prefix a (nat n))))"

section \<open>Printing\<close>

definition v4_str :: "int \<Rightarrow> string" where
  "v4_str n = join ''.'' (map dec_str [n div 16777216 mod 256, n div 65536 mod 256, n div 256 mod 256, n mod 256])"

definition hex_char :: "int \<Rightarrow> char" where
  "hex_char d = (if d < 10 then char_of (48 + d) else char_of (87 + d))"

function hex_str :: "int \<Rightarrow> string" where
  "hex_str n = (if n < 16 then [hex_char n] else hex_str (n div 16) @ [hex_char (n mod 16)])"
  by pat_completeness auto
termination
  by (relation "measure nat") auto

declare hex_str.simps [simp del]

definition v6_groups :: "int \<Rightarrow> int list" where
  "v6_groups n = map (\<lambda>i. n div 65536 ^ i mod 65536) (rev [0..<8])"

text \<open>The longest run of at least two zero groups, the first of the longest: (start, end).\<close>

definition zero_run_from :: "int list \<Rightarrow> nat \<Rightarrow> nat" where
  "zero_run_from gs i = length (takeWhile (\<lambda>g. g = 0) (drop i gs))"

definition zero_run :: "int list \<Rightarrow> (nat \<times> nat) option" where
  "zero_run gs =
     foldl (\<lambda>best i. let l = zero_run_from gs i in
        if 2 \<le> l \<and> (case best of None \<Rightarrow> True | Some (a, b) \<Rightarrow> b - a < l) then Some (i, i + l) else best)
       None [0..<length gs]"

definition v6_str :: "int \<Rightarrow> string" where
  "v6_str n =
     (let gs = v6_groups n in
      case zero_run gs of
        None \<Rightarrow> join '':'' (map hex_str gs)
      | Some (a, b) \<Rightarrow> join '':'' (map hex_str (take a gs)) @ ''::'' @ join '':'' (map hex_str (drop b gs)))"

fun addr_str :: "ip_addr \<Rightarrow> string" where
  "addr_str (V4 w) = v4_str (uint w)"
| "addr_str (V6 w) =
     (if is4in6 (V6 w) then ''::ffff:'' @ v4_str (uint (take_bit 32 w)) else v6_str (uint w))"

definition net_ip_str :: "ip_addr \<Rightarrow> string" where
  "net_ip_str a = addr_str (to_net_ip a)"

fun prefix_str :: "prefix \<Rightarrow> string" where
  "prefix_str (Prefix a n) = addr_str a @ ''/'' @ itoa (int n)"

section \<open>The order of prefixes\<close>

text \<open>
  The sort key of \<open>policy.ParsePrefixes\<close>: address length, then address, then prefix length. It
  is injective, so it makes prefixes a linear order and the library's \<^const>\<open>sort\<close> applies.
\<close>

fun addr_val :: "ip_addr \<Rightarrow> int" where
  "addr_val (V4 w) = uint w"
| "addr_val (V6 w) = uint w"

definition prefix_key :: "prefix \<Rightarrow> nat \<times> int \<times> nat" where
  "prefix_key p = (bit_len (paddr p), addr_val (paddr p), pbits p)"

lemma addr_val_inj: "bit_len a = bit_len b \<Longrightarrow> addr_val a = addr_val b \<Longrightarrow> a = b"
  by (cases a; cases b) (auto simp: word_uint_eq_iff)

lemma prefix_key_inj: "prefix_key p = prefix_key q \<Longrightarrow> p = q"
  by (cases p; cases q) (auto simp: prefix_key_def intro: addr_val_inj)

instantiation prefix :: linorder
begin

definition less_eq_prefix :: "prefix \<Rightarrow> prefix \<Rightarrow> bool" where
  "less_eq_prefix p q \<longleftrightarrow> prefix_key p \<le> prefix_key q"

definition less_prefix :: "prefix \<Rightarrow> prefix \<Rightarrow> bool" where
  "less_prefix p q \<longleftrightarrow> prefix_key p < prefix_key q"

instance
  by standard (auto simp: less_eq_prefix_def less_prefix_def intro: prefix_key_inj)

end

section \<open>Prefixes as sets of addresses\<close>

lemma same_net_iff: "same_net k a b \<longleftrightarrow> drop_bit k a = drop_bit k b"
  by (auto simp: same_net_def bit_eq_iff bit_simps)

lemma same_net_refl [simp]: "same_net k a a"
  by (simp add: same_net_iff)

lemma same_net_sym: "same_net k a b \<longleftrightarrow> same_net k b a"
  by (auto simp: same_net_iff)

lemma same_net_trans: "same_net k a b \<Longrightarrow> same_net k b c \<Longrightarrow> same_net k a c"
  by (simp add: same_net_iff)

lemma same_net_mono: "j \<le> k \<Longrightarrow> same_net j a b \<Longrightarrow> same_net k a b"
proof -
  assume "j \<le> k"
  then obtain d where "k = d + j" using le_Suc_ex by (metis add.commute)
  then show "same_net j a b \<Longrightarrow> same_net k a b"
    by (simp add: same_net_iff flip: drop_bit_drop_bit)
qed

lemma same_net_nested: "same_net j x q \<Longrightarrow> same_net k q p \<Longrightarrow> j \<le> k \<Longrightarrow> same_net k x p"
  by (blast intro: same_net_trans same_net_mono)

lemma same_net_meet: "same_net k x p \<Longrightarrow> same_net j x q \<Longrightarrow> j \<le> k \<Longrightarrow> same_net k q p"
  by (metis same_net_mono same_net_sym same_net_trans)

lemma same_net_masked [simp]: "same_net k (a AND NOT (mask k)) b \<longleftrightarrow> same_net k a b"
  by (auto simp: same_net_iff bit_eq_iff bit_simps dest: bit_imp_le_length)

lemma same_net_masked_right [simp]: "same_net k b (a AND NOT (mask k)) \<longleftrightarrow> same_net k b a"
  by (subst (1 2) same_net_sym) (rule same_net_masked)

text \<open>Flipping the top host bit of a wider network leaves a narrower one.\<close>

lemma same_net_flip:
  fixes a :: "'a::len word"
  assumes "j < k" "k \<le> LENGTH('a)"
  shows "\<exists>b. same_net k a b \<and> \<not> same_net j a b"
proof -
  let ?b = "a XOR push_bit (k - 1) 1"
  have "same_net k a ?b"
    unfolding same_net_iff
  proof (rule bit_word_eqI)
    fix n
    from assms(1) have "k + n \<noteq> k - 1" by simp
    then show "bit (drop_bit k a) n = bit (drop_bit k ?b) n"
      by (auto simp: bit_drop_bit_eq bit_xor_iff bit_push_bit_iff bit_exp_iff)
  qed
  moreover have "\<not> same_net j a ?b"
  proof
    assume "same_net j a ?b"
    then have "bit (drop_bit j a) (k - 1 - j) = bit (drop_bit j ?b) (k - 1 - j)"
      by (simp add: same_net_iff)
    moreover from assms have "k - Suc 0 < LENGTH('a)" by simp
    ultimately show False using assms by (simp add: bit_simps)
  qed
  ultimately show ?thesis by blast
qed

definition addrs :: "prefix \<Rightarrow> ip_addr set" where
  "addrs p = {a. prefix_contains p a}"

definition wf_prefix :: "prefix \<Rightarrow> bool" where
  "wf_prefix p \<longleftrightarrow> pbits p \<le> bit_len (paddr p)"

definition canonical :: "prefix \<Rightarrow> bool" where
  "canonical p \<longleftrightarrow> wf_prefix p \<and> prefix_masked p = p"

lemma mask_addr_simps [simp]:
  "bit_len (mask_addr n a) = bit_len a" "is4 (mask_addr n a) = is4 a"
  by (cases a; simp)+

lemma mask_addr_idem [simp]: "mask_addr n (mask_addr n a) = mask_addr n a"
  by (cases a) (simp_all add: and.assoc)

lemma wf_prefix_masked [simp]: "wf_prefix (prefix_masked p) = wf_prefix p"
  by (cases p) (simp add: wf_prefix_def)

lemma canonical_masked [simp]: "wf_prefix p \<Longrightarrow> canonical (prefix_masked p)"
  by (cases p) (simp add: canonical_def wf_prefix_def)

lemma prefix_contains_self [simp]: "prefix_contains p (paddr p)"
  by (cases p; cases "paddr p") auto

lemma prefix_contains_masked [simp]: "prefix_contains (prefix_masked p) a = prefix_contains p a"
  by (cases p; cases "paddr p"; cases a) auto

lemma addrs_masked [simp]: "addrs (prefix_masked p) = addrs p"
  by (simp add: addrs_def)

lemma addrs_nonempty [simp]: "addrs p \<noteq> {}"
  unfolding addrs_def using prefix_contains_self by blast

lemma prefix_contains_family: "prefix_contains p a \<Longrightarrow> bit_len a = bit_len (paddr p)"
  by (cases p; cases "paddr p"; cases a) auto

lemma prefix_contains_family4: "prefix_contains p a \<Longrightarrow> is4 a = is4 (paddr p)"
  by (cases p; cases "paddr p"; cases a) auto

lemma contains_sub:
  "prefix_contains p (paddr q) \<Longrightarrow> pbits p \<le> pbits q \<Longrightarrow> addrs q \<subseteq> addrs p"
proof
  fix x assume pc: "prefix_contains p (paddr q)" and b: "pbits p \<le> pbits q" and "x \<in> addrs q"
  then have qx: "prefix_contains q x" by (simp add: addrs_def)
  obtain pa m qa n where [simp]: "p = Prefix pa m" "q = Prefix qa n" by (cases p; cases q)
  have "prefix_contains p x"
    using pc qx b by (cases pa; cases qa; cases x) (auto elim: same_net_nested)
  then show "x \<in> addrs p" by (simp add: addrs_def)
qed

lemma overlap_contains:
  "x \<in> addrs p \<Longrightarrow> x \<in> addrs q \<Longrightarrow> pbits p \<le> pbits q \<Longrightarrow> prefix_contains p (paddr q)"
proof -
  assume x: "x \<in> addrs p" "x \<in> addrs q" and b: "pbits p \<le> pbits q"
  obtain pa m qa n where [simp]: "p = Prefix pa m" "q = Prefix qa n" by (cases p; cases q)
  show ?thesis
    using x b by (cases pa; cases qa; cases x) (auto simp: addrs_def elim: same_net_meet)
qed

lemma laminar:
  "addrs p \<inter> addrs q \<noteq> {} \<Longrightarrow> addrs p \<subseteq> addrs q \<or> addrs q \<subseteq> addrs p"
proof -
  assume "addrs p \<inter> addrs q \<noteq> {}"
  then obtain x where "x \<in> addrs p" "x \<in> addrs q" by blast
  then show ?thesis
    using overlap_contains[of x p q] overlap_contains[of x q p] contains_sub[of p q] contains_sub[of q p]
    by (cases "pbits p \<le> pbits q") auto
qed

lemma sub_bits:
  assumes "wf_prefix p" "wf_prefix q" "addrs q \<subseteq> addrs p"
  shows "pbits p \<le> pbits q"
proof (rule ccontr)
  assume n: "\<not> pbits p \<le> pbits q"
  obtain pa m qa n where [simp]: "p = Prefix pa m" "q = Prefix qa n" by (cases p; cases q)
  have sub: "prefix_contains q x \<Longrightarrow> prefix_contains p x" for x
    using assms(3) by (auto simp: addrs_def)
  have self: "prefix_contains p qa" using sub[of qa] prefix_contains_self[of q] by simp
  show False
  proof (cases qa)
    case (V4 w)
    with self obtain v where pa: "pa = V4 v" by (cases pa) auto
    have "32 - m < 32 - n" "32 - n \<le> LENGTH(32)"
      using n assms pa V4 by (auto simp: wf_prefix_def)
    then obtain b where b: "same_net (32 - n) w b" "\<not> same_net (32 - m) w b"
      using same_net_flip by blast
    then have "prefix_contains q (V4 b)" by (simp add: V4 same_net_sym)
    from sub[OF this] have "same_net (32 - m) b v" by (simp add: pa)
    moreover from self have "same_net (32 - m) w v" by (simp add: V4 pa)
    ultimately show False using b(2) by (simp add: same_net_iff)
  next
    case (V6 w)
    with self obtain v where pa: "pa = V6 v" by (cases pa) auto
    have "128 - m < 128 - n" "128 - n \<le> LENGTH(128)"
      using n assms pa V6 by (auto simp: wf_prefix_def)
    then obtain b where b: "same_net (128 - n) w b" "\<not> same_net (128 - m) w b"
      using same_net_flip by blast
    then have "prefix_contains q (V6 b)" by (simp add: V6 same_net_sym)
    from sub[OF this] have "same_net (128 - m) b v" by (simp add: pa)
    moreover from self have "same_net (128 - m) w v" by (simp add: V6 pa)
    ultimately show False using b(2) by (simp add: same_net_iff)
  qed
qed

section \<open>\<open>net.SplitHostPort\<close>\<close>

text \<open>The host and the port behind the last colon; a bracketed host keeps its colons.\<close>

definition split_host_port :: "string \<Rightarrow> (string \<times> string) option" where
  "split_host_port hp =
     (case cut_last (CHR '':'') hp of
        None \<Rightarrow> None
      | Some (before, port) \<Rightarrow>
          if hd hp = CHR ''['' then
            (case str_cut (CHR '']'') hp of
               None \<Rightarrow> None
             | Some (inner, after) \<Rightarrow>
                 if before = inner @ '']'' \<and> CHR ''['' \<notin> set (tl hp) \<and> CHR '']'' \<notin> set after
                 then Some (tl inner, port) else None)
          else if CHR '':'' \<in> set before \<or> CHR ''['' \<in> set hp \<or> CHR '']'' \<in> set hp then None
          else Some (before, port))"

lemma split_host_port_checks:
  "split_host_port ''vpn.example.com:51820'' = Some (''vpn.example.com'', ''51820'')"
  "split_host_port ''[2001:db8::1]:51820'' = Some (''2001:db8::1'', ''51820'')"
  "split_host_port ''2001:db8::1:51820'' = None"
  "split_host_port ''vpn.example.com'' = None"
  "split_host_port ''[::1]x:1'' = None"
  "split_host_port ''[::1]'' = None"
  "split_host_port '':1'' = Some ('''', ''1'')"
  by code_simp+

end
