(* ===== verification/WifiAutomation.thy ===== *)
theory WifiAutomation
  imports GoNet
begin

text \<open>
  The per-tunnel rule engine of \<open>internal/wifi/automation.go\<close>: conditions, rules, their
  validation, matching against a network context, the control evaluation (\<open>Evaluate\<close>,
  \<open>EvaluatePolicy\<close>), the marking evaluation of the editor (\<open>EvaluateDetail\<close>,
  \<open>EvaluatePolicyDetail\<close>) and the migration \<open>Normalize\<close>. Go maps are association lists;
  \<open>time.Now()\<close>, which \<open>timeMatches\<close> falls back to, is the field \<open>nc_wall\<close> of the context.
\<close>

section \<open>Data\<close>

type_synonym action = string

abbreviation ActionConnect :: action where "ActionConnect \<equiv> ''connect''"
abbreviation ActionDisconnect :: action where "ActionDisconnect \<equiv> ''disconnect''"

abbreviation CondSSID :: string where "CondSSID \<equiv> ''ssid''"
abbreviation CondWiFi :: string where "CondWiFi \<equiv> ''wifi''"
abbreviation CondSubnet :: string where "CondSubnet \<equiv> ''subnet''"
abbreviation CondNetwork :: string where "CondNetwork \<equiv> ''network''"
abbreviation CondGatewayIP :: string where "CondGatewayIP \<equiv> ''gateway_ip''"
abbreviation CondInterface :: string where "CondInterface \<equiv> ''interface''"
abbreviation CondEthernet :: string where "CondEthernet \<equiv> ''ethernet''"
abbreviation CondTime :: string where "CondTime \<equiv> ''time''"
abbreviation CondNoneMatch :: string where "CondNoneMatch \<equiv> ''none_match''"

record condition =
  c_type :: string
  c_ssid :: string
  c_subnet :: string
  c_gateway_mac :: string
  c_gateway_ip :: string
  c_interface :: string
  c_start :: string
  c_end :: string
  c_days :: "int list"
  c_label :: string

definition cond0 :: condition where
  "cond0 = \<lparr>c_type = '''', c_ssid = '''', c_subnet = '''', c_gateway_mac = '''', c_gateway_ip = '''',
     c_interface = '''', c_start = '''', c_end = '''', c_days = [], c_label = ''''\<rparr>"

record rule =
  r_when :: "condition list"
  r_match :: string
  r_do :: action

record automation =
  a_defaults :: "(string \<times> action) list"
  a_per_tunnel :: "(string \<times> rule list) list"

record iface_info =
  if_name :: string
  if_is_wifi :: bool
  if_active :: bool
  if_type :: string

text \<open>A local wall-clock reading: weekday (0 = Sunday), hour, minute.\<close>

record clock =
  ck_weekday :: int
  ck_hour :: int
  ck_minute :: int

record network_context =
  nc_ssid :: string
  nc_ips :: "ip_addr list"
  nc_gw_mac :: string
  nc_gw_ip :: string
  nc_ifaces :: "iface_info list"
  nc_now :: "clock option"
  nc_wall :: clock

definition SSIDUndecidable :: "network_context \<Rightarrow> bool" where
  "SSIDUndecidable ctx =
     (if nc_ssid ctx \<noteq> '''' then False
      else list_ex (\<lambda>i. if_is_wifi i \<and> if_active i) (nc_ifaces ctx))"

definition RulesReferenceSSID :: "rule list \<Rightarrow> bool" where
  "RulesReferenceSSID rules =
     list_ex (\<lambda>r. list_ex (\<lambda>c. c_type c = CondSSID \<or> c_type c = CondWiFi) (r_when r)) rules"

definition DefaultAutomation :: automation where
  "DefaultAutomation = \<lparr>a_defaults = [], a_per_tunnel = []\<rparr>"

datatype desired_state = StateUnmanaged | StateConnect | StateDisconnect

text \<open>The pair (state, ok) of the source is an option.\<close>

definition actionState :: "action \<Rightarrow> desired_state option" where
  "actionState a =
     (if a = ActionConnect then Some StateConnect
      else if a = ActionDisconnect then Some StateDisconnect
      else None)"

section \<open>Clocks, MACs\<close>

text \<open>\<open>parseClock\<close>: minutes since midnight, \<open>-1\<close> for the empty string, \<open>None\<close> for an error.\<close>

definition parseClock :: "string \<Rightarrow> int option" where
  "parseClock s0 =
     (let s = trim_space s0 in
      if s = '''' then Some (- 1)
      else case str_cut (CHR '':'') s of
        None \<Rightarrow> None
      | Some (hs, ms) \<Rightarrow>
          (case (atoi hs, atoi ms) of
             (Some h, Some m) \<Rightarrow>
               if h < 0 \<or> 23 < h \<or> m < 0 \<or> 59 < m then None else Some (h * 60 + m)
           | _ \<Rightarrow> None))"

definition timeMatches :: "condition \<Rightarrow> clock option \<Rightarrow> clock \<Rightarrow> bool" where
  "timeMatches c injected wall =
     (let now = (case injected of None \<Rightarrow> wall | Some t \<Rightarrow> t) in
      if c_days c \<noteq> [] \<and> \<not> List.member (c_days c) (ck_weekday now) then False
      else case (parseClock (c_start c), parseClock (c_end c)) of
        (Some start0, Some end0) \<Rightarrow>
          if start0 < 0 \<and> end0 < 0 then True
          else let st = (if start0 < 0 then 0 else start0);
                   en = (if end0 < 0 then 24 * 60 else end0);
                   mins = ck_hour now * 60 + ck_minute now in
            if st \<le> en then st \<le> mins \<and> mins < en
            else st \<le> mins \<or> mins < en
      | _ \<Rightarrow> False)"

fun mac_digits :: "string \<Rightarrow> string" where
  "mac_digits [] = []"
| "mac_digits (c # s) =
     (let n = of_char c :: int in
      if (48 \<le> n \<and> n \<le> 57) \<or> (97 \<le> n \<and> n \<le> 102) then c # mac_digits s
      else if 65 \<le> n \<and> n \<le> 70 then char_of (n + 32) # mac_digits s
      else mac_digits s)"

definition canonicalMAC :: "string \<Rightarrow> string" where
  "canonicalMAC s = (let hex = mac_digits s in if length hex \<noteq> 12 then '''' else hex)"

section \<open>Validation\<close>

datatype cond_error =
    EmptySSID | BadSubnet string | BadGatewayMAC string | BadGatewayIP string | EmptyInterface
  | EmptyWindow | BadStart string | BadEnd string | BadDay int | UnknownCondType string

datatype rule_error =
    UnknownAction string | UnknownMatch string | NoConditions | CondError cond_error

definition validateTimeWindow :: "condition \<Rightarrow> cond_error option" where
  "validateTimeWindow c =
     (if trim_space (c_start c) = '''' \<and> trim_space (c_end c) = '''' \<and> c_days c = [] then Some EmptyWindow
      else if parseClock (c_start c) = None then Some (BadStart (c_start c))
      else if parseClock (c_end c) = None then Some (BadEnd (c_end c))
      else case List.find (\<lambda>d. d < 0 \<or> 6 < d) (c_days c) of
             None \<Rightarrow> None
           | Some d \<Rightarrow> Some (BadDay d))"

definition cond_validate :: "condition \<Rightarrow> cond_error option" where
  "cond_validate c =
     (if c_type c = CondSSID then
        (if trim_space (c_ssid c) = '''' then Some EmptySSID else None)
      else if c_type c = CondWiFi then None
      else if c_type c = CondSubnet then
        (if parse_cidr (trim_space (c_subnet c)) = None then Some (BadSubnet (c_subnet c)) else None)
      else if c_type c = CondNetwork then
        (if canonicalMAC (c_gateway_mac c) = '''' then Some (BadGatewayMAC (c_gateway_mac c)) else None)
      else if c_type c = CondGatewayIP then
        (if net_parse_ip (trim_space (c_gateway_ip c)) = None then Some (BadGatewayIP (c_gateway_ip c))
         else None)
      else if c_type c = CondInterface then
        (if trim_space (c_interface c) = '''' then Some EmptyInterface else None)
      else if c_type c = CondEthernet then None
      else if c_type c = CondTime then validateTimeWindow c
      else if c_type c = CondNoneMatch then None
      else Some (UnknownCondType (c_type c)))"

fun first_error :: "('a \<Rightarrow> 'e option) \<Rightarrow> 'a list \<Rightarrow> 'e option" where
  "first_error f [] = None"
| "first_error f (x # xs) = (case f x of None \<Rightarrow> first_error f xs | Some e \<Rightarrow> Some e)"

definition rule_validate :: "rule \<Rightarrow> rule_error option" where
  "rule_validate r =
     (if actionState (r_do r) = None then Some (UnknownAction (r_do r))
      else if r_match r \<noteq> '''' \<and> r_match r \<noteq> ''all'' then Some (UnknownMatch (r_match r))
      else if r_when r = [] then Some NoConditions
      else map_option CondError (first_error cond_validate (r_when r)))"

section \<open>Matching\<close>

definition ssidEqual :: "string \<Rightarrow> string \<Rightarrow> bool" where
  "ssidEqual a b \<longleftrightarrow> a = b"

definition conditionMatches :: "condition \<Rightarrow> network_context \<Rightarrow> bool" where
  "conditionMatches c ctx =
     (if c_type c = CondSSID then nc_ssid ctx \<noteq> '''' \<and> ssidEqual (c_ssid c) (nc_ssid ctx)
      else if c_type c = CondWiFi then nc_ssid ctx \<noteq> ''''
      else if c_type c = CondSubnet then
        (case parse_cidr (trim_space (c_subnet c)) of
           None \<Rightarrow> False
         | Some (_, network) \<Rightarrow> list_ex (ipnet_contains network) (nc_ips ctx))
      else if c_type c = CondNetwork then
        (let want = canonicalMAC (c_gateway_mac c); got = canonicalMAC (nc_gw_mac ctx)
         in want \<noteq> '''' \<and> want = got)
      else if c_type c = CondGatewayIP then
        (case (net_parse_ip (trim_space (c_gateway_ip c)), net_parse_ip (nc_gw_ip ctx)) of
           (Some want, Some got) \<Rightarrow> net_ip_equal want got
         | _ \<Rightarrow> False)
      else if c_type c = CondInterface then
        (let want = trim_space (c_interface c) in
         if want = '''' then False
         else list_ex (\<lambda>i. equal_fold (if_name i) want) (nc_ifaces ctx))
      else if c_type c = CondEthernet then list_ex (\<lambda>i. \<not> if_is_wifi i) (nc_ifaces ctx)
      else if c_type c = CondTime then timeMatches c (nc_now ctx) (nc_wall ctx)
      else False)"

definition ruleMatchesCond :: "condition \<Rightarrow> network_context \<Rightarrow> bool" where
  "ruleMatchesCond c ctx = (if c_type c = CondNoneMatch then True else conditionMatches c ctx)"

definition rule_matches :: "rule \<Rightarrow> network_context \<Rightarrow> bool" where
  "rule_matches r ctx =
     (if r_when r = [] then False else list_all (\<lambda>c. ruleMatchesCond c ctx) (r_when r))"

section \<open>Evaluation\<close>

text \<open>The loop of \<open>Evaluate\<close> over the pair \<open>(state, selected)\<close>; it walks every rule.\<close>

fun evaluate_loop :: "network_context \<Rightarrow> desired_state \<Rightarrow> bool \<Rightarrow> rule list \<Rightarrow> desired_state" where
  "evaluate_loop ctx st sel [] = st"
| "evaluate_loop ctx st sel (r # rs) =
     (if rule_validate r \<noteq> None then evaluate_loop ctx st sel rs
      else if \<not> sel \<and> rule_matches r ctx then
        evaluate_loop ctx (case actionState (r_do r) of None \<Rightarrow> StateUnmanaged | Some s \<Rightarrow> s) True rs
      else evaluate_loop ctx st sel rs)"

definition Evaluate :: "rule list \<Rightarrow> network_context \<Rightarrow> desired_state" where
  "Evaluate rules ctx = evaluate_loop ctx StateUnmanaged False rules"

text \<open>The switch on the Default State shared by the two policy entry points.\<close>

definition apply_default :: "action \<Rightarrow> desired_state \<Rightarrow> desired_state" where
  "apply_default def st =
     (if st = StateUnmanaged then
        (if def = ActionConnect then StateConnect
         else if def = ActionDisconnect then StateDisconnect else st)
      else st)"

definition EvaluatePolicy :: "rule list \<Rightarrow> action \<Rightarrow> network_context \<Rightarrow> desired_state" where
  "EvaluatePolicy rules def ctx = apply_default def (Evaluate rules ctx)"

record cond_detail =
  cd_type :: string
  cd_value :: string
  cd_matched :: bool

record rule_detail =
  rd_do :: action
  rd_match_all :: bool
  rd_matched :: bool
  rd_conditions :: "cond_detail list"

text \<open>The UTF-8 bytes of the separators of \<open>conditionValue\<close>.\<close>

definition le_utf8 :: string where "le_utf8 = [CHR 0xE2, CHR 0x89, CHR 0xA4]"
definition endash_utf8 :: string where "endash_utf8 = [CHR 0xE2, CHR 0x80, CHR 0x93]"

definition conditionValue :: "condition \<Rightarrow> string" where
  "conditionValue c =
     (if c_type c = CondSSID then c_ssid c
      else if c_type c = CondSubnet then c_subnet c
      else if c_type c = CondNetwork then c_gateway_mac c
      else if c_type c = CondGatewayIP then c_gateway_ip c
      else if c_type c = CondInterface then c_interface c
      else if c_type c = CondTime then
        (if c_start c = '''' \<and> c_end c = '''' then ''day-of-week''
         else if c_start c = '''' then le_utf8 @ '' '' @ c_end c
         else if c_end c = '''' then c_start c @ '' '' @ le_utf8
         else c_start c @ endash_utf8 @ c_end c)
      else '''')"

definition rule_detail_of :: "network_context \<Rightarrow> rule \<Rightarrow> rule_detail" where
  "rule_detail_of ctx r =
     (if rule_validate r = None then
        \<lparr>rd_do = r_do r, rd_match_all = True, rd_matched = rule_matches r ctx,
         rd_conditions = map (\<lambda>c. \<lparr>cd_type = c_type c, cd_value = conditionValue c,
                                   cd_matched = ruleMatchesCond c ctx\<rparr>) (r_when r)\<rparr>
      else \<lparr>rd_do = r_do r, rd_match_all = True, rd_matched = False, rd_conditions = []\<rparr>)"

fun evaluate_detail_loop ::
    "network_context \<Rightarrow> desired_state \<Rightarrow> rule_detail list \<Rightarrow> rule list \<Rightarrow> desired_state \<times> rule_detail list"
where
  "evaluate_detail_loop ctx st ds [] = (st, ds)"
| "evaluate_detail_loop ctx st ds (r # rs) =
     (let d = rule_detail_of ctx r;
          st' = (if rd_matched d \<and> st = StateUnmanaged
                 then (case actionState (r_do r) of None \<Rightarrow> st | Some s \<Rightarrow> s) else st)
      in evaluate_detail_loop ctx st' (ds @ [d]) rs)"

definition EvaluateDetail :: "rule list \<Rightarrow> network_context \<Rightarrow> desired_state \<times> rule_detail list" where
  "EvaluateDetail rules ctx = evaluate_detail_loop ctx StateUnmanaged [] rules"

definition EvaluatePolicyDetail ::
    "rule list \<Rightarrow> action \<Rightarrow> network_context \<Rightarrow> desired_state \<times> rule_detail list" where
  "EvaluatePolicyDetail rules def ctx =
     (let (st, ds) = EvaluateDetail rules ctx in (apply_default def st, ds))"

section \<open>Migration\<close>

text \<open>The first well-formed rule that is a lone \<open>none_match\<close>: its index and its action.\<close>

definition is_otherwise :: "rule \<Rightarrow> bool" where
  "is_otherwise r \<longleftrightarrow> rule_validate r = None \<and> length (r_when r) = 1 \<and> c_type (hd (r_when r)) = CondNoneMatch"

fun otherwise_cut :: "rule list \<Rightarrow> rule list \<times> action" where
  "otherwise_cut [] = ([], '''')"
| "otherwise_cut (r # rs) =
     (if is_otherwise r then ([], r_do r)
      else let (kept, def) = otherwise_cut rs in (r # kept, def))"

text \<open>One turn of the \<open>range a.PerTunnel\<close> loop, on the maps it updates.\<close>

definition normalize_entry :: "automation \<Rightarrow> string \<times> rule list \<Rightarrow> automation" where
  "normalize_entry a nr =
     (let (name, rules) = nr in
      if rules = [] then a
      else let (kept, def) = otherwise_cut rules;
               a1 = (if length kept < length rules
                     then a\<lparr>a_per_tunnel := AList.update name kept (a_per_tunnel a)\<rparr> else a)
           in if map_of (a_defaults a1) name \<noteq> None then a1
              else a1\<lparr>a_defaults := AList.update name
                        (if def \<noteq> ActionConnect \<and> def \<noteq> ActionDisconnect then ActionDisconnect else def)
                        (a_defaults a1)\<rparr>)"

definition Normalize :: "automation \<Rightarrow> automation" where
  "Normalize a = foldl normalize_entry a (a_per_tunnel a)"

section \<open>Names\<close>

definition PolicyTunnelNames :: "automation option \<Rightarrow> string list" where
  "PolicyTunnelNames oa =
     (case oa of None \<Rightarrow> []
      | Some a \<Rightarrow> sort (dedup (map fst (a_per_tunnel a) @ map fst (a_defaults a))))"

definition TunnelNames :: "automation \<Rightarrow> string list" where
  "TunnelNames a = sort (map fst (a_per_tunnel a))"

section \<open>First match wins\<close>

text \<open>A rule fires when it is well-formed and all its conditions hold.\<close>

definition fires :: "network_context \<Rightarrow> rule \<Rightarrow> bool" where
  "fires ctx r \<longleftrightarrow> rule_validate r = None \<and> rule_matches r ctx"

definition action_of :: "rule \<Rightarrow> desired_state" where
  "action_of r = (case actionState (r_do r) of None \<Rightarrow> StateUnmanaged | Some s \<Rightarrow> s)"

definition first_match :: "network_context \<Rightarrow> rule list \<Rightarrow> desired_state" where
  "first_match ctx rules =
     (case List.find (fires ctx) rules of None \<Rightarrow> StateUnmanaged | Some r \<Rightarrow> action_of r)"

lemma actionState_Some [simp]: "actionState a \<noteq> Some StateUnmanaged"
  by (simp add: actionState_def)

lemma valid_action: "rule_validate r = None \<Longrightarrow> \<exists>s. actionState (r_do r) = Some s \<and> s \<noteq> StateUnmanaged"
  by (auto simp: rule_validate_def actionState_def split: if_splits)

lemma fires_action: "fires ctx r \<Longrightarrow> action_of r \<noteq> StateUnmanaged"
  by (auto simp: fires_def action_of_def dest!: valid_action)

lemma evaluate_loop_selected: "evaluate_loop ctx st True rs = st"
  by (induction rs) auto

lemma evaluate_loop_first_match: "evaluate_loop ctx StateUnmanaged False rs = first_match ctx rs"
  by (induction rs) (auto simp: first_match_def fires_def action_of_def evaluate_loop_selected)

lemma Evaluate_eq: "Evaluate rules ctx = first_match ctx rules"
  by (simp add: Evaluate_def evaluate_loop_first_match)

lemma rd_matched_iff [simp]: "rd_matched (rule_detail_of ctx r) \<longleftrightarrow> fires ctx r"
  by (simp add: rule_detail_of_def fires_def)

lemma detail_loop_details: "snd (evaluate_detail_loop ctx st ds rs) = ds @ map (rule_detail_of ctx) rs"
  by (induction rs arbitrary: st ds) (auto simp: Let_def)

lemma detail_loop_decided: "st \<noteq> StateUnmanaged \<Longrightarrow> fst (evaluate_detail_loop ctx st ds rs) = st"
  by (induction rs arbitrary: ds) (auto simp: Let_def)

lemma detail_loop_state: "fst (evaluate_detail_loop ctx StateUnmanaged ds rs) = first_match ctx rs"
proof (induction rs arbitrary: ds)
  case Nil
  then show ?case by (simp add: first_match_def)
next
  case (Cons r rs)
  show ?case
  proof (cases "fires ctx r")
    case True
    then obtain s where "actionState (r_do r) = Some s" "s \<noteq> StateUnmanaged"
      using valid_action by (auto simp: fires_def)
    with True show ?thesis
      by (simp add: Let_def first_match_def action_of_def detail_loop_decided)
  next
    case False
    with Cons show ?thesis by (simp add: Let_def first_match_def)
  qed
qed

lemma EvaluateDetail_eq:
  "EvaluateDetail rules ctx = (first_match ctx rules, map (rule_detail_of ctx) rules)"
  by (rule prod_eqI) (simp_all add: EvaluateDetail_def detail_loop_state detail_loop_details)

lemma EvaluatePolicyDetail_eq:
  "EvaluatePolicyDetail rules def ctx =
     (apply_default def (first_match ctx rules), map (rule_detail_of ctx) rules)"
  by (simp add: EvaluatePolicyDetail_def EvaluateDetail_eq)

lemma find_append_first:
  "List.find P (xs @ ys) = (case List.find P xs of None \<Rightarrow> List.find P ys | Some x \<Rightarrow> Some x)"
  by (induction xs) auto

lemma first_match_append:
  "first_match ctx (xs @ ys) =
     (if first_match ctx xs = StateUnmanaged then first_match ctx ys else first_match ctx xs)"
proof (cases "List.find (fires ctx) xs")
  case (Some r)
  then have "fires ctx r" by (auto simp: find_Some_iff)
  with Some show ?thesis by (simp add: first_match_def find_append_first fires_action)
qed (simp add: first_match_def find_append_first)

section \<open>Rules that do not look at the SSID\<close>

lemma conditionMatches_ssid_irrelevant:
  "c_type c \<noteq> CondSSID \<Longrightarrow> c_type c \<noteq> CondWiFi \<Longrightarrow>
     conditionMatches c (ctx\<lparr>nc_ssid := s\<rparr>) = conditionMatches c ctx"
  by (simp add: conditionMatches_def split: option.splits)

lemma ruleMatchesCond_ssid_irrelevant:
  "c_type c \<noteq> CondSSID \<Longrightarrow> c_type c \<noteq> CondWiFi \<Longrightarrow>
     ruleMatchesCond c (ctx\<lparr>nc_ssid := s\<rparr>) = ruleMatchesCond c ctx"
  by (simp add: ruleMatchesCond_def conditionMatches_ssid_irrelevant)

lemma first_match_ssid_irrelevant:
  "\<not> RulesReferenceSSID rules \<Longrightarrow> first_match (ctx\<lparr>nc_ssid := s\<rparr>) rules = first_match ctx rules"
proof (induction rules)
  case (Cons r rs)
  then have "\<forall>c \<in> set (r_when r). c_type c \<noteq> CondSSID \<and> c_type c \<noteq> CondWiFi"
    by (auto simp: RulesReferenceSSID_def list_ex_iff)
  then have "list_all (\<lambda>c. ruleMatchesCond c (ctx\<lparr>nc_ssid := s\<rparr>)) (r_when r)
      = list_all (\<lambda>c. ruleMatchesCond c ctx) (r_when r)"
    by (intro list.pred_cong refl ruleMatchesCond_ssid_irrelevant) auto
  then have "fires (ctx\<lparr>nc_ssid := s\<rparr>) r = fires ctx r"
    by (simp add: fires_def rule_matches_def)
  with Cons show ?case by (auto simp: first_match_def RulesReferenceSSID_def)
qed (simp add: first_match_def)

section \<open>Clock windows and MAC addresses\<close>

lemma parseClock_range: "parseClock s = Some m \<Longrightarrow> m = - 1 \<or> (0 \<le> m \<and> m < 24 * 60)"
  by (auto simp: parseClock_def Let_def split: if_splits option.splits)

lemma mac_digits_hex: "c \<in> set (mac_digits s) \<Longrightarrow> c \<in> set ''0123456789abcdef''"
proof (induction s)
  case (Cons d s)
  let ?n = "of_char d :: int"
  have dec: "c \<in> set ''0123456789abcdef''" if "(48 \<le> k \<and> k \<le> 57) \<or> (97 \<le> k \<and> k \<le> 102)" "c = char_of k" for k :: int
  proof -
    have "k \<in> set ([48..57] @ [97..102])" using that(1) by (simp only: set_append set_upto) auto
    moreover have "list_all (\<lambda>k::int. char_of k \<in> set ''0123456789abcdef'') ([48..57] @ [97..102])"
      by code_simp
    ultimately show ?thesis using that(2) by (simp only: list_all_iff)
  qed
  show ?case
  proof (cases "c \<in> set (mac_digits s)")
    case False
    then consider "c = d" "(48 \<le> ?n \<and> ?n \<le> 57) \<or> (97 \<le> ?n \<and> ?n \<le> 102)"
      | "c = char_of (?n + 32)" "65 \<le> ?n" "?n \<le> 70"
      using Cons.prems by (auto simp: Let_def split: if_splits)
    then show ?thesis
    proof cases
      case 1
      with dec[of ?n] show ?thesis by simp
    next
      case 2
      with dec[of "?n + 32"] show ?thesis by simp
    qed
  qed (use Cons.IH in simp)
qed simp

lemma mac_digits_id: "set s \<subseteq> set ''0123456789abcdef'' \<Longrightarrow> mac_digits s = s"
  by (induction s) (auto simp: Let_def)

section \<open>Migration lemmas\<close>

lemma otherwise_cut_prefix: "\<exists>rest. rules = fst (otherwise_cut rules) @ rest"
  by (induction rules) (auto split: prod.splits)

lemma otherwise_cut_none: "r \<in> set (fst (otherwise_cut rules)) \<Longrightarrow> \<not> is_otherwise r"
  by (induction rules) (auto split: prod.splits if_splits)

lemma otherwise_cut_id: "\<forall>r \<in> set rules. \<not> is_otherwise r \<Longrightarrow> otherwise_cut rules = (rules, '''')"
  by (induction rules) auto

lemma otherwise_cut_split:
  "otherwise_cut rules = (kept, def) \<Longrightarrow>
     (kept = rules \<and> def = '''') \<or>
     (\<exists>r rest. rules = kept @ r # rest \<and> is_otherwise r \<and> def = r_do r)"
proof (induction rules arbitrary: kept def)
  case (Cons r rs)
  show ?case
  proof (cases "is_otherwise r")
    case True
    with Cons.prems show ?thesis by auto
  next
    case False
    with Cons.prems obtain k where k: "otherwise_cut rs = (k, def)" "kept = r # k"
      by (auto split: prod.splits)
    from Cons.IH[OF k(1)] k(2) show ?thesis by auto
  qed
qed simp

lemma is_otherwise_fires: "is_otherwise r \<Longrightarrow> fires ctx r"
  by (cases "r_when r") (auto simp: is_otherwise_def fires_def rule_matches_def ruleMatchesCond_def)


text \<open>What \<open>Normalize\<close> leaves of a tunnel's rules, and the default it writes when there is none.\<close>

definition cut_rules :: "rule list \<Rightarrow> rule list" where
  "cut_rules rules = fst (otherwise_cut rules)"

definition migrated_default :: "rule list \<Rightarrow> action" where
  "migrated_default rules =
     (let def = snd (otherwise_cut rules) in
      if def \<noteq> ActionConnect \<and> def \<noteq> ActionDisconnect then ActionDisconnect else def)"

lemma cut_rules_Nil [simp]: "cut_rules [] = []"
  by (simp add: cut_rules_def)

lemma cut_rules_idem [simp]: "cut_rules (cut_rules rules) = cut_rules rules"
proof -
  have "otherwise_cut (fst (otherwise_cut rules)) = (fst (otherwise_cut rules), '''')"
    by (rule otherwise_cut_id) (auto dest: otherwise_cut_none)
  then show ?thesis by (simp add: cut_rules_def)
qed

lemma cut_rules_length: "\<not> length (cut_rules rules) < length rules \<longleftrightarrow> cut_rules rules = rules"
proof -
  obtain rest where "rules = cut_rules rules @ rest"
    using otherwise_cut_prefix[of rules] by (auto simp: cut_rules_def)
  then show ?thesis by (cases rest) (auto dest: arg_cong[of _ _ length])
qed

lemma normalize_entry_per_tunnel:
  "map_of (a_per_tunnel a) n = Some rules \<Longrightarrow>
     map_of (a_per_tunnel (normalize_entry a (n, rules))) = (map_of (a_per_tunnel a))(n \<mapsto> cut_rules rules)"
  using cut_rules_length[of rules]
  by (auto simp: normalize_entry_def Let_def cut_rules_def AList.update_conv' fun_eq_iff split: prod.splits)

lemma normalize_entry_defaults:
  "map_of (a_defaults (normalize_entry a (n, rules))) =
     (if rules = [] \<or> map_of (a_defaults a) n \<noteq> None then map_of (a_defaults a)
      else (map_of (a_defaults a))(n \<mapsto> migrated_default rules))"
  by (auto simp: normalize_entry_def migrated_default_def Let_def AList.update_conv' fun_eq_iff split: prod.splits)

lemma normalize_entry_keys:
  "n \<in> fst ` set (a_per_tunnel a) \<Longrightarrow>
     map fst (a_per_tunnel (normalize_entry a (n, rules))) = map fst (a_per_tunnel a)"
  by (auto simp: normalize_entry_def Let_def AList.update_keys split: prod.splits)

lemma normalize_fold:
  assumes "distinct (map fst xs)" "\<forall>(n, rules) \<in> set xs. map_of (a_per_tunnel a) n = Some rules"
  shows "map fst (a_per_tunnel (foldl normalize_entry a xs)) = map fst (a_per_tunnel a)"
    and "map_of (a_per_tunnel (foldl normalize_entry a xs)) n =
      (case map_of xs n of None \<Rightarrow> map_of (a_per_tunnel a) n | Some rules \<Rightarrow> Some (cut_rules rules))"
    and "map_of (a_defaults (foldl normalize_entry a xs)) n =
      (case map_of xs n of None \<Rightarrow> map_of (a_defaults a) n
       | Some rules \<Rightarrow> if rules = [] \<or> map_of (a_defaults a) n \<noteq> None then map_of (a_defaults a) n
                       else Some (migrated_default rules))"
  using assms
proof (induction xs arbitrary: a)
  case Nil
  { case 1 show ?case by simp next case 2 show ?case by simp next case 3 show ?case by simp }
next
  case (Cons x xs)
  obtain m rules where x: "x = (m, rules)" by (cases x)
  have look: "map_of (a_per_tunnel a) m = Some rules" if "\<forall>(n, rules) \<in> set (x # xs). map_of (a_per_tunnel a) n = Some rules" for a
    using that x by simp
  have fresh: "map_of xs m = None" if "distinct (map fst (x # xs))"
    using that x by (auto simp: map_of_eq_None_iff)
  have rest: "\<forall>(n, rules) \<in> set xs. map_of (a_per_tunnel (normalize_entry a x)) n = Some rules"
    if d: "distinct (map fst (x # xs))" and l: "\<forall>(n, rules) \<in> set (x # xs). map_of (a_per_tunnel a) n = Some rules" for a
  proof clarify
    fix n' r' assume n': "(n', r') \<in> set xs"
    then have "n' \<noteq> m" using d x by force
    then show "map_of (a_per_tunnel (normalize_entry a x)) n' = Some r'"
      using l n' normalize_entry_per_tunnel[of a m rules] x by auto
  qed
  { case 1
    have "m \<in> fst ` set (a_per_tunnel a)" using look[OF 1(2)] by (force dest: map_of_SomeD)
    with 1 Cons.IH(1)[of "normalize_entry a x"] rest[OF 1] show ?case
      by (simp add: x normalize_entry_keys)
  next
    case 2
    with Cons.IH(2)[of "normalize_entry a x"] rest[OF 2] look[OF 2(2)] fresh[OF 2(1)] show ?case
      by (auto simp: x normalize_entry_per_tunnel split: option.splits)
  next
    case 3
    with Cons.IH(3)[of "normalize_entry a x"] rest[OF 3] fresh[OF 3(1)] show ?case
      by (auto simp: x normalize_entry_defaults split: option.splits)
  }
qed

lemma Normalize_lookup:
  assumes "distinct (map fst (a_per_tunnel a))"
  shows "map fst (a_per_tunnel (Normalize a)) = map fst (a_per_tunnel a)"
    and "map_of (a_per_tunnel (Normalize a)) n = map_option cut_rules (map_of (a_per_tunnel a) n)"
    and "map_of (a_defaults (Normalize a)) n =
      (case map_of (a_per_tunnel a) n of None \<Rightarrow> map_of (a_defaults a) n
       | Some rules \<Rightarrow> if rules = [] \<or> map_of (a_defaults a) n \<noteq> None then map_of (a_defaults a) n
                       else Some (migrated_default rules))"
proof -
  have "\<forall>(n, rules) \<in> set (a_per_tunnel a). map_of (a_per_tunnel a) n = Some rules"
    using assms by auto
  note f = normalize_fold[OF assms this]
  show "map fst (a_per_tunnel (Normalize a)) = map fst (a_per_tunnel a)"
    unfolding Normalize_def by (rule f(1))
  show "map_of (a_per_tunnel (Normalize a)) n = map_option cut_rules (map_of (a_per_tunnel a) n)"
    unfolding Normalize_def using f(2)[of n] by (auto split: option.splits)
  show "map_of (a_defaults (Normalize a)) n =
      (case map_of (a_per_tunnel a) n of None \<Rightarrow> map_of (a_defaults a) n
       | Some rules \<Rightarrow> if rules = [] \<or> map_of (a_defaults a) n \<noteq> None then map_of (a_defaults a) n
                       else Some (migrated_default rules))"
    unfolding Normalize_def by (rule f(3))
qed

text \<open>An entry \<open>Normalize\<close> would not change.\<close>

definition settled :: "automation \<Rightarrow> string \<times> rule list \<Rightarrow> bool" where
  "settled a nr \<longleftrightarrow> snd nr = [] \<or> (cut_rules (snd nr) = snd nr \<and> map_of (a_defaults a) (fst nr) \<noteq> None)"

lemma settled_entry: "settled a nr \<Longrightarrow> normalize_entry a nr = a"
  by (cases nr) (auto simp: settled_def normalize_entry_def cut_rules_def Let_def split: prod.splits)

lemma settled_fold: "\<forall>nr \<in> set xs. settled a nr \<Longrightarrow> foldl normalize_entry a xs = a"
  by (induction xs) (auto simp: settled_entry)

lemma Normalize_settled:
  assumes "distinct (map fst (a_per_tunnel a))" "nr \<in> set (a_per_tunnel (Normalize a))"
  shows "settled (Normalize a) nr"
proof -
  obtain n rs where nr: "nr = (n, rs)" by (cases nr)
  have "map_of (a_per_tunnel (Normalize a)) n = Some rs"
    using assms nr Normalize_lookup(1)[OF assms(1)] by simp
  then obtain rules where r: "map_of (a_per_tunnel a) n = Some rules" "rs = cut_rules rules"
    using Normalize_lookup(2)[OF assms(1), of n] by auto
  then show ?thesis
    using Normalize_lookup(3)[OF assms(1), of n] by (auto simp: settled_def nr)
qed

section \<open>Properties\<close>

text \<open>The control evaluation picks the first well-formed rule whose conditions all hold, and
  nothing else: \<open>Evaluate\<close> is \<open>find\<close> on the ordered list, whatever comes behind the first match.\<close>

theorem evaluate_first_match:
  "Evaluate rules ctx =
     (case List.find (\<lambda>r. rule_validate r = None \<and> rule_matches r ctx) rules of
        None \<Rightarrow> StateUnmanaged
      | Some r \<Rightarrow> if r_do r = ActionConnect then StateConnect else StateDisconnect)"
proof -
  have f: "(\<lambda>r. rule_validate r = None \<and> rule_matches r ctx) = fires ctx"
    by (rule ext) (simp add: fires_def)
  have a: "action_of r = (if r_do r = ActionConnect then StateConnect else StateDisconnect)" if "fires ctx r" for r
    using that by (auto simp: fires_def action_of_def actionState_def rule_validate_def split: if_splits)
  show ?thesis
  proof (cases "List.find (fires ctx) rules")
    case (Some r)
    then have "fires ctx r" by (auto simp: find_Some_iff)
    with Some show ?thesis by (simp add: f Evaluate_eq first_match_def a)
  qed (simp add: f Evaluate_eq first_match_def)
qed

text \<open>The editor's marking path never disagrees with the control path: the state
  \<open>EvaluatePolicyDetail\<close> reports is the one \<open>EvaluatePolicy\<close> enforces, and it reports every rule,
  shadowed ones included, as matched exactly when the rule is well-formed and all its conditions
  hold.\<close>

theorem marking_agrees_with_control:
  "fst (EvaluatePolicyDetail rules def ctx) = EvaluatePolicy rules def ctx \<and>
   map rd_matched (snd (EvaluatePolicyDetail rules def ctx)) =
     map (\<lambda>r. rule_validate r = None \<and> rule_matches r ctx) rules"
  by (simp add: EvaluatePolicyDetail_eq EvaluatePolicy_def Evaluate_eq o_def fires_def)

text \<open>C30: The migration keeps what automation decides. For a tunnel with no explicit default, the
  rules \<open>Normalize\<close> keeps together with the Default State it writes decide, on every network,
  what the old list decided whenever that list had a well-formed \<open>none_match\<close> rule; otherwise the
  rules are kept as they are and the default is the conservative disconnect.\<close>

theorem normalize_preserves_policy:
  assumes "distinct (map fst (a_per_tunnel a))" "map_of (a_per_tunnel a) n = Some rules"
    "rules \<noteq> []" "map_of (a_defaults a) n = None"
  shows "\<exists>rules' def'. map_of (a_per_tunnel (Normalize a)) n = Some rules' \<and>
    map_of (a_defaults (Normalize a)) n = Some def' \<and>
    (if list_ex is_otherwise rules
     then EvaluatePolicy rules' def' ctx = Evaluate rules ctx
     else rules' = rules \<and> def' = ActionDisconnect)"
proof -
  have l: "map_of (a_per_tunnel (Normalize a)) n = Some (cut_rules rules)"
    "map_of (a_defaults (Normalize a)) n = Some (migrated_default rules)"
    using assms Normalize_lookup(2,3)[OF assms(1), of n] by simp_all
  obtain kept def where c: "otherwise_cut rules = (kept, def)" by (cases "otherwise_cut rules")
  show ?thesis
  proof (cases "list_ex is_otherwise rules")
    case False
    then have "otherwise_cut rules = (rules, '''')"
      by (intro otherwise_cut_id) (auto simp: list_ex_iff)
    with l False show ?thesis by (simp add: cut_rules_def migrated_default_def)
  next
    case True
    have "kept \<noteq> rules" using True otherwise_cut_none[of _ rules] c by (auto simp: list_ex_iff)
    then obtain r rest where r: "rules = kept @ r # rest" "is_otherwise r" "def = r_do r"
      using otherwise_cut_split[OF c] by auto
    have last: "first_match ctx (r # rest) = action_of r"
      using is_otherwise_fires[OF r(2), of ctx] by (simp add: first_match_def)
    have fm: "first_match ctx rules =
        (if first_match ctx kept = StateUnmanaged then action_of r else first_match ctx kept)"
      unfolding r(1) first_match_append last ..
    have ad: "apply_default (migrated_default rules) StateUnmanaged = action_of r"
      using r(2,3) valid_action[of r] c
      by (auto simp: apply_default_def migrated_default_def action_of_def actionState_def is_otherwise_def
          split: if_splits)
    have "EvaluatePolicy (cut_rules rules) (migrated_default rules) ctx =
        apply_default (migrated_default rules) (first_match ctx kept)"
      by (simp add: EvaluatePolicy_def Evaluate_eq cut_rules_def c)
    also have "\<dots> = Evaluate rules ctx"
      unfolding Evaluate_eq fm
      by (cases "first_match ctx kept = StateUnmanaged") (simp_all add: ad, simp add: apply_default_def)
    finally show ?thesis using l True by simp
  qed
qed

definition office_home :: "rule list" where
  "office_home =
     [\<lparr>r_when = [cond0\<lparr>c_type := CondSSID, c_ssid := ''corp''\<rparr>], r_match = '''', r_do = ActionDisconnect\<rparr>,
      \<lparr>r_when = [cond0\<lparr>c_type := CondNoneMatch\<rparr>], r_match = '''', r_do = ActionConnect\<rparr>]"

definition office_ctx :: "string \<Rightarrow> network_context" where
  "office_ctx ssid = \<lparr>nc_ssid = ssid, nc_ips = [V4 0xC0A80005], nc_gw_mac = '''', nc_gw_ip = '''',
     nc_ifaces = [\<lparr>if_name = ''en0'', if_is_wifi = True, if_active = True, if_type = ''wifi''\<rparr>],
     nc_now = None, nc_wall = \<lparr>ck_weekday = 1, ck_hour = 9, ck_minute = 30\<rparr>\<rparr>"

theorem normalize_preserves_policy_witness:
  "\<exists>rules' def'.
     map_of (a_per_tunnel (Normalize \<lparr>a_defaults = [], a_per_tunnel = [(''A'', office_home)]\<rparr>)) ''A'' = Some rules' \<and>
     map_of (a_defaults (Normalize \<lparr>a_defaults = [], a_per_tunnel = [(''A'', office_home)]\<rparr>)) ''A'' = Some def' \<and>
     EvaluatePolicy rules' def' (office_ctx ''home'') = StateConnect"
proof -
  have o: "list_ex is_otherwise office_home" by code_simp
  have e: "Evaluate office_home (office_ctx ''home'') = StateConnect" by code_simp
  have n: "office_home \<noteq> []" by (simp add: office_home_def)
  show ?thesis
    using normalize_preserves_policy
      [of "\<lparr>a_defaults = [], a_per_tunnel = [(''A'', office_home)]\<rparr>" "''A''" office_home "office_ctx ''home''"]
      o e n by simp
qed

text \<open>The migration is idempotent: normalizing a stored configuration a second time changes
  neither map.\<close>

theorem normalize_idempotent:
  assumes "distinct (map fst (a_per_tunnel a))"
  shows "Normalize (Normalize a) = Normalize a"
  using Normalize_settled[OF assms] settled_fold[of "a_per_tunnel (Normalize a)" "Normalize a"]
  by (simp add: Normalize_def[of "Normalize a"])

theorem normalize_idempotent_witness:
  "Normalize (Normalize \<lparr>a_defaults = [], a_per_tunnel = [(''A'', office_home)]\<rparr>) =
   Normalize \<lparr>a_defaults = [], a_per_tunnel = [(''A'', office_home)]\<rparr>"
  by (rule normalize_idempotent) simp

text \<open>A rule set without \<open>ssid\<close> and \<open>wifi\<close> conditions decides the same whatever the SSID is:
  this is why only rule sets that reference the SSID are skipped while it is undecidable.\<close>

theorem ssid_free_rules_ignore_ssid:
  assumes "\<not> RulesReferenceSSID rules"
  shows "EvaluatePolicy rules def (ctx\<lparr>nc_ssid := s\<rparr>) = EvaluatePolicy rules def ctx"
  by (simp add: EvaluatePolicy_def Evaluate_eq first_match_ssid_irrelevant[OF assms])

theorem ssid_free_rules_ignore_ssid_witness:
  "EvaluatePolicy [\<lparr>r_when = [cond0\<lparr>c_type := CondSubnet, c_subnet := ''192.168.0.0/24''\<rparr>],
      r_match = ''all'', r_do = ActionDisconnect\<rparr>] ActionConnect ((office_ctx ''corp'')\<lparr>nc_ssid := ''''\<rparr>) = StateDisconnect"
proof -
  let ?r = "[\<lparr>r_when = [cond0\<lparr>c_type := CondSubnet, c_subnet := ''192.168.0.0/24''\<rparr>],
      r_match = ''all'', r_do = ActionDisconnect\<rparr>]"
  have "\<not> RulesReferenceSSID ?r" by code_simp
  from ssid_free_rules_ignore_ssid[OF this, of ActionConnect "''''" "office_ctx ''corp''"]
  show ?thesis by (simp only:) code_simp
qed

text \<open>A clock window and the window with its ends swapped split the day: for two different
  clock values exactly one of them holds at any time on the rule's days, so the overnight wrap is
  the exact complement of the daytime window.\<close>

theorem time_windows_complement:
  assumes "parseClock (c_start c) = Some s" "parseClock (c_end c) = Some e" "0 \<le> s" "0 \<le> e" "s \<noteq> e"
    "List.member (c_days c) (ck_weekday now) \<or> c_days c = []"
  shows "timeMatches (c\<lparr>c_start := c_end c, c_end := c_start c\<rparr>) (Some now) w \<longleftrightarrow>
    \<not> timeMatches c (Some now) w"
  using assms by (auto simp: timeMatches_def Let_def)

theorem time_windows_complement_witness:
  "timeMatches (cond0\<lparr>c_type := CondTime, c_start := ''22:00'', c_end := ''06:00''\<rparr>)
     (Some \<lparr>ck_weekday = 3, ck_hour = 23, ck_minute = 15\<rparr>) \<lparr>ck_weekday = 0, ck_hour = 0, ck_minute = 0\<rparr>"
proof -
  let ?c = "cond0\<lparr>c_type := CondTime, c_start := ''06:00'', c_end := ''22:00''\<rparr>"
  let ?t = "\<lparr>ck_weekday = 3, ck_hour = 23, ck_minute = 15\<rparr>"
  let ?w = "\<lparr>ck_weekday = 0, ck_hour = 0, ck_minute = 0\<rparr>"
  have p: "parseClock ''06:00'' = Some 360" "parseClock ''22:00'' = Some 1320" by code_simp+
  have "\<not> timeMatches ?c (Some ?t) ?w" by (simp add: timeMatches_def cond0_def p Let_def)
  moreover have "parseClock (c_start ?c) = Some 360" "parseClock (c_end ?c) = Some 1320"
    by (simp_all add: p)
  ultimately show ?thesis
    using time_windows_complement[of ?c 360 1320 ?t ?w] by (simp add: cond0_def)
qed

text \<open>MAC addresses compare by their hex digits: the canonical form is empty or twelve
  lower-case hex digits, it is its own canonical form, and it does not depend on letter case.\<close>

theorem canonical_mac_normal_form:
  "(canonicalMAC s = '''' \<or> length (canonicalMAC s) = 12 \<and> set (canonicalMAC s) \<subseteq> set ''0123456789abcdef'')
   \<and> canonicalMAC (canonicalMAC s) = canonicalMAC s \<and> canonicalMAC (to_lower s) = canonicalMAC s"
proof -
  have low: "mac_digits (to_lower s) = mac_digits s" for s
  proof (induction s)
    case (Cons c s)
    let ?n = "of_char c :: int"
    consider "65 \<le> ?n" "?n \<le> 70" | "70 < ?n" "?n \<le> 90" | "?n < 65 \<or> 90 < ?n" by linarith
    then show ?case
      by cases (use Cons in \<open>simp_all add: to_lower_def lower_char_def Let_def\<close>)
  qed (simp add: to_lower_def)
  have "set (mac_digits s) \<subseteq> set ''0123456789abcdef''" using mac_digits_hex by blast
  then show ?thesis using mac_digits_id by (auto simp: canonicalMAC_def Let_def low)
qed

text \<open>The tunnels automation looks at are exactly those with rules or a Default State, each
  once, in sorted order.\<close>

theorem policy_tunnel_names_complete:
  "set (PolicyTunnelNames (Some a)) = fst ` set (a_per_tunnel a) \<union> fst ` set (a_defaults a) \<and>
   distinct (PolicyTunnelNames (Some a)) \<and> sorted (PolicyTunnelNames (Some a))"
  by (simp add: PolicyTunnelNames_def)

end
