(* ===== verification/Domain.thy ===== *)
theory Domain
  imports GoNet
begin

text \<open>
  The value types of \<open>internal/domain\<close>: the WireGuard configuration (\<open>config.go\<close>), the
  connection status and the duration formatter (\<open>status.go\<close>). Go maps are association lists,
  \<open>*int\<close> is an option, a \<open>time.Time\<close> is an integer of nanoseconds (0 the zero time), and a
  floating-point round-trip time is an integer of microseconds.
\<close>

section \<open>Configuration\<close>

abbreviation ProtocolWireGuard :: string where "ProtocolWireGuard \<equiv> ''wireguard''"
abbreviation ProtocolAmneziaWG :: string where "ProtocolAmneziaWG \<equiv> ''amneziawg''"

record interface_config =
  i_private_key :: string
  i_address :: "string list"
  i_dns :: "string list"
  i_mtu :: int
  i_listen_port :: int
  i_table :: string
  i_fw_mark :: string
  i_pre_up :: string
  i_post_up :: string
  i_pre_down :: string
  i_post_down :: string
  i_extra :: "(string \<times> string) list"
  i_jc :: int
  i_jmin :: int
  i_jmax :: int
  i_s1 :: int
  i_s2 :: int
  i_s3 :: int
  i_s4 :: int
  i_h1 :: string
  i_h2 :: string
  i_h3 :: string
  i_h4 :: string

record peer_config =
  p_public_key :: string
  p_preshared_key :: string
  p_endpoint :: string
  p_allowed_ips :: "string list"
  p_keepalive :: "int option"
  p_extra :: "(string \<times> string) list"

record wg_config =
  cfg_name :: string
  cfg_interface :: interface_config
  cfg_peers :: "peer_config list"
  cfg_protocol :: string
  cfg_enable_scripts :: bool
  cfg_bind_if_index :: int
  cfg_bind_if_name :: string

text \<open>The zero values the Go code starts from.\<close>

definition interface0 :: interface_config where
  "interface0 = \<lparr>i_private_key = '''', i_address = [], i_dns = [], i_mtu = 0, i_listen_port = 0,
     i_table = '''', i_fw_mark = '''', i_pre_up = '''', i_post_up = '''', i_pre_down = '''',
     i_post_down = '''', i_extra = [], i_jc = 0, i_jmin = 0, i_jmax = 0, i_s1 = 0, i_s2 = 0,
     i_s3 = 0, i_s4 = 0, i_h1 = '''', i_h2 = '''', i_h3 = '''', i_h4 = ''''\<rparr>"

definition peer0 :: peer_config where
  "peer0 = \<lparr>p_public_key = '''', p_preshared_key = '''', p_endpoint = '''', p_allowed_ips = [],
     p_keepalive = None, p_extra = []\<rparr>"

definition config0 :: wg_config where
  "config0 = \<lparr>cfg_name = '''', cfg_interface = interface0, cfg_peers = [], cfg_protocol = '''',
     cfg_enable_scripts = False, cfg_bind_if_index = 0, cfg_bind_if_name = ''''\<rparr>"

definition IsAmneziaWG :: "interface_config \<Rightarrow> bool" where
  "IsAmneziaWG c \<longleftrightarrow>
     i_jc c \<noteq> 0 \<or> i_jmin c \<noteq> 0 \<or> i_jmax c \<noteq> 0 \<or>
     i_s1 c \<noteq> 0 \<or> i_s2 c \<noteq> 0 \<or> i_s3 c \<noteq> 0 \<or> i_s4 c \<noteq> 0 \<or>
     i_h1 c \<noteq> '''' \<or> i_h2 c \<noteq> '''' \<or> i_h3 c \<noteq> '''' \<or> i_h4 c \<noteq> ''''"

definition HasScripts :: "wg_config \<Rightarrow> bool" where
  "HasScripts c \<longleftrightarrow>
     i_pre_up (cfg_interface c) \<noteq> '''' \<or> i_post_up (cfg_interface c) \<noteq> '''' \<or>
     i_pre_down (cfg_interface c) \<noteq> '''' \<or> i_post_down (cfg_interface c) \<noteq> ''''"

record script =
  s_hook :: string
  s_command :: string

definition Scripts :: "wg_config \<Rightarrow> script list" where
  "Scripts c =
     (let i = cfg_interface c in
      (if i_pre_up i \<noteq> '''' then [\<lparr>s_hook = ''PreUp'', s_command = i_pre_up i\<rparr>] else []) @
      (if i_post_up i \<noteq> '''' then [\<lparr>s_hook = ''PostUp'', s_command = i_post_up i\<rparr>] else []) @
      (if i_pre_down i \<noteq> '''' then [\<lparr>s_hook = ''PreDown'', s_command = i_pre_down i\<rparr>] else []) @
      (if i_post_down i \<noteq> '''' then [\<lparr>s_hook = ''PostDown'', s_command = i_post_down i\<rparr>] else []))"

definition cidr_is_full :: "string \<Rightarrow> bool" where
  "cidr_is_full ip =
     (case parse_cidr ip of
        None \<Rightarrow> False
      | Some (_, n) \<Rightarrow> net_ones n = 0 \<and> (net_bits n = 32 \<or> net_bits n = 128))"

definition cfg_IsFullTunnel :: "wg_config \<Rightarrow> bool" where
  "cfg_IsFullTunnel c = list_ex (\<lambda>p. list_ex cidr_is_full (p_allowed_ips p)) (cfg_peers c)"

definition Endpoints :: "wg_config \<Rightarrow> string list" where
  "Endpoints c = filter (\<lambda>e. e \<noteq> '''') (map p_endpoint (cfg_peers c))"

lemma HasScripts_Scripts: "HasScripts c \<longleftrightarrow> Scripts c \<noteq> []"
  by (simp add: HasScripts_def Scripts_def Let_def)

section \<open>Status\<close>

datatype tstate = Disconnected | Connecting | Connected | ErrorState

record probe_result =
  pr_target :: string
  pr_resolved_ip :: string
  pr_kind :: string
  pr_slot :: int
  pr_coverage :: string
  pr_reachable :: bool
  pr_latency_us :: int

datatype conn_status = ConnStatus
  (st_state: tstate)
  (st_tunnel: string)
  (st_iface: string)
  (st_connected_at: int)
  (st_duration: string)
  (st_rx: int)
  (st_tx: int)
  (st_handshake_time: int)
  (st_handshake: string)
  (st_handshake_unix: int)
  (st_stale: bool)
  (st_paused: bool)
  (st_endpoint: string)
  (st_latency_us: int)
  (st_error: string)
  (st_probe_target: string)
  (st_probe_state: string)
  (st_probe_results: "probe_result list")
  (st_active: "string list")
  (st_established: "string list")
  (st_tunnels: "conn_status list")

section \<open>FormatDuration\<close>

abbreviation second :: int where "second \<equiv> 1000000000"
abbreviation minute :: int where "minute \<equiv> 60 * second"
abbreviation hour :: int where "hour \<equiv> 3600 * second"

definition max_duration :: int where "max_duration = 2 ^ 63 - 1"

text \<open>
  \<open>Duration.Round(time.Second)\<close> on a non-negative duration: half a second rounds up, and a
  result beyond the range saturates at the largest duration.
\<close>

definition round_second :: "int \<Rightarrow> int" where
  "round_second d =
     (let r = d mod second in
      if r + r < second then d - r
      else if d + (second - r) \<le> max_duration then d + (second - r) else max_duration)"

text \<open>
  \<open>int(d.Hours())\<close> truncates a float64 sum \<open>h + frac\<close> whose integer part is below \<open>2 ^ 34\<close> and
  whose fraction is at most \<open>1 - 1 / 3600\<close> for whole seconds (0.9 for the saturated value), so
  it is integer division; likewise minutes and seconds.
\<close>

definition FormatDuration :: "int \<Rightarrow> string" where
  "FormatDuration d0 =
     (let d = round_second (if d0 < 0 then 0 else d0);
          h = d div hour; m = d div minute mod 60; s = d div second mod 60 in
      if h > 0 then itoa h @ ''h '' @ itoa m @ ''m '' @ itoa s @ ''s''
      else if m > 0 then itoa m @ ''m '' @ itoa s @ ''s''
      else itoa s @ ''s'')"

section \<open>Reading a duration back\<close>

text \<open>The inverse used to state that the printed form loses nothing but the sub-second part.\<close>

definition unit_val :: "char \<Rightarrow> string \<Rightarrow> int option" where
  "unit_val u s = (if s \<noteq> '''' \<and> last s = u then atoi (butlast s) else None)"

definition read_duration :: "string \<Rightarrow> int option" where
  "read_duration s =
     (case split_on (CHR '' '') s of
        [a] \<Rightarrow> unit_val (CHR ''s'') a
      | [a, b] \<Rightarrow> (case (unit_val (CHR ''m'') a, unit_val (CHR ''s'') b) of
                    (Some m, Some s) \<Rightarrow> Some (60 * m + s) | _ \<Rightarrow> None)
      | [a, b, c] \<Rightarrow> (case (unit_val (CHR ''h'') a, unit_val (CHR ''m'') b, unit_val (CHR ''s'') c) of
                    (Some h, Some m, Some s) \<Rightarrow> Some (3600 * h + 60 * m + s) | _ \<Rightarrow> None)
      | _ \<Rightarrow> None)"

lemma itoa_nonneg: "0 \<le> n \<Longrightarrow> itoa n = dec_str n"
  by (simp add: itoa_def)

lemma unit_val_itoa [simp]: "0 \<le> n \<Longrightarrow> n < 2 ^ 63 \<Longrightarrow> unit_val u (itoa n @ [u]) = Some n"
  by (simp add: unit_val_def atoi_itoa)

lemma itoa_no_space: "0 \<le> n \<Longrightarrow> CHR '' '' \<notin> set (itoa n)"
  by (simp add: itoa_nonneg dec_str_not)

lemma split_unit: "0 \<le> n \<Longrightarrow> u \<noteq> CHR '' '' \<Longrightarrow>
    split_on (CHR '' '') (itoa n @ u # CHR '' '' # rest) = (itoa n @ [u]) # split_on (CHR '' '') rest"
  using split_on_append[of "CHR '' ''" "itoa n @ [u]" rest] itoa_no_space by simp

lemma split_last_unit: "0 \<le> n \<Longrightarrow> u \<noteq> CHR '' '' \<Longrightarrow>
    split_on (CHR '' '') (itoa n @ [u]) = [itoa n @ [u]]"
  using itoa_no_space by simp

lemma round_second_range: "0 \<le> d \<Longrightarrow> d \<le> max_duration \<Longrightarrow> 0 \<le> round_second d \<and> round_second d \<le> max_duration"
proof -
  assume d: "0 \<le> d" "d \<le> max_duration"
  have r: "0 \<le> d mod second" "d mod second < second" by simp_all
  have "d mod second \<le> d" using d(1) by (rule zmod_le_nonneg_dividend)
  with d r show ?thesis by (auto simp: round_second_def Let_def)
qed

lemma div_le_dividend_int: "0 \<le> (d::int) \<Longrightarrow> 0 < k \<Longrightarrow> d div k \<le> d"
  using zdiv_mono2[of d 1 k] by simp

definition hms_str :: "int \<Rightarrow> int \<Rightarrow> int \<Rightarrow> string" where
  "hms_str h m s =
     (if h > 0 then itoa h @ ''h '' @ itoa m @ ''m '' @ itoa s @ ''s''
      else if m > 0 then itoa m @ ''m '' @ itoa s @ ''s''
      else itoa s @ ''s'')"

lemma read_hms_str:
  assumes "0 \<le> h" "0 \<le> m" "0 \<le> s" "h < 2 ^ 63" "m < 2 ^ 63" "s < 2 ^ 63"
  shows "read_duration (hms_str h m s) = Some (3600 * h + 60 * m + s)"
proof -
  have l: "split_on (CHR '' '') (itoa s @ ''s'') = [itoa s @ ''s'']"
    by (rule split_last_unit) (use assms in simp_all)
  have m: "split_on (CHR '' '') (itoa m @ ''m '' @ itoa s @ ''s'') = [itoa m @ ''m'', itoa s @ ''s'']"
    using split_unit[of m "CHR ''m''" "itoa s @ ''s''"] l assms by simp
  have h: "split_on (CHR '' '') (itoa h @ ''h '' @ itoa m @ ''m '' @ itoa s @ ''s'') =
      [itoa h @ ''h'', itoa m @ ''m'', itoa s @ ''s'']"
    using split_unit[of h "CHR ''h''" "itoa m @ ''m '' @ itoa s @ ''s''"] m assms by simp
  consider "h > 0" | "h = 0" "m > 0" | "h = 0" "m = 0" using assms by linarith
  then show ?thesis
  proof cases
    case 1
    then have "hms_str h m s = itoa h @ ''h '' @ itoa m @ ''m '' @ itoa s @ ''s''" by (simp add: hms_str_def)
    then show ?thesis using assms unit_val_itoa by (simp only: read_duration_def h) simp
  next
    case 2
    then have "hms_str h m s = itoa m @ ''m '' @ itoa s @ ''s''" by (simp add: hms_str_def)
    then show ?thesis using assms 2 unit_val_itoa by (simp only: read_duration_def m) simp
  next
    case 3
    then have "hms_str h m s = itoa s @ ''s''" by (simp add: hms_str_def)
    then show ?thesis using assms 3 unit_val_itoa by (simp only: read_duration_def l) simp
  qed
qed

lemma hms_sum:
  "0 \<le> (d::int) \<Longrightarrow> 3600 * (d div hour) + 60 * (d div minute mod 60) + d div second mod 60 = d div second"
proof -
  have "d div minute = d div second div 60" "d div hour = d div second div 60 div 60"
    by (simp_all add: zdiv_zmult2_eq[symmetric])
  then show ?thesis by presburger
qed

text \<open>The duration the UI shows can be read back: for a non-negative duration it denotes the
  duration rounded to whole seconds, minutes and seconds below 60, and a negative one (a clock
  that went backwards) shows as zero.\<close>

theorem format_duration_roundtrip:
  assumes "d \<le> max_duration"
  shows "read_duration (FormatDuration d) = Some (round_second (max 0 d) div second)"
proof -
  let ?d = "round_second (if d < 0 then 0 else d)"
  have m: "(if d < 0 then 0 else d) = max 0 d" by simp
  have d: "0 \<le> ?d" "?d \<le> max_duration"
    using assms round_second_range[of "max 0 d"] unfolding m by (auto simp: max_duration_def)
  have b: "0 \<le> ?d div hour" "0 \<le> ?d div minute mod 60" "0 \<le> ?d div second mod 60"
    "?d div hour < 2 ^ 63" "?d div minute mod 60 < 2 ^ 63" "?d div second mod 60 < 2 ^ 63"
    using d div_le_dividend_int[OF d(1), of hour]
      pos_mod_bound[of 60 "?d div minute"] pos_mod_bound[of 60 "?d div second"]
    by (simp_all add: max_duration_def pos_imp_zdiv_nonneg_iff)
  have "FormatDuration d = hms_str (?d div hour) (?d div minute mod 60) (?d div second mod 60)"
    by (simp only: FormatDuration_def Let_def hms_str_def)
  with read_hms_str[OF b] hms_sum[OF d(1)] show ?thesis unfolding m by (simp only:)
qed

theorem format_duration_roundtrip_witness:
  "read_duration (FormatDuration 3725600000000) = Some 3726"
proof -
  have "round_second (max 0 3725600000000) div second = 3726" by code_simp
  with format_duration_roundtrip[of 3725600000000] show ?thesis by (simp add: max_duration_def)
qed

end
