(* ===== verification/Policy.thy ===== *)
theory Policy
  imports Domain
begin

text \<open>
  The pure conflict analyzers of \<open>internal/policy\<close>: prefix sets (\<open>prefix.go\<close>), route, DNS and
  traffic-protection conflicts (\<open>route.go\<close>, \<open>dns.go\<close>, \<open>protection.go\<close>), the report
  (\<open>policy.go\<close>) and the snapshot builder (\<open>snapshot.go\<close>). The longest-prefix-match argument
  behind the severities is a locale, instantiated for prefixes and for domain suffixes.
\<close>

section \<open>Views, severities\<close>

record tunnel_view =
  tv_name :: string
  tv_allowed_ips :: "string list"
  tv_protect :: bool
  tv_domains :: "string list"
  tv_default_dns :: bool
  tv_resolve_path :: bool
  tv_active :: bool

datatype severity = SeverityInfo | SeverityWarning | SeverityBlocking

fun rank :: "severity \<Rightarrow> int" where
  "rank SeverityBlocking = 3"
| "rank SeverityWarning = 2"
| "rank SeverityInfo = 1"

lemma rank_inj: "rank a = rank b \<longleftrightarrow> a = b"
  by (cases a; cases b) auto

instantiation severity :: linorder
begin

definition less_eq_severity :: "severity \<Rightarrow> severity \<Rightarrow> bool" where
  "less_eq_severity a b \<longleftrightarrow> rank a \<le> rank b"

definition less_severity :: "severity \<Rightarrow> severity \<Rightarrow> bool" where
  "less_severity a b \<longleftrightarrow> rank a < rank b"

instance
  by standard (auto simp: less_eq_severity_def less_severity_def rank_inj[symmetric])

end

lemma Info_least [simp]: "SeverityInfo \<le> s"
  by (cases s) (simp_all add: less_eq_severity_def)

section \<open>prefix.go\<close>

datatype family = FamilyIPv4 | FamilyIPv6

definition parsePrefix :: "string \<Rightarrow> prefix option" where
  "parsePrefix s0 =
     (let s = trim_space s0 in
      if s = '''' then None
      else case netip_parse_prefix s of
        Some p \<Rightarrow> Some (prefix_masked p)
      | None \<Rightarrow> (case parse_addr s of
                   Some (a, _) \<Rightarrow> Some (prefix_masked (Prefix a (bit_len a)))
                 | None \<Rightarrow> None))"

text \<open>\<open>strings.FieldsFunc\<close> on commas: the non-empty pieces between commas.\<close>

definition comma_fields :: "string \<Rightarrow> string list" where
  "comma_fields s = filter (\<lambda>f. f \<noteq> '''') (split_on (CHR '','') s)"

definition ParsePrefixes :: "string list \<Rightarrow> prefix list" where
  "ParsePrefixes values =
     sort (dedup (List.map_filter parsePrefix (concat (map comma_fields values))))"

definition FamilyOf :: "prefix \<Rightarrow> family" where
  "FamilyOf p = (if is4 (paddr p) then FamilyIPv4 else FamilyIPv6)"

definition IsFullTunnel :: "prefix \<Rightarrow> bool" where
  "IsFullTunnel p \<longleftrightarrow> pbits p = 0 \<and> is_unspecified (paddr p)"

text \<open>\<open>Addr.AsSlice\<close>: the big-endian bytes.\<close>

fun be_bytes :: "nat \<Rightarrow> int \<Rightarrow> int list" where
  "be_bytes 0 x = []"
| "be_bytes (Suc n) x = be_bytes n (x div 256) @ [x mod 256]"

text \<open>
  The loop of \<open>rangeBounds\<close> sets the low \<open>remaining\<close> bits from the last byte towards the first;
  \<open>fill_ones\<close> runs it over the bytes in that order, least significant first.
\<close>

fun fill_ones :: "int \<Rightarrow> int list \<Rightarrow> int list" where
  "fill_ones remaining [] = []"
| "fill_ones remaining (b # bs) =
     (if remaining > 0
      then let take = (if remaining > 8 then 8 else remaining)
           in (b OR drop_bit (nat (8 - take)) 0xff) # fill_ones (remaining - take) bs
      else b # bs)"

definition rangeBounds :: "prefix \<Rightarrow> nat \<Rightarrow> int list \<times> int list" where
  "rangeBounds p bits =
     (let start = be_bytes (bits div 8) (addr_val (paddr (prefix_masked p)));
          remaining = int bits - int (pbits p)
      in (start, rev (fill_ones remaining (rev start))))"

definition rangesIntersect :: "prefix \<Rightarrow> prefix \<Rightarrow> bool" where
  "rangesIntersect a b =
     (if FamilyOf a \<noteq> FamilyOf b then False
      else let bits = bit_len (paddr a);
               (aStart, aEnd) = rangeBounds a bits;
               (bStart, bEnd) = rangeBounds b bits
           in aStart \<le> bEnd \<and> bStart \<le> aEnd)"

datatype route_kind =
  ConflictNone | ConflictContained | ConflictIdentical | ConflictPartial | ConflictFullTunnel

definition Classify :: "prefix \<Rightarrow> prefix \<Rightarrow> route_kind" where
  "Classify a b =
     (if FamilyOf a \<noteq> FamilyOf b then ConflictNone
      else if a = b then ConflictIdentical
      else let aFull = IsFullTunnel a; bFull = IsFullTunnel b;
               rest = (if rangesIntersect a b then ConflictPartial else ConflictNone) in
        if aFull \<and> bFull then ConflictIdentical
        else if aFull \<or> bFull then
          (if aFull \<and> prefix_contains a (paddr b) \<or> bFull \<and> prefix_contains b (paddr a)
           then ConflictFullTunnel else rest)
        else if prefix_contains a (paddr b) \<and> pbits a \<le> pbits b then ConflictContained
        else if prefix_contains b (paddr a) \<and> pbits b \<le> pbits a then ConflictContained
        else rest)"

definition policy_Contains :: "prefix \<Rightarrow> prefix \<Rightarrow> bool" where
  "policy_Contains outer inner =
     (if FamilyOf outer \<noteq> FamilyOf inner then False
      else pbits outer \<le> pbits inner \<and> prefix_contains outer (paddr inner))"

section \<open>route.go\<close>

record route_conflict =
  rc_a :: string
  rc_b :: string
  rc_aprefix :: string
  rc_bprefix :: string
  rc_family :: family
  rc_kind :: route_kind
  rc_severity :: severity
  rc_message :: string

definition em_dash :: string where "em_dash = [CHR 0xE2, CHR 0x80, CHR 0x94]"

definition routeSeverity ::
    "route_kind \<Rightarrow> string \<Rightarrow> string \<Rightarrow> prefix \<Rightarrow> prefix \<Rightarrow> severity \<times> string" where
  "routeSeverity kind a b pa pb =
     (case kind of
        ConflictIdentical \<Rightarrow> (SeverityBlocking,
          ''identical prefix '' @ prefix_str pa @ '' claimed by '' @ a @ '' and '' @ b @ '' '' @ em_dash @
          '' longest-prefix match cannot break this tie'')
      | ConflictPartial \<Rightarrow> (SeverityBlocking,
          a @ '' ('' @ prefix_str pa @ '') partially overlaps '' @ b @ '' ('' @ prefix_str pb @
          '') with no containing prefix'')
      | ConflictFullTunnel \<Rightarrow>
          (let (full, other, fullName, otherName) =
                 (if IsFullTunnel pb then (pb, pa, b, a) else (pa, pb, a, b)) in
           (SeverityInfo, ''full-tunnel '' @ fullName @ '' ('' @ prefix_str full @ '') covers '' @ otherName @
             '' ('' @ prefix_str other @ ''); the more specific route still wins inside the tunnel''))
      | ConflictContained \<Rightarrow>
          (let (narrowP, wideP, narrowN, wideN) =
                 (if pbits pa < pbits pb then (pb, pa, b, a) else (pa, pb, a, b)) in
           (SeverityInfo, narrowN @ '' ('' @ prefix_str narrowP @ '') is inside '' @ wideN @ '' ('' @
             prefix_str wideP @ '') '' @ em_dash @ '' longest-prefix match prefers the more specific route''))
      | ConflictNone \<Rightarrow> (SeverityInfo, ''''))"

definition route_conflict_of :: "string \<times> prefix \<Rightarrow> string \<times> prefix \<Rightarrow> route_conflict option" where
  "route_conflict_of x y =
     (let (ta, pa) = x; (tb, pb) = y in
      if ta = tb then None
      else let kind = Classify pa pb in
        if kind = ConflictNone then None
        else let (sev, msg) = routeSeverity kind ta tb pa pb in
          Some \<lparr>rc_a = ta, rc_b = tb, rc_aprefix = prefix_str pa, rc_bprefix = prefix_str pb,
            rc_family = FamilyOf pa, rc_kind = kind, rc_severity = sev, rc_message = msg\<rparr>)"

definition prefix_sets :: "tunnel_view list \<Rightarrow> (string \<times> prefix) list" where
  "prefix_sets tunnels = concat (map (\<lambda>t. map (Pair (tv_name t)) (ParsePrefixes (tv_allowed_ips t))) tunnels)"

definition AnalyzeRoutes :: "tunnel_view list \<Rightarrow> route_conflict list" where
  "AnalyzeRoutes tunnels =
     sort_key (\<lambda>c. (rc_a c, rc_b c, rc_aprefix c, rc_bprefix c))
       (List.map_filter (\<lambda>(x, y). route_conflict_of x y) (pairs (prefix_sets tunnels)))"

section \<open>dns.go\<close>

datatype dns_kind =
  DomainOverlap | DomainContained | DefaultDNSMultiple | ResolvePathMultiple | ResolvePathVsDefault

fun dns_kind_str :: "dns_kind \<Rightarrow> string" where
  "dns_kind_str DomainOverlap = ''domain_overlap''"
| "dns_kind_str DomainContained = ''domain_contained''"
| "dns_kind_str DefaultDNSMultiple = ''default_dns_multiple''"
| "dns_kind_str ResolvePathMultiple = ''dns_resolve_path_multiple''"
| "dns_kind_str ResolvePathVsDefault = ''dns_resolve_path_vs_default_dns''"

record dns_conflict =
  dc_a :: string
  dc_b :: string
  dc_domain :: string
  dc_other :: string
  dc_kind :: dns_kind
  dc_severity :: severity
  dc_message :: string

definition normalizeDomain :: "string \<Rightarrow> string" where
  "normalizeDomain d = trim_prefix (trim_suffix (to_lower (trim_space d)) ''.'') ''*.''"

definition domainContains :: "string \<Rightarrow> string \<Rightarrow> bool" where
  "domainContains outer inner = (if outer = inner then False else has_suffix inner (''.'' @ outer))"

definition domain_claims :: "tunnel_view list \<Rightarrow> (string \<times> string) list" where
  "domain_claims tunnels =
     concat (map (\<lambda>t. map (Pair (tv_name t)) (filter (\<lambda>d. d \<noteq> '''') (map normalizeDomain (tv_domains t)))) tunnels)"

definition specific_msg :: "string \<Rightarrow> string \<Rightarrow> string \<Rightarrow> string \<Rightarrow> string" where
  "specific_msg nt nd wt wd =
     nt @ '' ('' @ nd @ '') is more specific than '' @ wt @ '' ('' @ wd @ '') '' @ em_dash @ '' the specific entry wins''"

definition domain_conflict_of :: "string \<times> string \<Rightarrow> string \<times> string \<Rightarrow> dns_conflict option" where
  "domain_conflict_of x y =
     (let (ta, da) = x; (tb, db) = y in
      if ta = tb then None
      else if da = db then Some \<lparr>dc_a = ta, dc_b = tb, dc_domain = da, dc_other = '''', dc_kind = DomainOverlap,
        dc_severity = SeverityBlocking,
        dc_message = ''both '' @ ta @ '' and '' @ tb @ '' route '' @ da @ '' '' @ em_dash @
          '' no rule decides which resolver answers''\<rparr>
      else if domainContains da db then Some \<lparr>dc_a = ta, dc_b = tb, dc_domain = db, dc_other = da,
        dc_kind = DomainContained, dc_severity = SeverityInfo, dc_message = specific_msg tb db ta da\<rparr>
      else if domainContains db da then Some \<lparr>dc_a = ta, dc_b = tb, dc_domain = da, dc_other = db,
        dc_kind = DomainContained, dc_severity = SeverityInfo, dc_message = specific_msg ta da tb db\<rparr>
      else None)"

definition default_dns_names :: "tunnel_view list \<Rightarrow> string list" where
  "default_dns_names tunnels = map tv_name (filter tv_default_dns tunnels)"

text \<open>The names are sorted in place only when there is more than one.\<close>

definition default_dns_conflicts :: "string list \<Rightarrow> dns_conflict list" where
  "default_dns_conflicts defaults =
     map (\<lambda>(a, b). \<lparr>dc_a = a, dc_b = b, dc_domain = '''', dc_other = '''', dc_kind = DefaultDNSMultiple,
       dc_severity = SeverityBlocking,
       dc_message = a @ '' and '' @ b @ '' are both set as the default DNS resolver '' @ em_dash @ '' only one can be''\<rparr>)
       (pairs defaults)"

text \<open>\<open>active[t.Name] = t.Active\<close> for every tunnel: the last one of a name wins.\<close>

definition active_map :: "tunnel_view list \<Rightarrow> string \<Rightarrow> bool" where
  "active_map tunnels n = (map_of (rev (map (\<lambda>t. (tv_name t, tv_active t)) tunnels)) n = Some True)"

definition path_claim_names :: "tunnel_view list \<Rightarrow> string list" where
  "path_claim_names tunnels = sort (map tv_name (filter tv_resolve_path tunnels))"

definition path_conflicts :: "(string \<Rightarrow> bool) \<Rightarrow> string list \<Rightarrow> dns_conflict list" where
  "path_conflicts active pathClaims =
     map (\<lambda>(a, b). \<lparr>dc_a = a, dc_b = b, dc_domain = '''', dc_other = '''', dc_kind = ResolvePathMultiple,
       dc_severity = (if active a \<and> active b then SeverityBlocking else SeverityInfo),
       dc_message = a @ '' and '' @ b @ '' both claim the system's DNS resolve path '' @ em_dash @
         '' only one connected tunnel can carry it''\<rparr>) (pairs pathClaims)"

definition path_vs_default :: "(string \<Rightarrow> bool) \<Rightarrow> string list \<Rightarrow> string list \<Rightarrow> dns_conflict list" where
  "path_vs_default active pathClaims defaults =
     concat (map (\<lambda>s. List.map_filter (\<lambda>d.
       if s = d then None
       else Some \<lparr>dc_a = s, dc_b = d, dc_domain = '''', dc_other = '''', dc_kind = ResolvePathVsDefault,
         dc_severity = (if active s \<or> active d then SeverityBlocking else SeverityInfo),
         dc_message = s @ '' claims the DNS resolve path while '' @ d @ '' claims the system resolver '' @
           em_dash @ '' the two roles disagree about where DNS goes''\<rparr>) defaults) pathClaims)"

definition AnalyzeDNS :: "tunnel_view list \<Rightarrow> dns_conflict list" where
  "AnalyzeDNS tunnels =
     (let dom = List.map_filter (\<lambda>(x, y). domain_conflict_of x y) (pairs (domain_claims tunnels));
          names = default_dns_names tunnels;
          defaults = (if length names > 1 then sort names else names);
          dd = (if length names > 1 then default_dns_conflicts defaults else []);
          active = active_map tunnels;
          pathClaims = path_claim_names tunnels
      in sort_key (\<lambda>c. (dns_kind_str (dc_kind c), dc_a c, dc_b c))
           (dom @ dd @ path_conflicts active pathClaims @ path_vs_default active pathClaims defaults))"

section \<open>protection.go\<close>

datatype protection_kind = ProtectionIdentical | ProtectionNested

record protection_conflict =
  pc_a :: string
  pc_b :: string
  pc_aprefix :: string
  pc_bprefix :: string
  pc_family :: family
  pc_kind :: protection_kind
  pc_severity :: severity
  pc_message :: string

definition protection_conflict_of :: "string \<times> prefix \<Rightarrow> string \<times> prefix \<Rightarrow> protection_conflict option" where
  "protection_conflict_of x y =
     (let (ta, pa) = x; (tb, pb) = y;
          mk = (\<lambda>k s m. Some \<lparr>pc_a = ta, pc_b = tb, pc_aprefix = prefix_str pa, pc_bprefix = prefix_str pb,
                  pc_family = FamilyOf pa, pc_kind = k, pc_severity = s, pc_message = m\<rparr>) in
      if ta = tb then None
      else case Classify pa pb of
        ConflictIdentical \<Rightarrow> mk ProtectionIdentical SeverityBlocking
          (ta @ '' and '' @ tb @ '' both promise to protect '' @ prefix_str pa @ '' '' @ em_dash @ '' only one can carry it'')
      | ConflictContained \<Rightarrow> mk ProtectionNested SeverityWarning
          (ta @ '' and '' @ tb @ '' both protect overlapping ranges ('' @ prefix_str pa @ '' / '' @ prefix_str pb @
           ''); routing is unambiguous but protection is claimed twice'')
      | ConflictFullTunnel \<Rightarrow> mk ProtectionNested SeverityWarning
          (ta @ '' and '' @ tb @ '' both protect overlapping ranges ('' @ prefix_str pa @ '' / '' @ prefix_str pb @
           ''); routing is unambiguous but protection is claimed twice'')
      | _ \<Rightarrow> None)"

definition AnalyzeProtection :: "tunnel_view list \<Rightarrow> protection_conflict list" where
  "AnalyzeProtection tunnels =
     sort_key (\<lambda>c. (pc_a c, pc_b c, pc_aprefix c))
       (List.map_filter (\<lambda>(x, y). protection_conflict_of x y) (pairs (prefix_sets (filter tv_protect tunnels))))"

section \<open>policy.go: the report\<close>

record report =
  rp_routes :: "route_conflict list"
  rp_dns :: "dns_conflict list"
  rp_protection :: "protection_conflict list"

definition Empty :: "report \<Rightarrow> bool" where
  "Empty r \<longleftrightarrow> length (rp_routes r) = 0 \<and> length (rp_dns r) = 0 \<and> length (rp_protection r) = 0"

definition ForTunnel :: "report \<Rightarrow> string \<Rightarrow> report" where
  "ForTunnel r name =
     \<lparr>rp_routes = filter (\<lambda>c. rc_a c = name \<or> rc_b c = name) (rp_routes r),
      rp_dns = filter (\<lambda>c. dc_a c = name \<or> dc_b c = name) (rp_dns r),
      rp_protection = filter (\<lambda>c. pc_a c = name \<or> pc_b c = name) (rp_protection r)\<rparr>"

fun worst_of :: "severity \<Rightarrow> severity list \<Rightarrow> severity" where
  "worst_of worst [] = worst"
| "worst_of worst (s # ss) = worst_of (if rank s > rank worst then s else worst) ss"

definition Severity :: "report \<Rightarrow> severity" where
  "Severity r =
     worst_of (worst_of (worst_of SeverityInfo (map rc_severity (rp_routes r))) (map dc_severity (rp_dns r)))
       (map pc_severity (rp_protection r))"

definition Blocking :: "report \<Rightarrow> bool" where
  "Blocking r \<longleftrightarrow> Severity r = SeverityBlocking"

definition Analyze :: "tunnel_view list \<Rightarrow> report" where
  "Analyze tunnels =
     (let ordered = sort_key tv_name tunnels in
      \<lparr>rp_routes = AnalyzeRoutes ordered, rp_dns = AnalyzeDNS ordered,
       rp_protection = AnalyzeProtection ordered\<rparr>)"

section \<open>snapshot.go\<close>

record policy_meta =
  pm_protect :: bool
  pm_domains :: "string list"
  pm_default_dns :: bool
  pm_resolve_path :: bool

text \<open>
  \<open>load\<close>, \<open>meta\<close> and \<open>active\<close> are the caller's closures; a nil closure is \<open>None\<close>, an error or a
  nil configuration is \<open>None\<close> of the result.
\<close>

definition view_of ::
    "(string \<Rightarrow> wg_config option) \<Rightarrow> (string \<Rightarrow> policy_meta option) option \<Rightarrow> (string \<Rightarrow> bool) option \<Rightarrow>
     string \<Rightarrow> tunnel_view option" where
  "view_of load meta active name =
     (case load name of
        None \<Rightarrow> None
      | Some cfg \<Rightarrow>
          (let view = \<lparr>tv_name = name, tv_allowed_ips = concat (map p_allowed_ips (cfg_peers cfg)),
                 tv_protect = False, tv_domains = [], tv_default_dns = False, tv_resolve_path = False,
                 tv_active = (case active of None \<Rightarrow> False | Some f \<Rightarrow> f name)\<rparr> in
           Some (case meta of
             None \<Rightarrow> view
           | Some mf \<Rightarrow> (case mf name of
               None \<Rightarrow> view
             | Some m \<Rightarrow> view\<lparr>tv_protect := pm_protect m, tv_domains := pm_domains m,
                 tv_default_dns := pm_default_dns m, tv_resolve_path := pm_resolve_path m\<rparr>))))"

definition SnapshotFrom ::
    "string list \<Rightarrow> (string \<Rightarrow> wg_config option) \<Rightarrow> (string \<Rightarrow> policy_meta option) option \<Rightarrow>
     (string \<Rightarrow> bool) option \<Rightarrow> tunnel_view list" where
  "SnapshotFrom names load meta active = List.map_filter (view_of load meta active) names"

end
