(* ===== verification/PolicyGeometry.thy ===== *)
theory PolicyGeometry
  imports Policy
begin

text \<open>
  Prefixes as intervals and as sets of addresses: the byte-level interval test of
  \<open>internal/policy/prefix.go\<close> is exact, and \<open>Classify\<close> is the relation of the two address sets.
\<close>

section \<open>Byte ranges\<close>

lemma lex_snoc:
  fixes a b :: "int list"
  assumes "length a = length b"
  shows "a @ [u] \<le> b @ [v] \<longleftrightarrow> a < b \<or> (a = b \<and> u \<le> v)"
    and "a @ [u] < b @ [v] \<longleftrightarrow> a < b \<or> (a = b \<and> u < v)"
  using assms by (induction a b rule: list_induct2) auto

lemma length_be_bytes [simp]: "length (be_bytes n x) = n"
  by (induction n arbitrary: x) auto

lemma digits_order:
  fixes q r :: int
  assumes "0 \<le> r" "r < 256" "0 \<le> r'" "r' < 256"
  shows "256 * q + r = 256 * q' + r' \<longleftrightarrow> q = q' \<and> r = r'"
    and "256 * q + r \<le> 256 * q' + r' \<longleftrightarrow> q < q' \<or> (q = q' \<and> r \<le> r')"
    and "256 * q + r < 256 * q' + r' \<longleftrightarrow> q < q' \<or> (q = q' \<and> r < r')"
  using assms by (cases q q' rule: linorder_cases; simp)+

lemma div_mod_order:
  fixes x y :: int
  shows "x = y \<longleftrightarrow> x div 256 = y div 256 \<and> x mod 256 = y mod 256"
    and "x \<le> y \<longleftrightarrow> x div 256 < y div 256 \<or> (x div 256 = y div 256 \<and> x mod 256 \<le> y mod 256)"
    and "x < y \<longleftrightarrow> x div 256 < y div 256 \<or> (x div 256 = y div 256 \<and> x mod 256 < y mod 256)"
  using digits_order[of "x mod 256" "y mod 256" "x div 256" "y div 256"] by simp_all

lemma div_bound: "0 \<le> (x::int) \<Longrightarrow> x < 256 ^ Suc n \<Longrightarrow> 0 \<le> x div 256 \<and> x div 256 < 256 ^ n"
  by (simp add: pos_imp_zdiv_nonneg_iff div_less_iff_less_mult)

text \<open>\<open>bytes.Compare\<close> on the big-endian bytes is the order of the numbers.\<close>

lemma be_bytes_order:
  assumes "0 \<le> x" "x < 256 ^ n" "0 \<le> y" "y < 256 ^ n"
  shows "(be_bytes n x = be_bytes n y \<longleftrightarrow> x = y) \<and> (be_bytes n x < be_bytes n y \<longleftrightarrow> x < y)
    \<and> (be_bytes n x \<le> be_bytes n y \<longleftrightarrow> x \<le> y)"
  using assms
proof (induction n arbitrary: x y)
  case (Suc n)
  have ih: "(be_bytes n (x div 256) = be_bytes n (y div 256) \<longleftrightarrow> x div 256 = y div 256)"
    "(be_bytes n (x div 256) < be_bytes n (y div 256) \<longleftrightarrow> x div 256 < y div 256)"
    using Suc.IH[of "x div 256" "y div 256"] div_bound[of x n] div_bound[of y n] Suc.prems by blast+
  have l: "length (be_bytes n (x div 256)) = length (be_bytes n (y div 256))" by simp
  show ?case
    unfolding be_bytes.simps lex_snoc[OF l] append1_eq_conv ih div_mod_order[of x y] by blast
qed simp

lemma fill_ones_0 [simp]: "fill_ones 0 bs = bs"
  by (cases bs) auto

lemma fill_ones_mask:
  "fill_ones (int r) (rev (be_bytes n x)) = rev (be_bytes n (x OR mask r))"
proof (induction n arbitrary: r x)
  case (Suc n)
  have d: "(x OR mask r) div 256 = x div 256 OR mask (r - 8)"
    using drop_bit_or[of 8 x "mask r"] drop_bit_mask_eq[of 8 r, where 'a = int] by (simp add: drop_bit_eq_div)
  have m: "(x OR mask r) mod 256 = x mod 256 OR mask (min 8 r)"
    using take_bit_or[of 8 x "mask r"] take_bit_of_mask[of 8 r, where 'a = int] by (simp add: take_bit_eq_mod)
  consider "r = 0" | "0 < r" "r \<le> 8" | "8 < r" by linarith
  then show ?case
  proof cases
    case 1
    then show ?thesis by simp
  next
    case 2
    have "nat (8 - int r) = 8 - r" by simp
    moreover have "drop_bit (8 - r) (mask 8) = (mask r :: int)" using 2 by (simp add: drop_bit_mask_eq)
    moreover have "(255::int) = mask 8" by (simp add: mask_eq_exp_minus_1)
    ultimately have "drop_bit (nat (8 - int r)) 255 = (mask r :: int)" by simp
    with 2 show ?thesis by (simp add: d m)
  next
    case 3
    then have "int r - 8 = int (r - 8)" by simp
    moreover have "(mask 8 :: int) = 255" by (simp add: mask_eq_exp_minus_1)
    ultimately show ?thesis using 3 Suc.IH[of "r - 8" "x div 256"] by (simp add: d m)
  qed
qed simp

text \<open>The first and last address of a prefix, as numbers.\<close>

definition lo :: "prefix \<Rightarrow> int" where "lo p = addr_val (paddr (prefix_masked p))"
definition hi :: "prefix \<Rightarrow> int" where "hi p = lo p OR mask (bit_len (paddr p) - pbits p)"

lemma masked_val: "uint ((w::'a::len word) AND NOT (mask k)) = push_bit k (drop_bit k (uint w))"
  by (rule bit_eqI) (auto simp: bit_simps dest: bit_imp_le_length)

lemma block_hi: "push_bit k (drop_bit k v) OR mask k = 2 ^ k * (v div 2 ^ k) + (2 ^ k - 1 :: int)"
proof -
  have "push_bit k (drop_bit k v) OR mask k = push_bit k (drop_bit k v) + (mask k :: int)"
    by (rule disjunctive_add [symmetric]) (auto simp: bit_simps)
  then show ?thesis by (simp add: push_bit_eq_mult drop_bit_eq_div mask_eq_exp_minus_1)
qed

lemma block_interval:
  "drop_bit k (x::int) = drop_bit k v \<longleftrightarrow>
     push_bit k (drop_bit k v) \<le> x \<and> x \<le> push_bit k (drop_bit k v) OR mask k"
proof -
  let ?K = "2 ^ k :: int" let ?q = "x div ?K" let ?p = "v div ?K"
  have x: "x = ?K * ?q + x mod ?K" "0 \<le> x mod ?K" "x mod ?K < ?K" by simp_all
  have gap: "?K * a + ?K \<le> ?K * b" if "a < b" for a b :: int
    using that mult_left_mono[of "a + 1" b ?K] by (simp add: distrib_left)
  have "?q = ?p \<longleftrightarrow> ?K * ?p \<le> x \<and> x \<le> ?K * ?p + (?K - 1)"
  proof (cases ?q ?p rule: linorder_cases)
    case less
    with gap[OF less] x show ?thesis by linarith
  next
    case equal
    with x show ?thesis by (metis add_left_mono diff_ge_0_iff_ge le_add_same_cancel1 zle_diff1_eq)
  next
    case greater
    with gap[OF greater] x show ?thesis by linarith
  qed
  then show ?thesis unfolding block_hi by (simp add: push_bit_eq_mult drop_bit_eq_div mult.commute)
qed

lemma same_net_val: "same_net k (a::'a::len word) b \<longleftrightarrow> drop_bit k (uint a) = drop_bit k (uint b)"
proof -
  have "uint (drop_bit k w) = drop_bit k (uint w)" for w :: "'a word"
    by (rule bit_eqI) (auto simp: bit_simps dest: bit_imp_le_length)
  then show ?thesis by (simp only: same_net_iff word_uint_eq_iff)
qed

lemma prefix_contains_interval:
  assumes "bit_len a = bit_len (paddr p)"
  shows "prefix_contains p a \<longleftrightarrow> lo p \<le> addr_val a \<and> addr_val a \<le> hi p"
proof -
  obtain q n where [simp]: "p = Prefix q n" by (cases p)
  show ?thesis
    using assms by (cases q; cases a)
      (simp_all add: lo_def hi_def masked_val same_net_val block_interval[symmetric])
qed

lemma addr_val_bound: "0 \<le> addr_val a \<and> addr_val a < 2 ^ bit_len a"
proof (cases a)
  case (V4 w)
  then show ?thesis using uint_lt2p[of w] by simp
next
  case (V6 w)
  then show ?thesis using uint_lt2p[of w] by simp
qed

lemma hi_bound: "0 \<le> lo p \<and> lo p \<le> hi p \<and> hi p < 2 ^ bit_len (paddr p)"
proof -
  obtain q n where [simp]: "p = Prefix q n" by (cases p)
  have lo: "0 \<le> lo p" "lo p < 2 ^ bit_len (paddr p)"
    using addr_val_bound[of "paddr (prefix_masked p)"] by (auto simp: lo_def)
  have "prefix_contains p (paddr (prefix_masked p))"
    using prefix_contains_self[of "prefix_masked p"] by (simp only: prefix_contains_masked)
  then have "lo p \<le> hi p"
    using prefix_contains_interval[of "paddr (prefix_masked p)" p] by simp
  moreover have "hi p < 2 ^ bit_len (paddr p)"
    unfolding hi_def
  proof (rule OR_upper[OF lo])
    have "(2::int) ^ (bit_len (paddr p) - pbits p) \<le> 2 ^ bit_len (paddr p)" by (rule power_increasing) simp_all
    then show "mask (bit_len (paddr p) - pbits p) < (2::int) ^ bit_len (paddr p)"
      unfolding mask_eq_exp_minus_1 by linarith
  qed
  ultimately show ?thesis using lo by simp
qed

lemma exists_addr: "0 \<le> x \<Longrightarrow> x < 2 ^ bit_len b \<Longrightarrow> \<exists>a. bit_len a = bit_len b \<and> addr_val a = x"
proof (cases b)
  case (V4 w)
  assume x: "0 \<le> x" "x < 2 ^ bit_len b"
  with V4 show ?thesis by (intro exI[of _ "V4 (word_of_int x)"]) (simp add: uint_word_of_int)
next
  case (V6 w)
  assume x: "0 \<le> x" "x < 2 ^ bit_len b"
  with V6 show ?thesis by (intro exI[of _ "V6 (word_of_int x)"]) (simp add: uint_word_of_int)
qed

lemma family_bit_len: "FamilyOf p = FamilyOf q \<longleftrightarrow> bit_len (paddr p) = bit_len (paddr q)"
  by (cases "paddr p"; cases "paddr q") (auto simp: FamilyOf_def)

lemma rangeBounds_eq:
  assumes "wf_prefix p" "b = bit_len (paddr p)"
  shows "rangeBounds p b = (be_bytes (b div 8) (lo p), be_bytes (b div 8) (hi p))"
proof -
  have "int b - int (pbits p) = int (b - pbits p)" using assms by (simp add: wf_prefix_def)
  then show ?thesis unfolding rangeBounds_def Let_def hi_def lo_def assms(2)
    by (simp only: fill_ones_mask rev_rev_ident)
qed

lemma rangesIntersect_interval:
  assumes "wf_prefix p" "wf_prefix q" "bit_len (paddr p) = bit_len (paddr q)"
  shows "rangesIntersect p q \<longleftrightarrow> lo p \<le> hi q \<and> lo q \<le> hi p"
proof -
  let ?n = "bit_len (paddr q) div 8"
  have n: "(2::int) ^ bit_len (paddr q) = 256 ^ ?n" by (cases "paddr q") simp_all
  have "be_bytes ?n x \<le> be_bytes ?n y \<longleftrightarrow> x \<le> y" if "0 \<le> x" "x < 256 ^ ?n" "0 \<le> y" "y < 256 ^ ?n" for x y
    using be_bytes_order[OF that] by blast
  then have "be_bytes ?n (lo p) \<le> be_bytes ?n (hi q) \<longleftrightarrow> lo p \<le> hi q"
    "be_bytes ?n (lo q) \<le> be_bytes ?n (hi p) \<longleftrightarrow> lo q \<le> hi p"
    using hi_bound[of p] hi_bound[of q] unfolding n assms(3) by auto
  then show ?thesis
    using assms(3) rangeBounds_eq[OF assms(1) refl] rangeBounds_eq[OF assms(2) refl]
    by (simp add: rangesIntersect_def family_bit_len)
qed

lemma ranges_intersect_iff:
  assumes "wf_prefix p" "wf_prefix q"
  shows "rangesIntersect p q \<longleftrightarrow> addrs p \<inter> addrs q \<noteq> {}"
proof (cases "bit_len (paddr p) = bit_len (paddr q)")
  case True
  note iv = rangesIntersect_interval[OF assms True]
  show ?thesis
  proof
    assume "rangesIntersect p q"
    then have i: "lo p \<le> hi q \<and> lo q \<le> hi p" by (simp add: iv)
    let ?x = "max (lo p) (lo q)"
    have "0 \<le> ?x" "?x < 2 ^ bit_len (paddr q)" "?x \<le> hi p" "?x \<le> hi q"
      using hi_bound[of p] hi_bound[of q] True i by auto
    then obtain a where a: "bit_len a = bit_len (paddr q)" "addr_val a = ?x"
      using exists_addr by blast
    then have "a \<in> addrs p" "a \<in> addrs q"
      using prefix_contains_interval[of a p] prefix_contains_interval[of a q] True
        \<open>?x \<le> hi p\<close> \<open>?x \<le> hi q\<close> by (auto simp: addrs_def)
    then show "addrs p \<inter> addrs q \<noteq> {}" by blast
  next
    assume "addrs p \<inter> addrs q \<noteq> {}"
    then obtain a where a: "prefix_contains p a" "prefix_contains q a" by (auto simp: addrs_def)
    then have "bit_len a = bit_len (paddr p)" using prefix_contains_family by blast
    then show "rangesIntersect p q"
      using a prefix_contains_interval[of a p] prefix_contains_interval[of a q] True by (auto simp: iv)
  qed
next
  case False
  then have "\<not> (prefix_contains p a \<and> prefix_contains q a)" for a
    using prefix_contains_family by metis
  then have "addrs p \<inter> addrs q = {}" by (auto simp: addrs_def)
  with False show ?thesis by (simp add: rangesIntersect_def family_bit_len)
qed

text \<open>The byte-slice interval test behind the partial-overlap case is exact: on well-formed
  prefixes \<open>rangesIntersect\<close> holds exactly when the two prefixes share an address.\<close>

theorem ranges_intersect_exact:
  assumes "wf_prefix p" "wf_prefix q"
  shows "rangesIntersect p q \<longleftrightarrow> (\<exists>a. prefix_contains p a \<and> prefix_contains q a)"
  using ranges_intersect_iff[OF assms] by (auto simp: addrs_def)

theorem ranges_intersect_exact_witness:
  "\<exists>a. prefix_contains (Prefix (V4 0x0A000000) 13) a \<and> prefix_contains (Prefix (V4 0x0A070000) 16) a"
proof -
  let ?p = "Prefix (V4 0x0A000000) 13" let ?q = "Prefix (V4 0x0A070000) 16"
  have "wf_prefix ?p" "wf_prefix ?q" by (simp_all add: wf_prefix_def)
  moreover have "rangesIntersect ?p ?q" by code_simp
  ultimately show ?thesis using ranges_intersect_exact[of ?p ?q] by blast
qed

section \<open>Geometry\<close>

lemma mem_addrs: "a \<in> addrs p \<longleftrightarrow> prefix_contains p a"
  by (simp add: addrs_def)

lemma base_mem [simp]: "paddr p \<in> addrs p"
  by (simp add: mem_addrs)

lemma canonical_wf [simp]: "canonical p \<Longrightarrow> wf_prefix p"
  by (simp add: canonical_def)

lemma addrs_inj: "canonical p \<Longrightarrow> canonical q \<Longrightarrow> addrs p = addrs q \<Longrightarrow> p = q"
proof -
  assume c: "canonical p" "canonical q" and e: "addrs p = addrs q"
  have b: "pbits p = pbits q"
    using c e sub_bits[of p q] sub_bits[of q p] by (intro le_antisym) auto
  have "paddr p \<in> addrs q" "paddr q \<in> addrs p"
    using base_mem[of p] base_mem[of q] by (simp_all only: e)
  then have len: "bit_len (paddr p) = bit_len (paddr q)"
    unfolding mem_addrs by (blast dest: prefix_contains_family)
  have m: "prefix_masked p = p" "prefix_masked q = q" using c by (simp_all add: canonical_def)
  have q: "lo p \<le> lo q" "lo q \<le> lo p"
    using \<open>paddr p \<in> addrs q\<close> \<open>paddr q \<in> addrs p\<close> prefix_contains_interval[of "paddr p" q]
      prefix_contains_interval[of "paddr q" p] len m by (simp_all add: mem_addrs lo_def)
  then have "addr_val (paddr p) = addr_val (paddr q)" using m by (simp add: lo_def)
  with b len show "p = q" by (intro prefix_key_inj) (simp add: prefix_key_def)
qed

lemma full_contains:
  assumes "IsFullTunnel p" "FamilyOf p = FamilyOf q"
  shows "prefix_contains p (paddr q)"
proof -
  obtain a b where [simp]: "p = Prefix a 0" using assms(1) by (cases p) (auto simp: IsFullTunnel_def)
  show ?thesis using assms(2)
    by (cases a; cases "paddr q") (auto simp: FamilyOf_def same_net_iff)
qed

lemma sub_contains_iff:
  assumes "wf_prefix p" "wf_prefix q"
  shows "addrs q \<subseteq> addrs p \<longleftrightarrow> prefix_contains p (paddr q) \<and> pbits p \<le> pbits q"
proof
  assume s: "addrs q \<subseteq> addrs p"
  then have "paddr q \<in> addrs p" by (rule subsetD) simp
  with s sub_bits[OF assms] show "prefix_contains p (paddr q) \<and> pbits p \<le> pbits q"
    unfolding mem_addrs by blast
qed (simp add: contains_sub)

lemma disjoint_families: "FamilyOf p \<noteq> FamilyOf q \<Longrightarrow> addrs p \<inter> addrs q = {}"
  unfolding family_bit_len disjoint_iff mem_addrs by (metis prefix_contains_family)

lemma sub_family: "addrs q \<subseteq> addrs p \<Longrightarrow> FamilyOf p = FamilyOf q"
  using disjoint_families[of p q] addrs_nonempty[of q] by blast

text \<open>C4: On canonical prefixes \<open>Classify\<close> is the relation of the two address sets: \<open>identical\<close>
  when they are equal, \<open>full_tunnel\<close> or \<open>contained\<close> when one properly contains the other (the
  former when the larger is a whole family), \<open>none\<close> when they are disjoint. \<open>partial\<close> never
  occurs, so the blocking severity is reached by identical prefixes only.\<close>

theorem classify_is_geometry:
  assumes "canonical p" "canonical q"
  shows "Classify p q =
    (if addrs p = addrs q then ConflictIdentical
     else if addrs p \<subset> addrs q \<or> addrs q \<subset> addrs p then
       (if IsFullTunnel p \<or> IsFullTunnel q then ConflictFullTunnel else ConflictContained)
     else ConflictNone)"
proof (cases "FamilyOf p = FamilyOf q")
  case False
  then have "addrs p \<inter> addrs q = {}" by (rule disjoint_families)
  then have "addrs p \<noteq> addrs q" "\<not> addrs p \<subset> addrs q" "\<not> addrs q \<subset> addrs p"
    using addrs_nonempty[of p] addrs_nonempty[of q] by blast+
  with False show ?thesis by (simp add: Classify_def)
next
  case True
  note sub = sub_contains_iff[of p q] sub_contains_iff[of q p]
  have ri: "rangesIntersect p q \<longleftrightarrow> addrs p \<subseteq> addrs q \<or> addrs q \<subseteq> addrs p"
    using ranges_intersect_iff[of p q] assms laminar[of p q] addrs_nonempty[of p] addrs_nonempty[of q]
    unfolding canonical_def by (metis inf.absorb1 inf.absorb2)
  have full: "addrs r \<subseteq> addrs s" if "IsFullTunnel s" "FamilyOf s = FamilyOf r" for r s
    using full_contains[OF that] that(1) by (intro contains_sub) (simp_all add: IsFullTunnel_def)
  show ?thesis
  proof (cases "p = q")
    case True
    then show ?thesis by (simp add: Classify_def)
  next
    case ne: False
    then have nea: "addrs p \<noteq> addrs q" using addrs_inj assms by blast
    have both: "\<not> (IsFullTunnel p \<and> IsFullTunnel q)"
      using full[of p q] full[of q p] True nea by auto
    consider "IsFullTunnel p" | "IsFullTunnel q" | "\<not> IsFullTunnel p" "\<not> IsFullTunnel q" by blast
    then show ?thesis
    proof cases
      case 1
      then show ?thesis using both ne nea True full[OF 1 True] full_contains[OF 1 True]
        by (auto simp: Classify_def)
    next
      case 2
      then show ?thesis
        using both ne nea True full[OF 2 True[symmetric]] full_contains[OF 2 True[symmetric]]
        by (auto simp: Classify_def)
    next
      case 3
      with ne nea True ri sub assms show ?thesis by (auto simp: Classify_def)
    qed
  qed
qed

theorem classify_is_geometry_witness:
  "Classify (Prefix (V4 0x0A000000) 8) (Prefix (V4 0x0A010000) 16) = ConflictContained \<and>
   addrs (Prefix (V4 0x0A010000) 16) \<subset> addrs (Prefix (V4 0x0A000000) 8)"
proof -
  let ?p = "Prefix (V4 0x0A000000) 8" let ?q = "Prefix (V4 0x0A010000) 16"
  have c: "canonical ?p" "canonical ?q" by (simp_all add: canonical_def wf_prefix_def) code_simp+
  have k: "Classify ?p ?q = ConflictContained" by code_simp
  have n: "\<not> prefix_contains ?q (paddr ?p)" by code_simp
  have "\<not> addrs ?p \<subset> addrs ?q" using n base_mem[of ?p] mem_addrs by blast
  with classify_is_geometry[OF c] k show ?thesis by (auto split: if_splits)
qed

end
