(* ===== verification/PolicyReport.thy ===== *)
theory PolicyReport
  imports PolicyGeometry
begin

text \<open>
  What the analyzers of \<open>internal/policy\<close> promise: canonical prefix sets, severities that separate
  ties from deterministic overlaps, a report that does not depend on the order of the tunnels.
\<close>

section \<open>Most specific claim wins\<close>

text \<open>
  Longest-prefix match and most-specific-domain match are one argument: a claim covers some
  targets, has a length, and two claims of the same length covering one target are the same claim.
\<close>

definition best_claims :: "('p \<Rightarrow> 'a \<Rightarrow> bool) \<Rightarrow> ('p \<Rightarrow> nat) \<Rightarrow> (string \<times> 'p) list \<Rightarrow> 'a \<Rightarrow> string set" where
  "best_claims covers len claims x =
     {t. \<exists>p. (t, p) \<in> set claims \<and> covers p x \<and> (\<forall>(t', q) \<in> set claims. covers q x \<longrightarrow> len q \<le> len p)}"

definition tie_free :: "(string \<times> 'p) list \<Rightarrow> bool" where
  "tie_free claims \<longleftrightarrow> (\<forall>(t, p) \<in> set claims. \<forall>(t', q) \<in> set claims. p = q \<longrightarrow> t = t')"

locale specificity =
  fixes covers :: "'p \<Rightarrow> 'a \<Rightarrow> bool"
    and len :: "'p \<Rightarrow> nat"
    and ok :: "'p \<Rightarrow> bool"
  assumes tie: "ok p \<Longrightarrow> ok q \<Longrightarrow> covers p x \<Longrightarrow> covers q x \<Longrightarrow> len p = len q \<Longrightarrow> p = q"
begin

lemma best_unique:
  assumes "tie_free claims" "\<forall>(t, p) \<in> set claims. ok p"
    "t \<in> best_claims covers len claims x" "t' \<in> best_claims covers len claims x"
  shows "t = t'"
proof -
  obtain p where p: "(t, p) \<in> set claims" "covers p x" "\<forall>(t', q) \<in> set claims. covers q x \<longrightarrow> len q \<le> len p"
    using assms(3) by (auto simp: best_claims_def)
  obtain q where q: "(t', q) \<in> set claims" "covers q x" "\<forall>(t', p) \<in> set claims. covers p x \<longrightarrow> len p \<le> len q"
    using assms(4) by (auto simp: best_claims_def)
  have "len p = len q" using p q by (intro le_antisym) auto
  with p q assms(2) have "p = q" by (auto intro: tie)
  with p(1) q(1) assms(1) show ?thesis by (auto simp: tie_free_def)
qed

end

lemma prefix_tie:
  assumes "canonical p" "canonical q" "prefix_contains p x" "prefix_contains q x" "pbits p = pbits q"
  shows "p = q"
proof -
  have "prefix_contains p (paddr q)" "prefix_contains q (paddr p)"
    using overlap_contains[of x p q] overlap_contains[of x q p] assms by (simp_all add: mem_addrs)
  then have "addrs p = addrs q"
    using contains_sub[of p q] contains_sub[of q p] assms(5) by auto
  with assms show ?thesis by (auto intro: addrs_inj)
qed

interpretation lpm: specificity prefix_contains pbits canonical
  by unfold_locales (rule prefix_tie)

text \<open>A claimed domain covers itself and its subdomains.\<close>

definition domain_covers :: "string \<Rightarrow> string \<Rightarrow> bool" where
  "domain_covers d name \<longleftrightarrow> name = d \<or> domainContains d name"

lemma domain_covers_suffix: "domain_covers d name \<Longrightarrow> length d \<le> length name \<and> drop (length name - length d) name = d"
proof -
  assume c: "domain_covers d name"
  show ?thesis
  proof (cases "name = d")
    case False
    with c have "has_suffix name (''.'' @ d)" by (auto simp: domain_covers_def domainContains_def split: if_splits)
    then obtain a where "name = a @ ''.'' @ d" using has_suffixE by blast
    then show ?thesis by simp
  qed simp
qed

interpretation dsm: specificity domain_covers length "\<lambda>_. True"
  by unfold_locales (metis domain_covers_suffix)

section \<open>ParsePrefixes\<close>

lemma map_filter_mem [simp]: "y \<in> set (List.map_filter f xs) \<longleftrightarrow> (\<exists>x \<in> set xs. f x = Some y)"
  by (induction xs) (auto simp: List.map_filter_simps split: option.splits)

lemma map_filter_pairs_mem:
  "y \<in> set (List.map_filter (\<lambda>(a, b). f a b) ps) \<longleftrightarrow> (\<exists>a b. (a, b) \<in> set ps \<and> f a b = Some y)"
  unfolding map_filter_mem by (metis (mono_tags, lifting) case_prod_conv surj_pair)

lemma netip_parse_wf: "netip_parse_prefix s = Some p \<Longrightarrow> wf_prefix p"
  by (auto simp: netip_parse_prefix_def wf_prefix_def split: option.splits prod.splits if_splits)

lemma parsePrefix_canonical: "parsePrefix s = Some p \<Longrightarrow> canonical p"
  by (auto simp: parsePrefix_def Let_def wf_prefix_def dest: netip_parse_wf
      split: if_splits option.splits prod.splits intro!: canonical_masked simp del: prefix_masked.simps)

lemma ParsePrefixes_mem:
  "p \<in> set (ParsePrefixes vs) \<longleftrightarrow> (\<exists>v \<in> set vs. \<exists>f \<in> set (comma_fields v). parsePrefix f = Some p)"
  by (simp add: ParsePrefixes_def)

lemma ParsePrefixes_canonical: "p \<in> set (ParsePrefixes vs) \<Longrightarrow> canonical p"
  using parsePrefix_canonical by (auto simp: ParsePrefixes_mem)

text \<open>\<open>ParsePrefixes\<close> yields a canonical prefix set: every entry masked, the list sorted and
  without duplicates, and, whatever the spelling, order and grouping of the input, exactly the
  prefixes its comma-separated fields denote, so two inputs denoting the same set give the same
  list.\<close>

theorem parse_prefixes_canonical_set:
  "list_all canonical (ParsePrefixes vs) \<and> sorted (ParsePrefixes vs) \<and> distinct (ParsePrefixes vs) \<and>
   set (ParsePrefixes vs) = {p. \<exists>f. f \<in> (\<Union>v \<in> set vs. set (comma_fields v)) \<and> parsePrefix f = Some p}"
proof -
  have "sorted (ParsePrefixes vs)" "distinct (ParsePrefixes vs)" by (simp_all add: ParsePrefixes_def)
  moreover have "list_all canonical (ParsePrefixes vs)"
    using ParsePrefixes_canonical by (auto simp: list_all_iff)
  moreover have "set (ParsePrefixes vs) = {p. \<exists>f. f \<in> (\<Union>v \<in> set vs. set (comma_fields v)) \<and> parsePrefix f = Some p}"
    by (rule set_eqI) (simp only: mem_Collect_eq UN_iff ParsePrefixes_mem, blast)
  ultimately show ?thesis by blast
qed

section \<open>Members of the reports\<close>

lemma prefix_sets_mem: "(t, p) \<in> set (prefix_sets ts) \<longleftrightarrow> (\<exists>v \<in> set ts. tv_name v = t \<and> p \<in> set (ParsePrefixes (tv_allowed_ips v)))"
  by (auto simp: prefix_sets_def)

lemma prefix_sets_canonical: "(t, p) \<in> set (prefix_sets ts) \<Longrightarrow> canonical p"
  using ParsePrefixes_canonical by (auto simp: prefix_sets_mem)

lemma routes_mem:
  "c \<in> set (AnalyzeRoutes ts) \<longleftrightarrow> (\<exists>x y. (x, y) \<in> set (pairs (prefix_sets ts)) \<and> route_conflict_of x y = Some c)"
  by (simp only: AnalyzeRoutes_def set_sort map_filter_pairs_mem)

lemma route_conflictE:
  assumes "c \<in> set (AnalyzeRoutes ts)"
  obtains t p t' q where "(t, p) \<in> set (prefix_sets ts)" "(t', q) \<in> set (prefix_sets ts)"
    "route_conflict_of (t, p) (t', q) = Some c" "canonical p" "canonical q"
proof -
  from assms obtain x y where "(x, y) \<in> set (pairs (prefix_sets ts))" "route_conflict_of x y = Some c"
    unfolding routes_mem by blast
  moreover from pairs_mem[OF this(1)] have "x \<in> set (prefix_sets ts)" "y \<in> set (prefix_sets ts)" by blast+
  ultimately show thesis
    using that[of "fst x" "snd x" "fst y" "snd y"]
      prefix_sets_canonical[of "fst x" "snd x" ts] prefix_sets_canonical[of "fst y" "snd y" ts] by simp
qed

lemma route_conflict_severity:
  assumes "route_conflict_of (t, p) (t', q) = Some c" "canonical p" "canonical q"
  shows "rc_severity c = SeverityBlocking \<longleftrightarrow> p = q" "rc_severity c \<noteq> SeverityWarning"
    "rc_a c = t" "rc_b c = t'" "t \<noteq> t'"
  using assms(1) classify_is_geometry[OF assms(2,3)] addrs_inj[OF assms(2,3)]
  by (auto simp: route_conflict_of_def routeSeverity_def Let_def split: if_splits prod.splits route_kind.splits)

lemma route_conflict_identical:
  "t \<noteq> t' \<Longrightarrow> \<exists>c. route_conflict_of (t, p) (t', p) = Some c \<and> rc_severity c = SeverityBlocking"
  by (simp add: route_conflict_of_def Classify_def routeSeverity_def)

lemma routes_blocking_iff:
  "(\<exists>c \<in> set (AnalyzeRoutes ts). rc_severity c = SeverityBlocking) \<longleftrightarrow> \<not> tie_free (prefix_sets ts)"
proof
  assume "\<exists>c \<in> set (AnalyzeRoutes ts). rc_severity c = SeverityBlocking"
  then obtain c where b: "c \<in> set (AnalyzeRoutes ts)" "rc_severity c = SeverityBlocking" by blast
  from b(1) obtain t p t' q where c: "(t, p) \<in> set (prefix_sets ts)" "(t', q) \<in> set (prefix_sets ts)"
    "route_conflict_of (t, p) (t', q) = Some c" "canonical p" "canonical q" by (rule route_conflictE)
  with b(2) route_conflict_severity[OF c(3-5)] have "p = q" "t \<noteq> t'" by blast+
  with c(1,2) show "\<not> tie_free (prefix_sets ts)" unfolding tie_free_def by blast
next
  assume "\<not> tie_free (prefix_sets ts)"
  then obtain t p t' where m: "(t, p) \<in> set (prefix_sets ts)" "(t', p) \<in> set (prefix_sets ts)" "t \<noteq> t'"
    by (auto simp: tie_free_def)
  then have "((t, p), (t', p)) \<in> set (pairs (prefix_sets ts)) \<or> ((t', p), (t, p)) \<in> set (pairs (prefix_sets ts))"
    using pairs_total[OF m(1,2)] by simp
  moreover obtain c c' where "route_conflict_of (t, p) (t', p) = Some c" "rc_severity c = SeverityBlocking"
    "route_conflict_of (t', p) (t, p) = Some c'" "rc_severity c' = SeverityBlocking"
    using route_conflict_identical m(3) by metis
  ultimately show "\<exists>c \<in> set (AnalyzeRoutes ts). rc_severity c = SeverityBlocking"
    by (metis routes_mem)
qed

text \<open>A route conflict blocks exactly when two different tunnels claim the same prefix, and
  every other overlap is informational.\<close>

theorem route_blocking_iff_same_prefix:
  "((\<exists>c. c \<in> set (AnalyzeRoutes ts) \<and> rc_severity c = SeverityBlocking) \<longleftrightarrow>
    (\<exists>t p t'. (t, p) \<in> set (prefix_sets ts) \<and> (t', p) \<in> set (prefix_sets ts) \<and> t \<noteq> t')) \<and>
   SeverityWarning \<notin> rc_severity ` set (AnalyzeRoutes ts)"
proof -
  have "rc_severity c \<noteq> SeverityWarning" if "c \<in> set (AnalyzeRoutes ts)" for c
    using that by (rule route_conflictE) (rule route_conflict_severity(2))
  moreover have "(\<exists>c. c \<in> set (AnalyzeRoutes ts) \<and> rc_severity c = SeverityBlocking) \<longleftrightarrow>
      (\<exists>t p t'. (t, p) \<in> set (prefix_sets ts) \<and> (t', p) \<in> set (prefix_sets ts) \<and> t \<noteq> t')"
    using routes_blocking_iff[of ts] unfolding tie_free_def by blast
  ultimately show ?thesis by (metis imageE)
qed

text \<open>C2: When no route conflict blocks, routing is deterministic: for every address, all the
  longest matching prefixes of the tunnels belong to one tunnel.\<close>

theorem unblocked_routes_deterministic:
  assumes "\<not> (\<exists>c. c \<in> set (AnalyzeRoutes ts) \<and> rc_severity c = SeverityBlocking)"
    "t \<in> best_claims prefix_contains pbits (prefix_sets ts) x"
    "t' \<in> best_claims prefix_contains pbits (prefix_sets ts) x"
  shows "t = t'"
proof (rule lpm.best_unique[OF _ _ assms(2,3)])
  show "tie_free (prefix_sets ts)" using assms(1) routes_blocking_iff[of ts] by blast
  show "\<forall>(t, p) \<in> set (prefix_sets ts). canonical p" using prefix_sets_canonical by blast
qed

definition two_views :: "tunnel_view list" where
  "two_views =
     [\<lparr>tv_name = ''home'', tv_allowed_ips = [''10.0.0.0/8''], tv_protect = True, tv_domains = [''example.com''],
       tv_default_dns = False, tv_resolve_path = True, tv_active = True\<rparr>,
      \<lparr>tv_name = ''work'', tv_allowed_ips = [''10.1.0.0/16, 172.16.0.0/12''], tv_protect = False,
       tv_domains = [''*.Corp.example.com.''], tv_default_dns = False, tv_resolve_path = False, tv_active = True\<rparr>]"

theorem unblocked_routes_deterministic_witness:
  "best_claims prefix_contains pbits (prefix_sets two_views) (V4 0x0A010203) = {''work''}"
proof -
  have nb: "\<not> (\<exists>c. c \<in> set (AnalyzeRoutes two_views) \<and> rc_severity c = SeverityBlocking)"
  proof -
    have "list_all (\<lambda>c. rc_severity c \<noteq> SeverityBlocking) (AnalyzeRoutes two_views)" by code_simp
    then show ?thesis by (auto simp: list_all_iff)
  qed
  have s: "prefix_sets two_views =
    [(''home'', Prefix (V4 0x0A000000) 8), (''work'', Prefix (V4 0x0A010000) 16), (''work'', Prefix (V4 0xAC100000) 12)]"
    by code_simp
  have "prefix_contains (Prefix (V4 0x0A010000) 16) (V4 0x0A010203)"
    "\<not> prefix_contains (Prefix (V4 0xAC100000) 12) (V4 0x0A010203)" by code_simp+
  then have "''work'' \<in> best_claims prefix_contains pbits (prefix_sets two_views) (V4 0x0A010203)"
    unfolding best_claims_def s by auto
  with unblocked_routes_deterministic[OF nb] show ?thesis by blast
qed

section \<open>The order of the tunnels\<close>

lemma sort_key_set_unique:
  assumes "distinct (map f xs)" "distinct (map f ys)" "set xs = set ys"
  shows "sort_key f xs = sort_key f ys"
proof (rule map_sorted_distinct_set_unique[of f])
  show "inj_on f (set (sort_key f xs) \<union> set (sort_key f ys))" using assms by (simp add: distinct_map)
  have p: "distinct (sort_key f zs)" if "distinct (map f zs)" for zs using that by (simp add: distinct_map)
  show "distinct (map f (sort_key f xs))" "distinct (map f (sort_key f ys))"
    using assms p by (simp_all add: distinct_map)
qed (use assms in simp_all)

text \<open>The order in which tunnels are listed never matters: two listings of the same tunnels,
  each name once, give the same report.\<close>

theorem analyze_order_independent:
  assumes "distinct (map tv_name ts)" "distinct (map tv_name us)" "set ts = set us"
  shows "Analyze ts = Analyze us"
  by (simp only: Analyze_def sort_key_set_unique[OF assms])

theorem analyze_order_independent_witness: "Analyze (rev two_views) = Analyze two_views"
  by (rule analyze_order_independent) (auto simp: two_views_def)

section \<open>The severity of a report\<close>

lemma worst_of_max: "worst_of s ss = Max (insert s (set ss))"
proof (induction ss arbitrary: s)
  case (Cons x xs)
  have "(if rank x > rank s then x else s) = max s x"
    by (auto simp: max_def less_eq_severity_def rank_inj)
  with Cons show ?case by (cases "xs = []") (auto simp: max.commute max.left_commute max.assoc insert_commute)
qed simp

definition severities :: "report \<Rightarrow> severity set" where
  "severities r = rc_severity ` set (rp_routes r) \<union> dc_severity ` set (rp_dns r) \<union> pc_severity ` set (rp_protection r)"

lemma Severity_max: "Severity r = Max (insert SeverityInfo (severities r))"
proof -
  have a: "worst_of (worst_of s xs) ys = worst_of s (xs @ ys)" for s xs ys
    by (induction xs arbitrary: s) auto
  show ?thesis unfolding Severity_def a unfolding worst_of_max by (simp add: severities_def Un_assoc)
qed

text \<open>The severity of a report is the highest of its conflicts' severities, and the report
  blocks exactly when some conflict does; filtering it to one tunnel never raises it.\<close>

theorem severity_is_maximum:
  "Severity r = Max (insert SeverityInfo (severities r)) \<and>
   (Blocking r \<longleftrightarrow> SeverityBlocking \<in> severities r) \<and> Severity (ForTunnel r n) \<le> Severity r"
proof -
  have f: "finite (severities r)" by (simp add: severities_def)
  have top: "s \<le> SeverityBlocking" for s by (cases s) (simp_all add: less_eq_severity_def)
  have "Blocking r \<longleftrightarrow> SeverityBlocking \<in> severities r"
  proof
    assume "Blocking r"
    then show "SeverityBlocking \<in> severities r"
      using Max_in[of "insert SeverityInfo (severities r)"] f by (auto simp: Blocking_def Severity_max)
  next
    assume "SeverityBlocking \<in> severities r"
    then show "Blocking r"
      using f top by (auto simp: Blocking_def Severity_max intro!: Max_eqI)
  qed
  moreover have "Severity (ForTunnel r n) \<le> Severity r"
    unfolding Severity_max using f by (intro Max_mono) (auto simp: severities_def ForTunnel_def)
  ultimately show ?thesis by (simp add: Severity_max)
qed

section \<open>DNS roles\<close>

lemma dns_mem:
  "c \<in> set (AnalyzeDNS ts) \<longleftrightarrow>
     (\<exists>x y. (x, y) \<in> set (pairs (domain_claims ts)) \<and> domain_conflict_of x y = Some c) \<or>
     (length (default_dns_names ts) > 1 \<and> c \<in> set (default_dns_conflicts (sort (default_dns_names ts)))) \<or>
     c \<in> set (path_conflicts (active_map ts) (path_claim_names ts)) \<or>
     c \<in> set (path_vs_default (active_map ts) (path_claim_names ts)
       (if length (default_dns_names ts) > 1 then sort (default_dns_names ts) else default_dns_names ts))"
  unfolding AnalyzeDNS_def Let_def set_sort set_append Un_iff map_filter_pairs_mem by auto

definition dns_unblocked :: "tunnel_view list \<Rightarrow> bool" where
  "dns_unblocked ts \<longleftrightarrow> \<not> (\<exists>c. c \<in> set (AnalyzeDNS ts) \<and> dc_severity c = SeverityBlocking)"

lemma active_map_iff: "distinct (map tv_name ts) \<Longrightarrow> v \<in> set ts \<Longrightarrow> active_map ts (tv_name v) = tv_active v"
proof -
  assume "distinct (map tv_name ts)" and v: "v \<in> set ts"
  then have d: "distinct (map fst (rev (map (\<lambda>t. (tv_name t, tv_active t)) ts)))"
    by (simp add: o_def flip: rev_map)
  have "(tv_name v, tv_active v) \<in> set (rev (map (\<lambda>t. (tv_name t, tv_active t)) ts))" using v by auto
  from map_of_is_SomeI[OF d this] show ?thesis by (simp add: active_map_def)
qed

lemma domain_tie_blocks: "dns_unblocked ts \<Longrightarrow> tie_free (domain_claims ts)"
proof (rule ccontr)
  assume u: "dns_unblocked ts" and "\<not> tie_free (domain_claims ts)"
  then obtain t d t' where m: "(t, d) \<in> set (domain_claims ts)" "(t', d) \<in> set (domain_claims ts)" "t \<noteq> t'"
    by (auto simp: tie_free_def)
  then have p: "((t, d), (t', d)) \<in> set (pairs (domain_claims ts)) \<or> ((t', d), (t, d)) \<in> set (pairs (domain_claims ts))"
    using pairs_total[OF m(1,2)] by simp
  have "\<exists>c. domain_conflict_of (a, d) (b, d) = Some c \<and> dc_severity c = SeverityBlocking" if "a \<noteq> b" for a b
    using that by (simp add: domain_conflict_of_def)
  with p m(3) u show False unfolding dns_unblocked_def dns_mem by metis
qed

lemma one_default_dns: "dns_unblocked ts \<Longrightarrow> length (default_dns_names ts) \<le> 1"
proof (rule ccontr)
  assume u: "dns_unblocked ts" and l: "\<not> length (default_dns_names ts) \<le> 1"
  then obtain a b rest where "sort (default_dns_names ts) = a # b # rest"
    by (metis One_nat_def Suc_le_length_iff length_sort not_less_eq_eq)
  then have "default_dns_conflicts (sort (default_dns_names ts)) \<noteq> []"
    by (simp add: default_dns_conflicts_def)
  then obtain c where "c \<in> set (default_dns_conflicts (sort (default_dns_names ts)))"
    using hd_in_set by blast
  moreover from this have "dc_severity c = SeverityBlocking" by (auto simp: default_dns_conflicts_def)
  ultimately show False using u l unfolding dns_unblocked_def dns_mem by auto
qed

lemma path_pair_blocks:
  assumes "dns_unblocked ts" "a \<in> set (path_claim_names ts)" "b \<in> set (path_claim_names ts)"
    "active_map ts a" "active_map ts b"
  shows "a = b"
proof (rule ccontr)
  assume "a \<noteq> b"
  then have "(a, b) \<in> set (pairs (path_claim_names ts)) \<or> (b, a) \<in> set (pairs (path_claim_names ts))"
    using pairs_total assms(2,3) by metis
  then have "\<exists>c \<in> set (path_conflicts (active_map ts) (path_claim_names ts)). dc_severity c = SeverityBlocking"
    using assms(4,5) unfolding path_conflicts_def by force
  with assms(1) show False unfolding dns_unblocked_def dns_mem by auto
qed

lemma path_vs_default_has:
  assumes "s \<in> set ps" "d \<in> set ds" "s \<noteq> d" "active s \<or> active d"
  shows "\<exists>c \<in> set (path_vs_default active ps ds). dc_severity c = SeverityBlocking"
  unfolding path_vs_default_def set_concat set_map image_image
  by (rule bexI[rotated], rule UN_I[OF assms(1)], unfold map_filter_mem, rule bexI[OF _ assms(2)],
      rule trans[OF if_not_P[OF assms(3)] refl]) (use assms(4) in simp)

lemma path_default_blocks:
  assumes "dns_unblocked ts" "a \<in> set (path_claim_names ts)" "b \<in> set (default_dns_names ts)" "a \<noteq> b"
  shows "\<not> active_map ts a \<and> \<not> active_map ts b"
proof (rule ccontr)
  assume "\<not> (\<not> active_map ts a \<and> \<not> active_map ts b)"
  then have "\<exists>c \<in> set (path_vs_default (active_map ts) (path_claim_names ts)
       (if length (default_dns_names ts) > 1 then sort (default_dns_names ts) else default_dns_names ts)).
       dc_severity c = SeverityBlocking"
    using assms(2-4) by (intro path_vs_default_has) auto
  with assms(1) show False unfolding dns_unblocked_def dns_mem by auto
qed

text \<open>C7: When no DNS conflict blocks, name resolution has one answer: every name is claimed by one
  tunnel through its most specific domains, at most one tunnel is the default resolver, and among
  connected tunnels at most one claims the resolve path, never beside a different tunnel that is the
  default resolver.\<close>

theorem unblocked_dns_deterministic:
  assumes "dns_unblocked ts" "distinct (map tv_name ts)" "v \<in> set ts" "w \<in> set ts"
  shows "(t \<in> best_claims domain_covers length (domain_claims ts) name \<and>
          t' \<in> best_claims domain_covers length (domain_claims ts) name \<longrightarrow> t = t') \<and>
    (tv_default_dns v \<and> tv_default_dns w \<longrightarrow> tv_name v = tv_name w) \<and>
    (tv_active v \<and> tv_resolve_path v \<and> (tv_active w \<and> tv_resolve_path w \<or> tv_default_dns w) \<longrightarrow>
       tv_name v = tv_name w)"
proof -
  have n: "tv_name u \<in> set (default_dns_names ts) \<longleftrightarrow> tv_default_dns u"
    "tv_name u \<in> set (path_claim_names ts) \<longleftrightarrow> tv_resolve_path u" if "u \<in> set ts" for u
    using that assms(2) by (auto simp: default_dns_names_def path_claim_names_def distinct_map dest: inj_onD)
  have a: "active_map ts (tv_name u) = tv_active u" if "u \<in> set ts" for u
    using that assms(2) by (rule active_map_iff[rotated])
  have "t = t'" if "t \<in> best_claims domain_covers length (domain_claims ts) name"
    "t' \<in> best_claims domain_covers length (domain_claims ts) name"
    using dsm.best_unique[OF domain_tie_blocks[OF assms(1)] _ that] by blast
  moreover have "tv_name v = tv_name w" if "tv_default_dns v" "tv_default_dns w"
    using one_default_dns[OF assms(1)] n(1)[OF assms(3)] n(1)[OF assms(4)] that
    by (cases "default_dns_names ts") auto
  moreover have "tv_name v = tv_name w" if "tv_active v" "tv_resolve_path v" "tv_active w" "tv_resolve_path w"
    using path_pair_blocks[OF assms(1), of "tv_name v" "tv_name w"] n(2)[OF assms(3)] n(2)[OF assms(4)]
      a[OF assms(3)] a[OF assms(4)] that by simp
  moreover have "tv_name v = tv_name w" if "tv_active v" "tv_resolve_path v" "tv_default_dns w"
    using path_default_blocks[OF assms(1), of "tv_name v" "tv_name w"] n(2)[OF assms(3)] n(1)[OF assms(4)]
      a[OF assms(3)] that by blast
  ultimately show ?thesis by blast
qed

theorem unblocked_dns_deterministic_witness:
  "best_claims domain_covers length (domain_claims two_views) ''x.corp.example.com'' = {''work''}"
proof -
  have "list_all (\<lambda>c. dc_severity c \<noteq> SeverityBlocking) (AnalyzeDNS two_views)" by code_simp
  then have u: "dns_unblocked two_views" by (auto simp: dns_unblocked_def list_all_iff)
  have s: "domain_claims two_views = [(''home'', ''example.com''), (''work'', ''corp.example.com'')]" by code_simp
  have "domain_covers ''corp.example.com'' ''x.corp.example.com''" by code_simp
  then have m: "''work'' \<in> best_claims domain_covers length (domain_claims two_views) ''x.corp.example.com''"
    unfolding best_claims_def s by auto
  have d: "distinct (map tv_name two_views)" "hd two_views \<in> set two_views" by (simp_all add: two_views_def)
  from unblocked_dns_deterministic[OF u d(1) d(2) d(2)] m show ?thesis by blast
qed

section \<open>Protection\<close>

text \<open>Two traffic-protection claims of different tunnels conflict exactly when their ranges
  share an address; the conflict blocks when the ranges are equal and warns when one lies strictly
  inside the other.\<close>

theorem protection_severities:
  assumes "(t, p) \<in> set (prefix_sets (filter tv_protect ts))" "(t', q) \<in> set (prefix_sets (filter tv_protect ts))"
  shows "(case protection_conflict_of (t, p) (t', q) of
      None \<Rightarrow> t = t' \<or> addrs p \<inter> addrs q = {}
    | Some c \<Rightarrow> t \<noteq> t' \<and>
        pc_severity c = (if addrs p = addrs q then SeverityBlocking else SeverityWarning) \<and>
        (addrs p \<subseteq> addrs q \<or> addrs q \<subseteq> addrs p))"
proof -
  have c: "canonical p" "canonical q" using assms prefix_sets_canonical by blast+
  have d: "addrs p \<inter> addrs q = {}" if "\<not> addrs p \<subset> addrs q" "\<not> addrs q \<subset> addrs p" "addrs p \<noteq> addrs q"
    using laminar[of p q] that by blast
  show ?thesis
    using classify_is_geometry[OF c] d
    by (auto simp: protection_conflict_of_def Let_def split: if_splits route_kind.splits option.splits)
qed

theorem protection_severities_witness:
  "protection_conflict_of (''home'', Prefix (V4 0x0A000000) 8) (''home'', Prefix (V4 0x0A000000) 8) = None"
proof -
  let ?e = "(''home'', Prefix (V4 0x0A000000) 8)"
  have "prefix_sets (filter tv_protect two_views) = [?e]" by code_simp
  then have "?e \<in> set (prefix_sets (filter tv_protect two_views))" by simp
  from protection_severities[OF this this] show ?thesis by (auto split: option.splits)
qed

end
