(* ===== verification/TunnelManager.thy ===== *)
theory TunnelManager
  imports Domain
begin

text \<open>
  The tunnel manager of \<open>internal/tunnel\<close>: the per-tunnel state machine with its locked sections
  (\<open>manager.go\<close>), the connect and disconnect phases as traces of effects with rollback
  (\<open>connect_phases.go\<close>), the status facade and the honest-duration accumulator
  (\<open>manager_status.go\<close>), the DNS and pin facades (\<open>manager_dns.go\<close>, \<open>manager_pin.go\<close>) and crash
  recovery (\<open>recovery.go\<close>). Operating-system work is a trace of effects; which of them fail, when
  the context is cancelled and what the platform network manager reports are parameters.
\<close>

section \<open>errors.go\<close>

datatype err_kind =
    ErrAlreadyConnected | ErrTransitionInProgress | ErrNotConnected | ErrEngineCreation | ErrNetwork
  | ErrResolution | ErrConfig | ErrStateCorrupt | ErrTimeout | ErrFullTunnelConflict | ErrCancelled

record tunnel_error =
  te_kind :: err_kind
  te_msg :: string
  te_cause :: "string option"

definition newTunnelError :: "err_kind \<Rightarrow> string \<Rightarrow> string option \<Rightarrow> tunnel_error" where
  "newTunnelError k m c = \<lparr>te_kind = k, te_msg = m, te_cause = c\<rparr>"

definition te_error :: "tunnel_error \<Rightarrow> string" where
  "te_error e = (case te_cause e of None \<Rightarrow> te_msg e | Some c \<Rightarrow> te_msg e @ '': '' @ c)"

text \<open>The \<open>%q\<close> verb on the printable names the store admits.\<close>

definition quoted :: "string \<Rightarrow> string" where
  "quoted s = CHR 0x22 # s @ [CHR 0x22]"

section \<open>Engines, effects, state files\<close>

record engine =
  en_iface :: string
  en_endpoints :: "string list"
  en_endpoint_ips :: "string list"

record dns_snapshot =
  ds_servers :: "(string \<times> string list) list"
  ds_search :: "(string \<times> string list) list"

definition snapshot0 :: dns_snapshot where
  "snapshot0 = \<lparr>ds_servers = [], ds_search = []\<rparr>"

definition snapshot_empty :: "dns_snapshot \<Rightarrow> bool" where
  "snapshot_empty s \<longleftrightarrow> ds_servers s = [] \<and> ds_search s = []"

record active_state =
  as_tunnel :: string
  as_iface :: string
  as_dns :: "string list"
  as_full :: bool
  as_table :: string
  as_fwmark :: string
  as_endpoint_routes :: "string list"
  as_premod_dns :: "(string \<times> string list) list"
  as_premod_search :: "(string \<times> string list) list"

datatype effect =
    NewEngine string
  | SetMTU string int
  | AssignAddress string "string list"
  | BringUp string
  | RunScript string string
  | EnableEndpointProtection string "string list"
  | DisableEndpointProtection string
  | EngineStart string
  | EngineClose string
  | SetBindInterface string
  | AddRoutes string "string list" bool "string list" string string
  | RemoveRoutes string "string list" bool
  | SaveActiveState active_state
  | ClearActiveState string
  | SetDNS string "string list"
  | RestoreDNS string
  | RestoreDNSFromSnapshot dns_snapshot
  | CapturePreModDNS dns_snapshot
  | ClearPreModDNS
  | NetCleanup string
  | PreCloseAdapterCleanup string

text \<open>\<open>strings.NewReplacer("/", "_", "\", "_", "..", "_")\<close>.\<close>

fun sanitize :: "string \<Rightarrow> string" where
  "sanitize (c # d # s) =
     (if c = CHR ''/'' \<or> c = CHR 0x5C then CHR ''_'' # sanitize (d # s)
      else if c = CHR ''.'' \<and> d = CHR ''.'' then CHR ''_'' # sanitize s
      else c # sanitize (d # s))"
| "sanitize [c] = (if c = CHR ''/'' \<or> c = CHR 0x5C then ''_'' else [c])"
| "sanitize [] = []"

definition stateFileName :: "string \<Rightarrow> string" where
  "stateFileName n = sanitize n @ ''.json''"

text \<open>The directory of state files after an effect that succeeds.\<close>

type_synonym state_files = "(string \<times> active_state) list"

fun file_effect :: "effect \<Rightarrow> state_files \<Rightarrow> state_files" where
  "file_effect (SaveActiveState st) fs = AList.update (stateFileName (as_tunnel st)) st fs"
| "file_effect (ClearActiveState n) fs = AList.delete (stateFileName n) fs"
| "file_effect _ fs = fs"

definition files_after :: "effect list \<Rightarrow> state_files \<Rightarrow> state_files" where
  "files_after tr fs = foldl (\<lambda>f e. file_effect e f) fs tr"

section \<open>connect_phases.go\<close>

text \<open>
  What the phases get from outside: the engine factory, which effects fail (with the error text),
  the context error at each phase boundary, and the platform network manager's optional
  interfaces. \<open>ce_existing_dns\<close> is \<open>AllDNSServers\<close> at the time of the DNS phase.
\<close>

record conn_env =
  ce_factory :: "wg_config \<Rightarrow> string + engine"
  ce_fails :: "effect \<Rightarrow> string option"
  ce_ctx :: "nat \<Rightarrow> string option"
  ce_protector :: bool
  ce_can_bind :: bool
  ce_routes :: "string list"
  ce_snapshot :: "dns_snapshot option"
  ce_existing_dns :: "string list"

text \<open>
  A step: the check of the context between phases, an effect whose error ends the connect, an effect whose error is only
  logged. The list is what the return statement of the step's own error branch does first: the call of \<open>rollback\<close>.
\<close>

datatype step = Check "effect list" | Must effect err_kind string "effect list" | Try effect

definition all_allowed_ips :: "wg_config \<Rightarrow> string list" where
  "all_allowed_ips cfg = concat (map p_allowed_ips (cfg_peers cfg))"

definition merge_dns :: "string list \<Rightarrow> string list \<Rightarrow> string list" where
  "merge_dns dnsServers existing =
     (if dnsServers \<noteq> [] \<and> existing \<noteq> [] then dedup (dnsServers @ existing) else dnsServers)"

definition hook :: "wg_config \<Rightarrow> string \<Rightarrow> string \<Rightarrow> step list" where
  "hook cfg kind cmd = (if cfg_enable_scripts cfg \<and> cmd \<noteq> '''' then [Try (RunScript kind cmd)] else [])"

definition active_state_of :: "conn_env \<Rightarrow> wg_config \<Rightarrow> engine \<Rightarrow> dns_snapshot \<Rightarrow> active_state" where
  "active_state_of env cfg eng pre =
     \<lparr>as_tunnel = cfg_name cfg, as_iface = en_iface eng, as_dns = i_dns (cfg_interface cfg),
      as_full = cfg_IsFullTunnel cfg, as_table = i_table (cfg_interface cfg),
      as_fwmark = i_fw_mark (cfg_interface cfg), as_endpoint_routes = ce_routes env,
      as_premod_dns = ds_servers pre, as_premod_search = ds_search pre\<rparr>"

text \<open>Effects that return no error in the source.\<close>

fun infallible :: "effect \<Rightarrow> bool" where
  "infallible (CapturePreModDNS _) = True"
| "infallible ClearPreModDNS = True"
| "infallible (EngineClose _) = True"
| "infallible (SetBindInterface _) = True"
| "infallible (PreCloseAdapterCleanup _) = True"
| "infallible _ = False"

definition failure :: "(effect \<Rightarrow> string option) \<Rightarrow> effect \<Rightarrow> string option" where
  "failure fails e = (if infallible e then None else fails e)"

text \<open>What is attempted and does not fail.\<close>

definition attempted :: "(effect \<Rightarrow> string option) \<Rightarrow> effect list \<Rightarrow> effect list" where
  "attempted fails es = filter (\<lambda>e. failure fails e = None) es"

text \<open>The rollback closure attempts every step whether or not the previous one failed.\<close>

definition rollback :: "conn_env \<Rightarrow> wg_config \<Rightarrow> engine \<Rightarrow> effect list" where
  "rollback env cfg eng =
     attempted (ce_fails env)
       ([RemoveRoutes (en_iface eng) (all_allowed_ips cfg) (cfg_IsFullTunnel cfg)] @
        (if ce_protector env then [DisableEndpointProtection (en_iface eng)] else []) @
        [NetCleanup (en_iface eng), EngineClose (en_iface eng)])"

text \<open>
  The phases after the engine exists, in program order: interface set-up, endpoint protection, engine
  start, routes, DNS with its crash-recovery checkpoints.
\<close>

definition setup_steps :: "effect list \<Rightarrow> wg_config \<Rightarrow> engine \<Rightarrow> step list" where
  "setup_steps rb cfg eng =
     (let ifc = cfg_interface cfg; iface = en_iface eng in
      [Check rb,
       Must (SetMTU iface (i_mtu ifc)) ErrNetwork ''setting MTU'' rb, Check rb,
       Must (AssignAddress iface (i_address ifc)) ErrNetwork ''assigning address'' rb, Check rb,
       Must (BringUp iface) ErrNetwork ''bringing up interface'' rb, Check rb] @
      hook cfg ''PreUp'' (i_pre_up ifc) @ [Check rb])"

definition protect_steps :: "effect list \<Rightarrow> conn_env \<Rightarrow> wg_config \<Rightarrow> engine \<Rightarrow> step list" where
  "protect_steps rb env cfg eng =
     (if ce_protector env \<and> cfg_IsFullTunnel cfg
      then [Must (EnableEndpointProtection (en_iface eng) (en_endpoints eng)) ErrNetwork ''installing endpoint loop protection'' rb]
      else []) @ [Check rb]"

definition between_steps :: "effect list \<Rightarrow> conn_env \<Rightarrow> wg_config \<Rightarrow> step list" where
  "between_steps rb env cfg =
     [Check rb] @ hook cfg ''PostUp'' (i_post_up (cfg_interface cfg)) @ [Check rb] @
     (if cfg_bind_if_name cfg \<noteq> '''' \<and> ce_can_bind env then [Try (SetBindInterface (cfg_bind_if_name cfg))] else [])"

definition dns_steps :: "effect list \<Rightarrow> conn_env \<Rightarrow> wg_config \<Rightarrow> engine \<Rightarrow> step list" where
  "dns_steps rb env cfg eng =
     (let ifc = cfg_interface cfg; iface = en_iface eng;
          dns = merge_dns (i_dns ifc) (ce_existing_dns env);
          pre = (case ce_snapshot env of None \<Rightarrow> snapshot0 | Some s \<Rightarrow> s) in
      [Try (SaveActiveState (active_state_of env cfg eng snapshot0)),
       (if i_dns ifc \<noteq> [] then Must (SetDNS iface dns) ErrNetwork ''setting DNS'' rb else Try (SetDNS iface dns))] @
      (case ce_snapshot env of None \<Rightarrow> [] | Some s \<Rightarrow> [Try (CapturePreModDNS s)]) @
      [Try (SaveActiveState (active_state_of env cfg eng pre))])"

definition connect_steps :: "effect list \<Rightarrow> conn_env \<Rightarrow> wg_config \<Rightarrow> engine \<Rightarrow> step list" where
  "connect_steps rb env cfg eng =
     setup_steps rb cfg eng @ protect_steps rb env cfg eng @
     Must (EngineStart (en_iface eng)) ErrEngineCreation ''starting engine'' rb #
     between_steps rb env cfg @
     Must (AddRoutes (en_iface eng) (all_allowed_ips cfg) (cfg_IsFullTunnel cfg) (en_endpoint_ips eng)
             (i_table (cfg_interface cfg)) (i_fw_mark (cfg_interface cfg))) ErrNetwork ''adding routes'' rb #
     Check rb # dns_steps rb env cfg eng"

text \<open>
  Running the phases: \<open>Check\<close> is \<open>checkCtx\<close> (the \<open>k\<close>-th one), \<open>Must\<close> returns on an error, both after the cleanup
  of their own return statement; \<open>Try\<close> logs an error. The trace holds the effects that took place; a failed one is not in it.
\<close>

fun run_steps :: "conn_env \<Rightarrow> nat \<Rightarrow> step list \<Rightarrow> effect list \<times> tunnel_error option" where
  "run_steps env k [] = ([], None)"
| "run_steps env k (Check undo # ss) =
     (case ce_ctx env k of
        Some e \<Rightarrow> (undo, Some (newTunnelError ErrCancelled ''connect cancelled mid-phase'' (Some e)))
      | None \<Rightarrow> run_steps env (Suc k) ss)"
| "run_steps env k (Must ef kind msg undo # ss) =
     (case failure (ce_fails env) ef of
        Some e \<Rightarrow> (undo, Some (newTunnelError kind msg (Some e)))
      | None \<Rightarrow> (let (tr, r) = run_steps env k ss in (ef # tr, r)))"
| "run_steps env k (Try ef # ss) =
     (let (tr, r) = run_steps env k ss in
      ((case failure (ce_fails env) ef of None \<Rightarrow> [ef] | Some _ \<Rightarrow> []) @ tr, r))"

definition connectPhases :: "conn_env \<Rightarrow> wg_config \<Rightarrow> effect list \<times> (tunnel_error + engine)" where
  "connectPhases env cfg =
     (case ce_factory env cfg of
        Inl e \<Rightarrow> ([], Inl (newTunnelError ErrEngineCreation ''creating engine'' (Some e)))
      | Inr eng \<Rightarrow>
          (let (tr, r) = run_steps env 0 (connect_steps (rollback env cfg eng) env cfg eng) in
           (NewEngine (en_iface eng) # tr, case r of None \<Rightarrow> Inr eng | Some err \<Rightarrow> Inl err)))"

section \<open>manager.go: state\<close>

datatype mstate = MDisconnected | MConnecting | MConnected | MError | MDisconnecting

record entry =
  e_state :: mstate
  e_engine :: "engine option"
  e_cfg :: "wg_config option"
  e_connected_at :: int
  e_netmgr :: bool
  e_healthy :: int
  e_last_tick :: int
  e_paused :: bool
  e_watchdog :: bool
  e_sockbind :: bool

definition entry0 :: entry where
  "entry0 = \<lparr>e_state = MDisconnected, e_engine = None, e_cfg = None, e_connected_at = 0, e_netmgr = False,
     e_healthy = 0, e_last_tick = 0, e_paused = False, e_watchdog = False, e_sockbind = False\<rparr>"

record manager =
  m_tunnels :: "(string \<times> entry) list"
  m_pin :: bool
  m_premod :: "dns_snapshot option"
  m_protector :: bool

definition manager0 :: manager where
  "manager0 = \<lparr>m_tunnels = [], m_pin = False, m_premod = None, m_protector = True\<rparr>"

definition entry_of :: "manager \<Rightarrow> string \<Rightarrow> entry option" where
  "entry_of m n = map_of (m_tunnels m) n"

definition set_entry :: "string \<Rightarrow> entry \<Rightarrow> manager \<Rightarrow> manager" where
  "set_entry n e m = m\<lparr>m_tunnels := AList.update n e (m_tunnels m)\<rparr>"

definition getOrCreateEntry :: "string \<Rightarrow> manager \<Rightarrow> entry" where
  "getOrCreateEntry n m = (case entry_of m n of None \<Rightarrow> entry0 | Some e \<Rightarrow> e)"

definition removeEntry :: "string \<Rightarrow> manager \<Rightarrow> manager" where
  "removeEntry n m = m\<lparr>m_tunnels := AList.delete n (m_tunnels m)\<rparr>"

section \<open>manager_dns.go, manager_pin.go\<close>

definition AllDNSServers :: "manager \<Rightarrow> string list" where
  "AllDNSServers m =
     dedup (concat (map (\<lambda>(n, e). case e_cfg e of
         None \<Rightarrow> []
       | Some cfg \<Rightarrow> if e_state e = MConnected then i_dns (cfg_interface cfg) else []) (m_tunnels m)))"

definition capturePreModDNS :: "dns_snapshot \<Rightarrow> manager \<Rightarrow> manager" where
  "capturePreModDNS s m = (if m_premod m \<noteq> None \<or> snapshot_empty s then m else m\<lparr>m_premod := Some s\<rparr>)"

definition PreModDNSSnapshot :: "manager \<Rightarrow> dns_snapshot option" where
  "PreModDNSSnapshot m = m_premod m"

definition clearPreModDNS :: "manager \<Rightarrow> manager" where
  "clearPreModDNS m = m\<lparr>m_premod := None\<rparr>"

text \<open>
  \<open>RestoreDNSBestEffort\<close>: \<open>restorer\<close> tells whether some entry's network manager implements
  \<open>DNSStateRestorer\<close>. A failed restore is only logged.
\<close>

definition RestoreDNSBestEffort :: "bool \<Rightarrow> manager \<Rightarrow> manager \<times> effect list" where
  "RestoreDNSBestEffort restorer m =
     (case PreModDNSSnapshot m of
        None \<Rightarrow> (m, [])
      | Some pre \<Rightarrow>
          if restorer \<and> list_ex (\<lambda>(n, e). e_netmgr e) (m_tunnels m)
          then (clearPreModDNS m, [RestoreDNSFromSnapshot pre]) else (m, []))"

definition SetPinInterface :: "bool \<Rightarrow> manager \<Rightarrow> manager" where
  "SetPinInterface enabled m = m\<lparr>m_pin := enabled\<rparr>"

text \<open>What a trace does to the manager-wide DNS snapshot.\<close>

fun premod_effect :: "effect \<Rightarrow> manager \<Rightarrow> manager" where
  "premod_effect (CapturePreModDNS s) m = capturePreModDNS s m"
| "premod_effect ClearPreModDNS m = clearPreModDNS m"
| "premod_effect _ m = m"

definition premod_after :: "effect list \<Rightarrow> manager \<Rightarrow> manager" where
  "premod_after tr m = foldl (\<lambda>m e. premod_effect e m) m tr"

section \<open>manager.go: the locked sections of Connect\<close>

definition is_full_entry :: "entry \<Rightarrow> bool" where
  "is_full_entry e \<longleftrightarrow> e_state e = MConnected \<and> (case e_cfg e of None \<Rightarrow> False | Some c \<Rightarrow> cfg_IsFullTunnel c)"

text \<open>Phase 1: the preflight checks, then the slot is claimed.\<close>

definition connect_claim :: "wg_config \<Rightarrow> manager \<Rightarrow> tunnel_error + manager" where
  "connect_claim cfg m =
     (let name = cfg_name cfg in
      case map_option e_state (entry_of m name) of
        Some MConnected \<Rightarrow>
          Inl (newTunnelError ErrAlreadyConnected (''tunnel '' @ quoted name @ '' is already connected'') None)
      | Some MConnecting \<Rightarrow>
          Inl (newTunnelError ErrTransitionInProgress (''tunnel '' @ quoted name @ '': another transition is in progress'') None)
      | Some MDisconnecting \<Rightarrow>
          Inl (newTunnelError ErrTransitionInProgress (''tunnel '' @ quoted name @ '': another transition is in progress'') None)
      | _ \<Rightarrow>
          (case (if cfg_IsFullTunnel cfg
                 then List.find (\<lambda>(n, e). n \<noteq> name \<and> is_full_entry e) (m_tunnels m) else None) of
             Some (other, _) \<Rightarrow>
               Inl (newTunnelError ErrFullTunnelConflict
                 (''cannot connect full-tunnel '' @ quoted name @ '': tunnel '' @ quoted other @
                  '' already routes all traffic (0.0.0.0/0)'') None)
           | None \<Rightarrow>
               Inr (set_entry name ((getOrCreateEntry name m)\<lparr>e_cfg := Some cfg, e_state := MConnecting,
                 e_netmgr := True\<rparr>) m)))"

text \<open>
  Phase 3 on success: the entry is committed, or, when it is no longer connecting, the result says
  so and the caller tears the new engine down (\<open>race_cleanup\<close>) before it removes the entry.
\<close>

definition connect_commit :: "int \<Rightarrow> wg_config \<Rightarrow> engine \<Rightarrow> manager \<Rightarrow> manager option" where
  "connect_commit now cfg eng m =
     (let name = cfg_name cfg; e = getOrCreateEntry name m in
      if e_state e \<noteq> MConnecting then None
      else Some (set_entry name (e\<lparr>e_engine := Some eng, e_connected_at := now, e_state := MConnected,
        e_healthy := 0, e_last_tick := 0, e_paused := False,
        e_watchdog := (e_watchdog e \<or> cfg_IsFullTunnel cfg),
        e_sockbind := (e_sockbind e \<or> cfg_IsFullTunnel cfg)\<rparr>) m))"

definition race_cleanup :: "wg_config \<Rightarrow> engine \<Rightarrow> effect list" where
  "race_cleanup cfg eng =
     [RemoveRoutes (en_iface eng) [] (cfg_IsFullTunnel cfg), RestoreDNS (en_iface eng),
      NetCleanup (en_iface eng), EngineClose (en_iface eng), ClearActiveState (cfg_name cfg)]"

text \<open>
  \<open>ConnectWithContext\<close> when no other goroutine touches the manager: claim, context re-check,
  phases, commit. \<open>ctx0\<close> and \<open>ctx1\<close> are \<open>ctx.Err()\<close> before the claim and before the phases.
\<close>

definition ConnectWithContext ::
    "conn_env \<Rightarrow> string option \<Rightarrow> string option \<Rightarrow> int \<Rightarrow> wg_config \<Rightarrow> manager \<Rightarrow>
     manager \<times> effect list \<times> tunnel_error option"
where
  "ConnectWithContext env ctx0 ctx1 now cfg m =
     (case ctx0 of
        Some e \<Rightarrow> (m, [], Some (newTunnelError ErrCancelled ''connect cancelled before start'' (Some e)))
      | None \<Rightarrow>
          (case connect_claim cfg m of
             Inl err \<Rightarrow> (m, [], Some err)
           | Inr m1 \<Rightarrow>
               (case ctx1 of
                  Some e \<Rightarrow> (removeEntry (cfg_name cfg) m1, [],
                    Some (newTunnelError ErrCancelled ''connect cancelled before phases'' (Some e)))
                | None \<Rightarrow>
                    (let (tr, r) = connectPhases (env\<lparr>ce_existing_dns := AllDNSServers m1, ce_protector := m_protector m1\<rparr>) cfg;
                         m2 = premod_after tr m1 in
                     case r of
                       Inl err \<Rightarrow> (removeEntry (cfg_name cfg) m2, tr, Some err)
                     | Inr eng \<Rightarrow>
                         (case connect_commit now cfg eng m2 of
                            Some m3 \<Rightarrow> (m3, tr, None)
                          | None \<Rightarrow> (removeEntry (cfg_name cfg) m2, tr @ race_cleanup cfg eng,
                              Some (newTunnelError ErrStateCorrupt ''connect aborted: state changed during setup'' None)))))))"

section \<open>manager.go: the locked sections of Disconnect\<close>

datatype poll = PollDone "tunnel_error option" | PollWait | PollGo entry

text \<open>
  One turn of the wait loop of \<open>DisconnectTunnel\<close>: \<open>observed\<close> remembers a transition seen in an
  earlier turn, \<open>expired\<close> is \<open>time.Now().After(deadline)\<close>.
\<close>

definition disconnect_poll :: "string \<Rightarrow> bool \<Rightarrow> bool \<Rightarrow> manager \<Rightarrow> manager \<times> poll" where
  "disconnect_poll name observed expired m =
     (let notc = newTunnelError ErrNotConnected (''tunnel '' @ quoted name @ '' is not connected'') None in
      case entry_of m name of
        None \<Rightarrow> (m, PollDone (if observed then None else Some notc))
      | Some e \<Rightarrow>
          if e_state e = MConnecting \<or> e_state e = MDisconnecting
          then (m, if expired then PollDone (Some (newTunnelError ErrTimeout
                     (''disconnect timeout for tunnel '' @ quoted name @ '': transition in progress'') None))
                   else PollWait)
          else if e_state e \<noteq> MConnected then (m, PollDone (Some notc))
          else if e_engine e = None then (removeEntry name m, PollDone (Some (newTunnelError ErrStateCorrupt
                 (''engine is nil for tunnel '' @ quoted name @ '' despite connected state'') None)))
          else (set_entry name (e\<lparr>e_state := MDisconnecting, e_watchdog := False, e_sockbind := False\<rparr>) m, PollGo e))"

text \<open>
  \<open>disconnectPhases\<close>. \<open>fails\<close> as before; \<open>precleaner\<close> and \<open>restorer\<close> tell which optional interfaces
  the platform network manager has. Every step is best effort.
\<close>

definition remaining_iface :: "string \<Rightarrow> manager \<Rightarrow> string option" where
  "remaining_iface name m =
     (case List.find (\<lambda>(n, e). e_state e = MConnected \<and> e_engine e \<noteq> None \<and> e_netmgr e \<and>
             (case e_cfg e of None \<Rightarrow> False | Some c \<Rightarrow> cfg_name c \<noteq> name)) (m_tunnels m) of
        None \<Rightarrow> None
      | Some (_, e) \<Rightarrow> map_option en_iface (e_engine e))"

definition disconnectPhases ::
    "(effect \<Rightarrow> string option) \<Rightarrow> bool \<Rightarrow> bool \<Rightarrow> wg_config \<Rightarrow> engine \<Rightarrow> bool \<Rightarrow> manager \<Rightarrow> effect list"
where
  "disconnectPhases fails precleaner restorer cfg eng netmgr m =
     (let iface = en_iface eng; ifc = cfg_interface cfg;
          remainingDNS = AllDNSServers m;
          hasOther = (remainingDNS \<noteq> []) in
      attempted fails
       ((if cfg_enable_scripts cfg \<and> i_pre_down ifc \<noteq> '''' then [RunScript ''PreDown'' (i_pre_down ifc)] else []) @
        (if netmgr then [RemoveRoutes iface (all_allowed_ips cfg) (cfg_IsFullTunnel cfg)] else []) @
        (if m_protector m then [DisableEndpointProtection iface] else []) @
        (if netmgr \<and> precleaner then [PreCloseAdapterCleanup iface] else []) @
        [EngineClose iface] @
        (if netmgr \<and> \<not> hasOther then
           (case PreModDNSSnapshot m of
              Some pre \<Rightarrow> if restorer then [RestoreDNSFromSnapshot pre] else []
            | None \<Rightarrow> []) @ [NetCleanup iface, ClearPreModDNS]
         else []) @
        (if hasOther then
           (case remaining_iface (cfg_name cfg) m of
              Some ri \<Rightarrow> if ri \<noteq> '''' then [SetDNS ri remainingDNS] else []
            | None \<Rightarrow> [])
         else []) @
        [ClearActiveState (cfg_name cfg)] @
        (if cfg_enable_scripts cfg \<and> i_post_down ifc \<noteq> '''' then [RunScript ''PostDown'' (i_post_down ifc)] else [])))"

text \<open>\<open>DisconnectTunnel\<close> when no other goroutine touches the manager: one poll decides.\<close>

definition DisconnectTunnel ::
    "(effect \<Rightarrow> string option) \<Rightarrow> bool \<Rightarrow> bool \<Rightarrow> string \<Rightarrow> manager \<Rightarrow> manager \<times> effect list \<times> tunnel_error option"
where
  "DisconnectTunnel fails precleaner restorer name m =
     (case disconnect_poll name False True m of
        (m1, PollDone r) \<Rightarrow> (m1, [], r)
      | (m1, PollWait) \<Rightarrow> (m1, [], None)
      | (m1, PollGo e) \<Rightarrow>
          (case (e_cfg e, e_engine e) of
             (Some cfg, Some eng) \<Rightarrow>
               (let tr = disconnectPhases fails precleaner restorer cfg eng (e_netmgr e) m1 in
                (removeEntry name (premod_after tr m1), tr, None))
           | _ \<Rightarrow> (removeEntry name m1, [], None)))"

definition manager_Disconnect ::
    "(effect \<Rightarrow> string option) \<Rightarrow> bool \<Rightarrow> bool \<Rightarrow> manager \<Rightarrow> manager \<times> effect list \<times> tunnel_error option"
where
  "manager_Disconnect fails precleaner restorer m =
     (case List.find (\<lambda>(n, e). e_state e = MConnected \<or> e_state e = MConnecting) (m_tunnels m) of
        None \<Rightarrow> (m, [], Some (newTunnelError ErrNotConnected ''no tunnel is connected'' None))
      | Some (n, _) \<Rightarrow>
          if n = '''' then (m, [], Some (newTunnelError ErrNotConnected ''no tunnel is connected'' None))
          else DisconnectTunnel fails precleaner restorer n m)"

definition DisconnectAll ::
    "(effect \<Rightarrow> string option) \<Rightarrow> bool \<Rightarrow> bool \<Rightarrow> manager \<Rightarrow> manager \<times> effect list"
where
  "DisconnectAll fails precleaner restorer m =
     foldl (\<lambda>(m, tr) n. let (m', tr', _) = DisconnectTunnel fails precleaner restorer n m in (m', tr @ tr'))
       (m, []) (map fst (filter (\<lambda>(n, e). e_state e = MConnected \<or> e_state e = MConnecting) (m_tunnels m)))"

section \<open>manager_status.go\<close>

text \<open>The honest-duration accumulator: \<open>now\<close> is the tick time, time 0 is the zero time.\<close>

definition advanceDuration :: "bool \<Rightarrow> int \<Rightarrow> entry \<Rightarrow> entry" where
  "advanceDuration stale now e =
     (if e_last_tick e = 0 then e\<lparr>e_last_tick := now, e_healthy := 0, e_paused := False\<rparr>
      else let elapsed = now - e_last_tick e; e1 = e\<lparr>e_last_tick := now\<rparr> in
        if elapsed \<le> 0 then e1
        else if \<not> stale then e1\<lparr>e_healthy := e_healthy e1 + elapsed, e_paused := False\<rparr>
        else e1\<lparr>e_paused := True\<rparr>)"

text \<open>\<open>handshakeStaleThreshold\<close> and \<open>markHandshakeStale\<close> (status.go), as the flag it sets.\<close>

definition handshakeStaleThreshold :: int where "handshakeStaleThreshold = 150 * second"

definition markHandshakeStale :: "int \<Rightarrow> int \<Rightarrow> int \<Rightarrow> bool \<Rightarrow> bool" where
  "markHandshakeStale now connectedAt lastHandshake stale0 =
     (if lastHandshake = 0 then
        (if connectedAt = 0 then stale0 else now - connectedAt > handshakeStaleThreshold)
      else if now - connectedAt < handshakeStaleThreshold then stale0
      else now - lastHandshake > handshakeStaleThreshold)"

definition status0 :: conn_status where
  "status0 = ConnStatus Disconnected '''' '''' 0 '''' 0 0 0 '''' 0 False False '''' 0 '''' '''' '''' [] [] [] []"

text \<open>The status literals of the facade, and the fields it stamps onto an engine's status.\<close>

definition simple_status :: "tstate \<Rightarrow> string \<Rightarrow> string list \<Rightarrow> conn_status" where
  "simple_status st name active =
     ConnStatus st name '''' 0 '''' 0 0 0 '''' 0 False False '''' 0 '''' '''' '''' [] active [] []"

fun stamp_duration :: "string \<Rightarrow> bool \<Rightarrow> conn_status \<Rightarrow> conn_status" where
  "stamp_duration d p (ConnStatus st n i ca _ rx tx ht h hu sl _ ep l er pt ps pr ac es ts) =
     ConnStatus st n i ca d rx tx ht h hu sl p ep l er pt ps pr ac es ts"

fun stamp_active :: "string list \<Rightarrow> conn_status \<Rightarrow> conn_status" where
  "stamp_active a (ConnStatus st n i ca d rx tx ht h hu sl p ep l er pt ps pr _ es ts) =
     ConnStatus st n i ca d rx tx ht h hu sl p ep l er pt ps pr a es ts"

fun is_active :: "mstate \<Rightarrow> bool" where
  "is_active MConnected = True"
| "is_active MConnecting = True"
| "is_active MDisconnecting = True"
| "is_active _ = False"

definition ActiveTunnels :: "manager \<Rightarrow> string list" where
  "ActiveTunnels m = sort (map fst (filter (\<lambda>(n, e). is_active (e_state e)) (m_tunnels m)))"

definition ActiveTunnel :: "manager \<Rightarrow> string" where
  "ActiveTunnel m = (case ActiveTunnels m of [] \<Rightarrow> '''' | n # _ \<Rightarrow> n)"

definition EstablishedTunnels :: "manager \<Rightarrow> string list" where
  "EstablishedTunnels m = sort (map fst (filter (\<lambda>(n, e). e_state e = MConnected) (m_tunnels m)))"

definition IsConnected :: "manager \<Rightarrow> bool" where
  "IsConnected m = list_ex (\<lambda>(n, e). e_state e = MConnected) (m_tunnels m)"

definition IsTunnelConnected :: "manager \<Rightarrow> string \<Rightarrow> bool" where
  "IsTunnelConnected m name = (case entry_of m name of None \<Rightarrow> False | Some e \<Rightarrow> e_state e = MConnected)"

definition ResolvedEndpointIPs :: "manager \<Rightarrow> string list" where
  "ResolvedEndpointIPs m =
     concat (map en_endpoint_ips (List.map_filter (\<lambda>(n, e). e_engine e) (m_tunnels m)))"

definition ResolvedEndpoints :: "manager \<Rightarrow> string list" where
  "ResolvedEndpoints m =
     concat (map en_endpoints (List.map_filter (\<lambda>(n, e). e_engine e) (m_tunnels m)))"

text \<open>
  \<open>query\<close> stands for \<open>getStatusForEngine\<close> (wgctrl or UAPI): \<open>None\<close> when the device cannot be read.
\<close>

type_synonym query = "engine \<Rightarrow> string \<Rightarrow> int \<Rightarrow> conn_status option"

definition entry_cfg_name :: "entry \<Rightarrow> string" where
  "entry_cfg_name e = (case e_cfg e of None \<Rightarrow> '''' | Some c \<Rightarrow> cfg_name c)"

definition StatusFor :: "query \<Rightarrow> manager \<Rightarrow> string \<Rightarrow> conn_status" where
  "StatusFor query m name =
     (case entry_of m name of
        None \<Rightarrow> simple_status Disconnected name []
      | Some e \<Rightarrow>
          (case e_state e of
             MConnecting \<Rightarrow> simple_status Connecting (entry_cfg_name e) []
           | MDisconnecting \<Rightarrow> simple_status Connecting (entry_cfg_name e) []
           | MDisconnected \<Rightarrow> simple_status Disconnected (entry_cfg_name e) []
           | MError \<Rightarrow> simple_status ErrorState (entry_cfg_name e) []
           | MConnected \<Rightarrow>
               (case e_engine e of
                  None \<Rightarrow> simple_status Disconnected (entry_cfg_name e) []
                | Some eng \<Rightarrow>
                    (case query eng (entry_cfg_name e) (e_connected_at e) of
                       None \<Rightarrow> simple_status ErrorState (entry_cfg_name e) []
                     | Some st \<Rightarrow> stamp_duration (FormatDuration (e_healthy e)) (e_paused e) st))))"

definition Status :: "query \<Rightarrow> manager \<Rightarrow> conn_status" where
  "Status query m =
     (let active = ActiveTunnels m;
          in_state = (\<lambda>ss n. case entry_of m n of None \<Rightarrow> False | Some e \<Rightarrow> e_state e \<in> ss);
          primary = (case List.find (in_state {MConnected}) active of
              Some n \<Rightarrow> entry_of m n
            | None \<Rightarrow> (case List.find (in_state {MConnecting, MDisconnecting}) active of
                Some n \<Rightarrow> entry_of m n
              | None \<Rightarrow> map_option snd (List.find (\<lambda>(n, e). e_state e = MError) (m_tunnels m)))) in
      case primary of
        None \<Rightarrow> simple_status Disconnected '''' active
      | Some e \<Rightarrow>
          (case e_state e of
             MConnecting \<Rightarrow> simple_status Connecting (entry_cfg_name e) active
           | MDisconnecting \<Rightarrow> simple_status Connecting (entry_cfg_name e) active
           | MDisconnected \<Rightarrow> simple_status Disconnected '''' active
           | MError \<Rightarrow> simple_status ErrorState (entry_cfg_name e) active
           | MConnected \<Rightarrow>
               (case e_engine e of
                  None \<Rightarrow> simple_status Disconnected '''' active
                | Some eng \<Rightarrow>
                    (case query eng (entry_cfg_name e) (e_connected_at e) of
                       None \<Rightarrow> simple_status ErrorState (entry_cfg_name e) active
                     | Some st \<Rightarrow> stamp_active active
                         (stamp_duration (FormatDuration (e_healthy e)) (e_paused e) st)))))"

text \<open>One entry of \<open>AllStatuses\<close>: the status it contributes and the entry it leaves.\<close>

definition entry_status :: "query \<Rightarrow> int \<Rightarrow> entry \<Rightarrow> entry \<times> conn_status" where
  "entry_status query now e =
     (case e_state e of
        MConnecting \<Rightarrow> (e, simple_status Connecting (entry_cfg_name e) [])
      | MDisconnecting \<Rightarrow> (e, simple_status Connecting (entry_cfg_name e) [])
      | MDisconnected \<Rightarrow> (e, simple_status Disconnected (entry_cfg_name e) [])
      | MError \<Rightarrow> (e, simple_status ErrorState (entry_cfg_name e) [])
      | MConnected \<Rightarrow>
          (case e_engine e of
             None \<Rightarrow> (e, simple_status Disconnected (entry_cfg_name e) [])
           | Some eng \<Rightarrow>
               (case query eng (entry_cfg_name e) (e_connected_at e) of
                  None \<Rightarrow> (e, simple_status ErrorState (entry_cfg_name e) [])
                | Some st \<Rightarrow>
                    (let e' = advanceDuration (st_stale st) now e in
                     (e', stamp_duration (FormatDuration (e_healthy e')) (e_paused e') st)))))"

definition AllStatuses :: "query \<Rightarrow> int \<Rightarrow> manager \<Rightarrow> manager \<times> conn_status list" where
  "AllStatuses query now m =
     (m\<lparr>m_tunnels := map (\<lambda>(n, e). (n, fst (entry_status query now e))) (m_tunnels m)\<rparr>,
      map (\<lambda>(n, e). snd (entry_status query now e)) (m_tunnels m))"

section \<open>recovery.go\<close>

text \<open>
  A directory entry that is a state file: its name and its content, \<open>None\<close> when the JSON is corrupt
  (the file is then renamed to \<open>.corrupt\<close> or removed). \<open>legacy\<close> is the single-file format.
\<close>

type_synonym disk = "(string \<times> active_state option) list"

definition LoadActiveState :: "disk \<Rightarrow> active_state option \<Rightarrow> active_state list" where
  "LoadActiveState dir legacy =
     (let states = List.map_filter (\<lambda>(n, c). if has_suffix n ''.json'' then c else None) dir in
      if states \<noteq> [] then states else case legacy of None \<Rightarrow> [] | Some st \<Rightarrow> [st])"

datatype recovery_op =
    RestoreRoutingState string string
  | RestoreEndpointRoutes "string list"
  | RecRestoreDNS dns_snapshot
  | ResetDNSToSystemDefault
  | RecRemoveRoutes string bool
  | RecCleanup string
  | CleanupStaleUAPI string

text \<open>
  Recovering one orphaned tunnel: the operations attempted and whether all of the ones that count
  succeeded. \<open>restorer\<close> tells whether the network manager implements \<open>DNSStateRestorer\<close>.
\<close>

definition recover_dns :: "(recovery_op \<Rightarrow> bool) \<Rightarrow> bool \<Rightarrow> active_state \<Rightarrow> recovery_op list \<times> bool" where
  "recover_dns fails restorer st =
     (let reset = ([ResetDNSToSystemDefault], \<not> fails ResetDNSToSystemDefault) in
      if as_premod_dns st \<noteq> [] then
        (if restorer then
           (let op = RecRestoreDNS \<lparr>ds_servers = as_premod_dns st, ds_search = as_premod_search st\<rparr> in
            if fails op then (op # fst reset, snd reset) else ([op], True))
         else reset)
      else reset)"

definition recover_one :: "(recovery_op \<Rightarrow> bool) \<Rightarrow> bool \<Rightarrow> active_state \<Rightarrow> recovery_op list \<times> bool" where
  "recover_one fails restorer st =
     (let (dns, ok) = recover_dns fails restorer st;
          ifops = (if as_iface st \<noteq> ''''
                   then [RecRemoveRoutes (as_iface st) (as_full st), RecCleanup (as_iface st), CleanupStaleUAPI (as_iface st)]
                   else [])
      in ([RestoreRoutingState (as_table st) (as_fwmark st), RestoreEndpointRoutes (as_endpoint_routes st)] @ dns @ ifops,
          ok \<and> \<not> list_ex fails ifops))"

definition RecoverFromCrash ::
    "(active_state \<Rightarrow> recovery_op \<Rightarrow> bool) \<Rightarrow> bool \<Rightarrow> disk \<Rightarrow> active_state option \<Rightarrow>
     string list \<times> recovery_op list \<times> disk"
where
  "RecoverFromCrash fails restorer dir legacy =
     (let states = LoadActiveState dir legacy in
      if states = [] then ([], [], dir)
      else (map as_tunnel states,
            concat (map (\<lambda>st. fst (recover_one (fails st) restorer st)) states),
            foldl (\<lambda>d n. AList.delete (stateFileName n) d)
              (filter (\<lambda>(n, c). \<not> (has_suffix n ''.json'' \<and> c = None)) dir)
              (map as_tunnel (filter (\<lambda>st. snd (recover_one (fails st) restorer st)) states))))"

end
