(* ===== verification/ManagerProps.thy ===== *)
theory ManagerProps
  imports TunnelManager
begin

text \<open>
  The phases of \<open>internal/tunnel/connect_phases.go\<close> and the interleavings of the locked sections of
  \<open>internal/tunnel/manager.go\<close>: rollback, ordering, state files; ownership of a tunnel's transition
  by one goroutine, and full-tunnel exclusivity under the helper's connect lock.
\<close>

section \<open>Running phases\<close>

fun step_effects :: "step \<Rightarrow> effect list" where
  "step_effects (Check u) = u"
| "step_effects (Must e _ _ u) = e # u"
| "step_effects (Try e) = [e]"

definition effects_of :: "step list \<Rightarrow> effect list" where
  "effects_of ss = concat (map step_effects ss)"

lemma effects_of_simps [simp]:
  "effects_of [] = []" "effects_of (s # ss) = step_effects s @ effects_of ss"
  "effects_of (ss @ ts) = effects_of ss @ effects_of ts"
  by (simp_all add: effects_of_def)

fun checks :: "step list \<Rightarrow> nat" where
  "checks [] = 0"
| "checks (Check u # ss) = Suc (checks ss)"
| "checks (_ # ss) = checks ss"

lemma run_steps_append:
  "run_steps env k (xs @ ys) =
     (case run_steps env k xs of
        (tr, Some r) \<Rightarrow> (tr, Some r)
      | (tr, None) \<Rightarrow> (let (tr', r) = run_steps env (k + checks xs) ys in (tr @ tr', r)))"
  by (induction env k xs rule: run_steps.induct) (auto split: option.splits prod.splits)

lemma run_steps_effects: "set (fst (run_steps env k ss)) \<subseteq> set (effects_of ss)"
  by (induction env k ss rule: run_steps.induct) (auto split: option.splits prod.splits)


text \<open>An effect of the later steps happens only after a mandatory earlier one.\<close>

lemma run_steps_after_must:
  assumes "run_steps env k (xs @ Must a kd msg [] # ys) = (tr, r)" "tr = us @ b # vs" "b \<notin> set (effects_of xs)" "b \<noteq> a"
  shows "a \<in> set us"
proof (cases "run_steps env k xs")
  case (Pair tx rx)
  have bx: "b \<notin> set tx" using run_steps_effects[of env k xs] Pair assms(3) by auto
  obtain tr2 where tr: "tr = tx @ tr2" and t2: "tr2 = [] \<or> (\<exists>tr3. tr2 = a # tr3)"
    using assms(1) Pair unfolding run_steps_append
    by (cases rx) (auto split: option.splits prod.splits)
  from tr bx assms(2) have "b \<in> set tr2" by (metis Un_iff in_set_conv_decomp set_append)
  with t2 obtain tr3 where "tr2 = a # tr3" by auto
  with tr have "tx @ a # tr3 = us @ b # vs" using assms(2) by simp
  then show ?thesis
    using bx assms(4) by (auto simp: append_eq_append_conv2 Cons_eq_append_conv append_eq_Cons_conv)
qed

lemma split_before_tail:
  "xs @ ys = us @ b # vs \<Longrightarrow> b \<notin> set ys \<Longrightarrow> \<exists>vs'. xs = us @ b # vs'"
  by (induction us arbitrary: xs) (auto simp: append_eq_Cons_conv)

fun teardown :: "effect \<Rightarrow> bool" where
  "teardown (RemoveRoutes _ _ _) = True"
| "teardown (DisableEndpointProtection _) = True"
| "teardown (NetCleanup _) = True"
| "teardown (EngineClose _) = True"
| "teardown (ClearActiveState _) = True"
| "teardown _ = False"

fun saves :: "effect \<Rightarrow> bool" where
  "saves (SaveActiveState _) = True"
| "saves (ClearActiveState _) = True"
| "saves _ = False"

lemma hook_effects: "e \<in> set (effects_of (hook cfg k c)) \<Longrightarrow> e = RunScript k c"
  by (auto simp: hook_def split: if_splits)

text \<open>The effects each part of the phases can have.\<close>

lemma setup_effects:
  "e \<in> set (effects_of (setup_steps [] cfg eng)) \<Longrightarrow>
     e = SetMTU (en_iface eng) (i_mtu (cfg_interface cfg)) \<or>
     e = AssignAddress (en_iface eng) (i_address (cfg_interface cfg)) \<or> e = BringUp (en_iface eng) \<or>
     e = RunScript ''PreUp'' (i_pre_up (cfg_interface cfg))"
  by (auto simp: setup_steps_def Let_def dest!: hook_effects)

lemma protect_effects:
  "e \<in> set (effects_of (protect_steps [] env cfg eng)) \<Longrightarrow> e = EnableEndpointProtection (en_iface eng) (en_endpoints eng)"
  by (auto simp: protect_steps_def split: if_splits)

lemma between_effects:
  "e \<in> set (effects_of (between_steps [] env cfg)) \<Longrightarrow>
     e = RunScript ''PostUp'' (i_post_up (cfg_interface cfg)) \<or> e = SetBindInterface (cfg_bind_if_name cfg)"
  by (auto simp: between_steps_def dest!: hook_effects split: if_splits)

lemma dns_effects:
  "e \<in> set (effects_of (dns_steps [] env cfg eng)) \<Longrightarrow>
     (\<exists>pre. e = SaveActiveState (active_state_of env cfg eng pre)) \<or>
     e = SetDNS (en_iface eng) (merge_dns (i_dns (cfg_interface cfg)) (ce_existing_dns env)) \<or>
     (\<exists>s. e = CapturePreModDNS s)"
  by (auto simp: dns_steps_def Let_def split: option.splits if_splits)

lemmas phase_effects = setup_effects protect_effects between_effects dns_effects


abbreviation routes_effect :: "wg_config \<Rightarrow> engine \<Rightarrow> effect" where
  "routes_effect cfg eng \<equiv> AddRoutes (en_iface eng) (all_allowed_ips cfg) (cfg_IsFullTunnel cfg)
     (en_endpoint_ips eng) (i_table (cfg_interface cfg)) (i_fw_mark (cfg_interface cfg))"



text \<open>When every failing step rolls back the same way, the run is that of the bare steps with the rollback behind it.\<close>

fun bare :: "step \<Rightarrow> step" where
  "bare (Check u) = Check []"
| "bare (Must e k m u) = Must e k m []"
| "bare (Try e) = Try e"

fun cleans_up :: "effect list \<Rightarrow> step \<Rightarrow> bool" where
  "cleans_up rb (Check u) \<longleftrightarrow> u = rb"
| "cleans_up rb (Must e k m u) \<longleftrightarrow> u = rb"
| "cleans_up rb (Try e) \<longleftrightarrow> True"

lemma run_bare:
  "\<forall>s \<in> set ss. cleans_up rb s \<Longrightarrow> run_steps env k ss =
    (case run_steps env k (map bare ss) of (tr, r) \<Rightarrow> (tr @ (if r = None then [] else rb), r))"
  by (induction env k ss rule: run_steps.induct) (auto split: option.splits prod.splits)

lemma steps_clean_up: "\<forall>s \<in> set (connect_steps rb env cfg eng). cleans_up rb s"
  by (auto simp: connect_steps_def setup_steps_def protect_steps_def between_steps_def dns_steps_def hook_def Let_def
    split: if_splits option.splits)

lemma bare_steps: "map bare (connect_steps rb env cfg eng) = connect_steps [] env cfg eng"
  by (simp add: connect_steps_def setup_steps_def protect_steps_def between_steps_def dns_steps_def hook_def Let_def split: option.split)

lemma phases_cases:
  assumes "connectPhases env cfg = (tr, res)" "ce_factory env cfg = Inr eng"
  obtains (ok) tr' where "run_steps env 0 (connect_steps [] env cfg eng) = (tr', None)"
      "tr = NewEngine (en_iface eng) # tr'" "res = Inr eng"
  | (fail) tr' err where "run_steps env 0 (connect_steps [] env cfg eng) = (tr', Some err)"
      "tr = NewEngine (en_iface eng) # tr' @ rollback env cfg eng" "res = Inl err"
proof -
  obtain tr' r where run: "run_steps env 0 (connect_steps [] env cfg eng) = (tr', r)" by fastforce
  have "run_steps env 0 (connect_steps (rollback env cfg eng) env cfg eng) = (tr' @ (if r = None then [] else rollback env cfg eng), r)"
    using run_bare[OF steps_clean_up, of env 0 "rollback env cfg eng" env cfg eng] run by (simp add: bare_steps)
  with assms have "tr = NewEngine (en_iface eng) # tr' @ (if r = None then [] else rollback env cfg eng)"
    "res = (case r of None \<Rightarrow> Inr eng | Some err \<Rightarrow> Inl err)"
    by (simp_all add: connectPhases_def)
  then show thesis using run ok fail by (cases r) auto
qed


lemma in_rollback:
  "e \<in> set (rollback env cfg eng) \<longleftrightarrow> failure (ce_fails env) e = None \<and>
    (e = RemoveRoutes (en_iface eng) (all_allowed_ips cfg) (cfg_IsFullTunnel cfg) \<or>
     ce_protector env \<and> e = DisableEndpointProtection (en_iface eng) \<or> e = NetCleanup (en_iface eng) \<or> e = EngineClose (en_iface eng))"
  by (cases "ce_protector env") (auto simp: rollback_def attempted_def)

lemma rollback_teardown: "e \<in> set (rollback env cfg eng) \<Longrightarrow> teardown e"
  by (auto simp: in_rollback)




definition demo_cfg :: wg_config where
  "demo_cfg = config0\<lparr>cfg_name := ''home'',
     cfg_interface := interface0\<lparr>i_address := [''10.0.0.2/32''], i_dns := [''1.1.1.1'']\<rparr>,
     cfg_peers := [peer0\<lparr>p_endpoint := ''192.0.2.1:51820'', p_allowed_ips := [''0.0.0.0/0'']\<rparr>]\<rparr>"

definition demo_eng :: engine where
  "demo_eng = \<lparr>en_iface = ''utun7'', en_endpoints = [''192.0.2.1:51820''], en_endpoint_ips = [''192.0.2.1'']\<rparr>"

fun is_set_dns :: "effect \<Rightarrow> bool" where
  "is_set_dns (SetDNS _ _) = True"
| "is_set_dns _ = False"

text \<open>An environment in which setting DNS fails and everything else works.\<close>

definition demo_env :: conn_env where
  "demo_env = \<lparr>ce_factory = (\<lambda>_. Inr demo_eng), ce_fails = (\<lambda>e. if is_set_dns e then Some ''networksetup'' else None),
     ce_ctx = (\<lambda>_. None), ce_protector = True, ce_can_bind = False, ce_routes = [], ce_snapshot = None,
     ce_existing_dns = []\<rparr>"


section \<open>Ordering\<close>

text \<open>An effect of a connect that is no teardown lies in the run of its steps.\<close>

lemma effect_in_steps:
  assumes tr: "tr = e # tr' @ tail" and tail: "\<forall>e \<in> set tail. teardown e" and h: "tr = us @ b # vs" "\<not> teardown b" "b \<noteq> e"
  shows "\<exists>us' vs'. tr' = us' @ b # vs' \<and> us = e # us'"
proof -
  obtain us' where us: "us = e # us'" using h(1,3) unfolding tr by (cases us) auto
  have "tr' @ tail = us' @ b # vs" using h(1) unfolding tr us by simp
  moreover have "b \<notin> set tail" using tail h(2) by blast
  ultimately obtain vs' where "tr' = us' @ b # vs'" using split_before_tail by metis
  with us show ?thesis by blast
qed

text \<open>C16: A full tunnel never transmits unprotected: in every connect of a full tunnel on a platform
  with endpoint protection, whatever fails, the engine starts only after the protection is in place,
  and on every connect routes are installed only after the engine has started.\<close>

theorem protection_before_start_before_routes:
  assumes "connectPhases env cfg = (tr, res)" "ce_factory env cfg = Inr eng"
  shows "(tr = us @ EngineStart (en_iface eng) # vs \<and> ce_protector env \<and> cfg_IsFullTunnel cfg \<longrightarrow>
            EnableEndpointProtection (en_iface eng) (en_endpoints eng) \<in> set us) \<and>
         (tr = us @ routes_effect cfg eng # vs \<longrightarrow> EngineStart (en_iface eng) \<in> set us)"
proof -
  let ?ss = "connect_steps [] env cfg eng"
  obtain tr' r tail where run: "run_steps env 0 ?ss = (tr', r)"
    and tr: "tr = NewEngine (en_iface eng) # tr' @ tail" and tail: "\<forall>e \<in> set tail. teardown e"
    using assms by (cases rule: phases_cases) (auto dest: rollback_teardown)
  note inner = effect_in_steps[OF tr tail]
  show ?thesis
  proof (intro conjI impI)
    assume "tr = us @ EngineStart (en_iface eng) # vs \<and> ce_protector env \<and> cfg_IsFullTunnel cfg"
    then have t: "tr = us @ EngineStart (en_iface eng) # vs" and p: "ce_protector env" "cfg_IsFullTunnel cfg" by auto
    obtain us' vs' where u: "tr' = us' @ EngineStart (en_iface eng) # vs'" "us = NewEngine (en_iface eng) # us'"
      using inner[OF t] by auto
    have "?ss = setup_steps [] cfg eng @ Must (EnableEndpointProtection (en_iface eng) (en_endpoints eng)) ErrNetwork
        ''installing endpoint loop protection'' [] # Check [] # Must (EngineStart (en_iface eng)) ErrEngineCreation ''starting engine'' [] #
        between_steps [] env cfg @ Must (routes_effect cfg eng) ErrNetwork ''adding routes'' [] # Check [] # dns_steps [] env cfg eng"
      using p by (simp add: connect_steps_def protect_steps_def)
    from run_steps_after_must[OF run[unfolded this] u(1)] u(2)
    show "EnableEndpointProtection (en_iface eng) (en_endpoints eng) \<in> set us"
      by (auto dest!: setup_effects)
  next
    assume t: "tr = us @ routes_effect cfg eng # vs"
    obtain us' vs' where u: "tr' = us' @ routes_effect cfg eng # vs'" "us = NewEngine (en_iface eng) # us'"
      using inner[OF t] by auto
    have "?ss = (setup_steps [] cfg eng @ protect_steps [] env cfg eng) @ Must (EngineStart (en_iface eng)) ErrEngineCreation ''starting engine'' [] #
        between_steps [] env cfg @ Must (routes_effect cfg eng) ErrNetwork ''adding routes'' [] # Check [] # dns_steps [] env cfg eng"
      by (simp add: connect_steps_def)
    from run_steps_after_must[OF run[unfolded this] u(1)] u(2)
    show "EngineStart (en_iface eng) \<in> set us"
      by (auto dest!: setup_effects protect_effects)
  qed
qed

lemma demo_trace:
  "connectPhases demo_env demo_cfg =
     ([NewEngine ''utun7'', SetMTU ''utun7'' 0, AssignAddress ''utun7'' [''10.0.0.2/32''], BringUp ''utun7'',
       EnableEndpointProtection ''utun7'' [''192.0.2.1:51820''], EngineStart ''utun7'',
       AddRoutes ''utun7'' [''0.0.0.0/0''] True [''192.0.2.1''] '''' '''',
       SaveActiveState (active_state_of demo_env demo_cfg demo_eng snapshot0),
       RemoveRoutes ''utun7'' [''0.0.0.0/0''] True, DisableEndpointProtection ''utun7'', NetCleanup ''utun7'',
       EngineClose ''utun7''],
      Inl (newTunnelError ErrNetwork ''setting DNS'' (Some ''networksetup'')))"
  by code_simp


theorem protection_before_start_before_routes_witness:
  "EnableEndpointProtection ''utun7'' [''192.0.2.1:51820''] \<in>
     set (takeWhile (\<lambda>e. e \<noteq> EngineStart ''utun7'') (fst (connectPhases demo_env demo_cfg)))"
proof -
  have f: "ce_factory demo_env demo_cfg = Inr demo_eng" "ce_protector demo_env" by (simp_all add: demo_env_def)
  have c: "cfg_IsFullTunnel demo_cfg" by code_simp
  let ?tr = "fst (connectPhases demo_env demo_cfg)"
  let ?us = "takeWhile (\<lambda>e. e \<noteq> EngineStart ''utun7'') ?tr"
  have s: "?tr = ?us @ EngineStart (en_iface demo_eng) # tl (dropWhile (\<lambda>e. e \<noteq> EngineStart ''utun7'') ?tr)"
    unfolding demo_trace by (simp add: demo_eng_def)
  show ?thesis
    using protection_before_start_before_routes[of demo_env demo_cfg ?tr "snd (connectPhases demo_env demo_cfg)" demo_eng ?us]
      s f c by (simp add: demo_eng_def)
qed

section \<open>The crash-recovery file\<close>

lemma files_after_simps [simp]:
  "files_after [] fs = fs" "files_after (e # tr) fs = files_after tr (file_effect e fs)"
  "files_after (tr @ tr') fs = files_after tr' (files_after tr fs)"
  by (simp_all add: files_after_def)

lemma file_effect_other: "\<not> saves e \<Longrightarrow> file_effect e fs = fs"
  by (cases e) auto

lemma files_after_other: "\<forall>e \<in> set tr. \<not> saves e \<Longrightarrow> files_after tr fs = fs"
  by (induction tr arbitrary: fs) (auto simp: file_effect_other)

lemma rollback_files [simp]: "files_after (rollback env cfg eng) fs = fs"
  by (rule files_after_other) (auto simp: in_rollback)

abbreviation pre_dns_steps :: "conn_env \<Rightarrow> wg_config \<Rightarrow> engine \<Rightarrow> step list" where
  "pre_dns_steps env cfg eng \<equiv>
     setup_steps [] cfg eng @ protect_steps [] env cfg eng @
     Must (EngineStart (en_iface eng)) ErrEngineCreation ''starting engine'' [] #
     between_steps [] env cfg @ Must (routes_effect cfg eng) ErrNetwork ''adding routes'' [] # [Check []]"

lemma connect_steps_split: "connect_steps [] env cfg eng = pre_dns_steps env cfg eng @ dns_steps [] env cfg eng"
  by (simp add: connect_steps_def)

lemma pre_dns_no_save: "e \<in> set (fst (run_steps env k (pre_dns_steps env cfg eng))) \<Longrightarrow> \<not> saves e"
  using run_steps_effects[of env k "pre_dns_steps env cfg eng"] by (auto dest!: subsetD phase_effects)

lemma dns_steps_error:
  "run_steps env k (dns_steps [] env cfg eng) = (tr, Some err) \<Longrightarrow> te_msg err = ''setting DNS'' \<and> te_kind err = ErrNetwork"
  by (auto simp: dns_steps_def Let_def newTunnelError_def split: option.splits if_splits)

text \<open>A failed connect leaves the directory of crash-recovery files as it was, except when it
  failed to set DNS: that is the only error behind which a state file can stay on disk.\<close>

theorem failed_connect_state_file:
  assumes "connectPhases env cfg = (tr, Inl err)"
  shows "files_after tr fs = fs \<or> (te_kind err = ErrNetwork \<and> te_msg err = ''setting DNS'')"
proof (cases "ce_factory env cfg")
  case (Inl e)
  with assms show ?thesis by (simp add: connectPhases_def)
next
  case (Inr eng)
  from assms Inr show ?thesis
  proof (cases rule: phases_cases)
    case (fail tr' err')
    then have e: "err' = err" by simp
    obtain t1 r1 where pre: "run_steps env 0 (pre_dns_steps env cfg eng) = (t1, r1)" by fastforce
    have ns: "\<forall>e \<in> set t1. \<not> saves e" using pre_dns_no_save[of _ env 0 cfg eng] pre by auto
    have run: "(case (t1, r1) of (tr, Some r) \<Rightarrow> (tr, Some r)
        | (tr, None) \<Rightarrow> (let (tr2, r) = run_steps env (0 + checks (pre_dns_steps env cfg eng)) (dns_steps [] env cfg eng)
                       in (tr @ tr2, r))) = (tr', Some err)"
      using fail(1) unfolding connect_steps_split run_steps_append[of _ _ "pre_dns_steps env cfg eng"] pre e .
    show ?thesis
    proof (cases r1)
      case (Some r)
      with run have "tr' = t1" by simp
      with fail(2) files_after_other[OF ns] show ?thesis by simp
    next
      case None
      with run obtain k t2 where "run_steps env k (dns_steps [] env cfg eng) = (t2, Some err)"
        by (auto split: prod.splits)
      then show ?thesis using dns_steps_error by blast
    qed
  qed simp
qed

text \<open>The exception is real: when only setting DNS fails, the file written before it survives.\<close>

theorem failed_connect_state_file_witness:
  "\<exists>tr err. connectPhases demo_env demo_cfg = (tr, Inl err) \<and> te_msg err = ''setting DNS'' \<and>
     map_of (files_after tr []) (stateFileName ''home'') = Some (active_state_of demo_env demo_cfg demo_eng snapshot0)"
proof -
  have n: "as_tunnel (active_state_of demo_env demo_cfg demo_eng snapshot0) = ''home''"
    by (simp add: active_state_of_def demo_cfg_def)
  from failed_connect_state_file[OF demo_trace, of "[]"] n
  show ?thesis unfolding demo_trace by (simp add: newTunnelError_def)
qed

end
