(* ===== verification/ManagerMachine.thy ===== *)
theory ManagerMachine
  imports ManagerProps GoPrelude
begin

text \<open>
  The goroutines that share a \<open>Manager\<close>: each holds \<open>m.mu\<close> only inside the locked sections of
  \<open>TunnelManager\<close>, and any other goroutine may run between two of them. A system is the manager and
  the goroutines inside \<open>ConnectWithContext\<close> and \<open>DisconnectTunnel\<close>; an event is one locked section.
  An event that does not fit the state leaves it unchanged.
\<close>

section \<open>Goroutines and events\<close>

datatype pc =
    PConn wg_config
  | PRace wg_config engine
  | PWait string bool
  | PDown string entry

record sys =
  s_mgr :: manager
  s_threads :: "pc list"

definition sys0 :: sys where
  "sys0 = \<lparr>s_mgr = manager0, s_threads = []\<rparr>"

datatype event =
    EvConnect wg_config                     \<comment> \<open>phase 1 of a new connect\<close>
  | EvAbort nat                             \<comment> \<open>context cancelled, or the phases failed\<close>
  | EvCapture nat dns_snapshot              \<comment> \<open>CapturePreModDNS inside the phases\<close>
  | EvCommit nat engine int                 \<comment> \<open>phase 3 after successful phases\<close>
  | EvRaceDone nat                          \<comment> \<open>the removal after a raced connect was torn down\<close>
  | EvDisconnect string                     \<comment> \<open>a new DisconnectTunnel\<close>
  | EvPoll nat bool                         \<comment> \<open>one turn of its wait loop\<close>
  | EvClear nat                             \<comment> \<open>ClearPreModDNS inside disconnectPhases\<close>
  | EvDown nat                              \<comment> \<open>phase 3 of the disconnect\<close>
  | EvTick query int                        \<comment> \<open>AllStatuses\<close>
  | EvPin bool                              \<comment> \<open>SetPinInterface\<close>

definition drop_thread :: "nat \<Rightarrow> pc list \<Rightarrow> pc list" where
  "drop_thread i ts = take i ts @ drop (Suc i) ts"

definition pc_at :: "sys \<Rightarrow> nat \<Rightarrow> pc option" where
  "pc_at s i = (if i < length (s_threads s) then Some (s_threads s ! i) else None)"

definition finish :: "nat \<Rightarrow> manager \<Rightarrow> sys \<Rightarrow> sys" where
  "finish i m s = s\<lparr>s_mgr := m, s_threads := drop_thread i (s_threads s)\<rparr>"

definition become :: "nat \<Rightarrow> pc \<Rightarrow> manager \<Rightarrow> sys \<Rightarrow> sys" where
  "become i p m s = s\<lparr>s_mgr := m, s_threads := (s_threads s)[i := p]\<rparr>"

fun mstep :: "sys \<Rightarrow> event \<Rightarrow> sys" where
  "mstep s (EvConnect cfg) =
     (case connect_claim cfg (s_mgr s) of
        Inl _ \<Rightarrow> s
      | Inr m \<Rightarrow> s\<lparr>s_mgr := m, s_threads := s_threads s @ [PConn cfg]\<rparr>)"
| "mstep s (EvAbort i) =
     (case pc_at s i of
        Some (PConn cfg) \<Rightarrow> finish i (removeEntry (cfg_name cfg) (s_mgr s)) s
      | _ \<Rightarrow> s)"
| "mstep s (EvCapture i snap) =
     (case pc_at s i of
        Some (PConn cfg) \<Rightarrow> s\<lparr>s_mgr := capturePreModDNS snap (s_mgr s)\<rparr>
      | _ \<Rightarrow> s)"
| "mstep s (EvCommit i eng now) =
     (case pc_at s i of
        Some (PConn cfg) \<Rightarrow>
          (case connect_commit now cfg eng (s_mgr s) of
             Some m \<Rightarrow> finish i m s
           | None \<Rightarrow> become i (PRace cfg eng) (s_mgr s) s)
      | _ \<Rightarrow> s)"
| "mstep s (EvRaceDone i) =
     (case pc_at s i of
        Some (PRace cfg eng) \<Rightarrow> finish i (removeEntry (cfg_name cfg) (s_mgr s)) s
      | _ \<Rightarrow> s)"
| "mstep s (EvDisconnect n) = s\<lparr>s_threads := s_threads s @ [PWait n False]\<rparr>"
| "mstep s (EvPoll i expired) =
     (case pc_at s i of
        Some (PWait n observed) \<Rightarrow>
          (case disconnect_poll n observed expired (s_mgr s) of
             (m, PollDone _) \<Rightarrow> finish i m s
           | (m, PollWait) \<Rightarrow> become i (PWait n True) m s
           | (m, PollGo e) \<Rightarrow> become i (PDown n e) m s)
      | _ \<Rightarrow> s)"
| "mstep s (EvClear i) =
     (case pc_at s i of
        Some (PDown n e) \<Rightarrow> s\<lparr>s_mgr := clearPreModDNS (s_mgr s)\<rparr>
      | _ \<Rightarrow> s)"
| "mstep s (EvDown i) =
     (case pc_at s i of
        Some (PDown n e) \<Rightarrow> finish i (removeEntry n (s_mgr s)) s
      | _ \<Rightarrow> s)"
| "mstep s (EvTick query now) = s\<lparr>s_mgr := fst (AllStatuses query now (s_mgr s))\<rparr>"
| "mstep s (EvPin b) = s\<lparr>s_mgr := SetPinInterface b (s_mgr s)\<rparr>"

section \<open>Ownership of a transition\<close>

fun owns :: "string \<Rightarrow> pc \<Rightarrow> bool" where
  "owns n (PConn cfg) = (cfg_name cfg = n)"
| "owns n (PRace cfg eng) = (cfg_name cfg = n)"
| "owns n (PWait _ _) = False"
| "owns n (PDown n' e) = (n' = n)"

definition entry_usable :: "string \<Rightarrow> entry \<Rightarrow> bool" where
  "entry_usable n e \<longleftrightarrow> e_engine e \<noteq> None \<and> (\<exists>c. e_cfg e = Some c \<and> cfg_name c = n)"

text \<open>Which goroutines own tunnel \<open>n\<close>, given its entry.\<close>

definition own_ok :: "string \<Rightarrow> entry option \<Rightarrow> pc list \<Rightarrow> bool" where
  "own_ok n eo os =
     (case eo of
        None \<Rightarrow> os = []
      | Some e \<Rightarrow>
          (case e_state e of
             MConnecting \<Rightarrow> (\<exists>c. os = [PConn c] \<and> e_cfg e = Some c)
           | MDisconnecting \<Rightarrow> (\<exists>e'. os = [PDown n e'] \<and> entry_usable n e')
           | MConnected \<Rightarrow> os = [] \<and> entry_usable n e
           | _ \<Rightarrow> os = []))"

definition owned :: "sys \<Rightarrow> bool" where
  "owned s \<longleftrightarrow> (\<forall>n. own_ok n (entry_of (s_mgr s) n) (filter (owns n) (s_threads s)))"

lemma entry_of_set [simp]: "entry_of (set_entry n e m) n' = (if n' = n then Some e else entry_of m n')"
  by (simp add: entry_of_def set_entry_def AList.update_conv')

lemma entry_of_remove [simp]: "entry_of (removeEntry n m) n' = (if n' = n then None else entry_of m n')"
  by (simp add: entry_of_def removeEntry_def AList.delete_conv')

lemma entry_of_frame [simp]:
  "entry_of (capturePreModDNS s m) n = entry_of m n" "entry_of (clearPreModDNS m) n = entry_of m n"
  "entry_of (SetPinInterface b m) n = entry_of m n"
  by (simp_all add: entry_of_def capturePreModDNS_def clearPreModDNS_def SetPinInterface_def)

lemma thread_split:
  assumes "pc_at s i = Some p"
  obtains us vs where "s_threads s = us @ p # vs" "drop_thread i (s_threads s) = us @ vs"
    "\<And>q. (s_threads s)[i := q] = us @ q # vs"
proof -
  have i: "i < length (s_threads s)" "s_threads s ! i = p" using assms by (auto simp: pc_at_def split: if_splits)
  show thesis
  proof (rule that[of "take i (s_threads s)" "drop (Suc i) (s_threads s)"])
    show "s_threads s = take i (s_threads s) @ p # drop (Suc i) (s_threads s)" using id_take_nth_drop[OF i(1)] i(2) by simp
    show "drop_thread i (s_threads s) = take i (s_threads s) @ drop (Suc i) (s_threads s)" by (simp add: drop_thread_def)
    show "\<And>q. (s_threads s)[i := q] = take i (s_threads s) @ q # drop (Suc i) (s_threads s)"
      using upd_conv_take_nth_drop[OF i(1)] by blast
  qed
qed

text \<open>Changing one tunnel and its owners only needs to be checked at that tunnel.\<close>

lemma ownedI:
  assumes "owned s" "own_ok n (entry_of m n) (filter (owns n) ts)"
    "\<And>n'. n' \<noteq> n \<Longrightarrow> entry_of m n' = entry_of (s_mgr s) n'"
    "\<And>n'. n' \<noteq> n \<Longrightarrow> filter (owns n') ts = filter (owns n') (s_threads s)"
  shows "owned (s\<lparr>s_mgr := m, s_threads := ts\<rparr>)"
  using assms unfolding owned_def by (auto; metis)

lemma owned_at: "owned s \<Longrightarrow> own_ok n (entry_of (s_mgr s) n) (filter (owns n) (s_threads s))"
  by (simp add: owned_def)

text \<open>An owner in the middle of the list is the only one.\<close>

lemma owned_conn:
  assumes "owned s" "s_threads s = us @ PConn cfg # vs"
  shows "(\<exists>e. entry_of (s_mgr s) (cfg_name cfg) = Some e \<and> e_state e = MConnecting \<and> e_cfg e = Some cfg) \<and>
    filter (owns (cfg_name cfg)) (us @ vs) = []"
  using owned_at[OF assms(1), of "cfg_name cfg"] assms(2)
  by (auto simp: own_ok_def filter_empty_conv append_eq_Cons_conv split: option.splits mstate.splits)

lemma owned_down:
  assumes "owned s" "s_threads s = us @ PDown n e' # vs"
  shows "(\<exists>e. entry_of (s_mgr s) n = Some e \<and> e_state e = MDisconnecting) \<and>
    filter (owns n) (us @ vs) = [] \<and> entry_usable n e'"
  using owned_at[OF assms(1), of n] assms(2)
  by (auto simp: own_ok_def filter_empty_conv append_eq_Cons_conv split: option.splits mstate.splits)

lemma own_ok_no_race: "own_ok n eo os \<Longrightarrow> PRace cfg eng \<notin> set os"
  by (auto simp: own_ok_def split: option.splits mstate.splits)

lemma owned_no_race: "owned s \<Longrightarrow> PRace cfg eng \<notin> set (s_threads s)"
proof
  assume o: "owned s" and "PRace cfg eng \<in> set (s_threads s)"
  then have "PRace cfg eng \<in> set (filter (owns (cfg_name cfg)) (s_threads s))" by simp
  with own_ok_no_race[OF owned_at[OF o, of "cfg_name cfg"]] show False by blast
qed

lemma own_ok_cong:
  "e_state e = e_state e' \<Longrightarrow> e_engine e = e_engine e' \<Longrightarrow> e_cfg e = e_cfg e' \<Longrightarrow>
     own_ok n (Some e) os = own_ok n (Some e') os"
  by (auto simp: own_ok_def entry_usable_def split: mstate.splits)

lemma entry_status_frame:
  "e_state (fst (entry_status q t e)) = e_state e \<and> e_engine (fst (entry_status q t e)) = e_engine e \<and>
   e_cfg (fst (entry_status q t e)) = e_cfg e"
  by (auto simp: entry_status_def advanceDuration_def Let_def split: mstate.splits option.splits)

lemma entry_of_tick:
  "entry_of (fst (AllStatuses q t m)) n = map_option (\<lambda>e. fst (entry_status q t e)) (entry_of m n)"
  by (simp add: entry_of_def AllStatuses_def map_of_map_val)

section \<open>Every locked section keeps the ownership invariant\<close>

lemma claim_owned:
  assumes "owned s" "connect_claim cfg (s_mgr s) = Inr m"
  shows "owned (s\<lparr>s_mgr := m, s_threads := s_threads s @ [PConn cfg]\<rparr>)"
proof -
  let ?n = "cfg_name cfg"
  have m: "m = set_entry ?n ((getOrCreateEntry ?n (s_mgr s))\<lparr>e_cfg := Some cfg, e_state := MConnecting, e_netmgr := True\<rparr>) (s_mgr s)"
    and st: "map_option e_state (entry_of (s_mgr s) ?n) \<notin> {Some MConnected, Some MConnecting, Some MDisconnecting}"
    using assms(2) by (auto simp: connect_claim_def Let_def split: option.splits mstate.splits if_splits)
  have "filter (owns ?n) (s_threads s) = []"
    using owned_at[OF assms(1), of ?n] st by (auto simp: own_ok_def split: option.splits mstate.splits)
  then show ?thesis
    by (intro ownedI[OF assms(1), of ?n]) (simp_all add: m own_ok_def)
qed

lemma remove_owned:
  assumes "owned s" "s_threads s = us @ p # vs" "owns n p" "filter (owns n) (us @ vs) = []"
  shows "owned (s\<lparr>s_mgr := removeEntry n (s_mgr s), s_threads := us @ vs\<rparr>)"
proof (rule ownedI[OF assms(1), of n])
  show "own_ok n (entry_of (removeEntry n (s_mgr s)) n) (filter (owns n) (us @ vs))"
    using assms(4) by (simp add: own_ok_def)
  fix n' assume "n' \<noteq> n"
  moreover have "owns n' p \<Longrightarrow> n' = n" using assms(3) by (cases p) auto
  ultimately show "filter (owns n') (us @ vs) = filter (owns n') (s_threads s)" using assms(2) by auto
qed simp

lemma commit_owned:
  assumes "owned s" "s_threads s = us @ PConn cfg # vs"
  shows "\<exists>m. connect_commit now cfg eng (s_mgr s) = Some m \<and> owned (s\<lparr>s_mgr := m, s_threads := us @ vs\<rparr>)"
proof -
  let ?n = "cfg_name cfg"
  obtain e where e: "entry_of (s_mgr s) ?n = Some e" "e_state e = MConnecting" "e_cfg e = Some cfg"
    and none: "filter (owns ?n) (us @ vs) = []"
    using owned_conn[OF assms] by blast
  obtain m where m: "connect_commit now cfg eng (s_mgr s) = Some m"
    using e by (simp add: connect_commit_def getOrCreateEntry_def Let_def)
  moreover have "owned (s\<lparr>s_mgr := m, s_threads := us @ vs\<rparr>)"
  proof (rule ownedI[OF assms(1), of ?n])
    show "own_ok ?n (entry_of m ?n) (filter (owns ?n) (us @ vs))"
      using m e none by (auto simp: connect_commit_def getOrCreateEntry_def Let_def own_ok_def entry_usable_def)
    fix n' assume n': "n' \<noteq> ?n"
    then show "entry_of m n' = entry_of (s_mgr s) n'"
      using m e by (auto simp: connect_commit_def getOrCreateEntry_def Let_def)
    from n' assms(2) show "filter (owns n') (us @ vs) = filter (owns n') (s_threads s)" by auto
  qed
  ultimately show ?thesis by blast
qed

lemma wait_owned:
  "owned s \<Longrightarrow> s_threads s = us @ PWait n b # vs \<Longrightarrow> owned (s\<lparr>s_mgr := s_mgr s, s_threads := us @ vs\<rparr>)"
  "owned s \<Longrightarrow> s_threads s = us @ PWait n b # vs \<Longrightarrow> owned (s\<lparr>s_mgr := s_mgr s, s_threads := us @ PWait n b' # vs\<rparr>)"
  by (auto simp: owned_def)

text \<open>The state-corrupt branch of \<open>DisconnectTunnel\<close> is never taken.\<close>

lemma poll_cases:
  assumes "owned s" "disconnect_poll n observed expired (s_mgr s) = (m, r)"
  obtains (stay) "m = s_mgr s" "r = PollWait \<or> (\<exists>x. r = PollDone x \<and> (\<forall>err. x = Some err \<longrightarrow> te_kind err \<noteq> ErrStateCorrupt))"
  | (go) e where "r = PollGo e" "entry_of (s_mgr s) n = Some e" "e_state e = MConnected" "entry_usable n e"
      "m = set_entry n (e\<lparr>e_state := MDisconnecting, e_watchdog := False, e_sockbind := False\<rparr>) (s_mgr s)"
  using assms(2) owned_at[OF assms(1), of n]
  by (auto simp: disconnect_poll_def own_ok_def entry_usable_def newTunnelError_def Let_def
      split: option.splits mstate.splits if_splits)

lemma go_owned:
  assumes "owned s" "s_threads s = us @ PWait n b # vs" "entry_of (s_mgr s) n = Some e" "e_state e = MConnected"
    "entry_usable n e" "m = set_entry n (e\<lparr>e_state := MDisconnecting, e_watchdog := False, e_sockbind := False\<rparr>) (s_mgr s)"
  shows "owned (s\<lparr>s_mgr := m, s_threads := us @ PDown n e # vs\<rparr>)"
proof (rule ownedI[OF assms(1), of n])
  have "filter (owns n) (us @ vs) = []"
    using owned_at[OF assms(1), of n] assms(2,3,4) by (auto simp: own_ok_def)
  then show "own_ok n (entry_of m n) (filter (owns n) (us @ PDown n e # vs))"
    using assms(5,6) by (simp add: own_ok_def)
  fix n' assume "n' \<noteq> n"
  then show "filter (owns n') (us @ PDown n e # vs) = filter (owns n') (s_threads s)" "entry_of m n' = entry_of (s_mgr s) n'"
    using assms(2,6) by auto
qed

lemma frame_owned:
  assumes "owned s" "\<And>n. entry_of m n = entry_of (s_mgr s) n"
  shows "owned (s\<lparr>s_mgr := m\<rparr>)"
  using assms by (simp add: owned_def)

lemma tick_owned: "owned s \<Longrightarrow> owned (s\<lparr>s_mgr := fst (AllStatuses q t (s_mgr s))\<rparr>)"
  unfolding owned_def
proof (intro allI)
  fix n assume "\<forall>n. own_ok n (entry_of (s_mgr s) n) (filter (owns n) (s_threads s))"
  then have "own_ok n (entry_of (s_mgr s) n) (filter (owns n) (s_threads s))" by blast
  then show "own_ok n (entry_of (s_mgr (s\<lparr>s_mgr := fst (AllStatuses q t (s_mgr s))\<rparr>)) n)
      (filter (owns n) (s_threads (s\<lparr>s_mgr := fst (AllStatuses q t (s_mgr s))\<rparr>)))"
    using entry_status_frame[of q t]
    by (cases "entry_of (s_mgr s) n") (simp_all add: entry_of_tick own_ok_cong[of "fst (entry_status q t _)"])
qed

text \<open>An event of a goroutine that is there acts on a split of the thread list.\<close>

lemma pc_event:
  assumes "pc_at s i = None \<Longrightarrow> P"
    "\<And>us p vs. pc_at s i = Some p \<Longrightarrow> s_threads s = us @ p # vs \<Longrightarrow> drop_thread i (s_threads s) = us @ vs \<Longrightarrow>
       (\<And>q. (s_threads s)[i := q] = us @ q # vs) \<Longrightarrow> P"
  shows P
proof (cases "pc_at s i")
  case (Some p)
  show ?thesis using thread_split[OF Some] assms(2)[OF Some] by metis
qed (use assms(1) in simp)

lemma abort_step_owned: "owned s \<Longrightarrow> owned (mstep s (EvAbort i))"
proof (rule pc_event[of s i])
  fix us p vs assume o: "owned s" and t: "pc_at s i = Some p" "s_threads s = us @ p # vs" "drop_thread i (s_threads s) = us @ vs"
  show "owned (mstep s (EvAbort i))"
    using o t owned_conn[OF o, of us _ vs] remove_owned[OF o, of us p vs]
    by (cases p) (simp_all add: finish_def)
qed simp_all

lemma commit_step_owned: "owned s \<Longrightarrow> owned (mstep s (EvCommit i eng now))"
proof (rule pc_event[of s i])
  fix us p vs assume o: "owned s" and t: "pc_at s i = Some p" "s_threads s = us @ p # vs" "drop_thread i (s_threads s) = us @ vs"
  show "owned (mstep s (EvCommit i eng now))"
  proof (cases p)
    case (PConn cfg)
    with o t commit_owned[OF o, of us cfg vs now eng] show ?thesis by (auto simp: finish_def)
  qed (use o t in simp_all)
qed simp_all

lemma race_step_owned: "owned s \<Longrightarrow> owned (mstep s (EvRaceDone i))"
proof (rule pc_event[of s i])
  fix us p vs assume o: "owned s" and t: "pc_at s i = Some p" "s_threads s = us @ p # vs"
  show "owned (mstep s (EvRaceDone i))"
    using o t owned_no_race[OF o] by (cases p) (simp_all, metis)
qed simp_all

lemma poll_step_owned: "owned s \<Longrightarrow> owned (mstep s (EvPoll i expired))"
proof (rule pc_event[of s i])
  fix us p vs assume o: "owned s" and t: "pc_at s i = Some p" "s_threads s = us @ p # vs"
    "drop_thread i (s_threads s) = us @ vs" "\<And>q. (s_threads s)[i := q] = us @ q # vs"
  show "owned (mstep s (EvPoll i expired))"
  proof (cases p)
    case (PWait n b)
    obtain m r where mr: "disconnect_poll n b expired (s_mgr s) = (m, r)" by fastforce
    from o mr show ?thesis
    proof (cases rule: poll_cases)
      case stay
      with t PWait mr wait_owned[OF o, of us n b vs] show ?thesis by (auto simp: finish_def become_def)
    next
      case (go e)
      with t PWait mr go_owned[OF o, of us n b vs e m] show ?thesis by (simp add: become_def)
    qed
  qed (use o t in simp_all)
qed simp_all

lemma down_step_owned: "owned s \<Longrightarrow> owned (mstep s (EvDown i))"
proof (rule pc_event[of s i])
  fix us p vs assume o: "owned s" and t: "pc_at s i = Some p" "s_threads s = us @ p # vs" "drop_thread i (s_threads s) = us @ vs"
  show "owned (mstep s (EvDown i))"
  proof (cases p)
    case (PDown n e)
    with o t owned_down[OF o, of us n e vs] remove_owned[OF o, of us p vs n] show ?thesis by (simp add: finish_def)
  qed (use o t in simp_all)
qed simp_all

lemma mstep_owned: "owned s \<Longrightarrow> owned (mstep s ev)"
proof (cases ev)
  case (EvConnect cfg)
  assume "owned s"
  with EvConnect claim_owned[of s cfg] show ?thesis by (simp split: sum.splits)
next
  case (EvDisconnect n)
  assume "owned s"
  with EvDisconnect show ?thesis by (simp add: owned_def)
next
  case (EvCapture i snap)
  assume "owned s"
  with EvCapture show ?thesis by (simp add: frame_owned split: option.splits pc.splits)
next
  case (EvClear i)
  assume "owned s"
  with EvClear show ?thesis by (simp add: frame_owned split: option.splits pc.splits)
next
  case (EvTick q t)
  assume "owned s"
  with EvTick show ?thesis by (simp add: tick_owned)
next
  case (EvPin b)
  assume "owned s"
  with EvPin show ?thesis by (simp add: frame_owned)
qed (simp_all only: abort_step_owned commit_step_owned race_step_owned poll_step_owned down_step_owned)

interpretation mm: invariant_machine mstep owned
  by unfold_locales (rule mstep_owned)

lemma sys0_owned: "owned sys0"
  by (simp add: owned_def sys0_def manager0_def entry_of_def own_ok_def)

lemma reachable_owned: "owned (foldl mstep sys0 es)"
  by (rule mm.inv_run[OF sys0_owned])

section \<open>Properties of the interleavings\<close>

lemma own_ok_length: "own_ok n eo os \<Longrightarrow> length os \<le> 1"
  by (auto simp: own_ok_def split: option.splits mstate.splits)

text \<open>C1: However the goroutines interleave, a tunnel's transition has one owner: at most one goroutine
  is inside a connect or a teardown of a given tunnel, and the raced-connect branch of
  \<open>ConnectWithContext\<close>, which discards a freshly built engine, is never entered.\<close>

theorem one_owner_per_tunnel:
  "length (filter (owns n) (s_threads (foldl mstep sys0 es))) \<le> 1 \<and>
   PRace cfg eng \<notin> set (s_threads (foldl mstep sys0 es))"
  using own_ok_length[OF owned_at[OF reachable_owned]] owned_no_race[OF reachable_owned] by blast

text \<open>C35: In every state the goroutines of the manager can reach, however they interleave: a goroutine that is running the
  phases of a connect still finds its entry in the connecting state, so that its commit, whenever it comes, makes the
  tunnel connected; and a disconnect never reports a corrupt state, that is a connected tunnel without an engine.\<close>

theorem commit_and_poll_total:
  assumes "s = foldl mstep sys0 es"
  shows "(pc_at s i = Some (PConn cfg) \<longrightarrow>
      (\<exists>m. connect_commit now cfg eng (s_mgr s) = Some m \<and> IsTunnelConnected m (cfg_name cfg))) \<and>
    (case snd (disconnect_poll n observed expired (s_mgr s)) of
       PollDone (Some err) \<Rightarrow> te_kind err \<noteq> ErrStateCorrupt | _ \<Rightarrow> True)"
proof -
  have o: "owned s" using assms(1) reachable_owned by simp
  have "\<exists>m. connect_commit now cfg eng (s_mgr s) = Some m \<and> IsTunnelConnected m (cfg_name cfg)"
    if p: "pc_at s i = Some (PConn cfg)"
  proof -
    from p obtain us vs where "s_threads s = us @ PConn cfg # vs" by (rule thread_split)
    from owned_conn[OF o this] obtain e where "entry_of (s_mgr s) (cfg_name cfg) = Some e" "e_state e = MConnecting"
      by blast
    then show ?thesis by (simp add: connect_commit_def getOrCreateEntry_def Let_def IsTunnelConnected_def)
  qed
  moreover obtain m r where mr: "disconnect_poll n observed expired (s_mgr s) = (m, r)" by fastforce
  from o mr have "case r of PollDone (Some err) \<Rightarrow> te_kind err \<noteq> ErrStateCorrupt | _ \<Rightarrow> True"
    by (cases rule: poll_cases) (auto split: option.splits)
  ultimately show ?thesis using mr by simp
qed

theorem commit_and_poll_total_witness:
  "\<exists>m. connect_commit 5 demo_cfg demo_eng (s_mgr (foldl mstep sys0 [EvDisconnect ''home'', EvConnect demo_cfg, EvPoll 0 False])) = Some m
     \<and> IsTunnelConnected m ''home''"
proof -
  let ?es = "[EvDisconnect ''home'', EvConnect demo_cfg, EvPoll 0 False]"
  have p: "pc_at (foldl mstep sys0 ?es) 1 = Some (PConn demo_cfg)" by code_simp
  have n: "cfg_name demo_cfg = ''home''" by (simp add: demo_cfg_def)
  from commit_and_poll_total[OF refl, of ?es 1 demo_cfg] p n show ?thesis by metis
qed

section \<open>Full-tunnel exclusivity\<close>

definition fulls :: "manager \<Rightarrow> string set" where
  "fulls m = {n. \<exists>e. entry_of m n = Some e \<and> is_full_entry e}"

text \<open>The preflight check of \<open>ConnectWithContext\<close> looks at connected tunnels only, so by itself it does
  not keep two full tunnels apart: the helper's \<open>connectMu\<close> does, by admitting one connect at a time.\<close>

fun is_conn :: "pc \<Rightarrow> bool" where
  "is_conn (PConn _) = True"
| "is_conn _ = False"

fun lstep :: "sys \<Rightarrow> event \<Rightarrow> sys" where
  "lstep s (EvConnect cfg) = (if list_ex is_conn (s_threads s) then s else mstep s (EvConnect cfg))"
| "lstep s ev = mstep s ev"

definition exclusive :: "sys \<Rightarrow> bool" where
  "exclusive s \<longleftrightarrow> owned s \<and> (\<forall>n \<in> fulls (s_mgr s). \<forall>n' \<in> fulls (s_mgr s). n = n') \<and>
     length (filter is_conn (s_threads s)) \<le> 1 \<and>
     (\<forall>cfg. PConn cfg \<in> set (s_threads s) \<and> cfg_IsFullTunnel cfg \<longrightarrow> fulls (s_mgr s) = {})"

lemma fulls_mono:
  assumes "\<And>n e. entry_of m n = Some e \<Longrightarrow> is_full_entry e \<Longrightarrow> \<exists>e'. entry_of m0 n = Some e' \<and> is_full_entry e'"
  shows "fulls m \<subseteq> fulls m0"
  using assms by (auto simp: fulls_def)

text \<open>Every locked section but a commit keeps or shrinks the set of connected full tunnels.\<close>

lemma claim_fulls: "connect_claim cfg m = Inr m' \<Longrightarrow> fulls m' \<subseteq> fulls m"
proof (rule fulls_mono)
  fix k e assume c: "connect_claim cfg m = Inr m'" and e: "entry_of m' k = Some e" "is_full_entry e"
  have nf: "\<not> is_full_entry (x\<lparr>e_cfg := c, e_state := MConnecting, e_netmgr := b\<rparr>)" for x c b
    by (simp add: is_full_entry_def)
  show "\<exists>e'. entry_of m k = Some e' \<and> is_full_entry e'"
    using c e nf by (auto simp: connect_claim_def Let_def split: option.splits mstate.splits if_splits)
qed

lemma claim_full_empty:
  assumes "connect_claim cfg m = Inr m'" "cfg_IsFullTunnel cfg"
  shows "fulls m' = {}"
proof -
  have none: "List.find (\<lambda>(n, e). n \<noteq> cfg_name cfg \<and> is_full_entry e) (m_tunnels m) = None"
    and m': "m' = set_entry (cfg_name cfg) ((getOrCreateEntry (cfg_name cfg) m)\<lparr>e_cfg := Some cfg, e_state := MConnecting, e_netmgr := True\<rparr>) m"
    using assms by (auto simp: connect_claim_def Let_def split: option.splits mstate.splits if_splits)
  have "\<not> is_full_entry e" if e: "entry_of m' n = Some e" for n e
  proof (cases "n = cfg_name cfg")
    case True
    with e m' have "e_state e = MConnecting" by auto
    then show ?thesis by (simp add: is_full_entry_def)
  next
    case False
    with e m' have "(n, e) \<in> set (m_tunnels m)" by (simp add: entry_of_def[of m] map_of_SomeD)
    with none False show ?thesis by (auto simp: find_None_iff)
  qed
  then show ?thesis by (auto simp: fulls_def)
qed

lemma remove_fulls: "fulls (removeEntry n m) \<subseteq> fulls m"
  by (rule fulls_mono) (auto split: if_splits)

lemma poll_fulls: "disconnect_poll n ob ex m = (m', r) \<Longrightarrow> fulls m' \<subseteq> fulls m"
proof (rule fulls_mono)
  fix k e assume p: "disconnect_poll n ob ex m = (m', r)" and e: "entry_of m' k = Some e" "is_full_entry e"
  have nf: "\<not> is_full_entry (x\<lparr>e_state := MDisconnecting, e_watchdog := w, e_sockbind := b\<rparr>)" for x w b
    by (simp add: is_full_entry_def)
  show "\<exists>e'. entry_of m k = Some e' \<and> is_full_entry e'"
    using p e nf by (auto simp: disconnect_poll_def Let_def split: option.splits if_splits)
qed

lemma tick_fulls: "fulls (fst (AllStatuses q t m)) = fulls m"
  using entry_status_frame[of q t] by (auto simp: fulls_def entry_of_tick is_full_entry_def)

lemma frame_fulls [simp]:
  "fulls (capturePreModDNS s m) = fulls m" "fulls (clearPreModDNS m) = fulls m" "fulls (SetPinInterface b m) = fulls m"
  by (simp_all add: fulls_def)

lemma commit_fulls:
  "connect_commit now cfg eng m = Some m' \<Longrightarrow> e_cfg (getOrCreateEntry (cfg_name cfg) m) = Some cfg \<Longrightarrow>
     fulls m' \<subseteq> fulls m \<union> (if cfg_IsFullTunnel cfg then {cfg_name cfg} else {})"
  by (auto simp: connect_commit_def Let_def fulls_def is_full_entry_def split: if_splits)

lemma shrink_exclusive:
  assumes "exclusive s" "owned s'" "fulls (s_mgr s') \<subseteq> fulls (s_mgr s)"
    "filter is_conn (s_threads s') = filter is_conn (s_threads s) \<or> filter is_conn (s_threads s') = []"
  shows "exclusive s'"
proof -
  have c: "PConn cfg \<in> set (s_threads s') \<Longrightarrow> PConn cfg \<in> set (s_threads s)" for cfg
  proof -
    assume "PConn cfg \<in> set (s_threads s')"
    then have "PConn cfg \<in> set (filter is_conn (s_threads s'))" by simp
    moreover have "set (filter is_conn (s_threads s')) \<subseteq> set (filter is_conn (s_threads s))"
      using assms(4) by (elim disjE) (simp_all only: list.set empty_subsetI subset_refl)
    ultimately have "PConn cfg \<in> set (filter is_conn (s_threads s))" by blast
    then show ?thesis by simp
  qed
  show ?thesis using assms c unfolding exclusive_def by (auto; blast)
qed


lemma lstep_owned: "owned s \<Longrightarrow> owned (lstep s ev)"
  by (cases ev) (simp_all del: mstep.simps add: mstep_owned)

lemma conn_filter_split:
  "s_threads s = us @ p # vs \<Longrightarrow> \<not> is_conn p \<Longrightarrow> \<not> is_conn q \<Longrightarrow>
     filter is_conn (us @ vs) = filter is_conn (s_threads s) \<and>
     filter is_conn (us @ q # vs) = filter is_conn (s_threads s)"
  by simp

lemma lstep_conn_only:
  "length (filter is_conn ts) \<le> 1 \<Longrightarrow> ts = us @ PConn cfg # vs \<Longrightarrow> filter is_conn (us @ vs) = []"
  by simp

lemma lstep_exclusive_commit:
  assumes x: "exclusive s" and t: "s_threads s = us @ PConn cfg # vs"
    and c: "connect_commit now cfg eng (s_mgr s) = Some m" and s': "s' = s\<lparr>s_mgr := m, s_threads := us @ vs\<rparr>"
  shows "exclusive s'"
proof -
  have o: "owned s" using x by (simp add: exclusive_def)
  obtain e where e: "entry_of (s_mgr s) (cfg_name cfg) = Some e" "e_cfg e = Some cfg"
    using owned_conn[OF o t] by blast
  have o': "owned s'" using commit_owned[OF o t, of now eng] c s' by auto
  have none: "filter is_conn (us @ vs) = []" using x t by (simp add: exclusive_def)
  then have nc: "PConn cfg' \<notin> set (us @ vs)" for cfg' by (auto simp: filter_empty_conv)
  have f: "fulls m \<subseteq> fulls (s_mgr s) \<union> (if cfg_IsFullTunnel cfg then {cfg_name cfg} else {})"
    using commit_fulls[OF c] e by (simp add: getOrCreateEntry_def)
  moreover have "PConn cfg \<in> set (s_threads s)" using t by simp
  then have "cfg_IsFullTunnel cfg \<Longrightarrow> fulls (s_mgr s) = {}" using x unfolding exclusive_def by blast
  ultimately have "\<forall>n \<in> fulls m. \<forall>n' \<in> fulls m. n = n'"
    using x by (cases "cfg_IsFullTunnel cfg") (auto simp: exclusive_def)
  with o' none nc s' show ?thesis by (simp add: exclusive_def)
qed

lemma lstep_exclusive_connect: "exclusive s \<Longrightarrow> exclusive (lstep s (EvConnect cfg))"
proof (cases "list_ex is_conn (s_threads s)")
  case False
  assume x: "exclusive s"
  then have o: "owned s" by (simp add: exclusive_def)
  have none: "filter is_conn (s_threads s) = []" using False by (auto simp: filter_empty_conv list_ex_iff)
  then have nc: "PConn cfg' \<notin> set (s_threads s)" for cfg' by (auto simp: filter_empty_conv)
  show ?thesis
  proof (cases "connect_claim cfg (s_mgr s)")
    case (Inr m)
    have "\<forall>n \<in> fulls m. \<forall>n' \<in> fulls m. n = n'"
      using claim_fulls[OF Inr] x unfolding exclusive_def by blast
    then show ?thesis
      using False Inr claim_owned[OF o Inr] none nc claim_full_empty[OF Inr] by (auto simp: exclusive_def)
  qed (use False x in simp)
qed simp

lemma commit_exclusive: "exclusive s \<Longrightarrow> exclusive (mstep s (EvCommit i eng now))"
proof (rule pc_event[of s i])
  fix us p vs assume x: "exclusive s" and t: "pc_at s i = Some p" "s_threads s = us @ p # vs" "drop_thread i (s_threads s) = us @ vs"
  then have o: "owned s" by (simp add: exclusive_def)
  show "exclusive (mstep s (EvCommit i eng now))"
  proof (cases p)
    case (PConn cfg)
    obtain m where "connect_commit now cfg eng (s_mgr s) = Some m"
      using commit_owned[OF o, of us cfg vs now eng] t PConn by blast
    then show ?thesis
      using lstep_exclusive_commit[OF x, of us cfg vs now eng m] t PConn by (simp add: finish_def)
  qed (use x t in simp_all)
qed simp_all

text \<open>The other goroutine events shrink the full tunnels and do not add a connect.\<close>

lemma goroutine_shrinks:
  assumes "exclusive s" "ev \<in> {EvAbort i, EvRaceDone i, EvPoll i expired, EvDown i}"
  shows "fulls (s_mgr (mstep s ev)) \<subseteq> fulls (s_mgr s) \<and>
    (filter is_conn (s_threads (mstep s ev)) = filter is_conn (s_threads s) \<or>
     filter is_conn (s_threads (mstep s ev)) = [])"
proof (rule pc_event[of s i])
  assume "pc_at s i = None"
  with assms(2) show ?thesis by auto
next
  fix us p vs assume t: "pc_at s i = Some p" "s_threads s = us @ p # vs" "drop_thread i (s_threads s) = us @ vs"
    "\<And>q. (s_threads s)[i := q] = us @ q # vs"
  have "length (filter is_conn (s_threads s)) \<le> 1" using assms(1) by (simp add: exclusive_def)
  then show ?thesis
    using assms(2) t
    by (cases p) (auto simp: finish_def become_def split: prod.splits poll.splits
        dest: subsetD[OF remove_fulls] subsetD[OF poll_fulls])
qed

lemma lstep_exclusive: "exclusive s \<Longrightarrow> exclusive (lstep s ev)"
proof -
  assume x: "exclusive s"
  then have o: "owned s" by (simp add: exclusive_def)
  have sh: "exclusive (mstep s ev)"
    if "fulls (s_mgr (mstep s ev)) \<subseteq> fulls (s_mgr s) \<and>
      (filter is_conn (s_threads (mstep s ev)) = filter is_conn (s_threads s) \<or>
       filter is_conn (s_threads (mstep s ev)) = [])"
    using that shrink_exclusive[OF x mstep_owned[OF o, of ev]] by blast
  show ?thesis
  proof (cases ev)
    case (EvConnect cfg)
    with x show ?thesis by (simp only: lstep_exclusive_connect)
  next
    case (EvCommit i eng now)
    with x show ?thesis by (simp only: lstep.simps commit_exclusive)
  next
    case (EvPoll i expired)
    with goroutine_shrinks[OF x, of ev i expired] sh show ?thesis by simp
  next
    case (EvAbort i)
    with goroutine_shrinks[OF x, of ev i] sh show ?thesis by simp
  next
    case (EvRaceDone i)
    with goroutine_shrinks[OF x, of ev i] sh show ?thesis by simp
  next
    case (EvDown i)
    with goroutine_shrinks[OF x, of ev i] sh show ?thesis by simp
  next
    case (EvCapture i snap)
    with sh show ?thesis by (simp split: option.splits pc.splits)
  next
    case (EvClear i)
    with sh show ?thesis by (simp split: option.splits pc.splits)
  qed (use sh in \<open>simp_all add: tick_fulls\<close>)
qed

interpretation lm: invariant_machine lstep exclusive
  by unfold_locales (rule lstep_exclusive)

text \<open>C22: With connects serialised, as the helper's \<open>connectMu\<close> serialises them, two full tunnels are
  never connected at the same time, whatever disconnects, status ticks and failures happen in between.\<close>

theorem one_full_tunnel_under_lock:
  "card (fulls (s_mgr (foldl lstep sys0 es))) \<le> 1"
proof -
  have "exclusive sys0"
    using sys0_owned by (simp add: exclusive_def sys0_def manager0_def fulls_def entry_of_def)
  then have "exclusive (foldl lstep sys0 es)" by (rule lm.inv_run)
  then have u: "\<forall>n \<in> fulls (s_mgr (foldl lstep sys0 es)). \<forall>n' \<in> fulls (s_mgr (foldl lstep sys0 es)). n = n'"
    by (simp add: exclusive_def)
  show ?thesis
  proof (cases "fulls (s_mgr (foldl lstep sys0 es)) = {}")
    case False
    then obtain n where "fulls (s_mgr (foldl lstep sys0 es)) = {n}" using u by blast
    then show ?thesis by simp
  qed simp
qed

text \<open>Without that lock the manager's own check does not exclude a second full tunnel: two connects
  whose claims interleave before either commits both succeed.\<close>

theorem two_full_tunnels_without_lock:
  "\<exists>es. {''home'', ''work''} \<subseteq> fulls (s_mgr (foldl mstep sys0 es))"
proof
  let ?es = "[EvConnect demo_cfg, EvConnect (demo_cfg\<lparr>cfg_name := ''work''\<rparr>),
    EvCommit 0 demo_eng 1, EvCommit 0 (demo_eng\<lparr>en_iface := ''utun8''\<rparr>) 2]"
  have f: "map_option is_full_entry (entry_of (s_mgr (foldl mstep sys0 ?es)) ''home'') = Some True"
    "map_option is_full_entry (entry_of (s_mgr (foldl mstep sys0 ?es)) ''work'') = Some True" by code_simp+
  then show "{''home'', ''work''} \<subseteq> fulls (s_mgr (foldl mstep sys0 ?es))"
    unfolding fulls_def by (auto simp del: foldl.simps mstep.simps)
qed

end
