(* ===== verification/Settings.thy ===== *)
theory Settings
  imports WifiAutomation
begin

text \<open>
  The settings file the GUI and the helper share (\<open>internal/storage/settings.go\<close>), the per-tunnel
  sidecar and the tunnel-name check (\<open>internal/storage/tunnels.go\<close>, \<open>name.go\<close>). The record holds
  the fields the privileged helper reads; the purely visual ones (language, theme, list layout,
  module visibility, hotkey, proxy, history) are left out. A nil pointer is \<open>None\<close>; a nil map or
  slice is empty. The manual latches are the part with an invariant: a tunnel is latched off or
  on, never both.
\<close>

section \<open>Settings\<close>

record settings =
  s_disconnect_on_quit :: "bool option"
  s_dns_resolve_path :: bool
  s_health_check :: bool
  s_prevent_sleep :: bool
  s_pin_interface :: bool
  s_log_level :: string
  s_enable_scripts :: bool
  s_enable_awg :: bool
  s_auto_update :: "bool option"
  s_automation :: "automation option"
  s_manual_off :: "string list"
  s_manual_on :: "string list"
  s_public_ip :: "bool option"
  s_ep_failover :: "bool option"
  s_ep_threshold :: int
  s_ep_margin :: int
  s_ep_sustained :: int
  s_ep_cooldown :: int

abbreviation MinEndpointCooldownSec :: int where "MinEndpointCooldownSec \<equiv> 240"
abbreviation DefaultEndpointCooldownSec :: int where "DefaultEndpointCooldownSec \<equiv> 300"

definition DefaultSettings :: settings where
  "DefaultSettings = \<lparr>s_disconnect_on_quit = Some True, s_dns_resolve_path = False, s_health_check = True,
     s_prevent_sleep = False, s_pin_interface = False, s_log_level = ''info'', s_enable_scripts = False,
     s_enable_awg = True, s_auto_update = Some True, s_automation = None, s_manual_off = [], s_manual_on = [],
     s_public_ip = None, s_ep_failover = None, s_ep_threshold = 150, s_ep_margin = 30, s_ep_sustained = 30,
     s_ep_cooldown = DefaultEndpointCooldownSec\<rparr>"

text \<open>The accessors that read a nil receiver as the default.\<close>

definition opt_flag :: "(settings \<Rightarrow> bool option) \<Rightarrow> settings option \<Rightarrow> bool" where
  "opt_flag f os = (case os of None \<Rightarrow> True | Some s \<Rightarrow> (case f s of None \<Rightarrow> True | Some b \<Rightarrow> b))"

definition PublicIPLookupEnabled :: "settings option \<Rightarrow> bool" where
  "PublicIPLookupEnabled = opt_flag s_public_ip"

definition EndpointFailoverEnabled :: "settings option \<Rightarrow> bool" where
  "EndpointFailoverEnabled = opt_flag s_ep_failover"

definition AutoUpdateCheckEnabled :: "settings option \<Rightarrow> bool" where
  "AutoUpdateCheckEnabled = opt_flag s_auto_update"

definition DisconnectOnQuitEnabled :: "settings option \<Rightarrow> bool" where
  "DisconnectOnQuitEnabled = opt_flag s_disconnect_on_quit"

definition PreventSystemSleepEnabled :: "settings option \<Rightarrow> bool" where
  "PreventSystemSleepEnabled os = (case os of None \<Rightarrow> False | Some s \<Rightarrow> s_prevent_sleep s)"

definition EffectiveEndpointThresholdMs :: "settings option \<Rightarrow> int" where
  "EffectiveEndpointThresholdMs os =
     (case os of None \<Rightarrow> 150 | Some s \<Rightarrow> if s_ep_threshold s < 1 then 150 else s_ep_threshold s)"

definition EffectiveEndpointMarginPct :: "settings option \<Rightarrow> int" where
  "EffectiveEndpointMarginPct os =
     (case os of None \<Rightarrow> 30 | Some s \<Rightarrow> if s_ep_margin s < 1 then 30 else s_ep_margin s)"

definition EffectiveEndpointSustainedSec :: "settings option \<Rightarrow> int" where
  "EffectiveEndpointSustainedSec os =
     (case os of None \<Rightarrow> 0 | Some s \<Rightarrow> if s_ep_sustained s < 0 then 0 else s_ep_sustained s)"

definition EffectiveEndpointCooldownSec :: "settings option \<Rightarrow> int" where
  "EffectiveEndpointCooldownSec os =
     (case os of None \<Rightarrow> DefaultEndpointCooldownSec
      | Some s \<Rightarrow> if s_ep_cooldown s < MinEndpointCooldownSec then DefaultEndpointCooldownSec else s_ep_cooldown s)"

section \<open>Manual latches and per-tunnel policy\<close>

definition IsManualOff :: "string \<Rightarrow> settings \<Rightarrow> bool" where
  "IsManualOff n s \<longleftrightarrow> n \<in> set (s_manual_off s)"

definition IsManualOn :: "string \<Rightarrow> settings \<Rightarrow> bool" where
  "IsManualOn n s \<longleftrightarrow> n \<in> set (s_manual_on s)"

text \<open>The clearing loops return after the first hit.\<close>

definition ClearManualOff :: "string \<Rightarrow> settings \<Rightarrow> settings" where
  "ClearManualOff n s = s\<lparr>s_manual_off := remove1 n (s_manual_off s)\<rparr>"

definition ClearManualOn :: "string \<Rightarrow> settings \<Rightarrow> settings" where
  "ClearManualOn n s = s\<lparr>s_manual_on := remove1 n (s_manual_on s)\<rparr>"

definition SetManualOff :: "string \<Rightarrow> settings \<Rightarrow> settings" where
  "SetManualOff n s0 =
     (let s = ClearManualOn n s0 in
      if IsManualOff n s then s else s\<lparr>s_manual_off := s_manual_off s @ [n]\<rparr>)"

definition SetManualOn :: "string \<Rightarrow> settings \<Rightarrow> settings" where
  "SetManualOn n s0 =
     (let s = ClearManualOff n s0 in
      if IsManualOn n s then s else s\<lparr>s_manual_on := s_manual_on s @ [n]\<rparr>)"

definition ClearAllManualOverrides :: "settings \<Rightarrow> settings" where
  "ClearAllManualOverrides s = s\<lparr>s_manual_off := [], s_manual_on := []\<rparr>"

definition EnsureAutomation :: "settings \<Rightarrow> settings" where
  "EnsureAutomation s =
     s\<lparr>s_automation := Some (Normalize (case s_automation s of None \<Rightarrow> DefaultAutomation | Some a \<Rightarrow> a))\<rparr>"

text \<open>Moving one map entry: the new key is overwritten only when the old one is present.\<close>

definition move_key :: "string \<Rightarrow> string \<Rightarrow> (string \<times> 'v) list \<Rightarrow> (string \<times> 'v) list" where
  "move_key old new m =
     (case map_of m old of None \<Rightarrow> m | Some v \<Rightarrow> AList.delete old (AList.update new v m))"

definition RenameTunnelRules :: "string \<Rightarrow> string \<Rightarrow> settings \<Rightarrow> settings" where
  "RenameTunnelRules old new s =
     (if old = new then s
      else
        let s1 = s\<lparr>s_automation := map_option (\<lambda>a. a\<lparr>a_per_tunnel := move_key old new (a_per_tunnel a),
                     a_defaults := move_key old new (a_defaults a)\<rparr>) (s_automation s)\<rparr>;
            s2 = (if IsManualOff old s1 then SetManualOff new (ClearManualOff old s1) else s1)
        in (if IsManualOn old s2 then SetManualOn new (ClearManualOn old s2) else s2))"

definition DeleteTunnelRules :: "string \<Rightarrow> settings \<Rightarrow> settings" where
  "DeleteTunnelRules n s =
     ClearManualOn n (ClearManualOff n
       (s\<lparr>s_automation := map_option (\<lambda>a. a\<lparr>a_per_tunnel := AList.delete n (a_per_tunnel a),
            a_defaults := AList.delete n (a_defaults a)\<rparr>) (s_automation s)\<rparr>))"

section \<open>The sidecar\<close>

record tunnel_meta =
  tm_bind_index :: int
  tm_bind_name :: string
  tm_protect :: bool
  tm_domains :: "string list"
  tm_default_dns :: bool
  tm_resolve_path :: bool
  tm_automation_disabled :: bool
  tm_candidates :: "string list"
  tm_auto_switch :: bool
  tm_switch_mode :: string

definition meta0 :: tunnel_meta where
  "meta0 = \<lparr>tm_bind_index = 0, tm_bind_name = '''', tm_protect = False, tm_domains = [], tm_default_dns = False,
     tm_resolve_path = False, tm_automation_disabled = False, tm_candidates = [], tm_auto_switch = False,
     tm_switch_mode = ''''\<rparr>"

definition trimmed_unique :: "string list \<Rightarrow> string list" where
  "trimmed_unique xs = dedup (filter (\<lambda>v. v \<noteq> '''') (map trim_space xs))"

definition EndpointCandidateList :: "tunnel_meta option \<Rightarrow> string list" where
  "EndpointCandidateList om = (case om of None \<Rightarrow> [] | Some m \<Rightarrow> trimmed_unique (tm_candidates m))"

definition SetEndpointCandidates :: "string list \<Rightarrow> tunnel_meta \<Rightarrow> tunnel_meta" where
  "SetEndpointCandidates xs m = m\<lparr>tm_candidates := trimmed_unique xs\<rparr>"

definition EndpointAutoSwitchEnabled :: "tunnel_meta option \<Rightarrow> bool" where
  "EndpointAutoSwitchEnabled om = (case om of None \<Rightarrow> False | Some m \<Rightarrow> tm_auto_switch m)"

definition EndpointSwitchTiming :: "tunnel_meta option \<Rightarrow> string" where
  "EndpointSwitchTiming om =
     (case om of None \<Rightarrow> ''off''
      | Some m \<Rightarrow> if \<not> tm_auto_switch m then ''off''
                 else if tm_switch_mode m = ''dynamic'' then ''dynamic'' else ''reconnect'')"

definition EndpointSwitchDynamic :: "tunnel_meta option \<Rightarrow> bool" where
  "EndpointSwitchDynamic om \<longleftrightarrow> EndpointSwitchTiming om = ''dynamic''"

section \<open>Tunnel names\<close>

definition reservedDeviceNames :: "string list" where
  "reservedDeviceNames = [''CON'', ''PRN'', ''AUX'', ''NUL'', ''CONIN$'', ''CONOUT$'',
     ''COM1'', ''COM2'', ''COM3'', ''COM4'', ''COM5'', ''COM6'', ''COM7'', ''COM8'', ''COM9'',
     ''LPT1'', ''LPT2'', ''LPT3'', ''LPT4'', ''LPT5'', ''LPT6'', ''LPT7'', ''LPT8'', ''LPT9'']"

datatype name_error =
  NameEmpty | NameTooLong | NameEdgeSpace | NameBadChar | NameReserved

definition upper_char :: "char \<Rightarrow> char" where
  "upper_char c = (if CHR ''a'' \<le> c \<and> c \<le> CHR ''z'' then char_of (of_char c - 32 :: nat) else c)"

definition name_char :: "char \<Rightarrow> bool" where
  "name_char c \<longleftrightarrow> (CHR ''a'' \<le> c \<and> c \<le> CHR ''z'') \<or> (CHR ''A'' \<le> c \<and> c \<le> CHR ''Z'') \<or>
     (CHR ''0'' \<le> c \<and> c \<le> CHR ''9'') \<or> c = CHR ''-'' \<or> c = CHR ''_'' \<or> c = CHR '' ''"

text \<open>
  The \<open>None\<close> result accepts the name. A rune outside ASCII is a run of bytes outside ASCII, so
  testing bytes rejects exactly the names the rune loop rejects.
\<close>

definition ValidateTunnelName :: "string \<Rightarrow> name_error option" where
  "ValidateTunnelName name =
     (if name = '''' then Some NameEmpty
      else if length name > 64 then Some NameTooLong
      else if hd name = CHR '' '' \<or> last name = CHR '' '' then Some NameEdgeSpace
      else if \<not> list_all name_char name then Some NameBadChar
      else if map upper_char name \<in> set reservedDeviceNames then Some NameReserved
      else None)"

section \<open>The latches as a machine\<close>

datatype settings_op =
    OpSetOff string | OpSetOn string | OpClearOff string | OpClearOn string | OpClearAll
  | OpEnsure | OpRename string string | OpDelete string

fun settings_step :: "settings \<Rightarrow> settings_op \<Rightarrow> settings" where
  "settings_step s (OpSetOff n) = SetManualOff n s"
| "settings_step s (OpSetOn n) = SetManualOn n s"
| "settings_step s (OpClearOff n) = ClearManualOff n s"
| "settings_step s (OpClearOn n) = ClearManualOn n s"
| "settings_step s OpClearAll = ClearAllManualOverrides s"
| "settings_step s OpEnsure = EnsureAutomation s"
| "settings_step s (OpRename old new) = RenameTunnelRules old new s"
| "settings_step s (OpDelete n) = DeleteTunnelRules n s"

definition latches_ok :: "settings \<Rightarrow> bool" where
  "latches_ok s \<longleftrightarrow> distinct (s_manual_off s) \<and> distinct (s_manual_on s) \<and>
     set (s_manual_off s) \<inter> set (s_manual_on s) = {}"

lemma latches_ok_default: "latches_ok DefaultSettings"
  by (simp add: latches_ok_def DefaultSettings_def)

lemma manual_mem [simp]:
  "IsManualOff n s \<longleftrightarrow> n \<in> set (s_manual_off s)"
  "IsManualOn n s \<longleftrightarrow> n \<in> set (s_manual_on s)"
  by (simp_all add: IsManualOff_def IsManualOn_def)

lemma ok_clear_off [inv_intros]: "latches_ok s \<Longrightarrow> latches_ok (ClearManualOff n s)"
  unfolding latches_ok_def ClearManualOff_def by (auto dest: notin_set_remove1)

lemma ok_clear_on [inv_intros]: "latches_ok s \<Longrightarrow> latches_ok (ClearManualOn n s)"
  unfolding latches_ok_def ClearManualOn_def by (auto dest: notin_set_remove1)

lemma clear_on_sets: "latches_ok s \<Longrightarrow> set (s_manual_on (ClearManualOn n s)) = set (s_manual_on s) - {n} \<and>
    s_manual_off (ClearManualOn n s) = s_manual_off s"
  unfolding latches_ok_def ClearManualOn_def by simp

lemma clear_off_sets: "latches_ok s \<Longrightarrow> set (s_manual_off (ClearManualOff n s)) = set (s_manual_off s) - {n} \<and>
    s_manual_on (ClearManualOff n s) = s_manual_on s"
  unfolding latches_ok_def ClearManualOff_def by simp

lemma ok_set_off [inv_intros]: assumes "latches_ok s" shows "latches_ok (SetManualOff n s)"
proof -
  from assms have ok: "latches_ok (ClearManualOn n s)" by (rule ok_clear_on)
  have "n \<notin> set (s_manual_on (ClearManualOn n s))" using clear_on_sets[OF assms] by simp
  with ok show ?thesis by (simp add: SetManualOff_def Let_def latches_ok_def)
qed

lemma ok_set_on [inv_intros]: assumes "latches_ok s" shows "latches_ok (SetManualOn n s)"
proof -
  from assms have ok: "latches_ok (ClearManualOff n s)" by (rule ok_clear_off)
  have "n \<notin> set (s_manual_off (ClearManualOff n s))" using clear_off_sets[OF assms] by simp
  with ok show ?thesis by (simp add: SetManualOn_def Let_def latches_ok_def)
qed

lemma set_off_sets: "latches_ok s \<Longrightarrow>
    set (s_manual_off (SetManualOff n s)) = insert n (set (s_manual_off s)) \<and>
    set (s_manual_on (SetManualOff n s)) = set (s_manual_on s) - {n}"
  using clear_on_sets[of s n] by (simp add: SetManualOff_def Let_def insert_absorb)

lemma set_on_sets: "latches_ok s \<Longrightarrow>
    set (s_manual_on (SetManualOn n s)) = insert n (set (s_manual_on s)) \<and>
    set (s_manual_off (SetManualOn n s)) = set (s_manual_off s) - {n}"
  using clear_off_sets[of s n] by (simp add: SetManualOn_def Let_def insert_absorb)

lemma ok_automation [inv_intros]: "latches_ok s \<Longrightarrow> latches_ok (s\<lparr>s_automation := a\<rparr>)"
  by (simp add: latches_ok_def)

lemma ok_rename [inv_intros]: "latches_ok s \<Longrightarrow> latches_ok (RenameTunnelRules old new s)"
  unfolding RenameTunnelRules_def Let_def by (simp add: inv_intros)

lemma ok_delete [inv_intros]: "latches_ok s \<Longrightarrow> latches_ok (DeleteTunnelRules n s)"
  unfolding DeleteTunnelRules_def by (intro inv_intros)

interpretation latch: invariant_machine settings_step latches_ok
proof
  fix s e assume "latches_ok s"
  then show "latches_ok (settings_step s e)"
    by (cases e) (simp_all add: inv_intros ClearAllManualOverrides_def EnsureAutomation_def latches_ok_def[of "_\<lparr>s_manual_off := [], s_manual_on := []\<rparr>"])
qed

text \<open>Whatever sequence of settings operations runs from the defaults (user switches, renames, deletions, migrations), no tunnel is latched off and on at once, and no latch is stored twice, so that one clear always releases it.\<close>

theorem latches_exclusive:
  "\<forall>ops. let s = foldl settings_step DefaultSettings ops in
     (\<forall>n. \<not> (IsManualOff n s \<and> IsManualOn n s) \<and>
          \<not> IsManualOff n (ClearManualOff n s) \<and> \<not> IsManualOn n (ClearManualOn n s))"
proof
  fix ops
  define s where "s = foldl settings_step DefaultSettings ops"
  have ok: "latches_ok s" unfolding s_def by (rule latch.inv_run) (rule latches_ok_default)
  have "(\<forall>n. \<not> (IsManualOff n s \<and> IsManualOn n s) \<and>
          \<not> IsManualOff n (ClearManualOff n s) \<and> \<not> IsManualOn n (ClearManualOn n s))"
    using ok clear_off_sets[OF ok] clear_on_sets[OF ok] by (auto simp: latches_ok_def)
  then show "let s = foldl settings_step DefaultSettings ops in
     (\<forall>n. \<not> (IsManualOff n s \<and> IsManualOn n s) \<and>
          \<not> IsManualOff n (ClearManualOff n s) \<and> \<not> IsManualOn n (ClearManualOn n s))"
    by (simp add: s_def Let_def)
qed

section \<open>Renaming and deleting a tunnel's policy\<close>

text \<open>What the automation layer reads of one tunnel's policy.\<close>

definition rules_of :: "settings \<Rightarrow> string \<Rightarrow> rule list option" where
  "rules_of s n = (case s_automation s of None \<Rightarrow> None | Some a \<Rightarrow> map_of (a_per_tunnel a) n)"

definition default_of :: "settings \<Rightarrow> string \<Rightarrow> action option" where
  "default_of s n = (case s_automation s of None \<Rightarrow> None | Some a \<Rightarrow> map_of (a_defaults a) n)"

text \<open>The abstract rename on a lookup function, and on a set of latched names.\<close>

definition moved :: "'k \<Rightarrow> 'k \<Rightarrow> ('k \<Rightarrow> 'v option) \<Rightarrow> 'k \<Rightarrow> 'v option" where
  "moved old new f k =
     (if k = old then None else if k = new \<and> f old \<noteq> None then f old else f k)"

lemma move_key_lookup:
  "old \<noteq> new \<Longrightarrow> map_of (move_key old new m) = moved old new (map_of m)"
  by (rule ext) (auto simp: move_key_def moved_def amap.get_put amap.get_del split: option.splits)

lemma rename_automation:
  "old \<noteq> new \<Longrightarrow> s_automation (RenameTunnelRules old new s) =
     map_option (\<lambda>a. a\<lparr>a_per_tunnel := move_key old new (a_per_tunnel a),
       a_defaults := move_key old new (a_defaults a)\<rparr>) (s_automation s)"
  by (simp add: RenameTunnelRules_def Let_def SetManualOff_def SetManualOn_def ClearManualOff_def ClearManualOn_def)

lemma rename_latches:
  assumes ok: "latches_ok s" and ne: "old \<noteq> new"
  shows "set (s_manual_off (RenameTunnelRules old new s)) =
      (if old \<in> set (s_manual_off s) then insert new (set (s_manual_off s) - {old})
       else if old \<in> set (s_manual_on s) then set (s_manual_off s) - {new} else set (s_manual_off s))"
    and "set (s_manual_on (RenameTunnelRules old new s)) =
      (if old \<in> set (s_manual_on s) then insert new (set (s_manual_on s) - {old})
       else if old \<in> set (s_manual_off s) then set (s_manual_on s) - {new} else set (s_manual_on s))"
proof -
  let ?s1 = "s\<lparr>s_automation := map_option (\<lambda>a. a\<lparr>a_per_tunnel := move_key old new (a_per_tunnel a),
                     a_defaults := move_key old new (a_defaults a)\<rparr>) (s_automation s)\<rparr>"
  have ok1: "latches_ok ?s1" using ok by (rule ok_automation)
  have disj: "\<not> (old \<in> set (s_manual_off s) \<and> old \<in> set (s_manual_on s))" using ok by (auto simp: latches_ok_def)
  note sets = clear_off_sets[OF ok1, of old] clear_on_sets[OF ok1, of old]
    set_off_sets[OF ok_clear_off[OF ok1, of old], of new] set_on_sets[OF ok_clear_on[OF ok1, of old], of new]
  show "set (s_manual_off (RenameTunnelRules old new s)) =
      (if old \<in> set (s_manual_off s) then insert new (set (s_manual_off s) - {old})
       else if old \<in> set (s_manual_on s) then set (s_manual_off s) - {new} else set (s_manual_off s))"
    using ne sets disj unfolding RenameTunnelRules_def Let_def by (auto)
  show "set (s_manual_on (RenameTunnelRules old new s)) =
      (if old \<in> set (s_manual_on s) then insert new (set (s_manual_on s) - {old})
       else if old \<in> set (s_manual_off s) then set (s_manual_on s) - {new} else set (s_manual_on s))"
    using ne sets disj unfolding RenameTunnelRules_def Let_def by (auto)
qed

text \<open>Renaming a tunnel moves its whole policy: the rules, the Default State and the latch of the old name are those of the new one, the old name keeps nothing that a later tunnel of that name could inherit, and every other tunnel is untouched.\<close>

theorem rename_moves_policy:
  assumes "latches_ok s" and "old \<noteq> new"
  defines "s' \<equiv> RenameTunnelRules old new s"
  shows "rules_of s' = moved old new (rules_of s) \<and> default_of s' = moved old new (default_of s) \<and>
    \<not> IsManualOff old s' \<and> \<not> IsManualOn old s' \<and>
    (IsManualOff old s \<longrightarrow> IsManualOff new s' \<and> \<not> IsManualOn new s') \<and>
    (IsManualOn old s \<longrightarrow> IsManualOn new s' \<and> \<not> IsManualOff new s') \<and>
    (\<forall>n. n \<noteq> old \<and> n \<noteq> new \<longrightarrow> (IsManualOff n s' \<longleftrightarrow> IsManualOff n s) \<and> (IsManualOn n s' \<longleftrightarrow> IsManualOn n s))"
proof (intro conjI)
  have au: "s_automation s' = map_option (\<lambda>a. a\<lparr>a_per_tunnel := move_key old new (a_per_tunnel a),
       a_defaults := move_key old new (a_defaults a)\<rparr>) (s_automation s)"
    unfolding s'_def by (rule rename_automation) (rule assms)
  show "rules_of s' = moved old new (rules_of s)"
    using assms(2) by (cases "s_automation s") (auto simp: fun_eq_iff rules_of_def au move_key_lookup moved_def)
  show "default_of s' = moved old new (default_of s)"
    using assms(2) by (cases "s_automation s") (auto simp: fun_eq_iff default_of_def au move_key_lookup moved_def)
qed (use assms rename_latches[OF assms(1,2)] in \<open>auto simp: s'_def latches_ok_def\<close>)

definition demo_settings :: settings where
  "demo_settings = DefaultSettings\<lparr>s_automation := Some \<lparr>a_defaults = [(''home'', ''connect'')], a_per_tunnel = [(''home'', [])]\<rparr>,
     s_manual_off := [''home''], s_manual_on := [''work'']\<rparr>"

theorem rename_moves_policy_witness:
  "default_of (RenameTunnelRules ''home'' ''villa'' demo_settings) ''villa'' = Some ''connect'' \<and>
   IsManualOff ''villa'' (RenameTunnelRules ''home'' ''villa'' demo_settings)"
proof -
  have "latches_ok demo_settings" by (simp add: latches_ok_def demo_settings_def)
  then show ?thesis using rename_moves_policy[of demo_settings "''home''" "''villa''"]
    by (simp add: moved_def default_of_def demo_settings_def)
qed

end
