(* ===== verification/Endpoint.thy ===== *)
theory Endpoint
  imports Complex_Main Settings Domain
begin

text \<open>
  Endpoint failover: the choice among measured candidates (\<open>internal/endpoint/pick.go\<close>), and the
  three gates in front of a switch (\<open>internal/helper/endpoint_switch.go\<close>,
  \<open>endpoint_dynamic.go\<close>): the cooldown, the sustained confirmation and the blessing that hands a
  confirmed decision to the reconnect path. Latencies are rationals where the code has
  \<open>float64\<close>: the comparisons are exact here. Measuring (ICMP, DNS) is the parameter \<open>measure\<close>.
\<close>

section \<open>pick.go\<close>

record measurement =
  ms_addr :: string
  ms_reachable :: bool
  ms_latency :: rat

record opts =
  o_threshold :: int
  o_margin :: int

definition endpoint_Normalize :: "string list \<Rightarrow> string list" where
  "endpoint_Normalize xs = dedup (filter (\<lambda>v. v \<noteq> '''') (map trim_space xs))"

definition usable :: "measurement \<Rightarrow> bool" where
  "usable m \<longleftrightarrow> ms_reachable m \<and> ms_latency m > 0"

fun best_loop :: "measurement option \<Rightarrow> measurement list \<Rightarrow> measurement option" where
  "best_loop b [] = b"
| "best_loop b (m # ms) =
     (if \<not> usable m then best_loop b ms
      else case b of
        None \<Rightarrow> best_loop (Some m) ms
      | Some x \<Rightarrow> if ms_latency m < ms_latency x then best_loop (Some m) ms else best_loop b ms)"

definition Best :: "measurement list \<Rightarrow> string" where
  "Best ms = (case best_loop None ms of None \<Rightarrow> '''' | Some m \<Rightarrow> ms_addr m)"

text \<open>The loop of \<open>Better\<close>: the last measurement of the current address, the fastest usable other.\<close>

fun better_loop :: "string \<Rightarrow> measurement option \<Rightarrow> measurement option \<Rightarrow> measurement list \<Rightarrow>
    measurement option \<times> measurement option" where
  "better_loop cur c f [] = (c, f)"
| "better_loop cur c f (m # ms) =
     (if ms_addr m = cur then better_loop cur (Some m) f ms
      else if usable m \<and> (case f of None \<Rightarrow> True | Some x \<Rightarrow> ms_latency m < ms_latency x)
           then better_loop cur c (Some m) ms
           else better_loop cur c f ms)"

definition eff_threshold :: "opts \<Rightarrow> int" where
  "eff_threshold o' = (if o_threshold o' < 1 then 150 else o_threshold o')"

definition eff_margin :: "opts \<Rightarrow> int" where
  "eff_margin o' = (if o_margin o' < 1 then 30 else o_margin o')"

definition Better :: "measurement list \<Rightarrow> string \<Rightarrow> opts \<Rightarrow> string \<times> bool" where
  "Better ms current o' =
     (case better_loop (trim_space current) None None ms of
        (_, None) \<Rightarrow> ('''', False)
      | (None, Some f) \<Rightarrow> (ms_addr f, True)
      | (Some c, Some f) \<Rightarrow>
          if \<not> usable c then (ms_addr f, True)
          else if ms_latency c < of_int (eff_threshold o') then ('''', False)
          else if ms_latency f \<ge> ms_latency c * (1 - of_int (eff_margin o') / 100) then ('''', False)
          else (ms_addr f, False))"

section \<open>The gates\<close>

text \<open>Times and durations in nanoseconds. The three package-level maps, keyed by tunnel.\<close>

record switch_state =
  sw_at :: "(string \<times> int) list"
  sw_pending :: "(string \<times> string \<times> int) list"
  sw_blessed :: "(string \<times> string \<times> int) list"

definition switch0 :: switch_state where
  "switch0 = \<lparr>sw_at = [], sw_pending = [], sw_blessed = []\<rparr>"

definition inCooldown :: "int \<Rightarrow> string \<Rightarrow> int \<Rightarrow> switch_state \<Rightarrow> bool" where
  "inCooldown now name cd s = (case map_of (sw_at s) name of None \<Rightarrow> False | Some p \<Rightarrow> now - p < cd)"

definition allow :: "int \<Rightarrow> string \<Rightarrow> int \<Rightarrow> switch_state \<Rightarrow> bool \<times> switch_state" where
  "allow now name cd s =
     (if inCooldown now name cd s then (False, s)
      else (True, s\<lparr>sw_at := AList.update name now (sw_at s)\<rparr>))"

definition effectiveCooldown :: "settings \<Rightarrow> int" where
  "effectiveCooldown st =
     (let cd = EffectiveEndpointCooldownSec (Some st) in
      if cd \<ge> MinEndpointCooldownSec then cd * second else MinEndpointCooldownSec * second)"

definition confirmImprovement :: "int \<Rightarrow> string \<Rightarrow> string \<Rightarrow> int \<Rightarrow> switch_state \<Rightarrow> bool \<times> switch_state" where
  "confirmImprovement now name cand sustained s =
     (let prev = map_of (sw_pending s) name;
          drop_it = s\<lparr>sw_pending := AList.delete name (sw_pending s)\<rparr> in
      if sustained \<le> 0 then (True, drop_it)
      else if (case prev of None \<Rightarrow> False | Some (c, t0) \<Rightarrow> c = cand \<and> now - t0 \<ge> sustained * second)
           then (True, drop_it)
           else (False, s\<lparr>sw_pending := AList.update name (cand, now) (sw_pending s)\<rparr>))"

definition blessingTTL :: int where "blessingTTL = 90 * second"

definition blessEndpointSwitch :: "int \<Rightarrow> string \<Rightarrow> string \<Rightarrow> switch_state \<Rightarrow> switch_state" where
  "blessEndpointSwitch now name cand s = s\<lparr>sw_blessed := AList.update name (cand, now) (sw_blessed s)\<rparr>"

definition takeBlessing :: "int \<Rightarrow> string \<Rightarrow> string \<Rightarrow> switch_state \<Rightarrow> bool \<times> switch_state" where
  "takeBlessing now name cand s =
     (case map_of (sw_blessed s) name of
        None \<Rightarrow> (False, s)
      | Some (c, t0) \<Rightarrow>
          (c = cand \<and> now - t0 < blessingTTL, s\<lparr>sw_blessed := AList.delete name (sw_blessed s)\<rparr>))"

definition firstPeerEndpoint :: "wg_config \<Rightarrow> string" where
  "firstPeerEndpoint cfg =
     (case List.find (\<lambda>p. trim_space (p_endpoint p) \<noteq> '''') (cfg_peers cfg) of
        None \<Rightarrow> '''' | Some p \<Rightarrow> trim_space (p_endpoint p))"

fun set_first_endpoint :: "string \<Rightarrow> peer_config list \<Rightarrow> peer_config list" where
  "set_first_endpoint e [] = []"
| "set_first_endpoint e (p # ps) =
     (if trim_space (p_endpoint p) = '''' then p # set_first_endpoint e ps
      else p\<lparr>p_endpoint := e\<rparr> # ps)"

text \<open>
  The environment of the switch path: the clock, the settings store (\<open>None\<close> on an error), the
  sidecars, the measurement, and the store write of the chosen address (not observed further).
\<close>

record switch_env =
  se_now :: int
  se_store :: bool
  se_settings :: "settings option"
  se_meta :: "string \<Rightarrow> tunnel_meta option"
  se_measure :: "string list \<Rightarrow> measurement list"

definition switch_opts :: "settings \<Rightarrow> opts" where
  "switch_opts st = \<lparr>o_threshold = EffectiveEndpointThresholdMs (Some st),
     o_margin = EffectiveEndpointMarginPct (Some st)\<rparr>"

text \<open>
  \<open>maybeSwitchEndpoint\<close>: the new gate state and the config (mutated in place by the code). The result
  tells the chosen address when a switch was committed.
\<close>

definition maybeSwitchEndpoint ::
    "switch_env \<Rightarrow> string \<Rightarrow> wg_config \<Rightarrow> switch_state \<Rightarrow> switch_state \<times> wg_config \<times> string option" where
  "maybeSwitchEndpoint env name cfg s =
     (let stay = (s, cfg, None) in
      case (if se_store env then se_settings env else None) of
        None \<Rightarrow> stay
      | Some st \<Rightarrow>
          if \<not> EndpointFailoverEnabled (Some st) \<or> se_meta env name = None then stay
          else
            let cands = EndpointCandidateList (se_meta env name); active = firstPeerEndpoint cfg in
            if \<not> EndpointAutoSwitchEnabled (se_meta env name) \<or> length cands < 2 \<or> active = '''' then stay
            else
              let (chosen, failover) = Better (se_measure env cands) active (switch_opts st) in
              if chosen = '''' then stay
              else
                (case allow (se_now env) name (effectiveCooldown st) s of
                   (False, s1) \<Rightarrow> (s1, cfg, None)
                 | (True, s1) \<Rightarrow>
                     let (pass, s2) =
                       (if failover then (True, s1)
                        else case takeBlessing (se_now env) name chosen s1 of
                            (True, s') \<Rightarrow> (True, s')
                          | (False, s') \<Rightarrow> confirmImprovement (se_now env) name chosen
                                (EffectiveEndpointSustainedSec (Some st)) s')
                     in if \<not> pass then (s2, cfg, None)
                        else (s2, cfg\<lparr>cfg_peers := set_first_endpoint chosen (cfg_peers cfg)\<rparr>, Some chosen)))"

text \<open>One tunnel of \<open>evaluateDynamicSwitches\<close>; the flag says that its reconnect is triggered.\<close>

definition dynamic_one ::
    "switch_env \<Rightarrow> settings \<Rightarrow> string \<times> wg_config \<Rightarrow> switch_state \<Rightarrow> switch_state \<times> bool" where
  "dynamic_one env st nc s =
     (let (name, cfg) = nc; cands = EndpointCandidateList (se_meta env name); active = firstPeerEndpoint cfg in
      if se_meta env name = None \<or> \<not> EndpointSwitchDynamic (se_meta env name) \<or> length cands < 2 \<or>
         inCooldown (se_now env) name (effectiveCooldown st) s \<or> active = '''' then (s, False)
      else
        let (chosen, failover) = Better (se_measure env cands) active (switch_opts st) in
        if chosen = '''' \<or> failover then (s, False)
        else (case confirmImprovement (se_now env) name chosen (EffectiveEndpointSustainedSec (Some st)) s of
            (False, s1) \<Rightarrow> (s1, False)
          | (True, s1) \<Rightarrow> (blessEndpointSwitch (se_now env) name chosen s1, True)))"

definition evaluateDynamicSwitches ::
    "switch_env \<Rightarrow> (string \<times> wg_config) list \<Rightarrow> switch_state \<Rightarrow> switch_state \<times> string list" where
  "evaluateDynamicSwitches env cfgs s =
     (case se_settings env of
        None \<Rightarrow> (s, [])
      | Some st \<Rightarrow>
          if \<not> EndpointFailoverEnabled (Some st) then (s, [])
          else foldl (\<lambda>(s, trig) nc. let (s', t) = dynamic_one env st nc s in
                        (s', if t then trig @ [fst nc] else trig)) (s, []) cfgs)"

section \<open>What \<open>Better\<close> chooses\<close>

lemma better_loop_fallback:
  "better_loop cur c f ms = (c', f') \<Longrightarrow>
     (\<forall>m\<in>set ms. ms_addr m \<noteq> cur \<and> usable m \<longrightarrow> (\<exists>y. f' = Some y \<and> ms_latency y \<le> ms_latency m)) \<and>
     (\<forall>x. f = Some x \<longrightarrow> (\<exists>y. f' = Some y \<and> ms_latency y \<le> ms_latency x)) \<and>
     (\<forall>y. f' = Some y \<longrightarrow> f = Some y \<or> (y \<in> set ms \<and> ms_addr y \<noteq> cur \<and> usable y))"
proof (induction cur c f ms rule: better_loop.induct)
  case (1 cur c f)
  then show ?case by auto
next
  case (2 cur c f m ms)
  show ?case
  proof (cases "ms_addr m = cur")
    case True
    with 2 show ?thesis by auto
  next
    case ne: False
    show ?thesis
    proof (cases "usable m \<and> (case f of None \<Rightarrow> True | Some x \<Rightarrow> ms_latency m < ms_latency x)")
      case True
      with ne 2 show ?thesis by (fastforce split: option.splits)
    next
      case False
      with ne 2 show ?thesis by (fastforce split: option.splits)
    qed
  qed
qed

lemma better_loop_current:
  "better_loop cur c f ms = (c', f') \<Longrightarrow>
     c' = c \<and> (\<forall>m\<in>set ms. ms_addr m \<noteq> cur) \<or> (\<exists>m\<in>set ms. ms_addr m = cur \<and> c' = Some m)"
  by (induction cur c f ms rule: better_loop.induct) (auto split: if_splits)

definition best_other :: "measurement list \<Rightarrow> string \<Rightarrow> measurement \<Rightarrow> bool" where
  "best_other ms cur m \<longleftrightarrow> m \<in> set ms \<and> ms_addr m \<noteq> cur \<and> usable m \<and>
     (\<forall>m'\<in>set ms. ms_addr m' \<noteq> cur \<and> usable m' \<longrightarrow> ms_latency m \<le> ms_latency m')"

lemma better_loop_best:
  "better_loop cur None None ms = (c', Some y) \<Longrightarrow> best_other ms cur y"
  using better_loop_fallback[of cur None None ms c' "Some y"] by (auto simp: best_other_def)

lemma better_choice:
  assumes "Better ms cur o' = (chosen, fo)" and "chosen \<noteq> ''''"
  shows "\<exists>m. best_other ms (trim_space cur) m \<and> ms_addr m = chosen \<and>
    (fo \<longrightarrow> (\<forall>c\<in>set ms. ms_addr c = trim_space cur \<longrightarrow> (\<exists>c'\<in>set ms. ms_addr c' = trim_space cur \<and> \<not> usable c'))) \<and>
    (\<not> fo \<longrightarrow> (\<exists>c\<in>set ms. ms_addr c = trim_space cur \<and> usable c \<and> ms_latency c \<ge> of_int (eff_threshold o') \<and>
        ms_latency m < ms_latency c * (1 - of_int (eff_margin o') / 100)))"
proof -
  obtain c' f' where bl: "better_loop (trim_space cur) None None ms = (c', f')" by fastforce
  from assms bl obtain y where f': "f' = Some y" by (cases f') (auto simp: Better_def split: option.splits)
  have best: "best_other ms (trim_space cur) y" using bl f' by (auto intro: better_loop_best)
  note cur = better_loop_current[OF bl]
  show ?thesis
  proof (cases c')
    case None
    with assms bl f' cur best show ?thesis by (auto simp: Better_def)
  next
    case (Some c)
    with cur have c: "c \<in> set ms" "ms_addr c = trim_space cur" by auto
    with assms bl f' Some best show ?thesis
      by (intro exI[of _ y]) (auto simp: Better_def split: if_splits)
  qed
qed

lemma normalized_trim: "v \<in> set (endpoint_Normalize xs) \<Longrightarrow> trim_space v = v \<and> v \<noteq> ''''"
  by (auto simp: endpoint_Normalize_def)

lemma distinct_addr_unique:
  "distinct (map ms_addr ms) \<Longrightarrow> m \<in> set ms \<Longrightarrow> m' \<in> set ms \<Longrightarrow> ms_addr m = ms_addr m' \<Longrightarrow> m = m'"
  by (auto simp: distinct_map inj_on_def)

text \<open>Switching is stable. After a switch to the address that \<open>Better\<close> chose, the same measurements never propose another switch: no measurement makes two endpoints alternate.\<close>

theorem better_is_stable:
  assumes norm: "map ms_addr ms = endpoint_Normalize cands"
    and chosen: "Better ms cur o' = (chosen, fo)" "chosen \<noteq> ''''"
  shows "Better ms chosen o' = ('''', False)"
proof -
  from better_choice[OF chosen] obtain m where m: "best_other ms (trim_space cur) m" "ms_addr m = chosen"
    and notfo: "\<not> fo \<longrightarrow> (\<exists>c\<in>set ms. ms_addr c = trim_space cur \<and> usable c \<and> ms_latency c \<ge> of_int (eff_threshold o') \<and>
        ms_latency m < ms_latency c * (1 - of_int (eff_margin o') / 100))"
    and down: "fo \<longrightarrow> (\<forall>c\<in>set ms. ms_addr c = trim_space cur \<longrightarrow> (\<exists>c'\<in>set ms. ms_addr c' = trim_space cur \<and> \<not> usable c'))"
    by blast
  have dist: "distinct (map ms_addr ms)" unfolding norm by (simp add: endpoint_Normalize_def)
  have ms: "m \<in> set ms" "usable m" using m(1) by (auto simp: best_other_def)
  have tr: "trim_space chosen = chosen"
    using ms(1) m(2) norm normalized_trim[of chosen cands] by (metis image_eqI list.set_map)
  have margin: "eff_margin o' \<ge> 1" by (simp add: eff_margin_def)
  have least: "ms_latency m \<le> ms_latency m'" if m': "m' \<in> set ms" "usable m'" for m'
  proof (cases "ms_addr m' = trim_space cur")
    case False
    with m(1) m' show ?thesis by (auto simp: best_other_def)
  next
    case True
    show ?thesis
    proof (cases fo)
      case fo: True
      from down fo m'(1) True obtain c' where "c' \<in> set ms" "ms_addr c' = trim_space cur" "\<not> usable c'" by blast
      with distinct_addr_unique[OF dist m'(1)] True m'(2) show ?thesis by auto
    next
      case False
      with notfo obtain c where c: "c \<in> set ms" "ms_addr c = trim_space cur" "usable c"
        "ms_latency m < ms_latency c * (1 - of_int (eff_margin o') / 100)" by blast
      have "c = m'" using distinct_addr_unique[OF dist c(1) m'(1)] c(2) True by simp
      moreover have "ms_latency c * (1 - of_int (eff_margin o') / 100) \<le> ms_latency c"
        using c(3) margin by (simp add: usable_def mult_le_cancel_left1 algebra_simps)
      ultimately show ?thesis using c(4) by simp
    qed
  qed
  obtain c' f' where bl: "better_loop chosen None None ms = (c', f')" by fastforce
  have "c' = Some m"
  proof -
    from better_loop_current[OF bl] ms(1) m(2) obtain x where x: "x \<in> set ms" "ms_addr x = chosen" "c' = Some x"
      by metis
    with distinct_addr_unique[OF dist x(1) ms(1)] m(2) show ?thesis by simp
  qed
  moreover have "ms_latency y \<ge> ms_latency m * (1 - of_int (eff_margin o') / 100)" if "f' = Some y" for y
  proof -
    have "best_other ms chosen y" using bl that by (auto intro: better_loop_best)
    then have "ms_latency m \<le> ms_latency y" using least by (auto simp: best_other_def)
    moreover have "ms_latency m * (1 - of_int (eff_margin o') / 100) \<le> ms_latency m"
      using ms(2) margin by (simp add: usable_def mult_le_cancel_left1 algebra_simps)
    ultimately show ?thesis by linarith
  qed
  ultimately show ?thesis using bl ms(2) tr
    by (cases f') (auto simp: Better_def)
qed

definition demo_ms :: "measurement list" where
  "demo_ms = [\<lparr>ms_addr = ''a:1'', ms_reachable = True, ms_latency = 200\<rparr>,
              \<lparr>ms_addr = ''b:1'', ms_reachable = True, ms_latency = 100\<rparr>]"

theorem better_is_stable_witness:
  "Better demo_ms ''a:1'' \<lparr>o_threshold = 0, o_margin = 0\<rparr> = (''b:1'', False) \<and>
   Better demo_ms ''b:1'' \<lparr>o_threshold = 0, o_margin = 0\<rparr> = ('''', False)"
proof -
  have norm: "map ms_addr demo_ms = endpoint_Normalize [''a:1'', '' b:1'']" by code_simp
  have "Better demo_ms ''a:1'' \<lparr>o_threshold = 0, o_margin = 0\<rparr> = (''b:1'', False)" by code_simp
  then show ?thesis using better_is_stable[OF norm] by simp
qed

section \<open>The sustained gate on a ticker\<close>

text \<open>One tunnel whose evaluation proposes the same candidate at each of the given times.\<close>

fun confirm_run :: "string \<Rightarrow> string \<Rightarrow> int \<Rightarrow> int list \<Rightarrow> switch_state \<Rightarrow> bool list" where
  "confirm_run name cand sustained [] s = []"
| "confirm_run name cand sustained (t # ts) s =
     (let (ok, s') = confirmImprovement t name cand sustained s in ok # confirm_run name cand sustained ts s')"

lemma confirm_starves:
  "sustained > 0 \<Longrightarrow> map_of (sw_pending s) name = Some (cand, t0) \<Longrightarrow> d < sustained * second \<Longrightarrow>
     True \<notin> set (confirm_run name cand sustained (map (\<lambda>k. t0 + (int k + 1) * d) [0..<n]) s)"
proof (induction n arbitrary: s t0)
  case 0
  then show ?case by simp
next
  case (Suc n)
  have list: "map (\<lambda>k. t0 + (int k + 1) * d) [0..<Suc n] =
      (t0 + d) # map (\<lambda>k. (t0 + d) + (int k + 1) * d) [0..<n]"
    by (simp add: upt_conv_Cons map_Suc_upt[symmetric] del: upt_Suc) (simp add: algebra_simps)
  let ?s' = "s\<lparr>sw_pending := AList.update name (cand, t0 + d) (sw_pending s)\<rparr>"
  have one: "confirmImprovement (t0 + d) name cand sustained s = (False, ?s')"
    using Suc.prems by (simp add: confirmImprovement_def Let_def)
  have "map_of (sw_pending ?s') name = Some (cand, t0 + d)" by simp
  from Suc.IH[OF Suc.prems(1) this Suc.prems(3)] show ?case unfolding list by (simp add: one)
qed

text \<open>The sustained-confirmation gate under a ticker of period d, with a tunnel whose better candidate never changes: the gate opens if and only if the period is at least the sustained window. A window longer than the 30 s tick of the dynamic loop never opens, however long the candidate stays better, since every proposal restarts the clock.\<close>

theorem sustained_gate_on_ticker:
  assumes "sustained > 0" and "map_of (sw_pending s) name = None" and "n \<ge> 2"
  shows "True \<in> set (confirm_run name cand sustained (map (\<lambda>k. t0 + int k * d) [0..<n]) s) \<longleftrightarrow>
    d \<ge> sustained * second"
proof -
  obtain m where n: "n = Suc (Suc m)" using assms(3) by (metis Suc_le_D numeral_2_eq_2 Suc_le_mono)
  have list: "map (\<lambda>k. t0 + int k * d) [0..<n] = t0 # map (\<lambda>k. t0 + (int k + 1) * d) [0..<Suc m]"
    unfolding n by (simp add: upt_conv_Cons map_Suc_upt[symmetric] add.commute del: upt_Suc)
  let ?s1 = "s\<lparr>sw_pending := AList.update name (cand, t0) (sw_pending s)\<rparr>"
  have one: "confirmImprovement t0 name cand sustained s = (False, ?s1)"
    using assms by (simp add: confirmImprovement_def Let_def)
  have p1: "map_of (sw_pending ?s1) name = Some (cand, t0)" by simp
  show ?thesis
  proof (cases "d \<ge> sustained * second")
    case False
    with confirm_starves[OF assms(1) p1, of d "Suc m"] show ?thesis unfolding list by (simp add: one)
  next
    case True
    have "fst (confirmImprovement (t0 + d) name cand sustained ?s1)"
      using True p1 assms(1) by (simp add: confirmImprovement_def Let_def)
    then have "True \<in> set (confirm_run name cand sustained (map (\<lambda>k. t0 + (int k + 1) * d) [0..<Suc m]) ?s1)"
      by (cases "confirmImprovement (t0 + d) name cand sustained ?s1") (simp add: upt_conv_Cons del: upt_Suc)
    with True show ?thesis unfolding list by (simp add: one)
  qed
qed

theorem sustained_gate_on_ticker_witness:
  "True \<notin> set (confirm_run ''home'' ''b:1'' 60 (map (\<lambda>k. 0 + int k * (30 * second)) [0..<100]) switch0) \<and>
   True \<in> set (confirm_run ''home'' ''b:1'' 30 (map (\<lambda>k. 0 + int k * (30 * second)) [0..<100]) switch0)"
  using sustained_gate_on_ticker[of 60 switch0 "''home''" 100 "''b:1''" 0 "30 * second"]
    sustained_gate_on_ticker[of 30 switch0 "''home''" 100 "''b:1''" 0 "30 * second"]
  by (simp add: switch0_def)

section \<open>The cooldown\<close>

text \<open>Every attempt to switch, in order, as (time, tunnel, settings): the times at which tunnel \<open>n\<close> was let through.\<close>

fun allow_run :: "string \<Rightarrow> (int \<times> string \<times> settings) list \<Rightarrow> switch_state \<Rightarrow> int list" where
  "allow_run n [] s = []"
| "allow_run n ((t, name, st) # xs) s =
     (let (ok, s') = allow t name (effectiveCooldown st) s in
      (if ok \<and> name = n then [t] else []) @ allow_run n xs s')"

lemma effectiveCooldown_min: "effectiveCooldown st \<ge> 240 * second"
  by (simp add: effectiveCooldown_def EffectiveEndpointCooldownSec_def Let_def)

lemma allow_run_head:
  "map_of (sw_at s) n = Some p \<Longrightarrow> t \<in> set (take 1 (allow_run n xs s)) \<Longrightarrow> t - p \<ge> 240 * second"
proof (induction n xs s rule: allow_run.induct)
  case (1 n s)
  then show ?case by simp
next
  case (2 n u name st xs s)
  show ?case
  proof (cases "name = n")
    case True
    show ?thesis
    proof (cases "inCooldown u name (effectiveCooldown st) s")
      case True
      with 2(1)[of "(False, s)" False s] 2(2,3) show ?thesis by (simp add: allow_def)
    next
      case False
      with \<open>name = n\<close> 2(2,3) effectiveCooldown_min[of st] show ?thesis
        by (simp add: allow_def inCooldown_def)
    qed
  next
    case False
    have "map_of (sw_at (snd (allow u name (effectiveCooldown st) s))) n = Some p"
      using 2(2) False by (simp add: allow_def)
    with 2(1)[OF refl prod.collapse] 2(3) False show ?thesis by (simp add: Let_def split: prod.splits)
  qed
qed

lemma allow_run_spaced: "successively (\<lambda>a b. b - a \<ge> 240 * second) (allow_run n xs s)"
proof (induction n xs s rule: allow_run.induct)
  case (2 n u name st xs s)
  show ?case
  proof (cases "fst (allow u name (effectiveCooldown st) s) \<and> name = n")
    case True
    then have s': "snd (allow u name (effectiveCooldown st) s) = s\<lparr>sw_at := AList.update n u (sw_at s)\<rparr>"
      by (auto simp: allow_def split: if_splits)
    let ?rest = "allow_run n xs (s\<lparr>sw_at := AList.update n u (sw_at s)\<rparr>)"
    have "t - u \<ge> 240 * second" if "t \<in> set (take 1 ?rest)" for t
      using allow_run_head[OF _ that, of u] by simp
    moreover have "successively (\<lambda>a b. b - a \<ge> 240 * second) ?rest"
      using 2[OF refl, of "fst (allow u name (effectiveCooldown st) s)"] s' by (metis prod.collapse)
    ultimately show ?thesis using True s'
      by (cases ?rest) (auto simp: Let_def successively_Cons split: prod.splits)
  next
    case False
    with 2 show ?thesis by (auto simp: Let_def split: prod.splits)
  qed
qed simp

text \<open>Whatever the order of attempts over all tunnels, and whatever cooldown the settings file asks for at each of them, two consecutive switches that the cooldown lets through for one tunnel are at least 240 seconds apart, more than the 180 s dead-link window.\<close>

theorem switches_spaced:
  "\<forall>xs n. successively (\<lambda>a b. b - a \<ge> MinEndpointCooldownSec * second \<and> b - a > 180 * second) (allow_run n xs switch0)"
proof (intro allI)
  fix xs n
  show "successively (\<lambda>a b. b - a \<ge> MinEndpointCooldownSec * second \<and> b - a > 180 * second) (allow_run n xs switch0)"
    by (rule successively_mono[OF allow_run_spaced]) simp
qed

end
