(* ===== verification/Config.thy ===== *)
theory Config
  imports Domain
begin

text \<open>
  The WireGuard configuration format (\<open>internal/config/parser.go\<close>): the tolerant parser and the serializer. Errors are
  constructors with the line number and the text the Go message quotes.
\<close>

section \<open>Parser: values\<close>

datatype parse_error =
    TooLarge int
  | NulByte nat
  | BadSyntax nat string
  | OutsideAnySection nat string
  | BadInt nat string string
  | BadKeepalive nat string
  | AllowedIPsCap
  | ReadError
  | NoPrivateKey

abbreviation MaxConfigSize :: nat where "MaxConfigSize \<equiv> 1048576"
abbreviation MaxAllowedIPsPerPeer :: nat where "MaxAllowedIPsPerPeer \<equiv> 10000"

abbreviation nl :: char where "nl \<equiv> CHR 0x0A"
abbreviation nul :: char where "nul \<equiv> CHR 0x00"

text \<open>
  \<open>strings.ToLower\<close> on UTF-8 text whose result is compared with ASCII words: besides the ASCII letters just two
  characters have an ASCII letter as lower case, the Kelvin sign (U+212A) and the dotted capital I (U+0130); what the
  other letters become is never one, so they stay as they are here.
\<close>

fun utf8_lower :: "string \<Rightarrow> string" where
  "utf8_lower [] = []"
| "utf8_lower (c # s) =
     (if c = CHR 0xE2 \<and> take 2 s = [CHR 0x84, CHR 0xAA] then CHR ''k'' # utf8_lower (drop 2 s)
      else if c = CHR 0xC4 \<and> take 1 s = [CHR 0xB0] then CHR ''i'' # utf8_lower (drop 1 s)
      else lower_char c # utf8_lower s)"

declare utf8_lower.simps(2) [simp del]

definition splitAndTrim :: "string \<Rightarrow> string list" where
  "splitAndTrim s = filter (\<lambda>p. p \<noteq> '''') (map trim_space (split_on (CHR '','') s))"

definition appendScriptLine :: "string \<Rightarrow> string \<Rightarrow> string" where
  "appendScriptLine existing value = (if existing = '''' then value else existing @ nul # value)"

definition keepalive_suffixes :: "string list" where
  "keepalive_suffixes = [''seconds'', ''second'', ''secs'', ''sec'', ''s'']"

definition parseKeepaliveSeconds :: "string \<Rightarrow> int option" where
  "parseKeepaliveSeconds raw =
     (let s = utf8_lower (trim_space raw);
          s' = (case List.find (\<lambda>x. has_suffix s x) keepalive_suffixes of
                  None \<Rightarrow> s | Some x \<Rightarrow> trim_space (trim_suffix s x)) in
      case atoi s' of None \<Rightarrow> None | Some n \<Rightarrow> if n < 0 then None else Some n)"

section \<open>Parser: keys\<close>

definition set_int :: "nat \<Rightarrow> string \<Rightarrow> string \<Rightarrow> (int \<Rightarrow> interface_config) \<Rightarrow> parse_error + interface_config" where
  "set_int ln key value upd =
     (case atoi value of None \<Rightarrow> Inl (BadInt ln key value) | Some n \<Rightarrow> Inr (upd n))"

definition parseInterfaceKey ::
    "interface_config \<Rightarrow> string \<Rightarrow> string \<Rightarrow> nat \<Rightarrow> parse_error + interface_config" where
  "parseInterfaceKey c key value ln =
     (let k = utf8_lower key in
      if k = ''privatekey'' then Inr (c\<lparr>i_private_key := value\<rparr>)
      else if k = ''address'' then Inr (c\<lparr>i_address := i_address c @ splitAndTrim value\<rparr>)
      else if k = ''dns'' then Inr (c\<lparr>i_dns := i_dns c @ splitAndTrim value\<rparr>)
      else if k = ''mtu'' then set_int ln key value (\<lambda>n. c\<lparr>i_mtu := n\<rparr>)
      else if k = ''listenport'' then set_int ln key value (\<lambda>n. c\<lparr>i_listen_port := n\<rparr>)
      else if k = ''table'' then Inr (c\<lparr>i_table := value\<rparr>)
      else if k = ''fwmark'' then Inr (c\<lparr>i_fw_mark := value\<rparr>)
      else if k = ''preup'' then Inr (c\<lparr>i_pre_up := appendScriptLine (i_pre_up c) value\<rparr>)
      else if k = ''postup'' then Inr (c\<lparr>i_post_up := appendScriptLine (i_post_up c) value\<rparr>)
      else if k = ''predown'' then Inr (c\<lparr>i_pre_down := appendScriptLine (i_pre_down c) value\<rparr>)
      else if k = ''postdown'' then Inr (c\<lparr>i_post_down := appendScriptLine (i_post_down c) value\<rparr>)
      else if k = ''jc'' then set_int ln key value (\<lambda>n. c\<lparr>i_jc := n\<rparr>)
      else if k = ''jmin'' then set_int ln key value (\<lambda>n. c\<lparr>i_jmin := n\<rparr>)
      else if k = ''jmax'' then set_int ln key value (\<lambda>n. c\<lparr>i_jmax := n\<rparr>)
      else if k = ''s1'' then set_int ln key value (\<lambda>n. c\<lparr>i_s1 := n\<rparr>)
      else if k = ''s2'' then set_int ln key value (\<lambda>n. c\<lparr>i_s2 := n\<rparr>)
      else if k = ''s3'' then set_int ln key value (\<lambda>n. c\<lparr>i_s3 := n\<rparr>)
      else if k = ''s4'' then set_int ln key value (\<lambda>n. c\<lparr>i_s4 := n\<rparr>)
      else if k = ''h1'' then Inr (c\<lparr>i_h1 := value\<rparr>)
      else if k = ''h2'' then Inr (c\<lparr>i_h2 := value\<rparr>)
      else if k = ''h3'' then Inr (c\<lparr>i_h3 := value\<rparr>)
      else if k = ''h4'' then Inr (c\<lparr>i_h4 := value\<rparr>)
      else Inr (c\<lparr>i_extra := AList.update key value (i_extra c)\<rparr>))"

definition parsePeerKey :: "peer_config \<Rightarrow> string \<Rightarrow> string \<Rightarrow> nat \<Rightarrow> parse_error + peer_config" where
  "parsePeerKey p key value ln =
     (let k = utf8_lower key in
      if k = ''publickey'' then Inr (p\<lparr>p_public_key := value\<rparr>)
      else if k = ''presharedkey'' then Inr (p\<lparr>p_preshared_key := value\<rparr>)
      else if k = ''endpoint'' then Inr (p\<lparr>p_endpoint := value\<rparr>)
      else if k = ''allowedips'' then
        (let add = splitAndTrim value in
         if length (p_allowed_ips p) + length add > MaxAllowedIPsPerPeer then Inl AllowedIPsCap
         else Inr (p\<lparr>p_allowed_ips := p_allowed_ips p @ add\<rparr>))
      else if k = ''persistentkeepalive'' then
        (case parseKeepaliveSeconds value of
           None \<Rightarrow> Inl (BadKeepalive ln value)
         | Some n \<Rightarrow> Inr (p\<lparr>p_keepalive := Some n\<rparr>))
      else Inr (p\<lparr>p_extra := AList.update key value (p_extra p)\<rparr>))"

section \<open>Parser: lines\<close>

datatype conf_section = SecNone | SecInterface | SecPeer

record pstate =
  ps_section :: conf_section
  ps_iface :: interface_config
  ps_peers :: "peer_config list"

definition pstate0 :: pstate where
  "pstate0 = \<lparr>ps_section = SecNone, ps_iface = interface0, ps_peers = []\<rparr>"

text \<open>One scanned line. \<open>currentPeer\<close> is the last peer of the list.\<close>

definition parse_line :: "nat \<Rightarrow> string \<Rightarrow> pstate \<Rightarrow> parse_error + pstate" where
  "parse_line ln raw st =
     (let line = trim_space raw in
      if nul \<in> set line then Inl (NulByte ln)
      else if line = '''' \<or> hd line = CHR ''#'' \<or> hd line = CHR '';'' then Inr st
      else if utf8_lower line = ''[interface]'' then Inr (st\<lparr>ps_section := SecInterface\<rparr>)
      else if utf8_lower line = ''[peer]'' then Inr (st\<lparr>ps_section := SecPeer, ps_peers := ps_peers st @ [peer0]\<rparr>)
      else case str_cut (CHR ''='') line of
        None \<Rightarrow> Inl (BadSyntax ln line)
      | Some (a, b) \<Rightarrow>
          (let key = trim_space a; value = trim_space b in
           case ps_section st of
             SecInterface \<Rightarrow>
               (case parseInterfaceKey (ps_iface st) key value ln of
                  Inl e \<Rightarrow> Inl e | Inr c \<Rightarrow> Inr (st\<lparr>ps_iface := c\<rparr>))
           | SecPeer \<Rightarrow>
               (if ps_peers st = [] then Inl (OutsideAnySection ln key)
                else case parsePeerKey (last (ps_peers st)) key value ln of
                  Inl e \<Rightarrow> Inl e | Inr p \<Rightarrow> Inr (st\<lparr>ps_peers := butlast (ps_peers st) @ [p]\<rparr>))
           | SecNone \<Rightarrow> Inl (OutsideAnySection ln key)))"

fun parse_lines :: "nat \<Rightarrow> string list \<Rightarrow> pstate \<Rightarrow> parse_error + pstate" where
  "parse_lines ln [] st = Inr st"
| "parse_lines ln (l # ls) st =
     (case parse_line (Suc ln) l st of Inl e \<Rightarrow> Inl e | Inr st' \<Rightarrow> parse_lines (Suc ln) ls st')"

text \<open>
  \<open>bufio.ScanLines\<close>: the text after the last newline is a line only when it is not empty. A token
  that fills the whole 1 MiB buffer without a newline is a read error.
\<close>

definition scan_lines :: "string \<Rightarrow> string list" where
  "scan_lines s = (let ls = split_on nl s in if last ls = [] then butlast ls else ls)"

lemma split_lines: "\<forall>l\<in>set ls. nl \<notin> set l \<Longrightarrow> split_on nl (concat (map (\<lambda>l. l @ [nl]) ls)) = ls @ ['''']"
  by (induction ls) auto

lemma scan_written: "\<forall>l\<in>set ls. nl \<notin> set l \<Longrightarrow> scan_lines (concat (map (\<lambda>l. l @ [nl]) ls)) = ls"
  by (simp add: scan_lines_def split_lines)

definition utf8_bom :: string where "utf8_bom = [CHR 0xEF, CHR 0xBB, CHR 0xBF]"

definition Parse :: "string \<Rightarrow> parse_error + wg_config" where
  "Parse content0 =
     (if length content0 > MaxConfigSize then Inl (TooLarge (int (length content0)))
      else let content = trim_prefix content0 utf8_bom in
        if length content = MaxConfigSize \<and> nl \<notin> set content then Inl ReadError
        else case parse_lines 0 (scan_lines content) pstate0 of
          Inl e \<Rightarrow> Inl e
        | Inr st \<Rightarrow>
            if i_private_key (ps_iface st) = '''' then Inl NoPrivateKey
            else Inr (config0\<lparr>cfg_interface := ps_iface st, cfg_peers := ps_peers st,
                   cfg_protocol := (if IsAmneziaWG (ps_iface st) then ProtocolAmneziaWG else '''')\<rparr>))"

section \<open>Serializer\<close>

text \<open>The lines the builder writes, each ended by a newline.\<close>

definition kv :: "string \<Rightarrow> string \<Rightarrow> string" where
  "kv k v = k @ '' = '' @ v"

definition opt_line :: "bool \<Rightarrow> string \<Rightarrow> string \<Rightarrow> string list" where
  "opt_line b k v = (if b then [kv k v] else [])"

definition writeScriptLines :: "string \<Rightarrow> string \<Rightarrow> string list" where
  "writeScriptLines key value = (if value = '''' then [] else map (kv key) (split_on nul value))"

definition interface_lines :: "interface_config \<Rightarrow> string list" where
  "interface_lines c =
     [''[Interface]'', kv ''PrivateKey'' (i_private_key c)] @
     opt_line (i_address c \<noteq> []) ''Address'' (join '', '' (i_address c)) @
     opt_line (i_dns c \<noteq> []) ''DNS'' (join '', '' (i_dns c)) @
     opt_line (i_mtu c > 0) ''MTU'' (itoa (i_mtu c)) @
     opt_line (i_listen_port c > 0) ''ListenPort'' (itoa (i_listen_port c)) @
     opt_line (i_table c \<noteq> '''') ''Table'' (i_table c) @
     opt_line (i_fw_mark c \<noteq> '''') ''FwMark'' (i_fw_mark c) @
     writeScriptLines ''PreUp'' (i_pre_up c) @
     writeScriptLines ''PostUp'' (i_post_up c) @
     writeScriptLines ''PreDown'' (i_pre_down c) @
     writeScriptLines ''PostDown'' (i_post_down c) @
     opt_line (i_jc c > 0) ''Jc'' (itoa (i_jc c)) @
     opt_line (i_jmin c > 0) ''Jmin'' (itoa (i_jmin c)) @
     opt_line (i_jmax c > 0) ''Jmax'' (itoa (i_jmax c)) @
     opt_line (i_s1 c > 0) ''S1'' (itoa (i_s1 c)) @
     opt_line (i_s2 c > 0) ''S2'' (itoa (i_s2 c)) @
     opt_line (i_s3 c > 0) ''S3'' (itoa (i_s3 c)) @
     opt_line (i_s4 c > 0) ''S4'' (itoa (i_s4 c)) @
     opt_line (i_h1 c \<noteq> '''') ''H1'' (i_h1 c) @
     opt_line (i_h2 c \<noteq> '''') ''H2'' (i_h2 c) @
     opt_line (i_h3 c \<noteq> '''') ''H3'' (i_h3 c) @
     opt_line (i_h4 c \<noteq> '''') ''H4'' (i_h4 c) @
     map (\<lambda>(k, v). kv k v) (i_extra c)"

definition peer_lines :: "peer_config \<Rightarrow> string list" where
  "peer_lines p =
     ['''', ''[Peer]'', kv ''PublicKey'' (p_public_key p)] @
     opt_line (p_preshared_key p \<noteq> '''') ''PresharedKey'' (p_preshared_key p) @
     opt_line (p_endpoint p \<noteq> '''') ''Endpoint'' (p_endpoint p) @
     opt_line (p_allowed_ips p \<noteq> []) ''AllowedIPs'' (join '', '' (p_allowed_ips p)) @
     (case p_keepalive p of None \<Rightarrow> [] | Some n \<Rightarrow> [kv ''PersistentKeepalive'' (itoa n)]) @
     map (\<lambda>(k, v). kv k v) (p_extra p)"

definition Serialize :: "wg_config \<Rightarrow> string" where
  "Serialize cfg = concat (map (\<lambda>l. l @ [nl]) (interface_lines (cfg_interface cfg) @ concat (map peer_lines (cfg_peers cfg))))"

end
