(* ===== verification/ConfigRoundtrip.thy ===== *)
theory ConfigRoundtrip
  imports Config
begin

text \<open>
  The round trip of \<open>internal/config/parser.go\<close>: which configurations come back unchanged from
  \<open>Serialize\<close> followed by \<open>Parse\<close>, proved line by line. The serializer's output is seen as a list of
  key-value pairs; one lemma says what the parser does with such a line, one lemma per field what
  its pairs do to the interface under construction.
\<close>

section \<open>Clean text\<close>

definition clean :: "string \<Rightarrow> bool" where
  "clean v \<longleftrightarrow> trimmed v \<and> nl \<notin> set v \<and> nul \<notin> set v"

definition clean_item :: "string \<Rightarrow> bool" where
  "clean_item v \<longleftrightarrow> clean v \<and> v \<noteq> '''' \<and> CHR '','' \<notin> set v"

definition clean_script :: "string \<Rightarrow> bool" where
  "clean_script s \<longleftrightarrow> s = '''' \<or> (hd (split_on nul s) \<noteq> '''' \<and> (\<forall>p\<in>set (split_on nul s). clean p))"

definition line_key :: "string \<Rightarrow> bool" where
  "line_key k \<longleftrightarrow> clean k \<and> k \<noteq> '''' \<and> CHR ''='' \<notin> set k \<and> hd k \<noteq> CHR ''#'' \<and> hd k \<noteq> CHR '';''"

definition small_int :: "int \<Rightarrow> bool" where
  "small_int n \<longleftrightarrow> 0 \<le> n \<and> n < 2 ^ 63"

lemma trimmed_printable:
  assumes "\<forall>c\<in>set s. 0x21 \<le> (of_char c :: int) \<and> (of_char c :: int) < 0x80"
  shows "trimmed s"
proof -
  have asc: "\<not> ascii_space c" if "c \<in> set s" for c
  proof
    assume "ascii_space c"
    then have "(of_char c :: int) \<le> 32" by (auto simp: ascii_space_def)
    with assms that show False by fastforce
  qed
  have uni: "\<not> uni_space b" if b: "set b \<subseteq> set s" for b
  proof
    assume u: "uni_space b"
    then have "b \<noteq> []" using uni_space_len by fastforce
    then obtain c where c: "c \<in> set b" by (cases b) auto
    from uni_space_high[OF u c] have "(of_char c :: nat) \<ge> 0x80" .
    moreover have "(of_char c :: int) < 0x80" using assms b c by auto
    moreover have "(of_char c :: int) = int (of_char c :: nat)" by (simp only: of_nat_of_char)
    ultimately show False by linarith
  qed
  have "space_width s = 0"
    using asc[of "hd s"] uni[of "take 2 s"] uni[of "take 3 s"] by (cases s) (auto simp: space_width_def dest: in_set_takeD)
  moreover have "space_width_rev (rev s) = 0"
  proof -
    have "\<not> uni_space (rev (take n (rev s)))" for n
      using set_take_subset[of n "rev s"] by (intro uni) simp
    moreover have "s = [] \<or> \<not> ascii_space (hd (rev s))" using asc by (cases s rule: rev_cases) auto
    ultimately show ?thesis by (auto simp: space_width_rev_def)
  qed
  ultimately show ?thesis by (simp add: trimmed_def)
qed

lemma clean_Nil [simp]: "clean ''''"
  by (simp add: clean_def)

lemma clean_itoa: "small_int n \<Longrightarrow> clean (itoa n)"
proof -
  assume "small_int n"
  then have n: "0 \<le> n" by (simp add: small_int_def)
  have "trimmed (dec_str n)" by (rule trimmed_printable) (use dec_str_range[OF n] in force)
  moreover have "nl \<notin> set (dec_str n)" "nul \<notin> set (dec_str n)" using dec_str_not[OF n] by simp_all
  ultimately show ?thesis using n by (simp add: clean_def itoa_def)
qed

lemma clean_trim: "clean v \<Longrightarrow> trim_space v = v"
  by (simp add: clean_def)

section \<open>Reading one written line\<close>

lemma read_kv:
  assumes "line_key k" "clean v"
  obtains a b where "str_cut (CHR ''='') (trim_space (kv k v)) = Some (a, b)" "trim_space a = k" "trim_space b = v"
    "nul \<notin> set (trim_space (kv k v))" "trim_space (kv k v) \<noteq> ''''"
    "hd (trim_space (kv k v)) = hd k" "CHR ''='' \<in> set (trim_space (kv k v))"
proof -
  from assms have k: "trimmed k" "k \<noteq> []" "CHR ''='' \<notin> set k" "nul \<notin> set k" and v: "trimmed v" "nul \<notin> set v"
    by (auto simp: line_key_def clean_def)
  note h = that
  obtain a b where ab: "str_cut (CHR ''='') (trim_space (k @ '' = '' @ v)) = Some (a, b)"
    "trim_space a = k" "trim_space b = v" "trim_space (k @ '' = '' @ v) = k @ CHR '' '' # CHR ''='' # b"
    using read_key_line[OF k(1-3) v(1)] by blast
  have b: "nul \<notin> set b"
  proof (cases "v = []")
    case True
    with ab(4) k trim_space_key_only[OF k(1,2)] show ?thesis by simp
  next
    case False
    with ab(4) trimmed_pair[OF k(1,2) v(1)] have "b = '' '' @ v" by simp
    with v show ?thesis by simp
  qed
  from h[OF _ ab(2,3)] ab(1,4) b k show ?thesis by (simp add: kv_def)
qed

lemma take_set: "take n s = xs \<Longrightarrow> c \<in> set s \<Longrightarrow> c \<notin> set xs \<Longrightarrow> c \<in> set (drop n s)"
  by (metis UnE append_take_drop_id set_append)

lemma utf8_lower_keeps: "CHR ''='' \<in> set s \<Longrightarrow> CHR ''='' \<in> set (utf8_lower s)"
proof (induction s rule: utf8_lower.induct)
  case (2 d s)
  have "lower_char (CHR ''='') = CHR ''=''" by code_simp
  then show ?case using 2 take_set[of 2 s "[CHR 0x84, CHR 0xAA]" "CHR ''=''"] take_set[of 1 s "[CHR 0xB0]" "CHR ''=''"]
    by (cases "d = CHR ''=''") (simp_all add: utf8_lower.simps(2))
qed simp

lemma utf8_lower_id: "(\<And>c. c \<in> set s \<Longrightarrow> c \<noteq> CHR 0xE2 \<and> c \<noteq> CHR 0xC4 \<and> lower_char c = c) \<Longrightarrow> utf8_lower s = s"
  by (induction s) (simp_all add: utf8_lower.simps(2))

lemma not_section:
  assumes "CHR ''='' \<in> set l"
  shows "utf8_lower l \<noteq> ''[interface]'' \<and> utf8_lower l \<noteq> ''[peer]''"
  using utf8_lower_keeps[OF assms] by auto

lemma parse_kv_interface:
  assumes "line_key k" "clean v" "ps_section st = SecInterface"
  shows "parse_line ln (kv k v) st =
    (case parseInterfaceKey (ps_iface st) k v ln of Inl e \<Rightarrow> Inl e | Inr c \<Rightarrow> Inr (st\<lparr>ps_iface := c\<rparr>))"
proof -
  obtain a b where "str_cut (CHR ''='') (trim_space (kv k v)) = Some (a, b)" "trim_space a = k" "trim_space b = v"
    "nul \<notin> set (trim_space (kv k v))" "trim_space (kv k v) \<noteq> ''''"
    "hd (trim_space (kv k v)) = hd k" "CHR ''='' \<in> set (trim_space (kv k v))"
    using read_kv[OF assms(1,2)] by blast
  with not_section[of "trim_space (kv k v)"] assms show ?thesis
    by (simp add: parse_line_def Let_def line_key_def)
qed

lemma parse_kv_peer:
  assumes "line_key k" "clean v" "ps_section st = SecPeer" "ps_peers st \<noteq> []"
  shows "parse_line ln (kv k v) st =
    (case parsePeerKey (last (ps_peers st)) k v ln of
       Inl e \<Rightarrow> Inl e | Inr p \<Rightarrow> Inr (st\<lparr>ps_peers := butlast (ps_peers st) @ [p]\<rparr>))"
proof -
  obtain a b where "str_cut (CHR ''='') (trim_space (kv k v)) = Some (a, b)" "trim_space a = k" "trim_space b = v"
    "nul \<notin> set (trim_space (kv k v))" "trim_space (kv k v) \<noteq> ''''"
    "hd (trim_space (kv k v)) = hd k" "CHR ''='' \<in> set (trim_space (kv k v))"
    using read_kv[OF assms(1,2)] by blast
  with not_section[of "trim_space (kv k v)"] assms show ?thesis
    by (simp add: parse_line_def Let_def line_key_def)
qed

lemma parse_lines_append:
  "parse_lines ln (xs @ ys) st =
     (case parse_lines ln xs st of Inl e \<Rightarrow> Inl e | Inr st' \<Rightarrow> parse_lines (ln + length xs) ys st')"
  by (induction ln xs st rule: parse_lines.induct) (auto split: sum.splits)

section \<open>A block of pairs\<close>

text \<open>The effect of pairs on the value under construction, when no line is refused.\<close>

definition sets :: "('c \<Rightarrow> string \<Rightarrow> string \<Rightarrow> nat \<Rightarrow> parse_error + 'c) \<Rightarrow> (string \<times> string) list \<Rightarrow> 'c \<Rightarrow> 'c \<Rightarrow> bool" where
  "sets f kvs c c' \<longleftrightarrow> (\<forall>ln. foldl (\<lambda>r (k, v). case r of Inl e \<Rightarrow> Inl e | Inr x \<Rightarrow> f x k v ln) (Inr c) kvs = Inr c') \<and>
     (\<forall>(k, v)\<in>set kvs. line_key k \<and> clean v)"

lemma sets_Nil [simp]: "sets f [] c c' \<longleftrightarrow> c' = c"
  by (auto simp: sets_def)

lemma sets_append: "sets f xs c c1 \<Longrightarrow> sets f ys c1 c2 \<Longrightarrow> sets f (xs @ ys) c c2"
  by (auto simp: sets_def)

lemma sets_one: "(\<And>ln. f c k v ln = Inr c') \<Longrightarrow> line_key k \<Longrightarrow> clean v \<Longrightarrow> sets f [(k, v)] c c'"
  by (simp add: sets_def)

lemma sets_Cons: "(\<And>ln. f c k v ln = Inr c1) \<Longrightarrow> line_key k \<Longrightarrow> clean v \<Longrightarrow> sets f kvs c1 c2 \<Longrightarrow> sets f ((k, v) # kvs) c c2"
  using sets_append[of f "[(k, v)]" c c1 kvs c2] by (simp add: sets_one)

text \<open>The line number only appears in errors.\<close>

definition line_free :: "('c \<Rightarrow> string \<Rightarrow> string \<Rightarrow> nat \<Rightarrow> parse_error + 'c) \<Rightarrow> bool" where
  "line_free f \<longleftrightarrow> (\<forall>x k v ln ln' y. f x k v ln = Inr y \<longrightarrow> f x k v ln' = Inr y)"

lemma sets_ConsE:
  assumes "line_free f"
    and "sets f ((k, v) # kvs) c c2"
  obtains c1 where "\<And>ln. f c k v ln = Inr c1" "line_key k" "clean v" "sets f kvs c1 c2"
proof -
  note h = that
  have inl: "foldl (\<lambda>r (k, v). case r of Inl e \<Rightarrow> Inl e | Inr x \<Rightarrow> f x k v ln) (Inl e) kvs = Inl e" for ln e
    by (induction kvs) auto
  from assms(2) have run: "foldl (\<lambda>r (k, v). case r of Inl e \<Rightarrow> Inl e | Inr x \<Rightarrow> f x k v ln) (f c k v ln) kvs = Inr c2" for ln
    by (simp add: sets_def)
  obtain c1 where c1: "f c k v 0 = Inr c1" using run[of 0] inl by (cases "f c k v 0") auto
  then have all: "f c k v ln = Inr c1" for ln using assms(1) unfolding line_free_def by blast
  have "sets f kvs c1 c2" using run all assms(2) by (simp add: sets_def)
  with h[of c1] all assms(2) show ?thesis by (simp add: sets_def)
qed

lemma interface_ln: "line_free parseInterfaceKey"
proof -
  have int_Inr: "set_int ln key v u = Inr y \<longleftrightarrow> (\<exists>n. atoi v = Some n \<and> u n = y)" for ln key v u y
    by (simp add: set_int_def split: option.splits)
  have "(parseInterfaceKey x k v ln = Inr y) = (parseInterfaceKey x k v ln' = Inr y)" for x k v ln ln' y
    unfolding parseInterfaceKey_def Let_def if_distrib[of "\<lambda>r. r = Inr y"] int_Inr ..
  then show ?thesis unfolding line_free_def by blast
qed

lemma peer_ln: "line_free parsePeerKey"
  unfolding line_free_def parsePeerKey_def Let_def by (auto split: if_splits option.splits)

lemma run_interface_block:
  "sets parseInterfaceKey kvs c c' \<Longrightarrow> ps_section st = SecInterface \<Longrightarrow> ps_iface st = c \<Longrightarrow>
     parse_lines ln (map (\<lambda>(k, v). kv k v) kvs) st = Inr (st\<lparr>ps_iface := c'\<rparr>)"
proof (induction kvs arbitrary: c st ln)
  case Nil
  then show ?case by simp
next
  case (Cons p kvs)
  obtain k v where p: "p = (k, v)" by fastforce
  obtain c1 where c1: "\<And>ln. parseInterfaceKey c k v ln = Inr c1" "line_key k" "clean v" "sets parseInterfaceKey kvs c1 c'"
    using sets_ConsE[OF interface_ln Cons.prems(1)[unfolded p]] by blast
  have "parse_line (Suc ln) (kv k v) st = Inr (st\<lparr>ps_iface := c1\<rparr>)"
    using parse_kv_interface[OF c1(2,3)] c1(1) Cons.prems by simp
  with Cons.IH[OF c1(4), of "st\<lparr>ps_iface := c1\<rparr>" "Suc ln"] Cons.prems p show ?case by simp
qed

lemma run_peer_block:
  "sets parsePeerKey kvs p p' \<Longrightarrow> ps_section st = SecPeer \<Longrightarrow> ps_peers st = qs @ [p] \<Longrightarrow>
     parse_lines ln (map (\<lambda>(k, v). kv k v) kvs) st = Inr (st\<lparr>ps_peers := qs @ [p']\<rparr>)"
proof (induction kvs arbitrary: p st ln)
  case Nil
  then show ?case by (cases st) simp
next
  case (Cons x kvs)
  obtain k v where x: "x = (k, v)" by fastforce
  obtain p1 where p1: "\<And>ln. parsePeerKey p k v ln = Inr p1" "line_key k" "clean v" "sets parsePeerKey kvs p1 p'"
    using sets_ConsE[OF peer_ln Cons.prems(1)[unfolded x]] by blast
  have "parse_line (Suc ln) (kv k v) st = Inr (st\<lparr>ps_peers := qs @ [p1]\<rparr>)"
    using parse_kv_peer[OF p1(2,3)] p1(1) Cons.prems by simp
  with Cons.IH[OF p1(4), of "st\<lparr>ps_peers := qs @ [p1]\<rparr>" "Suc ln"] Cons.prems x show ?case by simp
qed

section \<open>The serializer as pairs\<close>

definition opt_pair :: "bool \<Rightarrow> string \<Rightarrow> string \<Rightarrow> (string \<times> string) list" where
  "opt_pair b k v = (if b then [(k, v)] else [])"

definition script_pairs :: "string \<Rightarrow> string \<Rightarrow> (string \<times> string) list" where
  "script_pairs key value = (if value = '''' then [] else map (Pair key) (split_on nul value))"

lemma opt_line_pair: "opt_line b k v = map (\<lambda>(k, v). kv k v) (opt_pair b k v)"
  by (simp add: opt_line_def opt_pair_def)

lemma script_lines_pairs: "writeScriptLines k v = map (\<lambda>(k, v). kv k v) (script_pairs k v)"
  by (simp add: writeScriptLines_def script_pairs_def)

definition base_pairs :: "interface_config \<Rightarrow> (string \<times> string) list" where
  "base_pairs c =
     [(''PrivateKey'', i_private_key c)] @
     opt_pair (i_address c \<noteq> []) ''Address'' (join '', '' (i_address c)) @
     opt_pair (i_dns c \<noteq> []) ''DNS'' (join '', '' (i_dns c)) @
     opt_pair (i_mtu c > 0) ''MTU'' (itoa (i_mtu c)) @
     opt_pair (i_listen_port c > 0) ''ListenPort'' (itoa (i_listen_port c)) @
     opt_pair (i_table c \<noteq> '''') ''Table'' (i_table c) @
     opt_pair (i_fw_mark c \<noteq> '''') ''FwMark'' (i_fw_mark c)"

definition awg_pairs :: "interface_config \<Rightarrow> (string \<times> string) list" where
  "awg_pairs c =
     opt_pair (i_jc c > 0) ''Jc'' (itoa (i_jc c)) @
     opt_pair (i_jmin c > 0) ''Jmin'' (itoa (i_jmin c)) @
     opt_pair (i_jmax c > 0) ''Jmax'' (itoa (i_jmax c)) @
     opt_pair (i_s1 c > 0) ''S1'' (itoa (i_s1 c)) @
     opt_pair (i_s2 c > 0) ''S2'' (itoa (i_s2 c)) @
     opt_pair (i_s3 c > 0) ''S3'' (itoa (i_s3 c)) @
     opt_pair (i_s4 c > 0) ''S4'' (itoa (i_s4 c)) @
     opt_pair (i_h1 c \<noteq> '''') ''H1'' (i_h1 c) @
     opt_pair (i_h2 c \<noteq> '''') ''H2'' (i_h2 c) @
     opt_pair (i_h3 c \<noteq> '''') ''H3'' (i_h3 c) @
     opt_pair (i_h4 c \<noteq> '''') ''H4'' (i_h4 c)"

definition hook_pairs :: "interface_config \<Rightarrow> (string \<times> string) list" where
  "hook_pairs c = script_pairs ''PreUp'' (i_pre_up c) @ script_pairs ''PostUp'' (i_post_up c) @
     script_pairs ''PreDown'' (i_pre_down c) @ script_pairs ''PostDown'' (i_post_down c)"

lemma interface_lines_pairs:
  "interface_lines c = ''[Interface]'' #
     map (\<lambda>(k, v). kv k v) (base_pairs c @ hook_pairs c @ awg_pairs c @ i_extra c)"
  by (simp add: interface_lines_def base_pairs_def hook_pairs_def awg_pairs_def opt_line_pair script_lines_pairs)

definition peer_pairs :: "peer_config \<Rightarrow> (string \<times> string) list" where
  "peer_pairs p =
     [(''PublicKey'', p_public_key p)] @
     opt_pair (p_preshared_key p \<noteq> '''') ''PresharedKey'' (p_preshared_key p) @
     opt_pair (p_endpoint p \<noteq> '''') ''Endpoint'' (p_endpoint p) @
     opt_pair (p_allowed_ips p \<noteq> []) ''AllowedIPs'' (join '', '' (p_allowed_ips p)) @
     (case p_keepalive p of None \<Rightarrow> [] | Some n \<Rightarrow> [(''PersistentKeepalive'', itoa n)]) @
     p_extra p"

lemma peer_lines_pairs: "peer_lines p = '''' # ''[Peer]'' # map (\<lambda>(k, v). kv k v) (peer_pairs p)"
  by (simp add: peer_lines_def peer_pairs_def opt_line_pair split: option.splits)

section \<open>Values\<close>

lemma atoi_small [simp]: "small_int n \<Longrightarrow> atoi (itoa n) = Some n"
  by (rule atoi_itoa) (simp_all add: small_int_def)

lemma clean_item_trim: "clean_item v \<Longrightarrow> trim_space v = v \<and> v \<noteq> ''''"
  by (simp add: clean_item_def clean_def)

lemma split_join_items:
  "xs \<noteq> [] \<Longrightarrow> \<forall>x\<in>set xs. CHR '','' \<notin> set x \<Longrightarrow>
     map trim_space (split_on (CHR '','') (join '', '' xs)) = map trim_space xs"
proof (induction "'', ''" xs rule: join.induct)
  case (3 x y ys)
  have "split_on (CHR '','') (x @ CHR '','' # ('' '' @ join '', '' (y # ys))) =
      x # split_on (CHR '','') ('' '' @ join '', '' (y # ys))"
    using 3 by (intro split_on_append) simp
  moreover obtain p ps where ps: "split_on (CHR '','') (join '', '' (y # ys)) = p # ps"
    using split_on_nonempty by (meson list.exhaust)
  ultimately show ?case using 3 by simp
qed simp_all

lemma split_items [simp]: "\<forall>x\<in>set xs. clean_item x \<Longrightarrow> xs \<noteq> [] \<Longrightarrow> splitAndTrim (join '', '' xs) = xs"
proof -
  assume xs: "\<forall>x\<in>set xs. clean_item x" "xs \<noteq> []"
  then have "map trim_space (split_on (CHR '','') (join '', '' xs)) = map trim_space xs"
    by (intro split_join_items) (auto simp: clean_item_def)
  moreover have "map trim_space xs = xs" using xs by (auto intro!: map_idI simp: clean_item_trim)
  ultimately show ?thesis using xs by (auto simp: splitAndTrim_def clean_item_trim intro!: filter_True)
qed

lemma trimmed_append_item:
  assumes "trimmed x" "x \<noteq> []" "trimmed y" "y \<noteq> []"
  shows "trimmed (x @ '', '' @ y)"
proof -
  text \<open>The comma sits where the pair lemma has its equals sign; neither is part of a space rune.\<close>
  have front: "space_width (x @ '', '' @ y) = 0"
  proof -
    have "\<not> uni_space (take n (x @ '', '' @ y))" if "n = 2 \<or> n = 3" for n
    proof (cases "length x < n")
      case True
      then have "CHR '','' \<in> set (take n (x @ '', '' @ y))" by (simp add: take_Cons')
      then show ?thesis using uni_space_high[of _ "CHR '',''"] by fastforce
    next
      case False
      then have "take n (x @ '', '' @ y) = take n x" by simp
      with assms that show ?thesis by (auto simp: trimmed_def space_width_def split: if_splits)
    qed
    with assms show ?thesis by (simp add: trimmed_def space_width_def split: if_splits)
  qed
  have "space_width_rev (rev y @ CHR '' '' # ('','' @ rev x)) = 0"
    using assms by (intro space_width_rev_append) (simp_all add: trimmed_def)
  with front show ?thesis by (simp add: trimmed_def)
qed

lemma clean_join: "\<forall>x\<in>set xs. clean_item x \<Longrightarrow> clean (join '', '' xs) \<and> (xs \<noteq> [] \<longrightarrow> join '', '' xs \<noteq> '''')"
proof (induction "'', ''" xs rule: join.induct)
  case (3 x y ys)
  then have y: "clean (join '', '' (y # ys))" "join '', '' (y # ys) \<noteq> ''''" by auto
  have x: "clean x" "x \<noteq> ''''" using 3 by (auto simp: clean_item_def)
  with trimmed_append_item[of x "join '', '' (y # ys)"] y show ?case by (auto simp: clean_def)
qed (auto simp: clean_item_def)

lemma keepalive_itoa: "small_int n \<Longrightarrow> parseKeepaliveSeconds (itoa n) = Some n"
proof -
  assume n: "small_int n"
  then have n0: "0 \<le> n" by (simp add: small_int_def)
  have digits: "c \<in> set (itoa n) \<Longrightarrow> 48 \<le> (of_char c :: int) \<and> (of_char c :: int) \<le> 57" for c
    using dec_str_range[OF n0] n0 by (simp add: itoa_def)
  have low: "utf8_lower (itoa n) = itoa n"
    using digits by (intro utf8_lower_id) (fastforce simp: lower_char_def Let_def)
  have nosuf: "\<not> has_suffix (itoa n) x" if "x \<in> set keepalive_suffixes" for x
  proof
    assume "has_suffix (itoa n) x"
    then obtain a where "itoa n = a @ x" using has_suffixE by blast
    then have "set x \<subseteq> set (itoa n)" by auto
    moreover have "CHR ''s'' \<in> set x" using that by (auto simp: keepalive_suffixes_def)
    ultimately show False using digits[of "CHR ''s''"] by auto
  qed
  then have "List.find (\<lambda>x. has_suffix (itoa n) x) keepalive_suffixes = None"
    by (auto simp: find_None_iff)
  then show ?thesis using n clean_itoa[OF n] n0 by (simp add: parseKeepaliveSeconds_def low clean_trim Let_def)
qed

section \<open>Keys\<close>

lemma fixed_keys [simp]:
  "line_key ''PrivateKey''"
  "line_key ''Address''"
  "line_key ''DNS''"
  "line_key ''MTU''"
  "line_key ''ListenPort''"
  "line_key ''Table''"
  "line_key ''FwMark''"
  "line_key ''PreUp''"
  "line_key ''PostUp''"
  "line_key ''PreDown''"
  "line_key ''PostDown''"
  "line_key ''Jc''"
  "line_key ''Jmin''"
  "line_key ''Jmax''"
  "line_key ''S1''"
  "line_key ''S2''"
  "line_key ''S3''"
  "line_key ''S4''"
  "line_key ''H1''"
  "line_key ''H2''"
  "line_key ''H3''"
  "line_key ''H4''"
  "line_key ''PublicKey''"
  "line_key ''PresharedKey''"
  "line_key ''Endpoint''"
  "line_key ''AllowedIPs''"
  "line_key ''PersistentKeepalive''"
  by code_simp+

lemma lower_keys [simp]:
  "utf8_lower ''PrivateKey'' = ''privatekey''"
  "utf8_lower ''Address'' = ''address''"
  "utf8_lower ''DNS'' = ''dns''"
  "utf8_lower ''MTU'' = ''mtu''"
  "utf8_lower ''ListenPort'' = ''listenport''"
  "utf8_lower ''Table'' = ''table''"
  "utf8_lower ''FwMark'' = ''fwmark''"
  "utf8_lower ''PreUp'' = ''preup''"
  "utf8_lower ''PostUp'' = ''postup''"
  "utf8_lower ''PreDown'' = ''predown''"
  "utf8_lower ''PostDown'' = ''postdown''"
  "utf8_lower ''Jc'' = ''jc''"
  "utf8_lower ''Jmin'' = ''jmin''"
  "utf8_lower ''Jmax'' = ''jmax''"
  "utf8_lower ''S1'' = ''s1''"
  "utf8_lower ''S2'' = ''s2''"
  "utf8_lower ''S3'' = ''s3''"
  "utf8_lower ''S4'' = ''s4''"
  "utf8_lower ''H1'' = ''h1''"
  "utf8_lower ''H2'' = ''h2''"
  "utf8_lower ''H3'' = ''h3''"
  "utf8_lower ''H4'' = ''h4''"
  "utf8_lower ''PublicKey'' = ''publickey''"
  "utf8_lower ''PresharedKey'' = ''presharedkey''"
  "utf8_lower ''Endpoint'' = ''endpoint''"
  "utf8_lower ''AllowedIPs'' = ''allowedips''"
  "utf8_lower ''PersistentKeepalive'' = ''persistentkeepalive''"
  by code_simp+

text \<open>The keys an extra entry must not have, in lower case.\<close>

definition interface_keys :: "string list" where
  "interface_keys = [''privatekey'', ''address'', ''dns'', ''mtu'', ''listenport'', ''table'', ''fwmark'', ''preup'', ''postup'', ''predown'', ''postdown'', ''jc'', ''jmin'', ''jmax'', ''s1'', ''s2'', ''s3'', ''s4'', ''h1'', ''h2'', ''h3'', ''h4'']"

definition peer_keys :: "string list" where
  "peer_keys = [''publickey'', ''presharedkey'', ''endpoint'', ''allowedips'', ''persistentkeepalive'']"

definition clean_extra :: "string list \<Rightarrow> (string \<times> string) list \<Rightarrow> bool" where
  "clean_extra known ex \<longleftrightarrow> distinct (map fst ex) \<and>
     (\<forall>(k, v)\<in>set ex. line_key k \<and> clean v \<and> utf8_lower k \<notin> set known)"

lemma interface_extra_key:
  "utf8_lower k \<notin> set interface_keys \<Longrightarrow> parseInterfaceKey c k v ln = Inr (c\<lparr>i_extra := AList.update k v (i_extra c)\<rparr>)"
  by (simp add: parseInterfaceKey_def interface_keys_def Let_def)

lemma peer_extra_key:
  "utf8_lower k \<notin> set peer_keys \<Longrightarrow> parsePeerKey p k v ln = Inr (p\<lparr>p_extra := AList.update k v (p_extra p)\<rparr>)"
  by (simp add: parsePeerKey_def peer_keys_def Let_def)

lemma update_new: "k \<notin> fst ` set m \<Longrightarrow> AList.update k v m = m @ [(k, v)]"
  by (induction m) auto

lemma interface_extra:
  "clean_extra interface_keys ex \<Longrightarrow> fst ` set ex \<inter> fst ` set (i_extra c) = {} \<Longrightarrow>
     sets parseInterfaceKey ex c (c\<lparr>i_extra := i_extra c @ ex\<rparr>)"
proof (induction ex arbitrary: c)
  case Nil
  then show ?case by simp
next
  case (Cons x ex)
  obtain k v where x: "x = (k, v)" by fastforce
  have one: "parseInterfaceKey c k v ln = Inr (c\<lparr>i_extra := i_extra c @ [(k, v)]\<rparr>)" for ln
    using Cons.prems x by (simp add: interface_extra_key clean_extra_def update_new image_iff)
  have "sets parseInterfaceKey ex (c\<lparr>i_extra := i_extra c @ [(k, v)]\<rparr>) (c\<lparr>i_extra := i_extra c @ [(k, v)] @ ex\<rparr>)"
    using Cons.IH[of "c\<lparr>i_extra := i_extra c @ [(k, v)]\<rparr>"] Cons.prems x by (auto simp: clean_extra_def image_iff)
  with Cons.prems x show ?case
    using sets_Cons[of parseInterfaceKey c k v "c\<lparr>i_extra := i_extra c @ [(k, v)]\<rparr>" ex, OF one] by (auto simp: clean_extra_def)
qed

lemma peer_extra:
  "clean_extra peer_keys ex \<Longrightarrow> fst ` set ex \<inter> fst ` set (p_extra c) = {} \<Longrightarrow>
     sets parsePeerKey ex c (c\<lparr>p_extra := p_extra c @ ex\<rparr>)"
proof (induction ex arbitrary: c)
  case Nil
  then show ?case by simp
next
  case (Cons x ex)
  obtain k v where x: "x = (k, v)" by fastforce
  have one: "parsePeerKey c k v ln = Inr (c\<lparr>p_extra := p_extra c @ [(k, v)]\<rparr>)" for ln
    using Cons.prems x by (simp add: peer_extra_key clean_extra_def update_new image_iff)
  have "sets parsePeerKey ex (c\<lparr>p_extra := p_extra c @ [(k, v)]\<rparr>) (c\<lparr>p_extra := p_extra c @ [(k, v)] @ ex\<rparr>)"
    using Cons.IH[of "c\<lparr>p_extra := p_extra c @ [(k, v)]\<rparr>"] Cons.prems x by (auto simp: clean_extra_def image_iff)
  with Cons.prems x show ?case
    using sets_Cons[of parsePeerKey c k v "c\<lparr>p_extra := p_extra c @ [(k, v)]\<rparr>" ex, OF one] by (auto simp: clean_extra_def)
qed

section \<open>Fields\<close>

lemma sets_opt:
  "(b \<Longrightarrow> (\<And>ln. f c k v ln = Inr c')) \<Longrightarrow> (b \<Longrightarrow> clean v) \<Longrightarrow> line_key k \<Longrightarrow> (\<not> b \<Longrightarrow> c' = c) \<Longrightarrow>
     sets f (opt_pair b k v) c c'"
  by (cases b) (simp_all add: opt_pair_def sets_one)

definition list_ok :: "string list \<Rightarrow> bool" where
  "list_ok xs \<longleftrightarrow> (\<forall>x\<in>set xs. clean_item x)"

definition wf_base :: "interface_config \<Rightarrow> bool" where
  "wf_base c \<longleftrightarrow> clean (i_private_key c) \<and> i_private_key c \<noteq> '''' \<and> list_ok (i_address c) \<and> list_ok (i_dns c) \<and>
     small_int (i_mtu c) \<and> small_int (i_listen_port c) \<and> clean (i_table c) \<and> clean (i_fw_mark c)"

definition wf_awg :: "interface_config \<Rightarrow> bool" where
  "wf_awg c \<longleftrightarrow> small_int (i_jc c) \<and> small_int (i_jmin c) \<and> small_int (i_jmax c) \<and> small_int (i_s1 c) \<and>
     small_int (i_s2 c) \<and> small_int (i_s3 c) \<and> small_int (i_s4 c) \<and>
     clean (i_h1 c) \<and> clean (i_h2 c) \<and> clean (i_h3 c) \<and> clean (i_h4 c)"

lemma small_pos: "small_int n \<Longrightarrow> \<not> n > 0 \<Longrightarrow> n = 0"
  by (simp add: small_int_def)

abbreviation with_base :: "interface_config \<Rightarrow> interface_config \<Rightarrow> interface_config" where
  "with_base c d \<equiv> d\<lparr>i_private_key := i_private_key c, i_address := i_address c, i_dns := i_dns c, i_mtu := i_mtu c,
     i_listen_port := i_listen_port c, i_table := i_table c, i_fw_mark := i_fw_mark c\<rparr>"

text \<open>Side conditions of a field step: the key is fixed, the value clean, the parser sets the field.\<close>

lemmas field_step = parseInterfaceKey_def set_int_def clean_itoa clean_join small_pos list_ok_def

lemma base_sets: assumes "wf_base c" shows "sets parseInterfaceKey (base_pairs c) interface0 (with_base c interface0)"
proof -
  note w = assms[unfolded wf_base_def]
  let ?d1 = "interface0\<lparr>i_private_key := i_private_key c\<rparr>"
  let ?d2 = "?d1\<lparr>i_address := i_address c\<rparr>"
  let ?d3 = "?d2\<lparr>i_dns := i_dns c\<rparr>"
  let ?d4 = "?d3\<lparr>i_mtu := i_mtu c\<rparr>"
  let ?d5 = "?d4\<lparr>i_listen_port := i_listen_port c\<rparr>"
  let ?d6 = "?d5\<lparr>i_table := i_table c\<rparr>"
  have "sets parseInterfaceKey [(''PrivateKey'', i_private_key c)] interface0 ?d1"
    using w by (intro sets_one) (simp_all add: field_step)
  moreover have "sets parseInterfaceKey (opt_pair (i_address c \<noteq> []) ''Address'' (join '', '' (i_address c))) ?d1 ?d2"
    using w by (intro sets_opt) (simp_all add: field_step interface0_def)
  moreover have "sets parseInterfaceKey (opt_pair (i_dns c \<noteq> []) ''DNS'' (join '', '' (i_dns c))) ?d2 ?d3"
    using w by (intro sets_opt) (simp_all add: field_step interface0_def)
  moreover have "sets parseInterfaceKey (opt_pair (i_mtu c > 0) ''MTU'' (itoa (i_mtu c))) ?d3 ?d4"
    using w by (intro sets_opt) (simp_all add: field_step interface0_def)
  moreover have "sets parseInterfaceKey (opt_pair (i_listen_port c > 0) ''ListenPort'' (itoa (i_listen_port c))) ?d4 ?d5"
    using w by (intro sets_opt) (simp_all add: field_step interface0_def)
  moreover have "sets parseInterfaceKey (opt_pair (i_table c \<noteq> '''') ''Table'' (i_table c)) ?d5 ?d6"
    using w by (intro sets_opt) (simp_all add: field_step interface0_def)
  moreover have "sets parseInterfaceKey (opt_pair (i_fw_mark c \<noteq> '''') ''FwMark'' (i_fw_mark c)) ?d6 (with_base c interface0)"
    using w by (intro sets_opt) (simp_all add: field_step interface0_def)
  ultimately show ?thesis unfolding base_pairs_def by (intro sets_append)
qed

abbreviation with_awg :: "interface_config \<Rightarrow> interface_config \<Rightarrow> interface_config" where
  "with_awg c d \<equiv> d\<lparr>i_jc := i_jc c, i_jmin := i_jmin c, i_jmax := i_jmax c, i_s1 := i_s1 c, i_s2 := i_s2 c,
     i_s3 := i_s3 c, i_s4 := i_s4 c, i_h1 := i_h1 c, i_h2 := i_h2 c, i_h3 := i_h3 c, i_h4 := i_h4 c\<rparr>"

definition no_awg :: "interface_config \<Rightarrow> bool" where
  "no_awg d \<longleftrightarrow> i_jc d = 0 \<and> i_jmin d = 0 \<and> i_jmax d = 0 \<and> i_s1 d = 0 \<and> i_s2 d = 0 \<and> i_s3 d = 0 \<and> i_s4 d = 0 \<and>
     i_h1 d = '''' \<and> i_h2 d = '''' \<and> i_h3 d = '''' \<and> i_h4 d = ''''"

lemma awg_sets:
  assumes "wf_awg c" and "no_awg d"
  shows "sets parseInterfaceKey (awg_pairs c) d (with_awg c d)"
proof -
  note w = assms[unfolded wf_awg_def no_awg_def]
  let ?d1 = "d\<lparr>i_jc := i_jc c\<rparr>"
  let ?d2 = "?d1\<lparr>i_jmin := i_jmin c\<rparr>"
  let ?d3 = "?d2\<lparr>i_jmax := i_jmax c\<rparr>"
  let ?d4 = "?d3\<lparr>i_s1 := i_s1 c\<rparr>"
  let ?d5 = "?d4\<lparr>i_s2 := i_s2 c\<rparr>"
  let ?d6 = "?d5\<lparr>i_s3 := i_s3 c\<rparr>"
  let ?d7 = "?d6\<lparr>i_s4 := i_s4 c\<rparr>"
  let ?d8 = "?d7\<lparr>i_h1 := i_h1 c\<rparr>"
  let ?d9 = "?d8\<lparr>i_h2 := i_h2 c\<rparr>"
  let ?d10 = "?d9\<lparr>i_h3 := i_h3 c\<rparr>"
  have "sets parseInterfaceKey (opt_pair (i_jc c > 0) ''Jc'' (itoa (i_jc c))) d ?d1"
    using w by (intro sets_opt) (simp_all add: field_step)
  moreover have "sets parseInterfaceKey (opt_pair (i_jmin c > 0) ''Jmin'' (itoa (i_jmin c))) ?d1 ?d2"
    using w by (intro sets_opt) (simp_all add: field_step)
  moreover have "sets parseInterfaceKey (opt_pair (i_jmax c > 0) ''Jmax'' (itoa (i_jmax c))) ?d2 ?d3"
    using w by (intro sets_opt) (simp_all add: field_step)
  moreover have "sets parseInterfaceKey (opt_pair (i_s1 c > 0) ''S1'' (itoa (i_s1 c))) ?d3 ?d4"
    using w by (intro sets_opt) (simp_all add: field_step)
  moreover have "sets parseInterfaceKey (opt_pair (i_s2 c > 0) ''S2'' (itoa (i_s2 c))) ?d4 ?d5"
    using w by (intro sets_opt) (simp_all add: field_step)
  moreover have "sets parseInterfaceKey (opt_pair (i_s3 c > 0) ''S3'' (itoa (i_s3 c))) ?d5 ?d6"
    using w by (intro sets_opt) (simp_all add: field_step)
  moreover have "sets parseInterfaceKey (opt_pair (i_s4 c > 0) ''S4'' (itoa (i_s4 c))) ?d6 ?d7"
    using w by (intro sets_opt) (simp_all add: field_step)
  moreover have "sets parseInterfaceKey (opt_pair (i_h1 c \<noteq> '''') ''H1'' (i_h1 c)) ?d7 ?d8"
    using w by (intro sets_opt) (simp_all add: field_step)
  moreover have "sets parseInterfaceKey (opt_pair (i_h2 c \<noteq> '''') ''H2'' (i_h2 c)) ?d8 ?d9"
    using w by (intro sets_opt) (simp_all add: field_step)
  moreover have "sets parseInterfaceKey (opt_pair (i_h3 c \<noteq> '''') ''H3'' (i_h3 c)) ?d9 ?d10"
    using w by (intro sets_opt) (simp_all add: field_step)
  moreover have "sets parseInterfaceKey (opt_pair (i_h4 c \<noteq> '''') ''H4'' (i_h4 c)) ?d10 (with_awg c d)"
    using w by (intro sets_opt) (simp_all add: field_step)
  ultimately show ?thesis unfolding awg_pairs_def by (intro sets_append)
qed

lemma join_Cons: "join [sep] (x # ps) = x @ concat (map (\<lambda>p. sep # p) ps)"
  by (induction ps arbitrary: x) auto

lemma foldl_script: "x \<noteq> '''' \<Longrightarrow> foldl appendScriptLine x ps = join [nul] (x # ps)"
  unfolding join_Cons by (induction ps arbitrary: x) (simp_all add: appendScriptLine_def)

lemma foldl_split: "clean_script s \<Longrightarrow> s \<noteq> '''' \<Longrightarrow> foldl appendScriptLine '''' (split_on nul s) = s"
proof -
  assume s: "clean_script s" "s \<noteq> ''''"
  obtain p ps where ps: "split_on nul s = p # ps" using split_on_nonempty by (meson list.exhaust)
  with s have "p \<noteq> ''''" by (simp add: clean_script_def)
  then have "foldl appendScriptLine '''' (split_on nul s) = join [nul] (split_on nul s)"
    unfolding ps by (simp add: appendScriptLine_def foldl_script)
  then show ?thesis by (simp add: join_split_on)
qed

text \<open>One hook, for any of the four fields: \<open>get\<close> and \<open>upd\<close> are the field.\<close>

lemma parts_sets:
  assumes "\<And>d v ln. parseInterfaceKey d k v ln = Inr (upd (appendScriptLine (get d) v) d)"
    and "\<And>d x. get (upd x d) = x" and "\<And>d x y. upd x (upd y d) = upd x d" and "\<And>d. upd (get d) d = d"
    and "line_key k" and "\<forall>p\<in>set parts. clean p"
  shows "sets parseInterfaceKey (map (Pair k) parts) d (upd (foldl appendScriptLine (get d) parts) d)"
  using assms(6)
proof (induction parts arbitrary: d)
  case Nil
  then show ?case by (simp add: assms(4))
next
  case (Cons p ps)
  show ?case
    using sets_Cons[of parseInterfaceKey d k p "upd (appendScriptLine (get d) p) d" "map (Pair k) ps"]
      Cons.IH[of "upd (appendScriptLine (get d) p) d"] Cons.prems
    by (simp add: assms)
qed

lemma script_sets:
  assumes "\<And>d v ln. parseInterfaceKey d k v ln = Inr (upd (appendScriptLine (get d) v) d)"
    and "\<And>d x. get (upd x d) = x" and "\<And>d x y. upd x (upd y d) = upd x d" and "\<And>d. upd (get d) d = d"
    and "line_key k" and "clean_script s" and "get d = ''''"
  shows "sets parseInterfaceKey (script_pairs k s) d (upd s d)"
proof (cases "s = ''''")
  case True
  with assms(4)[of d] assms(7) show ?thesis by (simp add: script_pairs_def)
next
  case False
  then have "\<forall>p\<in>set (split_on nul s). clean p" using assms(6) by (simp add: clean_script_def)
  from parts_sets[OF assms(1-5) this, of d] show ?thesis
    using False assms(6,7) by (simp add: script_pairs_def foldl_split)
qed

abbreviation with_hooks :: "interface_config \<Rightarrow> interface_config \<Rightarrow> interface_config" where
  "with_hooks c d \<equiv> d\<lparr>i_pre_up := i_pre_up c, i_post_up := i_post_up c, i_pre_down := i_pre_down c, i_post_down := i_post_down c\<rparr>"

definition wf_hooks :: "interface_config \<Rightarrow> bool" where
  "wf_hooks c \<longleftrightarrow> clean_script (i_pre_up c) \<and> clean_script (i_post_up c) \<and> clean_script (i_pre_down c) \<and> clean_script (i_post_down c)"

lemma hook_sets:
  assumes "wf_hooks c" and "i_pre_up d = ''''" "i_post_up d = ''''" "i_pre_down d = ''''" "i_post_down d = ''''"
  shows "sets parseInterfaceKey (hook_pairs c) d (with_hooks c d)"
proof -
  note w = assms(1)[unfolded wf_hooks_def]
  let ?d1 = "d\<lparr>i_pre_up := i_pre_up c\<rparr>"
  let ?d2 = "?d1\<lparr>i_post_up := i_post_up c\<rparr>"
  let ?d3 = "?d2\<lparr>i_pre_down := i_pre_down c\<rparr>"
  have "sets parseInterfaceKey (script_pairs ''PreUp'' (i_pre_up c)) d ?d1"
    by (rule script_sets[where get = i_pre_up]) (use w assms in \<open>simp_all add: parseInterfaceKey_def\<close>)
  moreover have "sets parseInterfaceKey (script_pairs ''PostUp'' (i_post_up c)) ?d1 ?d2"
    by (rule script_sets[where get = i_post_up]) (use w assms in \<open>simp_all add: parseInterfaceKey_def\<close>)
  moreover have "sets parseInterfaceKey (script_pairs ''PreDown'' (i_pre_down c)) ?d2 ?d3"
    by (rule script_sets[where get = i_pre_down]) (use w assms in \<open>simp_all add: parseInterfaceKey_def\<close>)
  moreover have "sets parseInterfaceKey (script_pairs ''PostDown'' (i_post_down c)) ?d3 (with_hooks c d)"
    by (rule script_sets[where get = i_post_down]) (use w assms in \<open>simp_all add: parseInterfaceKey_def\<close>)
  ultimately show ?thesis unfolding hook_pairs_def by (intro sets_append)
qed

section \<open>The interface and the peers\<close>

definition wf_interface :: "interface_config \<Rightarrow> bool" where
  "wf_interface c \<longleftrightarrow> wf_base c \<and> wf_hooks c \<and> wf_awg c \<and> clean_extra interface_keys (i_extra c)"

lemma interface_sets:
  assumes "wf_interface c"
  shows "sets parseInterfaceKey (base_pairs c @ hook_pairs c @ awg_pairs c @ i_extra c) interface0 c"
proof -
  note w = assms[unfolded wf_interface_def]
  let ?d1 = "with_base c interface0"
  let ?d2 = "with_hooks c ?d1"
  let ?d3 = "with_awg c ?d2"
  have base: "sets parseInterfaceKey (base_pairs c) interface0 ?d1" using w by (intro base_sets) simp
  have hooks: "sets parseInterfaceKey (hook_pairs c) ?d1 ?d2" using w by (intro hook_sets) (simp_all add: interface0_def)
  have awg: "sets parseInterfaceKey (awg_pairs c) ?d2 ?d3"
    using w by (intro awg_sets) (simp_all add: interface0_def no_awg_def)
  have extra: "sets parseInterfaceKey (i_extra c) ?d3 (?d3\<lparr>i_extra := i_extra ?d3 @ i_extra c\<rparr>)"
    using w by (intro interface_extra) (simp_all add: interface0_def)
  have "?d3\<lparr>i_extra := i_extra ?d3 @ i_extra c\<rparr> = c" by (cases c) (simp add: interface0_def)
  with sets_append[OF base sets_append[OF hooks sets_append[OF awg extra]]] show ?thesis by (simp only:)
qed

definition wf_peer :: "peer_config \<Rightarrow> bool" where
  "wf_peer p \<longleftrightarrow> clean (p_public_key p) \<and> clean (p_preshared_key p) \<and> clean (p_endpoint p) \<and>
     list_ok (p_allowed_ips p) \<and> length (p_allowed_ips p) \<le> MaxAllowedIPsPerPeer \<and>
     (case p_keepalive p of None \<Rightarrow> True | Some n \<Rightarrow> small_int n) \<and> clean_extra peer_keys (p_extra p)"

lemma peer_sets:
  assumes "wf_peer p"
  shows "sets parsePeerKey (peer_pairs p) peer0 p"
proof -
  note w = assms[unfolded wf_peer_def]
  let ?d1 = "peer0\<lparr>p_public_key := p_public_key p\<rparr>"
  let ?d2 = "?d1\<lparr>p_preshared_key := p_preshared_key p\<rparr>"
  let ?d3 = "?d2\<lparr>p_endpoint := p_endpoint p\<rparr>"
  let ?d4 = "?d3\<lparr>p_allowed_ips := p_allowed_ips p\<rparr>"
  let ?d5 = "?d4\<lparr>p_keepalive := p_keepalive p\<rparr>"
  have s1: "sets parsePeerKey [(''PublicKey'', p_public_key p)] peer0 ?d1"
    using w by (intro sets_one) (simp_all add: parsePeerKey_def)
  have s2: "sets parsePeerKey (opt_pair (p_preshared_key p \<noteq> '''') ''PresharedKey'' (p_preshared_key p)) ?d1 ?d2"
    using w by (intro sets_opt) (simp_all add: parsePeerKey_def peer0_def)
  have s3: "sets parsePeerKey (opt_pair (p_endpoint p \<noteq> '''') ''Endpoint'' (p_endpoint p)) ?d2 ?d3"
    using w by (intro sets_opt) (simp_all add: parsePeerKey_def peer0_def)
  have s4: "sets parsePeerKey (opt_pair (p_allowed_ips p \<noteq> []) ''AllowedIPs'' (join '', '' (p_allowed_ips p))) ?d3 ?d4"
    using w by (intro sets_opt) (simp_all add: parsePeerKey_def peer0_def list_ok_def clean_join)
  have s5: "sets parsePeerKey (case p_keepalive p of None \<Rightarrow> [] | Some n \<Rightarrow> [(''PersistentKeepalive'', itoa n)]) ?d4 ?d5"
  proof (cases "p_keepalive p")
    case None
    then show ?thesis by (simp add: peer0_def)
  next
    case (Some n)
    with w have "small_int n" by simp
    then show ?thesis unfolding Some option.case
      by (intro sets_one) (simp_all add: parsePeerKey_def keepalive_itoa clean_itoa)
  qed
  have s6: "sets parsePeerKey (p_extra p) ?d5 (?d5\<lparr>p_extra := p_extra ?d5 @ p_extra p\<rparr>)"
    using w by (intro peer_extra) (simp_all add: peer0_def)
  have "?d5\<lparr>p_extra := p_extra ?d5 @ p_extra p\<rparr> = p" by (cases p) (simp add: peer0_def)
  with sets_append[OF s1 sets_append[OF s2 sets_append[OF s3 sets_append[OF s4 sets_append[OF s5 s6]]]]]
  show ?thesis unfolding peer_pairs_def by (simp only:)
qed

section \<open>The whole file\<close>

lemma sets_no_nl: "sets f kvs c c' \<Longrightarrow> \<forall>l\<in>set (map (\<lambda>(k, v). kv k v) kvs). nl \<notin> set l"
  by (auto simp: sets_def line_key_def clean_def kv_def)

lemma header_interface: "parse_line ln ''[Interface]'' st = Inr (st\<lparr>ps_section := SecInterface\<rparr>)"
proof -
  have "trim_space ''[Interface]'' = ''[Interface]''" "utf8_lower ''[Interface]'' = ''[interface]''" by code_simp+
  then show ?thesis by (simp add: parse_line_def)
qed

lemma header_peer: "parse_line ln ''[Peer]'' st = Inr (st\<lparr>ps_section := SecPeer, ps_peers := ps_peers st @ [peer0]\<rparr>)"
proof -
  have "trim_space ''[Peer]'' = ''[Peer]''" "utf8_lower ''[Peer]'' = ''[peer]''" by code_simp+
  then show ?thesis by (simp add: parse_line_def)
qed

lemma blank_line: "parse_line ln '''' st = Inr st"
  by (simp add: parse_line_def)

lemma run_peers:
  "\<forall>p\<in>set ps. wf_peer p \<Longrightarrow> \<exists>sec. parse_lines ln (concat (map peer_lines ps)) st =
     Inr (st\<lparr>ps_section := sec, ps_peers := ps_peers st @ ps\<rparr>)"
proof (induction ps arbitrary: st ln)
  case Nil
  have "parse_lines ln (concat (map peer_lines [])) st = Inr (st\<lparr>ps_section := ps_section st, ps_peers := ps_peers st @ []\<rparr>)"
    by (cases st) simp
  then show ?case by blast
next
  case (Cons p ps)
  let ?s1 = "st\<lparr>ps_section := SecPeer, ps_peers := ps_peers st @ [peer0]\<rparr>"
  let ?s2 = "st\<lparr>ps_section := SecPeer, ps_peers := ps_peers st @ [p]\<rparr>"
  have "parse_lines ln' (map (\<lambda>(k, v). kv k v) (peer_pairs p)) ?s1 = Inr ?s2" for ln'
    using run_peer_block[OF peer_sets[of p], of ?s1 "ps_peers st"] Cons.prems by simp
  then have "parse_lines ln (peer_lines p) st = Inr ?s2"
    unfolding peer_lines_pairs by (simp add: blank_line header_peer)
  moreover obtain sec where "parse_lines (ln + length (peer_lines p)) (concat (map peer_lines ps)) ?s2 =
      Inr (?s2\<lparr>ps_section := sec, ps_peers := ps_peers ?s2 @ ps\<rparr>)"
    using Cons.IH[where st = ?s2 and ln = "ln + length (peer_lines p)"] Cons.prems by auto
  ultimately have "parse_lines ln (concat (map peer_lines (p # ps))) st =
      Inr (st\<lparr>ps_section := sec, ps_peers := ps_peers st @ p # ps\<rparr>)"
    by (simp add: parse_lines_append)
  then show ?case by blast
qed

definition wf_config :: "wg_config \<Rightarrow> bool" where
  "wf_config cfg \<longleftrightarrow> wf_interface (cfg_interface cfg) \<and> (\<forall>p\<in>set (cfg_peers cfg). wf_peer p)"

lemma parse_written:
  assumes "wf_config cfg" and "length (Serialize cfg) \<le> MaxConfigSize"
  shows "Parse (Serialize cfg) =
    Inr (config0\<lparr>cfg_interface := cfg_interface cfg, cfg_peers := cfg_peers cfg,
      cfg_protocol := (if IsAmneziaWG (cfg_interface cfg) then ProtocolAmneziaWG else '''')\<rparr>)"
proof -
  let ?c = "cfg_interface cfg" and ?ps = "cfg_peers cfg"
  let ?kvs = "base_pairs ?c @ hook_pairs ?c @ awg_pairs ?c @ i_extra ?c"
  let ?lines = "interface_lines ?c @ concat (map peer_lines ?ps)"
  have wi: "wf_interface ?c" and wp: "\<forall>p\<in>set ?ps. wf_peer p" using assms(1) by (simp_all add: wf_config_def)
  have "\<forall>l\<in>set (peer_lines p). nl \<notin> set l" if "p \<in> set ?ps" for p
    using sets_no_nl[OF peer_sets[of p]] wp that by (simp add: peer_lines_pairs)
  then have "\<forall>l\<in>set ?lines. nl \<notin> set l"
    using sets_no_nl[OF interface_sets[OF wi]] by (auto simp: interface_lines_pairs)
  then have scan: "scan_lines (Serialize cfg) = ?lines" unfolding Serialize_def by (rule scan_written)
  let ?s1 = "pstate0\<lparr>ps_section := SecInterface\<rparr>"
  have "parse_lines ln (map (\<lambda>(k, v). kv k v) ?kvs) ?s1 = Inr (?s1\<lparr>ps_iface := ?c\<rparr>)" for ln
    by (rule run_interface_block[OF interface_sets[OF wi]]) (simp_all add: pstate0_def)
  then have "parse_lines 0 (interface_lines ?c) pstate0 = Inr (?s1\<lparr>ps_iface := ?c\<rparr>)"
    unfolding interface_lines_pairs by (simp add: header_interface)
  moreover obtain sec where "parse_lines (length (interface_lines ?c)) (concat (map peer_lines ?ps)) (?s1\<lparr>ps_iface := ?c\<rparr>) =
      Inr (?s1\<lparr>ps_iface := ?c, ps_section := sec, ps_peers := ?ps\<rparr>)"
    using run_peers[OF wp, of "length (interface_lines ?c)" "?s1\<lparr>ps_iface := ?c\<rparr>"] by (auto simp: pstate0_def)
  ultimately have run: "parse_lines 0 ?lines pstate0 = Inr (?s1\<lparr>ps_iface := ?c, ps_section := sec, ps_peers := ?ps\<rparr>)"
    by (simp add: parse_lines_append)
  obtain rest where ser: "Serialize cfg = CHR ''['' # rest" "nl \<in> set (Serialize cfg)"
    by (simp add: Serialize_def interface_lines_pairs)
  then have bom: "trim_prefix (Serialize cfg) utf8_bom = Serialize cfg"
    by (simp add: trim_prefix_def utf8_bom_def)
  have "i_private_key ?c \<noteq> ''''" using wi by (simp add: wf_interface_def wf_base_def)
  then show ?thesis using assms(2) ser(2) by (simp add: Parse_def bom scan run)
qed

text \<open>C8: every configuration whose values are clean text (no newline or NUL, trimmed, list items without commas, hook lines separated by NUL, unknown keys that are not known ones, integers that fit) comes back from Serialize and Parse with its interface and its peers unchanged, AmneziaWG detected from its parameters; only the runtime fields (name, scripts flag, egress binding), which are never written, are reset.\<close>

theorem parse_serialize_roundtrip:
  assumes "wf_config cfg" and "length (Serialize cfg) \<le> MaxConfigSize"
  shows "Parse (Serialize cfg) =
    Inr (config0\<lparr>cfg_interface := cfg_interface cfg, cfg_peers := cfg_peers cfg,
      cfg_protocol := (if IsAmneziaWG (cfg_interface cfg) then ProtocolAmneziaWG else '''')\<rparr>)"
  using assms by (rule parse_written)

definition demo_config :: wg_config where
  "demo_config = config0\<lparr>cfg_name := ''home'',
     cfg_interface := interface0\<lparr>i_private_key := ''KEY='', i_address := [''10.0.0.2/32'', ''fd00::2/128''], i_mtu := 1420,
       i_post_up := ''a'' @ nul # ''b'', i_jc := 4, i_extra := [(''X-Note'', ''it = fine'')]\<rparr>,
     cfg_peers := [peer0\<lparr>p_public_key := ''PUB='', p_endpoint := ''vpn.example.com:51820'',
       p_allowed_ips := [''0.0.0.0/0'', ''::/0''], p_keepalive := Some 0\<rparr>, peer0]\<rparr>"

theorem parse_serialize_roundtrip_witness:
  "case Parse (Serialize demo_config) of Inl _ \<Rightarrow> False
   | Inr c \<Rightarrow> cfg_peers c = cfg_peers demo_config \<and> cfg_interface c = cfg_interface demo_config \<and>
       cfg_protocol c = ProtocolAmneziaWG"
proof -
  have "wf_config demo_config" by code_simp
  moreover have "length (Serialize demo_config) = 256" by code_simp
  moreover have "IsAmneziaWG (cfg_interface demo_config)" by code_simp
  ultimately show ?thesis using parse_serialize_roundtrip[of demo_config] by simp
qed

end
