(* ===== verification/Validator.thy ===== *)
theory Validator
  imports Config
begin

text \<open>
  \<open>internal/config/validator.go\<close>: the checks the helper and the GUI run before a configuration is
  used. An error is the pair of its field and its machine-readable code; the English message is not
  modelled. Base64 decoding, \<open>net.SplitHostPort\<close> and the host-name pattern are written out.
\<close>

section \<open>Keys, hosts\<close>

definition b64_char :: "char \<Rightarrow> bool" where
  "b64_char c \<longleftrightarrow> (CHR ''A'' \<le> c \<and> c \<le> CHR ''Z'') \<or> (CHR ''a'' \<le> c \<and> c \<le> CHR ''z'') \<or>
     (CHR ''0'' \<le> c \<and> c \<le> CHR ''9'') \<or> c = CHR ''+'' \<or> c = CHR ''/''"

text \<open>
  The length \<open>base64.StdEncoding.DecodeString\<close> decodes to, \<open>None\<close> for an error: quanta of four, padding
  only in the last one; carriage returns and newlines are skipped.
\<close>

fun b64_quanta :: "string \<Rightarrow> int option" where
  "b64_quanta [] = Some 0"
| "b64_quanta (a # b # c # d # rest) =
     (if b64_char a \<and> b64_char b then
        (if b64_char c then
           (if b64_char d then map_option (\<lambda>n. n + 3) (b64_quanta rest)
            else if d = CHR ''='' \<and> rest = [] then Some 2 else None)
         else if c = CHR ''='' \<and> d = CHR ''='' \<and> rest = [] then Some 1 else None)
      else None)"
| "b64_quanta _ = None"

definition b64_decoded_len :: "string \<Rightarrow> int option" where
  "b64_decoded_len s = b64_quanta (filter (\<lambda>c. c \<noteq> CHR 0x0A \<and> c \<noteq> CHR 0x0D) s)"

definition isValidWireGuardKey :: "string \<Rightarrow> bool" where
  "isValidWireGuardKey key \<longleftrightarrow> b64_decoded_len key = Some 32"

definition alnum :: "char \<Rightarrow> bool" where
  "alnum c \<longleftrightarrow> (CHR ''a'' \<le> c \<and> c \<le> CHR ''z'') \<or> (CHR ''A'' \<le> c \<and> c \<le> CHR ''Z'') \<or> (CHR ''0'' \<le> c \<and> c \<le> CHR ''9'')"

text \<open>One label of the pattern: an alphanumeric, then up to 61 of them or dashes and an alphanumeric.\<close>

definition host_label :: "string \<Rightarrow> bool" where
  "host_label l \<longleftrightarrow> l \<noteq> [] \<and> length l \<le> 63 \<and> alnum (hd l) \<and> alnum (last l) \<and> list_all (\<lambda>c. alnum c \<or> c = CHR ''-'') l"

definition hostnameRegex :: "string \<Rightarrow> bool" where
  "hostnameRegex s \<longleftrightarrow> list_all host_label (split_on (CHR ''.'') s)"

definition IsValidHostOrIP :: "string \<Rightarrow> bool" where
  "IsValidHostOrIP s \<longleftrightarrow> net_parse_ip s \<noteq> None \<or> (length s \<le> 253 \<and> hostnameRegex s)"

section \<open>The checks\<close>

type_synonym verror = "string \<times> string"

definition err_if :: "bool \<Rightarrow> string \<Rightarrow> string \<Rightarrow> verror list" where
  "err_if b field code = (if b then [(field, code)] else [])"

definition isValidHValue :: "string \<Rightarrow> bool" where
  "isValidHValue v \<longleftrightarrow>
     (let parts = split_on (CHR ''-'') v in length parts \<le> 2 \<and> list_all (\<lambda>p. parse_uint32 p \<noteq> None) parts)"

definition validateHKey :: "string \<Rightarrow> string \<Rightarrow> verror list" where
  "validateHKey field value = err_if (\<not> (value = '''' \<or> isValidHValue value)) field ''bad_h_range''"

definition validateAWGKey :: "string \<Rightarrow> int \<Rightarrow> int \<Rightarrow> verror list" where
  "validateAWGKey field value mx = err_if (value < 0 \<or> value > mx) field ''awg_range''"

definition validate_address :: "string \<Rightarrow> verror list" where
  "validate_address addr =
     (case parse_cidr addr of
        None \<Rightarrow> [(''Interface.Address'', ''bad_cidr'')]
      | Some (_, n) \<Rightarrow> err_if (net_ones n = 0) ''Interface.Address'' ''cidr_zero'')"

definition validateInterface :: "interface_config \<Rightarrow> verror list" where
  "validateInterface c =
     (if i_private_key c = '''' then [(''Interface.PrivateKey'', ''required'')]
      else err_if (\<not> isValidWireGuardKey (i_private_key c)) ''Interface.PrivateKey'' ''bad_key'') @
     (if i_address c = [] then [(''Interface.Address'', ''required'')] else concat (map validate_address (i_address c))) @
     concat (map (\<lambda>d. err_if (net_parse_ip d = None \<and> \<not> hostnameRegex d) ''Interface.DNS'' ''bad_dns'') (i_dns c)) @
     err_if (i_mtu c \<noteq> 0 \<and> (i_mtu c < 576 \<or> i_mtu c > 65535)) ''Interface.MTU'' ''range_mtu'' @
     err_if (i_listen_port c \<noteq> 0 \<and> (i_listen_port c < 1 \<or> i_listen_port c > 65535)) ''Interface.ListenPort'' ''range_listenport'' @
     validateAWGKey ''Interface.Jc'' (i_jc c) 4294967295 @
     validateAWGKey ''Interface.Jmin'' (i_jmin c) 4294967295 @
     validateAWGKey ''Interface.Jmax'' (i_jmax c) 4294967295 @
     err_if (i_jmin c > 0 \<and> i_jmax c > 0 \<and> i_jmin c > i_jmax c) ''Interface.Jmin'' ''jmin_jmax'' @
     validateAWGKey ''Interface.S1'' (i_s1 c) 65535 @
     validateAWGKey ''Interface.S2'' (i_s2 c) 65535 @
     validateAWGKey ''Interface.S3'' (i_s3 c) 65535 @
     validateAWGKey ''Interface.S4'' (i_s4 c) 65535 @
     validateHKey ''Interface.H1'' (i_h1 c) @
     validateHKey ''Interface.H2'' (i_h2 c) @
     validateHKey ''Interface.H3'' (i_h3 c) @
     validateHKey ''Interface.H4'' (i_h4 c)"

text \<open>The empty code is the empty message: the endpoint is accepted.\<close>

definition validateEndpoint :: "string \<Rightarrow> string" where
  "validateEndpoint e =
     (case split_host_port e of
        None \<Rightarrow> ''bad_endpoint''
      | Some (host, port) \<Rightarrow>
          if host = '''' then ''endpoint_host_empty''
          else (case atoi port of
              None \<Rightarrow> ''bad_endpoint_port''
            | Some n \<Rightarrow> if n < 1 \<or> n > 65535 then ''bad_endpoint_port'' else ''''))"

definition validatePeer :: "peer_config \<Rightarrow> nat \<Rightarrow> verror list" where
  "validatePeer p i =
     (let prefix = ''Peer['' @ itoa (int i) @ '']'' in
      (if p_public_key p = '''' then [(prefix @ ''.PublicKey'', ''required'')]
       else err_if (\<not> isValidWireGuardKey (p_public_key p)) (prefix @ ''.PublicKey'') ''bad_key'') @
      err_if (p_preshared_key p \<noteq> '''' \<and> \<not> isValidWireGuardKey (p_preshared_key p)) (prefix @ ''.PresharedKey'') ''bad_key'' @
      (if p_endpoint p \<noteq> '''' \<and> validateEndpoint (p_endpoint p) \<noteq> ''''
       then [(prefix @ ''.Endpoint'', validateEndpoint (p_endpoint p))] else []) @
      (if p_allowed_ips p = [] then [(prefix @ ''.AllowedIPs'', ''required'')]
       else concat (map (\<lambda>ip. err_if (parse_cidr ip = None) (prefix @ ''.AllowedIPs'') ''bad_cidr'') (p_allowed_ips p))) @
      (case p_keepalive p of
         None \<Rightarrow> []
       | Some k \<Rightarrow> err_if (k < 0 \<or> k > 65535) (prefix @ ''.PersistentKeepalive'') ''keepalive_range''))"

definition Validate :: "wg_config \<Rightarrow> verror list" where
  "Validate cfg =
     validateInterface (cfg_interface cfg) @
     (if cfg_peers cfg = [] then [(''Peer'', ''need_peer'')] else []) @
     concat (map (\<lambda>(i, p). validatePeer p i) (enumerate 0 (cfg_peers cfg)))"

definition IsValid :: "wg_config \<Rightarrow> bool" where
  "IsValid cfg \<longleftrightarrow> Validate cfg = []"

section \<open>The text of an accepted configuration\<close>

text \<open>The characters of an address, a prefix or a host name.\<close>

definition host_char :: "char \<Rightarrow> bool" where
  "host_char c \<longleftrightarrow> alnum c \<or> c \<in> set ''.:-''"

lemma int_of_char_le: "(c::char) \<le> d \<longleftrightarrow> (of_char c :: int) \<le> of_char d"
proof -
  have "(of_char c :: int) = int (of_char c :: nat)" "(of_char d :: int) = int (of_char d :: nat)"
    by (simp_all only: of_nat_of_char)
  then show ?thesis by (simp add: less_eq_char_def)
qed

lemma alnum_digit: "digit_val c = Some d \<Longrightarrow> alnum c"
  by (auto simp: digit_val_def alnum_def int_of_char_le Let_def split: if_splits)

lemma alnum_hex: "is_hex c \<Longrightarrow> alnum c"
  by (auto simp: is_hex_def hex_val_def alnum_def int_of_char_le Let_def split: if_splits)

lemma digits_alnum: "digits_acc n s = Some m \<Longrightarrow> list_all alnum s"
  by (induction n s rule: digits_acc.induct) (auto split: option.splits intro: alnum_digit)

lemma parse_nat_alnum: "parse_nat s = Some n \<Longrightarrow> list_all alnum s"
  by (auto simp: parse_nat_def split: if_splits intro: digits_alnum)

lemma octet_alnum: "parse_octet s = Some n \<Longrightarrow> list_all alnum s"
  by (auto simp: parse_octet_def split: if_splits option.splits intro: parse_nat_alnum)

lemma split_host_chars: "(\<And>p. p \<in> set (split_on sep s) \<Longrightarrow> list_all host_char p) \<Longrightarrow> host_char sep \<Longrightarrow> list_all host_char s"
proof -
  assume p: "\<And>p. p \<in> set (split_on sep s) \<Longrightarrow> list_all host_char p" and sep: "host_char sep"
  have "list_all host_char (join [sep] ps)" if "\<And>p. p \<in> set ps \<Longrightarrow> list_all host_char p" for ps
    using that sep by (induction "[sep]" ps rule: join.induct) auto
  from this[of "split_on sep s"] p show ?thesis by (simp add: join_split_on)
qed

lemma alnum_host: "list_all alnum s \<Longrightarrow> list_all host_char s"
  by (auto simp: host_char_def list_all_iff)

lemma four_octets:
  "(case xs of [Some a, Some b, Some c, Some d] \<Rightarrow> Some (f a b c d) | _ \<Rightarrow> None) = Some (v::int) \<Longrightarrow> None \<notin> set xs"
  for f :: "int \<Rightarrow> int \<Rightarrow> int \<Rightarrow> int \<Rightarrow> int"
  by (auto split: list.split_asm option.split_asm)

lemma ipv4_chars: "parse_ipv4 s = Some v \<Longrightarrow> list_all host_char s"
proof -
  assume v: "parse_ipv4 s = Some v"
  have "None \<notin> set (map parse_octet (split_on (CHR ''.'') s))"
    using v unfolding parse_ipv4_def by (rule four_octets)
  then have p: "\<exists>n. parse_octet p = Some n" if "p \<in> set (split_on (CHR ''.'') s)" for p
    using that by (metis image_eqI list.set_map not_None_eq)
  show ?thesis
  proof (rule split_host_chars)
    fix p assume "p \<in> set (split_on (CHR ''.'') s)"
    with p obtain n where "parse_octet p = Some n" by blast
    then show "list_all host_char p" by (intro alnum_host octet_alnum)
  qed (simp add: host_char_def)
qed

lemma v6_chars: "v6_loop k s gs e \<noteq> None \<Longrightarrow> list_all host_char s"
proof (induction k arbitrary: s gs e)
  case 0
  then show ?case by (simp split: if_splits)
next
  case (Suc k)
  define hex where "hex = takeWhile is_hex s"
  define rest where "rest = dropWhile is_hex s"
  have s: "s = hex @ rest" by (simp add: hex_def rest_def)
  have hexc: "list_all host_char hex"
    by (auto simp: hex_def list_all_iff host_char_def dest: set_takeWhileD alnum_hex)
  note run = Suc.prems[unfolded v6_loop.simps Let_def, folded hex_def rest_def]
  have ok: "\<not> (hex = [] \<or> 4 < length hex)" using run by (auto split: if_splits)
  show ?case
  proof (cases rest)
    case Nil
    with s hexc show ?thesis by simp
  next
    case (Cons c r)
    show ?thesis
    proof (cases "c = CHR ''.''")
      case True
      with run ok Cons have "\<exists>v. parse_ipv4 s = Some v"
        by (auto split: if_splits option.splits)
      then show ?thesis by (auto intro: ipv4_chars)
    next
      case False
      have colon: "c = CHR '':''" "r \<noteq> []" using run ok Cons False by (auto split: if_splits)
      have "list_all host_char r"
      proof (cases "hd r = CHR '':''")
        case hd: True
        have "tl r = [] \<or> v6_loop k (tl r) (gs @ [hex_num hex]) (Some (length (gs @ [hex_num hex]))) \<noteq> None"
          using run ok Cons False colon hd by (auto split: if_splits)
        then have "list_all host_char (tl r)" using Suc.IH by (metis list.pred_inject(1))
        with hd colon show ?thesis by (cases r) (auto simp: host_char_def)
      next
        case nhd: False
        have "v6_loop k r (gs @ [hex_num hex]) e \<noteq> None"
          using run ok Cons False colon nhd by (auto split: if_splits)
        then show ?thesis using Suc.IH by blast
      qed
      moreover have "host_char (CHR '':'')" by (simp add: host_char_def)
      ultimately show ?thesis using s hexc Cons colon by simp
    qed
  qed
qed

lemma addr_chars: "parse_addr s = Some (a, '''') \<Longrightarrow> list_all host_char s"
proof -
  assume pa: "parse_addr s = Some (a, '''')"
  then consider (v4) v where "parse_ipv4 s = Some v" | (v6) "parse_ipv6 s = Some (a, '''')"
    by (auto simp: parse_addr_def split: option.splits if_splits)
  then show ?thesis
  proof cases
    case v4
    then show ?thesis by (rule ipv4_chars)
  next
    case v6
    have nozone: "str_cut (CHR ''%'') s = None"
    proof (cases "str_cut (CHR ''%'') s")
      case (Some p)
      obtain x z where p: "p = (x, z)" by fastforce
      with v6 Some show ?thesis by (auto simp: parse_ipv6_def Let_def split: if_splits option.splits)
    qed simp
    show ?thesis
    proof (cases "take 2 s = ''::''")
      case True
      have two: "list_all host_char (take 2 s)" using True by (simp add: host_char_def)
      have "drop 2 s = [] \<or> v6_loop 8 (drop 2 s) [] (Some 0) \<noteq> None"
        using v6 nozone True by (auto simp: parse_ipv6_def Let_def split: if_splits option.splits)
      then have "list_all host_char (drop 2 s)" using v6_chars by fastforce
      with two show ?thesis by (metis append_take_drop_id list_all_append)
    next
      case False
      then have "v6_loop 8 s [] None \<noteq> None"
        using v6 nozone by (auto simp: parse_ipv6_def Let_def split: if_splits option.splits)
      then show ?thesis using v6_chars by blast
    qed
  qed
qed

lemma ip_chars: "net_parse_ip s = Some a \<Longrightarrow> list_all host_char s"
  by (auto simp: net_parse_ip_def split: option.splits if_splits intro: addr_chars)

lemma hostname_chars: "hostnameRegex s \<Longrightarrow> list_all host_char s"
  unfolding hostnameRegex_def
  by (rule split_host_chars[of "CHR ''.''"]) (auto simp: host_label_def host_char_def list_all_iff)

definition prefix_char :: "char \<Rightarrow> bool" where
  "prefix_char c \<longleftrightarrow> host_char c \<or> c = CHR ''/''"

lemma cidr_chars: "parse_cidr s = Some x \<Longrightarrow> list_all prefix_char s"
proof -
  assume x: "parse_cidr s = Some x"
  then obtain addr m where cut: "str_cut (CHR ''/'') s = Some (addr, m)"
    by (auto simp: parse_cidr_def split: option.splits)
  then have s: "s = addr @ CHR ''/'' # m" by (simp add: str_cut_Some)
  obtain a where "parse_addr addr = Some (a, '''')"
    using x cut by (auto simp: parse_cidr_def split: option.splits if_splits)
  then have 1: "list_all host_char addr" by (rule addr_chars)
  obtain n where "parse_nat m = Some n"
    using x cut by (auto simp: parse_cidr_def dtoi_def split: option.splits if_splits)
  then have "list_all host_char m" by (intro alnum_host parse_nat_alnum)
  with 1 s show ?thesis by (auto simp: prefix_char_def list_all_iff)
qed

lemma err_if_Nil [simp]: "err_if b f c = [] \<longleftrightarrow> \<not> b"
  by (simp add: err_if_def)

lemma validate_parts:
  assumes "Validate cfg = []"
  shows "validateInterface (cfg_interface cfg) = []" "cfg_peers cfg \<noteq> []"
    "\<And>p. p \<in> set (cfg_peers cfg) \<Longrightarrow> \<exists>i. validatePeer p i = []"
proof -
  show "validateInterface (cfg_interface cfg) = []" "cfg_peers cfg \<noteq> []"
    using assms by (auto simp: Validate_def split: if_splits)
  fix p assume "p \<in> set (cfg_peers cfg)"
  then obtain i where "i < length (cfg_peers cfg)" "cfg_peers cfg ! i = p" by (auto simp: in_set_conv_nth)
  then have "(i, p) \<in> set (enumerate 0 (cfg_peers cfg))" by (simp add: in_set_enumerate_eq)
  with assms show "\<exists>i. validatePeer p i = []" by (auto simp: Validate_def)
qed

text \<open>A configuration the validator accepts carries no text that could change the commands it is used in: every address and every AllowedIPs entry consists of letters, digits, dots, colons, dashes and the slash, every DNS entry of the same without the slash. No blank, quote, newline or shell character gets through.\<close>

theorem accepted_text_is_safe:
  assumes "Validate cfg = []"
  shows "(\<forall>a\<in>set (i_address (cfg_interface cfg)). list_all prefix_char a) \<and>
    (\<forall>d\<in>set (i_dns (cfg_interface cfg)). list_all host_char d) \<and>
    (\<forall>p\<in>set (cfg_peers cfg). \<forall>ip\<in>set (p_allowed_ips p). list_all prefix_char ip)"
proof (intro conjI ballI)
  note parts = validate_parts[OF assms]
  fix a assume "a \<in> set (i_address (cfg_interface cfg))"
  then have "validate_address a = []" using parts(1) by (auto simp: validateInterface_def split: if_splits)
  then show "list_all prefix_char a" by (auto simp: validate_address_def split: option.splits intro: cidr_chars)
next
  note parts = validate_parts[OF assms]
  fix d assume "d \<in> set (i_dns (cfg_interface cfg))"
  then have "net_parse_ip d \<noteq> None \<or> hostnameRegex d" using parts(1) by (auto simp: validateInterface_def)
  then show "list_all host_char d" by (auto intro: ip_chars hostname_chars)
next
  note parts = validate_parts[OF assms]
  fix p ip assume "p \<in> set (cfg_peers cfg)" "ip \<in> set (p_allowed_ips p)"
  with parts(3)[of p] have "parse_cidr ip \<noteq> None" by (auto simp: validatePeer_def Let_def split: if_splits)
  then show "list_all prefix_char ip" by (auto intro: cidr_chars)
qed

definition valid_demo :: wg_config where
  "valid_demo = config0\<lparr>
     cfg_interface := interface0\<lparr>i_private_key := ''AAAAAAAAAAAAAAAAAAAAAAAAAAAAAAAAAAAAAAAAAAA='',
       i_address := [''10.0.0.2/32''], i_dns := [''1.1.1.1'', ''dns.corp'', ''fe80::1'']\<rparr>,
     cfg_peers := [peer0\<lparr>p_public_key := ''AAAAAAAAAAAAAAAAAAAAAAAAAAAAAAAAAAAAAAAAAAA='',
       p_endpoint := ''[2001:db8::1]:51820'', p_allowed_ips := [''0.0.0.0/0'', ''::/0'']\<rparr>]\<rparr>"

theorem accepted_text_is_safe_witness:
  "Validate valid_demo = [] \<and> list_all host_char ''fe80::1'' \<and> list_all prefix_char ''::/0''"
proof -
  have ok: "Validate valid_demo = []" by code_simp
  then show ?thesis using accepted_text_is_safe[OF ok] by (simp add: valid_demo_def)
qed

end
