(* ===== verification/Helper.thy ===== *)
theory Helper
  imports ManagerProps PolicyReport Settings Validator
begin

text \<open>
  The privileged helper (\<open>internal/helper\<close>): its state, and the parts that decide. What the code reads
  from outside at the time of an operation (settings and sidecar files, the network, the clock, the
  platform firewall and network manager) is a record \<open>world\<close>; the helper's own maps are the record
  \<open>helper\<close>, association lists keyed by tunnel name. Every operation returns the new state; what it
  broadcasts or starts is appended to the trace.
\<close>

section \<open>State\<close>

record conflict_payload =
  cp_tunnel :: string
  cp_address :: string
  cp_adapter :: string
  cp_software :: string
  cp_state :: string

record policy_block =
  pb_tunnel :: string
  pb_reason :: string
  pb_summary :: string

datatype dns_decision = Proceed | Abort

datatype hevent =
    BroadcastAddressConflict conflict_payload
  | BroadcastPolicyBlocked policy_block
  | BroadcastAutoConnect string
  | BroadcastDNSPathConflict string "string list"
  | CancelRetryFor string
  | CancelRetryAll
  | ScheduleSettleRecheck
  | ScheduleRuleCheck
  | ManagerEffects "effect list"
  | AttemptConnect string
  | AttemptDisconnect string

text \<open>
  \<open>w_settings\<close> is \<open>loadUserSettings\<close> (\<open>None\<close> an error), \<open>w_store\<close> whether \<open>userTunnelStore\<close> exists, with
  \<open>w_list\<close>, \<open>w_load\<close>, \<open>w_meta\<close> its reads; \<open>w_binding\<close> the binding fields of the sidecar file;
  \<open>w_conflict\<close> is \<open>errors.As\<close> with an \<open>AddressConflictError\<close> (address, holder); \<open>w_fw_enable\<close> and
  \<open>w_fw_disable\<close> whether the firewall calls succeed; the \<open>w_conn\<close> and \<open>w_disc\<close> fields are the
  platform's behaviour during connect and disconnect.
\<close>

record world =
  w_settings :: "settings option"
  w_store :: bool
  w_list :: "string list option"
  w_load :: "string \<Rightarrow> wg_config option"
  w_meta :: "string \<Rightarrow> tunnel_meta option"
  w_binding :: "string \<Rightarrow> int \<times> string"
  w_ssid :: string
  w_gw_mac :: string
  w_gw_ip :: string
  w_ips :: "ip_addr list"
  w_ifaces :: "iface_info list"
  w_wall :: clock
  w_now :: int
  w_control :: bool
  w_conn :: conn_env
  w_query :: query
  w_conflict :: "tunnel_error \<Rightarrow> (string \<times> string) option"
  w_fw_enable :: "string \<Rightarrow> string list \<Rightarrow> bool"
  w_fw_disable :: bool
  w_disc_fails :: "effect \<Rightarrow> string option"
  w_precleaner :: bool
  w_restorer :: bool
  w_rename :: "string \<Rightarrow> string \<Rightarrow> bool"

record backoff =
  b_failures :: int
  b_next :: int

record helper =
  h_mgr :: manager
  h_active :: "(string \<times> wg_config) list"
  h_paused :: "(string \<times> conflict_payload) list"
  h_backoff :: "(string \<times> backoff) list"
  h_waived :: "(string \<times> unit) list"
  h_waits :: "(string \<times> dns_decision option) list"
  h_dns_owner :: string
  h_fw :: "(string \<times> string list) option"
  h_fw_saved :: bool
  h_fw_saved_dns :: "string list"
  h_auto_by :: "(string \<times> string) list"
  h_latency :: "(string \<times> int) list"
  h_probe :: "(string \<times> probe_result) list"
  h_ssid_stamp :: string
  h_eval_pending :: bool
  h_eval_reason :: string
  h_started :: int
  h_timer :: bool
  h_trace :: "hevent list"

definition helper0 :: helper where
  "helper0 = \<lparr>h_mgr = manager0, h_active = [], h_paused = [], h_backoff = [], h_waived = [], h_waits = [],
     h_dns_owner = '''', h_fw = None, h_fw_saved = False, h_fw_saved_dns = [], h_auto_by = [], h_latency = [],
     h_probe = [], h_ssid_stamp = '''', h_eval_pending = False, h_eval_reason = '''', h_started = 0,
     h_timer = False, h_trace = []\<rparr>"

definition emit :: "hevent \<Rightarrow> helper \<Rightarrow> helper" where
  "emit e h = h\<lparr>h_trace := h_trace h @ [e]\<rparr>"

lemma emit_frame [simp, frame_simps]:
  "h_mgr (emit e h) = h_mgr h" "h_active (emit e h) = h_active h" "h_paused (emit e h) = h_paused h"
  "h_backoff (emit e h) = h_backoff h" "h_waived (emit e h) = h_waived h" "h_waits (emit e h) = h_waits h"
  "h_dns_owner (emit e h) = h_dns_owner h" "h_fw (emit e h) = h_fw h" "h_auto_by (emit e h) = h_auto_by h"
  "h_latency (emit e h) = h_latency h" "h_probe (emit e h) = h_probe h" "h_timer (emit e h) = h_timer h"
  "h_trace (emit e h) = h_trace h @ [e]" "h_started (emit e h) = h_started h"
  "h_ssid_stamp (emit e h) = h_ssid_stamp h" "h_fw_saved (emit e h) = h_fw_saved h"
  "h_fw_saved_dns (emit e h) = h_fw_saved_dns h" "h_eval_pending (emit e h) = h_eval_pending h"
  by (simp_all add: emit_def)

section \<open>automation_rules.go: reads and the back-off\<close>

definition loadTunnelBinding :: "world \<Rightarrow> string \<Rightarrow> int \<times> string" where
  "loadTunnelBinding w name = (if ValidateTunnelName name \<noteq> None then (0, '''') else w_binding w name)"

definition currentNetworkContext :: "world \<Rightarrow> helper \<Rightarrow> network_context" where
  "currentNetworkContext w h =
     (let stale = w_ssid w \<noteq> '''' \<and> w_gw_mac w \<noteq> '''' \<and> h_ssid_stamp h \<noteq> '''' \<and> h_ssid_stamp h \<noteq> w_gw_mac w in
      \<lparr>nc_ssid = (if stale then '''' else w_ssid w), nc_ips = w_ips w, nc_gw_mac = w_gw_mac w,
       nc_gw_ip = w_gw_ip w, nc_ifaces = w_ifaces w, nc_now = None, nc_wall = w_wall w\<rparr>)"

definition reconcileAction :: "desired_state \<Rightarrow> bool \<Rightarrow> bool \<Rightarrow> bool \<Rightarrow> string" where
  "reconcileAction st active manualOff manualOn =
     (case st of
        StateConnect \<Rightarrow> (if manualOff then ''skip-manual-off'' else if \<not> active then ''connect'' else '''')
      | StateDisconnect \<Rightarrow> (if manualOn then ''skip-manual-on'' else if active then ''disconnect'' else '''')
      | StateUnmanaged \<Rightarrow> '''')"

definition ssidBlind :: "rule list \<Rightarrow> network_context \<Rightarrow> bool" where
  "ssidBlind rules ctx \<longleftrightarrow> SSIDUndecidable ctx \<and> RulesReferenceSSID rules"

definition automationDisabled :: "world \<Rightarrow> string \<Rightarrow> bool" where
  "automationDisabled w name =
     (if \<not> w_store w \<or> name = '''' then False
      else case w_meta w name of None \<Rightarrow> False | Some m \<Rightarrow> tm_automation_disabled m)"

definition automationBackoffDelay :: "int \<Rightarrow> int" where
  "automationBackoffDelay n =
     (if n \<le> 1 then 30 * second else if n = 2 then minute else if n = 3 then 2 * minute else 5 * minute)"

definition autoConnectBackingOff :: "world \<Rightarrow> helper \<Rightarrow> string \<Rightarrow> bool" where
  "autoConnectBackingOff w h name =
     (case map_of (h_backoff h) name of None \<Rightarrow> False | Some b \<Rightarrow> w_now w < b_next b)"

definition recordAutoConnectFailure :: "world \<Rightarrow> string \<Rightarrow> helper \<Rightarrow> helper" where
  "recordAutoConnectFailure w name h =
     (let b = (case map_of (h_backoff h) name of None \<Rightarrow> \<lparr>b_failures = 0, b_next = 0\<rparr> | Some b \<Rightarrow> b);
          n = b_failures b + 1 in
      h\<lparr>h_backoff := AList.update name \<lparr>b_failures = n, b_next = w_now w + automationBackoffDelay n\<rparr> (h_backoff h)\<rparr>)"

definition clearAutoConnectBackoff :: "string \<Rightarrow> helper \<Rightarrow> helper" where
  "clearAutoConnectBackoff name h = h\<lparr>h_backoff := AList.delete name (h_backoff h)\<rparr>"

section \<open>conflict_pause.go, conflict_check.go\<close>

definition stripCIDR :: "string \<Rightarrow> string" where
  "stripCIDR addr = (case parse_cidr addr of None \<Rightarrow> addr | Some (ip, _) \<Rightarrow> net_ip_str ip)"

definition inferConflictingSoftware :: "string \<Rightarrow> string" where
  "inferConflictingSoftware adapter =
     (if has_prefix adapter ''WireGuardTunnel$'' then ''WireGuard (official client)''
      else if has_prefix adapter ''utun'' then ''WireGuard (official client)''
      else ''unknown'')"

definition isOwnTunnelIface :: "string \<Rightarrow> bool" where
  "isOwnTunnelIface name \<longleftrightarrow> has_prefix name ''WireGuidePlus-''"

definition isAutoConnectPaused :: "helper \<Rightarrow> string \<Rightarrow> bool" where
  "isAutoConnectPaused h name \<longleftrightarrow> map_of (h_paused h) name \<noteq> None"

definition pauseForAddressConflict :: "string \<Rightarrow> string \<Rightarrow> string \<Rightarrow> string \<Rightarrow> helper \<Rightarrow> helper" where
  "pauseForAddressConflict tunnel cidr holder st h =
     (if isAutoConnectPaused h tunnel then h
      else let p = \<lparr>cp_tunnel = tunnel, cp_address = stripCIDR cidr, cp_adapter = holder,
                    cp_software = inferConflictingSoftware holder, cp_state = st\<rparr> in
        emit (BroadcastAddressConflict p)
          (emit (CancelRetryFor tunnel) (h\<lparr>h_paused := AList.update tunnel p (h_paused h)\<rparr>)))"

definition resumeAutoConnect :: "string \<Rightarrow> helper \<Rightarrow> helper" where
  "resumeAutoConnect tunnel h =
     (let h1 = h\<lparr>h_paused := AList.delete tunnel (h_paused h)\<rparr> in
      if isAutoConnectPaused h tunnel then clearAutoConnectBackoff tunnel h1 else h1)"

definition pendingAddressConflicts :: "world \<Rightarrow> helper \<Rightarrow> conflict_payload list" where
  "pendingAddressConflicts w h =
     filter (\<lambda>p. \<not> automationDisabled w (cp_tunnel p)) (map snd (h_paused h))"

definition automationBlockedForReconnect :: "world \<Rightarrow> helper \<Rightarrow> string \<Rightarrow> bool" where
  "automationBlockedForReconnect w h tunnel \<longleftrightarrow> automationDisabled w tunnel \<or> isAutoConnectPaused h tunnel"

text \<open>
  \<open>checkAddressConflicts\<close>: \<open>snapshot\<close> is the list of local interfaces with their addresses (\<open>None\<close> when
  the enumeration fails). The pauses it raises, in the order of its loops.
\<close>

definition address_conflicts :: "world \<Rightarrow> helper \<Rightarrow> (string \<times> ip_addr list) list \<Rightarrow> string \<Rightarrow> (string \<times> string \<times> string \<times> string) list" where
  "address_conflicts w h snapshot name =
     (case w_load w name of
        None \<Rightarrow> []
      | Some cfg \<Rightarrow>
          concat (map (\<lambda>cidr. case parse_cidr cidr of
              None \<Rightarrow> []
            | Some (ip, _) \<Rightarrow>
                concat (map (\<lambda>(ifn, ips). if isOwnTunnelIface ifn then []
                    else map (\<lambda>_. (name, cidr, ifn, if name \<in> set (ActiveTunnels (h_mgr h)) then ''active'' else ''down''))
                           (filter (\<lambda>held. net_ip_equal held ip) ips)) snapshot))
            (i_address (cfg_interface cfg))))"

definition checkAddressConflicts :: "world \<Rightarrow> (string \<times> ip_addr list) list option \<Rightarrow> helper \<Rightarrow> helper" where
  "checkAddressConflicts w ifaces h =
     (case (w_store w, w_list w, ifaces) of
        (True, Some names, Some snapshot) \<Rightarrow>
          foldl (\<lambda>h (name, cidr, ifn, st). pauseForAddressConflict name cidr ifn st h) h
            (concat (map (address_conflicts w h snapshot) names))
      | _ \<Rightarrow> h)"

section \<open>dns_path.go: who claims and who holds the path\<close>

definition dnsPathMasterEnabled :: "world \<Rightarrow> bool" where
  "dnsPathMasterEnabled w = (case w_settings w of None \<Rightarrow> False | Some s \<Rightarrow> s_dns_resolve_path s)"

definition dnsPathClaimWaived :: "helper \<Rightarrow> string \<Rightarrow> bool" where
  "dnsPathClaimWaived h name \<longleftrightarrow> map_of (h_waived h) name \<noteq> None"

definition tunnelClaimsDNSPath :: "world \<Rightarrow> helper \<Rightarrow> string \<Rightarrow> bool" where
  "tunnelClaimsDNSPath w h name =
     (if name = '''' \<or> \<not> w_store w \<or> \<not> dnsPathMasterEnabled w \<or> dnsPathClaimWaived h name then False
      else case w_meta w name of None \<Rightarrow> False | Some m \<Rightarrow> tm_resolve_path m)"

definition dnsPathBlockers :: "world \<Rightarrow> helper \<Rightarrow> string \<Rightarrow> string list" where
  "dnsPathBlockers w h exclude =
     (if \<not> w_store w \<or> \<not> dnsPathMasterEnabled w then []
      else filter (\<lambda>n. n \<noteq> exclude \<and> (case w_meta w n of None \<Rightarrow> False | Some m \<Rightarrow> tm_resolve_path m))
             (sort (map fst (h_active h))))"

definition waiveDNSPathClaim :: "string \<Rightarrow> helper \<Rightarrow> helper" where
  "waiveDNSPathClaim name h = h\<lparr>h_waived := AList.update name () (h_waived h)\<rparr>"

definition clearDNSPathWaiver :: "string \<Rightarrow> helper \<Rightarrow> helper" where
  "clearDNSPathWaiver name h = h\<lparr>h_waived := AList.delete name (h_waived h)\<rparr>"

definition beginDNSPathWait :: "string \<Rightarrow> helper \<Rightarrow> helper" where
  "beginDNSPathWait name h = h\<lparr>h_waits := AList.update name None (h_waits h)\<rparr>"

definition endDNSPathWait :: "string \<Rightarrow> helper \<Rightarrow> helper" where
  "endDNSPathWait name h = h\<lparr>h_waits := AList.delete name (h_waits h)\<rparr>"

text \<open>The channel has one slot: a second decision is dropped.\<close>

definition resolveDNSPathWait :: "string \<Rightarrow> dns_decision \<Rightarrow> helper \<Rightarrow> bool \<times> helper" where
  "resolveDNSPathWait name d h =
     (case map_of (h_waits h) name of
        None \<Rightarrow> (False, h)
      | Some None \<Rightarrow> (True, h\<lparr>h_waits := AList.update name (Some d) (h_waits h)\<rparr>)
      | Some (Some _) \<Rightarrow> (True, h))"

datatype resolve_error = TunnelRequired | UnknownAction string

definition handleResolveDNSPathConflict :: "string \<Rightarrow> string \<Rightarrow> helper \<Rightarrow> helper \<times> resolve_error option" where
  "handleResolveDNSPathConflict tunnel act h =
     (if tunnel = '''' then (h, Some TunnelRequired)
      else if act = ''disable'' then (snd (resolveDNSPathWait tunnel Proceed (waiveDNSPathClaim tunnel h)), None)
      else if act = ''cancel'' then (snd (resolveDNSPathWait tunnel Abort h), None)
      else (h, Some (UnknownAction act)))"

section \<open>policy.go\<close>

definition hasBlockingRoute :: "report \<Rightarrow> bool" where
  "hasBlockingRoute r = list_ex (\<lambda>c. rc_severity c = SeverityBlocking) (rp_routes r)"

definition hasBlockingDNS :: "report \<Rightarrow> bool" where
  "hasBlockingDNS r = list_ex (\<lambda>c. dc_severity c = SeverityBlocking) (rp_dns r)"

definition route_block_text :: "string \<Rightarrow> route_conflict \<Rightarrow> string" where
  "route_block_text name c =
     name @ '' claims the same prefix as '' @ (if rc_b c = name then rc_a c else rc_b c) @ '' ('' @ rc_aprefix c @ '')''"

definition describeRouteBlock :: "string \<Rightarrow> report \<Rightarrow> string" where
  "describeRouteBlock name r =
     join ''; '' (map (route_block_text name) (filter (\<lambda>c. rc_severity c = SeverityBlocking) (rp_routes r)))"

definition describeDNSBlock :: "report \<Rightarrow> string" where
  "describeDNSBlock r = join ''; '' (map dc_message (filter (\<lambda>c. dc_severity c = SeverityBlocking) (rp_dns r)))"

definition describeProtectionBlock :: "report \<Rightarrow> string" where
  "describeProtectionBlock r =
     join ''; '' (map pc_message (filter (\<lambda>c. pc_severity c = SeverityBlocking) (rp_protection r)))"

definition policy_views :: "world \<Rightarrow> helper \<Rightarrow> string list \<Rightarrow> tunnel_view list" where
  "policy_views w h names =
     SnapshotFrom names (w_load w)
       (Some (\<lambda>n. map_option (\<lambda>m. \<lparr>pm_protect = tm_protect m, pm_domains = tm_domains m,
          pm_default_dns = tm_default_dns m, pm_resolve_path = (tm_resolve_path m \<and> dnsPathMasterEnabled w)\<rparr>) (w_meta w n)))
       (Some (\<lambda>n. map_of (h_active h) n \<noteq> None))"

definition policyBlockFor :: "world \<Rightarrow> helper \<Rightarrow> string \<Rightarrow> policy_block option" where
  "policyBlockFor w h name =
     (if \<not> w_store w \<or> name = '''' then None
      else case w_list w of
        None \<Rightarrow> None
      | Some names \<Rightarrow>
          (let report = ForTunnel (Analyze (policy_views w h names)) name in
           if \<not> Blocking report then None
           else if hasBlockingRoute report then
             Some \<lparr>pb_tunnel = name, pb_reason = ''route'', pb_summary = describeRouteBlock name report\<rparr>
           else if hasBlockingDNS report then
             Some \<lparr>pb_tunnel = name, pb_reason = ''dns'', pb_summary = describeDNSBlock report\<rparr>
           else Some \<lparr>pb_tunnel = name, pb_reason = ''protection'', pb_summary = describeProtectionBlock report\<rparr>))"

section \<open>decision.go\<close>

record tunnel_decision =
  td_name :: string
  td_has_policy :: bool
  td_desired :: desired_state
  td_action :: string
  td_reason :: string
  td_blocked :: bool
  td_block_reason :: string
  td_rule :: "rule option"
  td_manual_off :: bool
  td_manual_on :: bool
  td_exempted :: bool
  td_paused :: bool
  td_ssid_blind :: bool
  td_network_known :: bool
  td_backing_off :: bool

record decision_env =
  de_name :: string
  de_has_policy :: bool
  de_rules :: "rule list"
  de_default :: action
  de_ctx :: network_context
  de_network_known :: bool
  de_ssid_blind :: bool
  de_exempted :: bool
  de_paused :: bool
  de_manual_off :: bool
  de_manual_on :: bool
  de_active :: bool
  de_backing_off :: bool
  de_policy_block :: string
  de_dns_block :: bool

definition decision_base :: "decision_env \<Rightarrow> tunnel_decision" where
  "decision_base e = \<lparr>td_name = de_name e, td_has_policy = de_has_policy e, td_desired = StateUnmanaged, td_action = '''',
     td_reason = '''', td_blocked = False, td_block_reason = '''', td_rule = None, td_manual_off = de_manual_off e,
     td_manual_on = de_manual_on e, td_exempted = de_exempted e, td_paused = de_paused e, td_ssid_blind = de_ssid_blind e,
     td_network_known = de_network_known e, td_backing_off = de_backing_off e\<rparr>"

text \<open>The first rule whose detail matched.\<close>

definition matched_rule :: "rule list \<Rightarrow> rule_detail list \<Rightarrow> rule option" where
  "matched_rule rules ds = map_option fst (List.find (\<lambda>(r, d). rd_matched d) (zip rules ds))"

definition evaluateTunnelDecision :: "decision_env \<Rightarrow> tunnel_decision" where
  "evaluateTunnelDecision e =
     (let d0 = decision_base e in
      if \<not> de_network_known e then d0\<lparr>td_action := ''unresolved'', td_reason := ''network-unidentified''\<rparr>
      else if de_exempted e then d0\<lparr>td_reason := ''automation-disabled''\<rparr>
      else if de_paused e then d0\<lparr>td_reason := ''address-conflict-paused''\<rparr>
      else if de_ssid_blind e then d0\<lparr>td_action := ''unresolved'', td_reason := ''ssid-blind''\<rparr>
      else
        let (st, details) = EvaluatePolicyDetail (de_rules e) (de_default e) (de_ctx e);
            d = d0\<lparr>td_desired := st, td_rule := (if st \<noteq> StateUnmanaged then matched_rule (de_rules e) details else None)\<rparr>;
            base = reconcileAction st (de_active e) (de_manual_off e) (de_manual_on e) in
        if base = ''connect'' then
          (if de_policy_block e \<noteq> '''' then d\<lparr>td_action := ''blocked'', td_blocked := True, td_block_reason := de_policy_block e\<rparr>
           else if de_dns_block e then d\<lparr>td_action := ''blocked'', td_blocked := True, td_block_reason := ''dns''\<rparr>
           else if de_backing_off e then d\<lparr>td_action := ''deferred'', td_reason := ''back-off''\<rparr>
           else d\<lparr>td_action := ''connect''\<rparr>)
        else if base = ''disconnect'' then d\<lparr>td_action := ''disconnect''\<rparr>
        else if base = ''skip-manual-off'' then d\<lparr>td_action := ''skip-manual-off'', td_reason := ''manual-off''\<rparr>
        else if base = ''skip-manual-on'' then d\<lparr>td_action := ''skip-manual-on'', td_reason := ''manual-on''\<rparr>
        else d)"

definition tunnel_rules :: "settings \<Rightarrow> string \<Rightarrow> rule list" where
  "tunnel_rules s name =
     (case s_automation s of None \<Rightarrow> [] | Some a \<Rightarrow> (case map_of (a_per_tunnel a) name of None \<Rightarrow> [] | Some r \<Rightarrow> r))"

definition tunnel_default :: "settings \<Rightarrow> string \<Rightarrow> action" where
  "tunnel_default s name =
     (case s_automation s of None \<Rightarrow> '''' | Some a \<Rightarrow> (case map_of (a_defaults a) name of None \<Rightarrow> '''' | Some d \<Rightarrow> d))"

definition gather_env :: "world \<Rightarrow> helper \<Rightarrow> string \<Rightarrow> settings \<Rightarrow> network_context \<Rightarrow> decision_env" where
  "gather_env w h name s ctx =
     (let rules = tunnel_rules s name; def = tunnel_default s name; hasPolicy = (rules \<noteq> [] \<or> def \<noteq> '''') in
      \<lparr>de_name = name, de_has_policy = hasPolicy, de_rules = rules, de_default = def, de_ctx = ctx,
       de_network_known = (nc_ssid ctx \<noteq> '''' \<or> nc_ips ctx \<noteq> []),
       de_ssid_blind = (hasPolicy \<and> ssidBlind rules ctx),
       de_exempted = automationDisabled w name, de_paused = isAutoConnectPaused h name,
       de_manual_off = (name \<in> set (s_manual_off s)), de_manual_on = (name \<in> set (s_manual_on s)),
       de_active = (name \<in> set (ActiveTunnels (h_mgr h))), de_backing_off = autoConnectBackingOff w h name,
       de_policy_block = (case policyBlockFor w h name of None \<Rightarrow> '''' | Some b \<Rightarrow> pb_reason b),
       de_dns_block = (tunnelClaimsDNSPath w h name \<and> dnsPathBlockers w h name \<noteq> [])\<rparr>)"

definition EvaluateTunnelDecision :: "world \<Rightarrow> helper \<Rightarrow> string \<Rightarrow> settings \<Rightarrow> network_context \<Rightarrow> tunnel_decision" where
  "EvaluateTunnelDecision w h name s ctx = evaluateTunnelDecision (gather_env w h name s ctx)"

definition DecisionConnectAllowed :: "tunnel_decision \<Rightarrow> bool" where
  "DecisionConnectAllowed d =
     (if td_paused d \<or> td_exempted d then False
      else if \<not> td_has_policy d \<or> td_manual_on d then True
      else if \<not> td_network_known d \<or> td_ssid_blind d then False
      else td_desired d \<noteq> StateDisconnect)"

text \<open>The word the preview shows for a decision.\<close>

definition preview_decision :: "tunnel_decision \<Rightarrow> string" where
  "preview_decision d =
     (if td_exempted d then ''disabled''
      else if td_action d = ''blocked'' then ''blocked''
      else if td_action d = ''unresolved'' \<and> td_ssid_blind d then ''ssid-blind''
      else if td_action d = ''unresolved'' then ''network-unidentified''
      else if td_action d = ''connect'' then (if td_manual_off d then ''manual-off'' else ''connect'')
      else if td_action d = ''disconnect'' then (if td_manual_on d then ''manual-on'' else ''disconnect'')
      else if td_action d = ''skip-manual-off'' then ''manual-off''
      else if td_action d = ''skip-manual-on'' then ''manual-on''
      else if td_action d = ''deferred'' then ''backoff''
      else ''unmanaged'')"

record preview_row =
  pv_name :: string
  pv_rule_count :: nat
  pv_decision :: string
  pv_active :: bool
  pv_manual_off :: bool
  pv_manual_on :: bool

definition handleAutomationPreview :: "world \<Rightarrow> helper \<Rightarrow> (network_context \<times> preview_row list) option" where
  "handleAutomationPreview w h =
     (case w_settings w of
        None \<Rightarrow> None
      | Some s0 \<Rightarrow>
          (let s = EnsureAutomation s0; ctx = currentNetworkContext w h in
           Some (ctx, map (\<lambda>name. let d = EvaluateTunnelDecision w h name s ctx in
             \<lparr>pv_name = name, pv_rule_count = length (tunnel_rules s name), pv_decision = preview_decision d,
              pv_active = (name \<in> set (ActiveTunnels (h_mgr h))), pv_manual_off = td_manual_off d,
              pv_manual_on = td_manual_on d\<rparr>) (PolicyTunnelNames (s_automation s)))))"

text \<open>\<open>reconnectPolicyBlocked\<close>: the monitor's question.\<close>

definition reconnectPolicyBlocked :: "world \<Rightarrow> helper \<Rightarrow> string \<Rightarrow> bool" where
  "reconnectPolicyBlocked w h name =
     (if name = '''' then False
      else case w_settings w of
        None \<Rightarrow> automationDisabled w name \<or> isAutoConnectPaused h name
      | Some s0 \<Rightarrow>
          \<not> DecisionConnectAllowed (EvaluateTunnelDecision w h name (EnsureAutomation s0) (currentNetworkContext w h)))"

section \<open>handlers.go: connecting\<close>

datatype connect_error = AWGDisabled | ConnectFailed tunnel_error

definition clear_caches :: "string \<Rightarrow> helper \<Rightarrow> helper" where
  "clear_caches name h = h\<lparr>h_active := AList.delete name (h_active h), h_auto_by := AList.delete name (h_auto_by h),
     h_latency := AList.delete name (h_latency h), h_probe := AList.delete name (h_probe h)\<rparr>"

text \<open>\<open>manager.Connect\<close> (a background context) and \<open>manager.DisconnectTunnel\<close> on the helper state.\<close>

definition mgr_connect :: "world \<Rightarrow> (nat \<Rightarrow> string option) \<Rightarrow> wg_config \<Rightarrow> helper \<Rightarrow> helper \<times> tunnel_error option" where
  "mgr_connect w ctx cfg h =
     (case ConnectWithContext ((w_conn w)\<lparr>ce_ctx := ctx\<rparr>) None None (w_now w) cfg (h_mgr h) of
        (m, tr, r) \<Rightarrow> (emit (ManagerEffects tr) (emit (AttemptConnect (cfg_name cfg)) (h\<lparr>h_mgr := m\<rparr>)), r))"

definition mgr_disconnect :: "world \<Rightarrow> string \<Rightarrow> helper \<Rightarrow> helper \<times> tunnel_error option" where
  "mgr_disconnect w name h =
     (case DisconnectTunnel (w_disc_fails w) (w_precleaner w) (w_restorer w) name (h_mgr h) of
        (m, tr, r) \<Rightarrow> (emit (ManagerEffects tr) (emit (AttemptDisconnect name) (h\<lparr>h_mgr := m\<rparr>)), r))"

definition default_keepalive :: "wg_config \<Rightarrow> wg_config" where
  "default_keepalive cfg = cfg\<lparr>cfg_peers := map (\<lambda>p. case p_keepalive p of
     None \<Rightarrow> p\<lparr>p_keepalive := Some 25\<rparr> | Some _ \<Rightarrow> p) (cfg_peers cfg)\<rparr>"

definition inject_binding :: "world \<Rightarrow> wg_config \<Rightarrow> wg_config" where
  "inject_binding w cfg =
     (let (idx, ifn) = loadTunnelBinding w (cfg_name cfg) in
      if idx > 0 \<and> (case w_settings w of None \<Rightarrow> False | Some s \<Rightarrow> s_pin_interface s)
      then cfg\<lparr>cfg_bind_if_index := idx, cfg_bind_if_name := ifn\<rparr> else cfg)"

definition awg_refused :: "world \<Rightarrow> wg_config \<Rightarrow> bool" where
  "awg_refused w cfg \<longleftrightarrow> cfg_protocol cfg = ProtocolAmneziaWG \<and>
     (case w_settings w of None \<Rightarrow> False | Some s \<Rightarrow> \<not> s_enable_awg s)"

definition doConnectHeld :: "world \<Rightarrow> wg_config \<Rightarrow> helper \<Rightarrow> helper \<times> connect_error option" where
  "doConnectHeld w cfg0 h =
     (if awg_refused w cfg0 then (h, Some AWGDisabled)
      else let cfg = default_keepalive (inject_binding w cfg0);
               prev = map_of (h_active h) (cfg_name cfg);
               h1 = h\<lparr>h_active := AList.update (cfg_name cfg) cfg (h_active h)\<rparr> in
        case mgr_connect w (\<lambda>_. None) cfg h1 of
          (h2, None) \<Rightarrow> (h2, None)
        | (h2, Some err) \<Rightarrow>
            (let del = AList.delete (cfg_name cfg) (h_active h2) in
             (h2\<lparr>h_active := (case prev of None \<Rightarrow> del | Some c \<Rightarrow> AList.update (cfg_name cfg) c del)\<rparr>,
              Some (ConnectFailed err))))"

definition iface_of :: "world \<Rightarrow> helper \<Rightarrow> string \<Rightarrow> string" where
  "iface_of w h name = st_iface (StatusFor (w_query w) (h_mgr h) name)"

definition applyPostConnectFirewall :: "world \<Rightarrow> wg_config \<Rightarrow> helper \<Rightarrow> helper" where
  "applyPostConnectFirewall w cfg h =
     (let name = cfg_name cfg; dns = i_dns (cfg_interface cfg); ifn = iface_of w h name in
      if \<not> tunnelClaimsDNSPath w h name then h
      else if dns = [] then h
      else if ifn = '''' then h
      else if \<not> w_fw_enable w ifn dns then h
      else h\<lparr>h_fw := Some (ifn, dns), h_dns_owner := name\<rparr>)"

definition disable_dns :: "world \<Rightarrow> helper \<Rightarrow> helper" where
  "disable_dns w h = (if w_fw_disable w then h\<lparr>h_fw := None\<rparr> else h)"

definition clearDNSPathIfOwner :: "world \<Rightarrow> string \<Rightarrow> helper \<Rightarrow> helper" where
  "clearDNSPathIfOwner w name h0 =
     (let h = clearDNSPathWaiver name h0 in
      if h_dns_owner h = name then disable_dns w (h\<lparr>h_dns_owner := ''''\<rparr>) else h)"

definition handleClearDNSPathEnforcement :: "world \<Rightarrow> helper \<Rightarrow> helper" where
  "handleClearDNSPathEnforcement w h =
     (let h1 = h\<lparr>h_dns_owner := ''''\<rparr> in if h_dns_owner h = '''' then h1 else disable_dns w h1)"

section \<open>helper.go: the shutdown timer\<close>

definition armShutdownTimer :: "helper \<Rightarrow> helper" where
  "armShutdownTimer h = h\<lparr>h_timer := (ActiveTunnel (h_mgr h) = '''')\<rparr>"

definition maybeArmShutdownAfterTeardown :: "world \<Rightarrow> helper \<Rightarrow> helper" where
  "maybeArmShutdownAfterTeardown w h = (if w_control w then h else armShutdownTimer h)"

definition cancelShutdownTimer :: "helper \<Rightarrow> helper" where
  "cancelShutdownTimer h = h\<lparr>h_timer := False\<rparr>"

text \<open>The timer's callback: whether the helper shuts down. \<open>current\<close> says that the fired timer is still the armed one.\<close>

definition timer_fires :: "bool \<Rightarrow> helper \<Rightarrow> bool" where
  "timer_fires current h \<longleftrightarrow> current \<and> ActiveTunnel (h_mgr h) = ''''"


end
