(* ===== verification/HelperOps.thy ===== *)
theory HelperOps
  imports Helper Endpoint
begin

text \<open>
  The helper's handlers: the automation engine's round (\<open>automation_rules.go\<close>, \<open>automation_eval.go\<close>),
  connect, disconnect and rename (\<open>handlers.go\<close>), the reconnect function and the firewall around it
  (\<open>helper.go\<close>), and the parked connect of \<open>dns_path.go\<close>. A handler that takes \<open>connectMu\<close> is one
  transition; what it does before taking the lock is a definition of its own.
\<close>

section \<open>The automation round\<close>

text \<open>
  \<open>automationConnect\<close> in its two parts. Before it takes \<open>connectMu\<close> it loads the configuration and asks the policy and
  the DNS path: \<open>None\<close> when it returns there. Then it waits for the lock; what it does from there on it does in the
  state and the world it finds then.
\<close>

definition automation_admit :: "world \<Rightarrow> string \<Rightarrow> helper \<Rightarrow> helper \<times> wg_config option" where
  "automation_admit w name h =
     (case (if w_store w then w_load w name else None) of
        None \<Rightarrow> (h, None)
      | Some cfg \<Rightarrow>
          (case policyBlockFor w h name of
             Some b \<Rightarrow> (emit (BroadcastPolicyBlocked b) h, None)
           | None \<Rightarrow>
               if tunnelClaimsDNSPath w h name \<and> dnsPathBlockers w h name \<noteq> [] then
                 (emit (BroadcastPolicyBlocked \<lparr>pb_tunnel = name, pb_reason = ''dns'',
                    pb_summary = ''the system's DNS resolve path is already carried by '' @
                      join '', '' (dnsPathBlockers w h name) @ '' '' @ em_dash @ '' only one connected tunnel can carry it''\<rparr>) h, None)
               else (h, Some cfg)))"

definition automation_locked :: "world \<Rightarrow> wg_config \<Rightarrow> string \<Rightarrow> string \<Rightarrow> helper \<Rightarrow> helper" where
  "automation_locked w cfg name ssid h =
     (case doConnectHeld w cfg h of
        (h1, Some e) \<Rightarrow>
          (case (case e of AWGDisabled \<Rightarrow> None | ConnectFailed te \<Rightarrow> w_conflict w te) of
             Some (addr, holder) \<Rightarrow> pauseForAddressConflict name addr holder ''down'' h1
           | None \<Rightarrow> recordAutoConnectFailure w name h1)
      | (h1, None) \<Rightarrow>
          (let h2 = clearAutoConnectBackoff name (applyPostConnectFirewall w cfg h1) in
           emit (BroadcastAutoConnect name) (h2\<lparr>h_auto_by := AList.update name ssid (h_auto_by h2)\<rparr>)))"

text \<open>\<open>waits\<close> is what the rest of the program does to the world and the helper until the lock is free.\<close>

definition automationConnect_waiting ::
    "world \<Rightarrow> (world \<times> helper \<Rightarrow> world \<times> helper) \<Rightarrow> string \<Rightarrow> string \<Rightarrow> helper \<Rightarrow> helper" where
  "automationConnect_waiting w waits name ssid h =
     (case automation_admit w name h of
        (h1, None) \<Rightarrow> h1
      | (h1, Some cfg) \<Rightarrow> (let (w2, h2) = waits (w, h1) in automation_locked w2 cfg name ssid h2))"

text \<open>The lock is free.\<close>

definition automationConnect :: "world \<Rightarrow> string \<Rightarrow> string \<Rightarrow> helper \<Rightarrow> helper" where
  "automationConnect w name ssid h = automationConnect_waiting w (\<lambda>s. s) name ssid h"

definition disconnectAutoManaged :: "world \<Rightarrow> string \<Rightarrow> helper \<Rightarrow> helper" where
  "disconnectAutoManaged w name h =
     maybeArmShutdownAfterTeardown w
       (clear_caches name (clearDNSPathIfOwner w name (fst (mgr_disconnect w name (emit (CancelRetryFor name) h)))))"

text \<open>
  One tunnel of the loop. \<open>active0\<close> is the snapshot of the active tunnels taken before the loop; the
  flags say that the round acted, and that it skipped a tunnel as SSID-blind.
\<close>

definition automation_turn ::
    "world \<Rightarrow> settings \<Rightarrow> network_context \<Rightarrow> string \<Rightarrow> string list \<Rightarrow> string \<Rightarrow> helper \<Rightarrow> helper \<times> bool \<times> bool" where
  "automation_turn w s ctx reason active0 name h =
     (if automationDisabled w name \<or> isAutoConnectPaused h name then (h, False, False)
      else
        let h1 = (if name \<in> set active0 \<or> name \<in> set (s_manual_off s) \<or> name \<in> set (s_manual_on s) \<or> reason = ''ssid-change''
                  then clearAutoConnectBackoff name h else h);
            d = EvaluateTunnelDecision w h1 name s ctx in
        if td_action d = ''connect'' then (automationConnect w name (nc_ssid ctx) h1, True, False)
        else if td_action d = ''disconnect'' then (disconnectAutoManaged w name h1, True, False)
        else if td_action d = ''unresolved'' then (h1, False, td_ssid_blind d)
        else (h1, False, False))"

fun automation_loop ::
    "world \<Rightarrow> settings \<Rightarrow> network_context \<Rightarrow> string \<Rightarrow> string list \<Rightarrow> string list \<Rightarrow> helper \<times> bool \<times> bool \<Rightarrow> helper \<times> bool \<times> bool" where
  "automation_loop w s ctx reason active0 [] r = r"
| "automation_loop w s ctx reason active0 (n # ns) (h, acted, blind) =
     (let (h', a, b) = automation_turn w s ctx reason active0 n h in
      automation_loop w s ctx reason active0 ns (h', acted \<or> a, blind \<or> b))"

abbreviation evalReasonSettle :: string where "evalReasonSettle \<equiv> ''settle-recheck''"

definition reevaluateAutomation :: "world \<Rightarrow> string \<Rightarrow> helper \<Rightarrow> helper" where
  "reevaluateAutomation w reason h =
     (case w_settings w of
        None \<Rightarrow> h
      | Some s0 \<Rightarrow>
          (let s = EnsureAutomation s0; ctx = currentNetworkContext w h in
           if PolicyTunnelNames (s_automation s) = [] then h
           else if nc_ssid ctx = '''' \<and> nc_ips ctx = [] then h
           else
             let (h', acted, blind) = automation_loop w s ctx reason (ActiveTunnels (h_mgr h))
                   (PolicyTunnelNames (s_automation s)) (h, False, False) in
             if (acted \<or> blind) \<and> reason \<noteq> evalReasonSettle then emit ScheduleSettleRecheck h' else h'))"

section \<open>automation_eval.go: the mailbox\<close>

definition requestAutomationEval :: "string \<Rightarrow> helper \<Rightarrow> helper" where
  "requestAutomationEval reason h = h\<lparr>h_eval_reason := reason, h_eval_pending := True\<rparr>"

text \<open>
  One turn of \<open>coalesceEvalLoop\<close>: \<open>done\<close> after the pop drops the request; \<open>None\<close> when the loop blocks or
  returns without evaluating.
\<close>

definition eval_loop_turn :: "world \<Rightarrow> bool \<Rightarrow> helper \<Rightarrow> helper \<times> bool" where
  "eval_loop_turn w done h =
     (if \<not> h_eval_pending h then (h, False)
      else let h1 = h\<lparr>h_eval_pending := False\<rparr> in
        if done then (h1, False) else (reevaluateAutomation w (h_eval_reason h1) h1, True))"

definition handleAutomationReevaluate :: "helper \<Rightarrow> helper" where
  "handleAutomationReevaluate h = requestAutomationEval ''settings-save'' h"

definition handleResumeAutoConnect :: "string \<Rightarrow> helper \<Rightarrow> helper \<times> bool" where
  "handleResumeAutoConnect tunnel h =
     (if tunnel = '''' then (h, False)
      else (requestAutomationEval ''conflict-resume'' (resumeAutoConnect tunnel h), True))"

text \<open>\<open>changed\<close>: whether the monitor sees a transition, whose callback posts a request of its own.\<close>

definition handleReportSSID :: "world \<Rightarrow> bool \<Rightarrow> helper \<Rightarrow> helper" where
  "handleReportSSID w changed h =
     (let h1 = h\<lparr>h_ssid_stamp := w_gw_mac w\<rparr>;
          h2 = (if changed then requestAutomationEval ''ssid-change'' h1 else h1) in
      requestAutomationEval ''ssid-report'' h2)"

definition startupRuleCheckWindow :: int where "startupRuleCheckWindow = 60 * second"

definition scheduleRuleCheck :: "world \<Rightarrow> helper \<Rightarrow> helper" where
  "scheduleRuleCheck w h = (if w_now w - h_started h > startupRuleCheckWindow then h else emit ScheduleRuleCheck h)"

section \<open>dns_path.go: the parked connect\<close>

datatype await_result = AwaitClear | AwaitOwned "string list" | AwaitCancelled | AwaitTimeout | AwaitPark "string list"

text \<open>What the handler does before the loop: it returns at once, refuses, or parks.\<close>

definition await_enter :: "world \<Rightarrow> string \<Rightarrow> helper \<Rightarrow> helper \<times> await_result" where
  "await_enter w name h =
     (if \<not> tunnelClaimsDNSPath w h name then (h, AwaitClear)
      else let bl = dnsPathBlockers w h name in
        if bl = [] then (h, AwaitClear)
        else if \<not> w_control w then (h, AwaitOwned bl)
        else (emit (BroadcastDNSPathConflict name bl) (beginDNSPathWait name h), AwaitPark bl))"

text \<open>What the select statement of the loop picks: the user's decision, a tick (with the state it sees), the deadline.\<close>

datatype await_event = EvDecision dns_decision | EvTick world helper | EvDeadline

fun await_loop :: "string \<Rightarrow> await_event list \<Rightarrow> await_result option" where
  "await_loop name [] = None"
| "await_loop name (EvDecision Proceed # evs) = Some AwaitClear"
| "await_loop name (EvDecision Abort # evs) = Some AwaitCancelled"
| "await_loop name (EvTick w h # evs) =
     (if dnsPathBlockers w h name = [] then Some AwaitClear else await_loop name evs)"
| "await_loop name (EvDeadline # evs) = Some AwaitTimeout"

section \<open>handlers.go\<close>

datatype handler_error =
    ConfigInvalid "verror list"
  | PathOwned await_result
  | HConnect connect_error
  | HTunnel tunnel_error
  | RenameRequired
  | RenameActive string
  | NoStore
  | RenameFailed

text \<open>The part of \<open>handleConnect\<close> under \<open>connectMu\<close>; the routing-conflict probe only logs.\<close>

definition connect_locked :: "world \<Rightarrow> wg_config \<Rightarrow> helper \<Rightarrow> helper \<times> handler_error option" where
  "connect_locked w cfg h =
     (if Validate cfg \<noteq> [] then (h, Some (ConfigInvalid (Validate cfg)))
      else case doConnectHeld w cfg h of
        (h1, Some e) \<Rightarrow>
          ((case (case e of AWGDisabled \<Rightarrow> None | ConnectFailed te \<Rightarrow> w_conflict w te) of
              Some (addr, holder) \<Rightarrow> pauseForAddressConflict (cfg_name cfg) addr holder ''down'' h1
            | None \<Rightarrow> h1), Some (HConnect e))
      | (h1, None) \<Rightarrow>
          (scheduleRuleCheck w (applyPostConnectFirewall w cfg (resumeAutoConnect (cfg_name cfg) h1)), None))"

text \<open>
  \<open>handleConnect\<close> when nothing else runs in between: the wait is decided at once (\<open>answer\<close> is the
  outcome of the parked loop).
\<close>

definition handleConnect :: "world \<Rightarrow> await_result \<Rightarrow> wg_config \<Rightarrow> helper \<Rightarrow> helper \<times> handler_error option" where
  "handleConnect w answer cfg h =
     (case await_enter w (cfg_name cfg) (clearDNSPathWaiver (cfg_name cfg) h) of
        (h1, AwaitClear) \<Rightarrow> connect_locked w cfg h1
      | (h1, AwaitPark bl) \<Rightarrow>
          (let h2 = endDNSPathWait (cfg_name cfg) h1 in
           if answer = AwaitClear then connect_locked w cfg h2 else (h2, Some (PathOwned answer)))
      | (h1, r) \<Rightarrow> (h1, Some (PathOwned r)))"

definition disconnect_named :: "world \<Rightarrow> string \<Rightarrow> helper \<Rightarrow> helper \<times> handler_error option" where
  "disconnect_named w name h =
     (case mgr_disconnect w name (emit (CancelRetryFor name) h) of
        (h1, Some e) \<Rightarrow> (h1, Some (HTunnel e))
      | (h1, None) \<Rightarrow>
          (maybeArmShutdownAfterTeardown w (clearDNSPathIfOwner w name (clear_caches name h1)), None))"

text \<open>The legacy path over every active tunnel: the tunnels torn down and the first error.\<close>

fun disconnect_each :: "world \<Rightarrow> string list \<Rightarrow> helper \<Rightarrow> helper \<times> string list \<times> tunnel_error option" where
  "disconnect_each w [] h = (h, [], None)"
| "disconnect_each w (n # ns) h =
     (case mgr_disconnect w n h of
        (h1, Some e) \<Rightarrow> (let (h2, down, _) = disconnect_each w ns h1 in (h2, down, Some e))
      | (h1, None) \<Rightarrow> (let (h2, down, r) = disconnect_each w ns (clear_caches n h1) in (h2, n # down, r)))"

definition disconnect_all :: "world \<Rightarrow> helper \<Rightarrow> helper \<times> handler_error option" where
  "disconnect_all w h =
     (case disconnect_each w (ActiveTunnels (h_mgr h)) (emit CancelRetryAll h) of
        (h1, down, Some e) \<Rightarrow> (h1, Some (HTunnel e))
      | (h1, down, None) \<Rightarrow>
          (maybeArmShutdownAfterTeardown w (foldl (\<lambda>h n. clearDNSPathIfOwner w n h) h1 down), None))"

definition handleDisconnect :: "world \<Rightarrow> string \<Rightarrow> helper \<Rightarrow> helper \<times> handler_error option" where
  "handleDisconnect w name h = (if name \<noteq> '''' then disconnect_named w name h else disconnect_all w h)"

text \<open>Re-keying a map entry, as the three blocks of \<open>handleRename\<close> do.\<close>

definition rekey :: "string \<Rightarrow> string \<Rightarrow> ('v \<Rightarrow> 'v) \<Rightarrow> (string \<times> 'v) list \<Rightarrow> (string \<times> 'v) list" where
  "rekey old new f m = (case map_of m old of None \<Rightarrow> m | Some v \<Rightarrow> AList.update new (f v) (AList.delete old m))"

definition handleRename :: "world \<Rightarrow> string \<Rightarrow> string \<Rightarrow> helper \<Rightarrow> helper \<times> handler_error option" where
  "handleRename w old new h =
     (if old = '''' \<or> new = '''' then (h, Some RenameRequired)
      else if old = new then (h, None)
      else if old \<in> set (ActiveTunnels (h_mgr h)) then (h, Some (RenameActive old))
      else if \<not> w_store w then (h, Some NoStore)
      else if \<not> w_rename w old new then (h, Some RenameFailed)
      else (h\<lparr>h_active := rekey old new (\<lambda>c. c\<lparr>cfg_name := new\<rparr>) (h_active h),
             h_auto_by := rekey old new (\<lambda>x. x) (h_auto_by h),
             h_latency := rekey old new (\<lambda>x. x) (h_latency h),
             h_probe := (if map_of (h_latency h) old = None then h_probe h else AList.delete old (h_probe h))\<rparr>, None))"

section \<open>helper.go: the reconnect function and the firewall around it\<close>

datatype reconnect_result = ReconnectOk | ReconnectBlocked | ReconnectNoConfig | ReconnectCancelled | ReconnectFailed tunnel_error

text \<open>
  \<open>reconnectFn\<close> for a named tunnel. \<open>cancelled\<close> is \<open>ctx.Err()\<close> before the connect, \<open>ctx\<close> the error at the phase
  boundaries; the endpoint switch is the component of \<open>Endpoint\<close>. The cached configuration is shared
  with the map, so a switched endpoint stays in it.
\<close>

definition reconnectFn ::
    "world \<Rightarrow> switch_env \<Rightarrow> bool \<Rightarrow> (nat \<Rightarrow> string option) \<Rightarrow> string \<Rightarrow> helper \<times> switch_state \<Rightarrow>
     (helper \<times> switch_state) \<times> reconnect_result" where
  "reconnectFn w env cancelled ctx name hs =
     (let (h, sw) = hs in
      case map_of (h_active h) name of
        None \<Rightarrow> (hs, ReconnectNoConfig)
      | Some cfg \<Rightarrow>
          if reconnectPolicyBlocked w h name then (hs, ReconnectBlocked)
          else if cancelled then (hs, ReconnectCancelled)
          else
            let (sw1, cfg1, _) = maybeSwitchEndpoint env name cfg sw;
                h1 = h\<lparr>h_active := AList.update name cfg1 (h_active h)\<rparr> in
            (case mgr_connect w ctx cfg1 h1 of
               (h2, None) \<Rightarrow> ((h2, sw1), ReconnectOk)
             | (h2, Some e) \<Rightarrow>
                 ((case w_conflict w e of
                     Some (addr, holder) \<Rightarrow> pauseForAddressConflict name addr holder ''down'' h2
                   | None \<Rightarrow> h2, sw1), ReconnectFailed e)))"

definition first_dns :: "(string \<times> wg_config) list \<Rightarrow> string list" where
  "first_dns m = (case List.find (\<lambda>(n, c). i_dns (cfg_interface c) \<noteq> []) m of
     None \<Rightarrow> [] | Some (_, c) \<Rightarrow> i_dns (cfg_interface c))"

definition suspendFirewall :: "world \<Rightarrow> helper \<Rightarrow> helper \<times> bool" where
  "suspendFirewall w h =
     (let on = (h_fw h \<noteq> None);
          h1 = h\<lparr>h_fw_saved := on, h_fw_saved_dns := first_dns (h_active h)\<rparr> in
      if \<not> on then (h1, True)
      else if w_fw_disable w then (h1\<lparr>h_fw := None\<rparr>, True) else (h1, False))"

definition resumeFirewall :: "world \<Rightarrow> helper \<Rightarrow> helper \<times> bool" where
  "resumeFirewall w h =
     (let h1 = h\<lparr>h_fw_saved := False, h_fw_saved_dns := []\<rparr>;
          ifn = st_iface (Status (w_query w) (h_mgr h)) in
      if \<not> h_fw_saved h then (h1, True)
      else if ifn = '''' then (h1, True)
      else if h_fw_saved_dns h = [] then (h1, True)
      else if w_fw_enable w ifn (h_fw_saved_dns h) then (h1\<lparr>h_fw := Some (ifn, h_fw_saved_dns h)\<rparr>, True)
      else (h1, False))"

end
