(* ===== verification/HelperProps.thy ===== *)
theory HelperProps
  imports HelperOps
begin

text \<open>
  What the helper's decisions guarantee: the automation engine touches a tunnel exactly when every
  gate is open, the preview shows what the engine does, the reconnect gate never undoes an engine
  disconnect; a disconnect leaves no cache behind; and who may hold the machine-wide DNS path.
\<close>

section \<open>The decision, gate by gate\<close>

lemma reconcile_simps [simp]:
  "reconcileAction st a off on = ''connect'' \<longleftrightarrow> st = StateConnect \<and> \<not> off \<and> \<not> a"
  "reconcileAction st a off on = ''disconnect'' \<longleftrightarrow> st = StateDisconnect \<and> \<not> on \<and> a"
  "reconcileAction st a off on = ''skip-manual-off'' \<longleftrightarrow> st = StateConnect \<and> off"
  "reconcileAction st a off on = ''skip-manual-on'' \<longleftrightarrow> st = StateDisconnect \<and> on"
  by (cases st; simp add: reconcileAction_def)+

definition judged :: "decision_env \<Rightarrow> bool" where
  "judged e \<longleftrightarrow> de_network_known e \<and> \<not> de_exempted e \<and> \<not> de_paused e \<and> \<not> de_ssid_blind e"

definition wanted :: "decision_env \<Rightarrow> desired_state" where
  "wanted e = EvaluatePolicy (de_rules e) (de_default e) (de_ctx e)"

lemma detail_state: "EvaluatePolicyDetail rs d ctx = (EvaluatePolicy rs d ctx, map (rule_detail_of ctx) rs)"
  by (simp add: EvaluatePolicyDetail_eq EvaluatePolicy_def Evaluate_eq)

lemma decision_fields [simp]:
  "td_name (evaluateTunnelDecision e) = de_name e"
  "td_has_policy (evaluateTunnelDecision e) = de_has_policy e"
  "td_exempted (evaluateTunnelDecision e) = de_exempted e"
  "td_paused (evaluateTunnelDecision e) = de_paused e"
  "td_ssid_blind (evaluateTunnelDecision e) = de_ssid_blind e"
  "td_network_known (evaluateTunnelDecision e) = de_network_known e"
  "td_manual_off (evaluateTunnelDecision e) = de_manual_off e"
  "td_manual_on (evaluateTunnelDecision e) = de_manual_on e"
  by (simp_all add: evaluateTunnelDecision_def decision_base_def Let_def detail_state)

lemma desired_judged: "td_desired (evaluateTunnelDecision e) = (if judged e then wanted e else StateUnmanaged)"
  by (simp add: evaluateTunnelDecision_def decision_base_def judged_def wanted_def Let_def detail_state)

lemma action_connect:
  "td_action (evaluateTunnelDecision e) = ''connect'' \<longleftrightarrow>
     judged e \<and> wanted e = StateConnect \<and> \<not> de_manual_off e \<and> \<not> de_active e \<and>
     de_policy_block e = '''' \<and> \<not> de_dns_block e \<and> \<not> de_backing_off e"
  by (simp add: evaluateTunnelDecision_def decision_base_def judged_def wanted_def Let_def detail_state)

lemma action_disconnect:
  "td_action (evaluateTunnelDecision e) = ''disconnect'' \<longleftrightarrow>
     judged e \<and> wanted e = StateDisconnect \<and> \<not> de_manual_on e \<and> de_active e"
  by (simp add: evaluateTunnelDecision_def decision_base_def judged_def wanted_def Let_def detail_state)

lemma action_unresolved:
  "td_action (evaluateTunnelDecision e) = ''unresolved'' \<longleftrightarrow>
     \<not> de_network_known e \<or> (\<not> de_exempted e \<and> \<not> de_paused e \<and> de_ssid_blind e)"
  by (auto simp: evaluateTunnelDecision_def decision_base_def judged_def wanted_def Let_def detail_state)

lemma policy_reason: "policyBlockFor w h name = Some b \<Longrightarrow> pb_reason b \<noteq> ''''"
  by (auto simp: policyBlockFor_def Let_def split: if_splits option.splits)

lemmas gather_simps = gather_env_def Let_def

lemma gather_policy: "de_policy_block (gather_env w h n s ctx) = '''' \<longleftrightarrow> policyBlockFor w h n = None"
  by (auto simp: gather_simps dest: policy_reason split: option.splits)

text \<open>The gates of one tunnel in the state the engine sees.\<close>

definition gates_open :: "world \<Rightarrow> settings \<Rightarrow> network_context \<Rightarrow> string \<Rightarrow> helper \<Rightarrow> bool" where
  "gates_open w s ctx n h \<longleftrightarrow>
     (nc_ssid ctx \<noteq> '''' \<or> nc_ips ctx \<noteq> []) \<and> \<not> automationDisabled w n \<and> \<not> isAutoConnectPaused h n \<and>
     \<not> ssidBlind (tunnel_rules s n) ctx \<and>
     EvaluatePolicy (tunnel_rules s n) (tunnel_default s n) ctx = StateConnect \<and>
     n \<notin> set (s_manual_off s) \<and> n \<notin> set (ActiveTunnels (h_mgr h)) \<and>
     policyBlockFor w h n = None \<and> \<not> (tunnelClaimsDNSPath w h n \<and> dnsPathBlockers w h n \<noteq> []) \<and>
     \<not> autoConnectBackingOff w h n"

lemma no_policy_unmanaged: "EvaluatePolicy [] '''' ctx = StateUnmanaged"
  by (simp add: EvaluatePolicy_def Evaluate_def apply_default_def)

lemma connect_iff_gates: "td_action (EvaluateTunnelDecision w h n s ctx) = ''connect'' \<longleftrightarrow> gates_open w s ctx n h"
proof -
  let ?e = "gather_env w h n s ctx"
  have pol: "wanted ?e = StateConnect \<Longrightarrow> de_has_policy ?e"
    using no_policy_unmanaged by (auto simp: wanted_def gather_simps)
  then show ?thesis
    unfolding EvaluateTunnelDecision_def action_connect gates_open_def gather_policy judged_def
    by (auto simp: wanted_def gather_simps)
qed

section \<open>What each step appends to the trace\<close>

text \<open>A step extends the trace by events satisfying \<open>P\<close> only.\<close>

definition appends :: "(hevent \<Rightarrow> bool) \<Rightarrow> helper \<Rightarrow> helper \<Rightarrow> bool" where
  "appends P h h' \<longleftrightarrow> (\<exists>es. h_trace h' = h_trace h @ es \<and> list_all P es)"

lemma appends_refl [intro, simp]: "appends P h h"
  by (simp add: appends_def)

lemma appends_trans: "appends P h h1 \<Longrightarrow> appends P h1 h2 \<Longrightarrow> appends P h h2"
  by (fastforce simp: appends_def)

lemma appends_same: "h_trace h' = h_trace h \<Longrightarrow> appends P h h'"
  by (simp add: appends_def)

lemma appends_emit: "P e \<Longrightarrow> appends P h (emit e h)"
  by (simp add: appends_def)

lemma appends_mono: "appends P h h' \<Longrightarrow> (\<And>e. P e \<Longrightarrow> Q e) \<Longrightarrow> appends Q h h'"
  by (auto simp: appends_def list_all_iff)

text \<open>The operations that only change maps.\<close>

lemma map_ops_trace [simp]:
  "h_trace (recordAutoConnectFailure w n h) = h_trace h"
  "h_trace (clearAutoConnectBackoff n h) = h_trace h"
  "h_trace (clear_caches n h) = h_trace h"
  "h_trace (clearDNSPathWaiver n h) = h_trace h"
  "h_trace (clearDNSPathIfOwner w n h) = h_trace h"
  "h_trace (applyPostConnectFirewall w cfg h) = h_trace h"
  "h_trace (maybeArmShutdownAfterTeardown w h) = h_trace h"
  by (simp_all add: recordAutoConnectFailure_def clearAutoConnectBackoff_def clear_caches_def clearDNSPathWaiver_def
    clearDNSPathIfOwner_def disable_dns_def applyPostConnectFirewall_def maybeArmShutdownAfterTeardown_def
    armShutdownTimer_def Let_def)

definition tunnel_event :: "string \<Rightarrow> hevent \<Rightarrow> bool" where
  "tunnel_event n e \<longleftrightarrow> e = AttemptConnect n \<or> e = AttemptDisconnect n \<or> e = CancelRetryFor n \<or>
     e = BroadcastAutoConnect n \<or> (\<exists>tr. e = ManagerEffects tr) \<or>
     (\<exists>p. e = BroadcastAddressConflict p \<and> cp_tunnel p = n)"

lemma pause_appends: "appends (tunnel_event n) h (pauseForAddressConflict n a b c h)"
  unfolding pauseForAddressConflict_def Let_def
  by (auto simp: appends_def tunnel_event_def)

lemma mgr_connect_appends: "appends (tunnel_event (cfg_name cfg)) h (fst (mgr_connect w ctx cfg h))"
  by (simp add: mgr_connect_def appends_def tunnel_event_def split: prod.splits)

lemma mgr_disconnect_appends: "appends (tunnel_event n) h (fst (mgr_disconnect w n h))"
  by (simp add: mgr_disconnect_def appends_def tunnel_event_def split: prod.splits)

lemma prepared_name [simp]: "cfg_name (default_keepalive (inject_binding w cfg)) = cfg_name cfg"
  by (simp add: default_keepalive_def inject_binding_def Let_def split: prod.splits)

text \<open>\<open>doConnectHeld\<close> as the refusal, or one manager connect with the cache put back on failure.\<close>

lemma doConnectHeld_cases:
  obtains (refused) "awg_refused w cfg" "doConnectHeld w cfg h = (h, Some AWGDisabled)"
  | (failed) cfg' h1 h2 err where "\<not> awg_refused w cfg" "cfg' = default_keepalive (inject_binding w cfg)"
      "h1 = h\<lparr>h_active := AList.update (cfg_name cfg) cfg' (h_active h)\<rparr>"
      "mgr_connect w (\<lambda>_. None) cfg' h1 = (h2, Some err)"
      "doConnectHeld w cfg h = (h2\<lparr>h_active := (case map_of (h_active h) (cfg_name cfg) of
          None \<Rightarrow> AList.delete (cfg_name cfg) (h_active h2)
        | Some c \<Rightarrow> AList.update (cfg_name cfg) c (AList.delete (cfg_name cfg) (h_active h2)))\<rparr>, Some (ConnectFailed err))"
  | (ok) cfg' h1 h2 where "\<not> awg_refused w cfg" "cfg' = default_keepalive (inject_binding w cfg)"
      "h1 = h\<lparr>h_active := AList.update (cfg_name cfg) cfg' (h_active h)\<rparr>"
      "mgr_connect w (\<lambda>_. None) cfg' h1 = (h2, None)" "doConnectHeld w cfg h = (h2, None)"
proof (cases "awg_refused w cfg")
  case True
  with refused show ?thesis by (simp add: doConnectHeld_def)
next
  case False
  define cfg' where "cfg' = default_keepalive (inject_binding w cfg)"
  define h1 where "h1 = h\<lparr>h_active := AList.update (cfg_name cfg) cfg' (h_active h)\<rparr>"
  have name: "cfg_name cfg' = cfg_name cfg" by (simp add: cfg'_def)
  obtain h2 r where run: "mgr_connect w (\<lambda>_. None) cfg' h1 = (h2, r)" by fastforce
  have d: "doConnectHeld w cfg h = (case mgr_connect w (\<lambda>_. None) cfg' h1 of
          (h2, None) \<Rightarrow> (h2, None)
        | (h2, Some err) \<Rightarrow> (h2\<lparr>h_active := (case map_of (h_active h) (cfg_name cfg) of
            None \<Rightarrow> AList.delete (cfg_name cfg) (h_active h2)
          | Some c \<Rightarrow> AList.update (cfg_name cfg) c (AList.delete (cfg_name cfg) (h_active h2)))\<rparr>, Some (ConnectFailed err)))"
    using False by (simp add: doConnectHeld_def Let_def cfg'_def[symmetric] h1_def name split: prod.splits option.splits)
  show ?thesis
  proof (cases r)
    case None
    with ok[OF False cfg'_def h1_def, of h2] run d show ?thesis by simp
  next
    case (Some err)
    with failed[OF False cfg'_def h1_def, of h2 err] run d show ?thesis by simp
  qed
qed

lemma doConnectHeld_appends: "appends (tunnel_event (cfg_name cfg)) h (fst (doConnectHeld w cfg h))"
proof (cases rule: doConnectHeld_cases[of w cfg h])
  case refused
  then show ?thesis by simp
next
  case (failed cfg' h1 h2 err)
  with mgr_connect_appends[of cfg' h1 w "\<lambda>_. None"] show ?thesis by (simp add: appends_def)
next
  case (ok cfg' h1 h2)
  with mgr_connect_appends[of cfg' h1 w "\<lambda>_. None"] show ?thesis by (simp add: appends_def)
qed

section \<open>The engine's round\<close>

text \<open>\<open>TunnelStore.Load\<close> sets the name of what it loads.\<close>

definition names_loaded :: "world \<Rightarrow> bool" where
  "names_loaded w \<longleftrightarrow> (\<forall>n cfg. w_load w n = Some cfg \<longrightarrow> cfg_name cfg = n)"

text \<open>With no policy block and the DNS path free, the connect is \<open>doConnectHeld\<close> and its follow-up.\<close>

lemmas automation_connect_defs = automationConnect_def automationConnect_waiting_def automation_admit_def

definition connect_outcome :: "world \<Rightarrow> string \<Rightarrow> string \<Rightarrow> wg_config \<Rightarrow> helper \<times> connect_error option \<Rightarrow> helper" where
  "connect_outcome w n ssid cfg r =
     (case r of
        (h1, Some e) \<Rightarrow>
          (case (case e of AWGDisabled \<Rightarrow> None | ConnectFailed te \<Rightarrow> w_conflict w te) of
             Some (addr, holder) \<Rightarrow> pauseForAddressConflict n addr holder ''down'' h1
           | None \<Rightarrow> recordAutoConnectFailure w n h1)
      | (h1, None) \<Rightarrow>
          (let h2 = clearAutoConnectBackoff n (applyPostConnectFirewall w cfg h1) in
           emit (BroadcastAutoConnect n) (h2\<lparr>h_auto_by := AList.update n ssid (h_auto_by h2)\<rparr>)))"

lemma automationConnect_open:
  assumes "policyBlockFor w h n = None" and "\<not> (tunnelClaimsDNSPath w h n \<and> dnsPathBlockers w h n \<noteq> [])"
  shows "automationConnect w n ssid h =
    (case (if w_store w then w_load w n else None) of
       None \<Rightarrow> h | Some cfg \<Rightarrow> connect_outcome w n ssid cfg (doConnectHeld w cfg h))"
  unfolding automation_connect_defs if_not_P[OF assms(2)] assms(1) option.case
  by (simp add: automation_locked_def connect_outcome_def split: option.split)

lemma outcome_appends: "appends (tunnel_event n) (fst r) (connect_outcome w n ssid cfg r)"
proof (cases r)
  case (Pair h1 e)
  show ?thesis
  proof (cases e)
    case None
    with Pair show ?thesis by (simp add: connect_outcome_def Let_def appends_def tunnel_event_def)
  next
    case (Some x)
    show ?thesis
    proof (cases "case x of AWGDisabled \<Rightarrow> None | ConnectFailed te \<Rightarrow> w_conflict w te")
      case None
      with Pair Some show ?thesis by (simp add: connect_outcome_def appends_def)
    next
      case c: (Some p)
      with Pair Some pause_appends show ?thesis by (cases p) (simp add: connect_outcome_def)
    qed
  qed
qed

lemma automationConnect_appends:
  assumes "names_loaded w" and "policyBlockFor w h n = None"
    and "\<not> (tunnelClaimsDNSPath w h n \<and> dnsPathBlockers w h n \<noteq> [])"
  shows "appends (tunnel_event n) h (automationConnect w n ssid h)"
proof (cases "if w_store w then w_load w n else None")
  case None
  then show ?thesis by (simp add: automationConnect_open[OF assms(2,3)])
next
  case (Some cfg)
  then have name: "cfg_name cfg = n" using assms(1) by (auto simp: names_loaded_def split: if_splits)
  from doConnectHeld_appends[of cfg h w] name outcome_appends[of n "doConnectHeld w cfg h" w ssid cfg]
  show ?thesis by (simp add: automationConnect_open[OF assms(2,3)] Some appends_trans)
qed

lemma disconnect_auto_appends: "appends (tunnel_event n) h (disconnectAutoManaged w n h)"
proof -
  have "appends (tunnel_event n) h (emit (CancelRetryFor n) h)" by (rule appends_emit) (simp add: tunnel_event_def)
  from appends_trans[OF this mgr_disconnect_appends[of n _ w]] show ?thesis
    by (simp add: disconnectAutoManaged_def appends_def)
qed

text \<open>The state a turn decides in: the back-off is forgotten when its cause is over.\<close>

definition turn_state :: "settings \<Rightarrow> string \<Rightarrow> string list \<Rightarrow> string \<Rightarrow> helper \<Rightarrow> helper" where
  "turn_state s reason active0 n h =
     (if n \<in> set active0 \<or> n \<in> set (s_manual_off s) \<or> n \<in> set (s_manual_on s) \<or> reason = ''ssid-change''
      then clearAutoConnectBackoff n h else h)"

lemma turn_state_frame [simp]: "h_trace (turn_state s r a n h) = h_trace h" "h_paused (turn_state s r a n h) = h_paused h"
  by (simp_all add: turn_state_def clearAutoConnectBackoff_def)

lemma turn_eq:
  "automation_turn w s ctx reason active0 n h =
     (if automationDisabled w n \<or> isAutoConnectPaused h n then (h, False, False)
      else let h1 = turn_state s reason active0 n h; d = EvaluateTunnelDecision w h1 n s ctx in
        if td_action d = ''connect'' then (automationConnect w n (nc_ssid ctx) h1, True, False)
        else if td_action d = ''disconnect'' then (disconnectAutoManaged w n h1, True, False)
        else (h1, False, td_action d = ''unresolved'' \<and> td_ssid_blind d))"
  by (simp add: automation_turn_def turn_state_def Let_def)

lemma turn_appends:
  assumes "names_loaded w"
  shows "appends (tunnel_event n) h (fst (automation_turn w s ctx reason active0 n h))"
proof -
  let ?h1 = "turn_state s reason active0 n h"
  have "appends (tunnel_event n) ?h1 (automationConnect w n (nc_ssid ctx) ?h1)"
    if "td_action (EvaluateTunnelDecision w ?h1 n s ctx) = ''connect''"
  proof -
    have "gates_open w s ctx n ?h1" using that unfolding connect_iff_gates .
    then show ?thesis by (intro automationConnect_appends assms) (auto simp: gates_open_def)
  qed
  moreover have "appends (tunnel_event n) ?h1 (disconnectAutoManaged w n ?h1)" by (rule disconnect_auto_appends)
  ultimately show ?thesis by (auto simp: turn_eq Let_def appends_def)
qed

text \<open>With every gate open the turn attempts the connect exactly when the configuration loads and AmneziaWG is not refused.\<close>

lemma open_turn_attempts:
  assumes names: "names_loaded w" and idle: "\<not> (automationDisabled w n \<or> isAutoConnectPaused h n)"
    and gates: "gates_open w s ctx n (turn_state s reason active0 n h)"
  shows "AttemptConnect n \<in> set (drop (length (h_trace h)) (h_trace (fst (automation_turn w s ctx reason active0 n h)))) \<longleftrightarrow>
    (\<exists>cfg. w_store w \<and> w_load w n = Some cfg \<and> \<not> awg_refused w cfg)"
proof -
  let ?h1 = "turn_state s reason active0 n h"
  let ?h' = "fst (automation_turn w s ctx reason active0 n h)"
  have eq: "?h' = automationConnect w n (nc_ssid ctx) ?h1"
    using idle gates connect_iff_gates[of w ?h1 n s ctx] by (simp add: turn_eq Let_def)
  have open_eq: "automationConnect w n (nc_ssid ctx) ?h1 = (case (if w_store w then w_load w n else None) of
     None \<Rightarrow> ?h1 | Some cfg \<Rightarrow> connect_outcome w n (nc_ssid ctx) cfg (doConnectHeld w cfg ?h1))"
    by (rule automationConnect_open) (use gates in \<open>simp_all add: gates_open_def\<close>)
  show ?thesis
  proof (cases "\<exists>cfg. w_store w \<and> w_load w n = Some cfg \<and> \<not> awg_refused w cfg")
    case False
    have "h_trace ?h' = h_trace h"
    proof (cases "if w_store w then w_load w n else None")
      case None
      then show ?thesis unfolding eq open_eq by simp
    next
      case (Some cfg)
      with False have "awg_refused w cfg" by (auto split: if_splits)
      then show ?thesis unfolding eq open_eq Some by (simp add: doConnectHeld_def connect_outcome_def)
    qed
    with False show ?thesis by simp
  next
    case True
    then obtain cfg where cfg: "w_store w" "w_load w n = Some cfg" "\<not> awg_refused w cfg" by blast
    have name: "cfg_name cfg = n" using names cfg by (simp add: names_loaded_def)
    obtain h2 r where run: "doConnectHeld w cfg ?h1 = (h2, r)" by fastforce
    have att: "\<exists>tr. h_trace h2 = h_trace ?h1 @ [AttemptConnect n, ManagerEffects tr]"
      using run name
      by (cases rule: doConnectHeld_cases[of w cfg ?h1]) (auto simp: cfg(3) mgr_connect_def split: prod.splits)
    have "appends (tunnel_event n) h2 ?h'"
      using outcome_appends[of n "(h2, r)" w "nc_ssid ctx" cfg] cfg run unfolding eq open_eq by simp
    with att True show ?thesis by (auto simp: appends_def)
  qed
qed

text \<open>C3: the automation engine attempts to connect a tunnel in its turn of a round exactly when every gate is open in the state of that turn (network identified, automation not switched off, no address-conflict pause, no undecidable SSID condition, policy wanting connect, not latched off, down, no blocking policy conflict, the DNS path free, not backing off), its configuration can be loaded, and AmneziaWG is not refused.\<close>

theorem engine_connects_iff_gates:
  assumes "names_loaded w"
  shows "AttemptConnect n \<in> set (drop (length (h_trace h)) (h_trace (fst (automation_turn w s ctx reason active0 n h)))) \<longleftrightarrow>
    gates_open w s ctx n (turn_state s reason active0 n h) \<and>
      (\<exists>cfg. w_store w \<and> w_load w n = Some cfg \<and> \<not> awg_refused w cfg)"
proof -
  let ?h1 = "turn_state s reason active0 n h"
  let ?h' = "fst (automation_turn w s ctx reason active0 n h)"
  let ?new = "drop (length (h_trace h)) (h_trace ?h')"
  consider (off) "automationDisabled w n \<or> isAutoConnectPaused h n"
    | (con) "\<not> (automationDisabled w n \<or> isAutoConnectPaused h n)" "gates_open w s ctx n ?h1"
    | (dis) "\<not> (automationDisabled w n \<or> isAutoConnectPaused h n)" "\<not> gates_open w s ctx n ?h1"
    by blast
  then show ?thesis
  proof cases
    case off
    then have "\<not> gates_open w s ctx n ?h1" by (auto simp: gates_open_def isAutoConnectPaused_def)
    with off show ?thesis by (simp add: turn_eq)
  next
    case con
    then show ?thesis using open_turn_attempts[OF assms] by simp
  next
    case dis
    then have "?h' = (if td_action (EvaluateTunnelDecision w ?h1 n s ctx) = ''disconnect'' then disconnectAutoManaged w n ?h1 else ?h1)"
      using connect_iff_gates[of w ?h1 n s ctx] by (simp add: turn_eq Let_def)
    moreover have "\<exists>tr. h_trace (disconnectAutoManaged w n ?h1) = h_trace h @ [CancelRetryFor n, AttemptDisconnect n, ManagerEffects tr]"
      by (simp add: disconnectAutoManaged_def mgr_disconnect_def split: prod.splits)
    ultimately show ?thesis using dis(2) by (auto split: if_splits)
  qed
qed

section \<open>A concrete helper\<close>

definition demo_meta :: "string \<Rightarrow> tunnel_meta option" where
  "demo_meta n = (if n = ''a'' \<or> n = ''b'' \<or> n = ''c'' then Some (meta0\<lparr>tm_resolve_path := True\<rparr>) else None)"

text \<open>A store of tunnels with one peer each, every one claiming the DNS path, on an identified network.\<close>

definition demo_tunnel :: "string \<Rightarrow> wg_config" where
  "demo_tunnel n = valid_demo\<lparr>cfg_name := n,
     cfg_interface := (cfg_interface valid_demo)\<lparr>i_dns := [''10.0.0.1'']\<rparr>,
     cfg_peers := map (\<lambda>p. p\<lparr>p_allowed_ips := [''10.7.0.0/24'']\<rparr>) (cfg_peers valid_demo)\<rparr>"

definition demo_world :: world where
  "demo_world = \<lparr>
     w_settings = Some (DefaultSettings\<lparr>s_dns_resolve_path := True,
       s_automation := Some \<lparr>a_defaults = [(''a'', ''connect'')], a_per_tunnel = []\<rparr>\<rparr>),
     w_store = True, w_list = Some [], w_load = (\<lambda>n. Some (demo_tunnel n)), w_meta = demo_meta,
     w_binding = (\<lambda>_. (0, '''')), w_ssid = '''', w_gw_mac = '''', w_gw_ip = '''', w_ips = [V4 5], w_ifaces = [],
     w_wall = \<lparr>ck_weekday = 0, ck_hour = 0, ck_minute = 0\<rparr>, w_now = 5 * second, w_control = True,
     w_conn = demo_env\<lparr>ce_fails := (\<lambda>_. None)\<rparr>, w_query = (\<lambda>eng n t. Some (simple_status Connected n [])), w_conflict = (\<lambda>_. None),
     w_fw_enable = (\<lambda>_ _. True), w_fw_disable = True, w_disc_fails = (\<lambda>_. None), w_precleaner = False,
     w_restorer = False, w_rename = (\<lambda>_ _. True)\<rparr>"

lemma demo_names_loaded: "names_loaded demo_world"
  by (simp add: names_loaded_def demo_world_def demo_tunnel_def)

abbreviation demo_s :: settings where "demo_s \<equiv> EnsureAutomation (the (w_settings demo_world))"
abbreviation demo_ctx :: network_context where "demo_ctx \<equiv> currentNetworkContext demo_world helper0"

theorem engine_connects_iff_gates_witness:
  "AttemptConnect ''a'' \<in> set (drop (length (h_trace helper0))
     (h_trace (fst (automation_turn demo_world demo_s demo_ctx ''poll'' [] ''a'' helper0))))"
proof -
  have gates: "gates_open demo_world demo_s demo_ctx ''a'' (turn_state demo_s ''poll'' [] ''a'' helper0)" by code_simp
  have "\<not> awg_refused demo_world (demo_tunnel ''a'')" by code_simp
  with gates have rhs: "gates_open demo_world demo_s demo_ctx ''a'' (turn_state demo_s ''poll'' [] ''a'' helper0) \<and>
      (\<exists>cfg. w_store demo_world \<and> w_load demo_world ''a'' = Some cfg \<and> \<not> awg_refused demo_world cfg)"
    by (simp add: demo_world_def)
  from rhs[folded engine_connects_iff_gates[OF demo_names_loaded]] show ?thesis .
qed

section \<open>Preview and reconnect gate\<close>

lemma clear_backoff_policy [simp]: "policyBlockFor w (clearAutoConnectBackoff n h) m = policyBlockFor w h m"
proof -
  have "policy_views w (clearAutoConnectBackoff n h) = policy_views w h"
    by (rule ext) (simp add: policy_views_def clearAutoConnectBackoff_def)
  then show ?thesis unfolding policyBlockFor_def by (simp only:)
qed

lemma clear_backoff_reads [simp]:
  "h_mgr (clearAutoConnectBackoff n h) = h_mgr h"
  "tunnelClaimsDNSPath w (clearAutoConnectBackoff n h) m = tunnelClaimsDNSPath w h m"
  "dnsPathBlockers w (clearAutoConnectBackoff n h) m = dnsPathBlockers w h m"
  "isAutoConnectPaused (clearAutoConnectBackoff n h) m = isAutoConnectPaused h m"
  "\<not> autoConnectBackingOff w (clearAutoConnectBackoff n h) n"
  by (simp_all add: clearAutoConnectBackoff_def tunnelClaimsDNSPath_def dnsPathClaimWaived_def dnsPathBlockers_def isAutoConnectPaused_def autoConnectBackingOff_def)

lemma gather_cleared:
  "gather_env w (clearAutoConnectBackoff n h) n s ctx = (gather_env w h n s ctx)\<lparr>de_backing_off := False\<rparr>"
  by (simp add: gather_simps)

lemma turn_decision:
  fixes w :: world and ctx :: network_context
  assumes "reason \<noteq> ''ssid-change''" and "n \<notin> set (s_manual_on s)" and "active0 = ActiveTunnels (h_mgr h)"
  defines "d \<equiv> EvaluateTunnelDecision w h n s ctx"
    and "d1 \<equiv> EvaluateTunnelDecision w (turn_state s reason active0 n h) n s ctx"
  shows "(td_action d1 = ''connect'' \<longleftrightarrow> td_action d = ''connect'') \<and>
    (td_action d1 = ''disconnect'' \<longleftrightarrow> td_action d = ''disconnect'')"
proof (cases "turn_state s reason active0 n h = h")
  case True
  then show ?thesis by (simp add: d_def d1_def)
next
  case False
  then have ts: "turn_state s reason active0 n h = clearAutoConnectBackoff n h"
    and on: "n \<in> set active0 \<or> n \<in> set (s_manual_off s)" using assms(1,2) by (auto simp: turn_state_def split: if_splits)
  let ?e = "gather_env w h n s ctx"
  have "de_active ?e \<or> de_manual_off ?e" using on assms(3) by (auto simp: gather_simps)
  then show ?thesis
    by (auto simp: d_def d1_def ts EvaluateTunnelDecision_def gather_cleared action_connect action_disconnect
      judged_def wanted_def)
qed

lemma preview_connect: "preview_decision (evaluateTunnelDecision e) = ''connect'' \<longleftrightarrow> td_action (evaluateTunnelDecision e) = ''connect''"
  using action_connect[of e] by (auto simp: preview_decision_def judged_def)

lemma preview_disconnect: "preview_decision (evaluateTunnelDecision e) = ''disconnect'' \<longleftrightarrow> td_action (evaluateTunnelDecision e) = ''disconnect''"
  using action_disconnect[of e] by (auto simp: preview_decision_def judged_def)

text \<open>C25: the read-only preview never disagrees with the engine. For every tunnel it lists (not latched on by hand), it says connect exactly when the engine's gates are open, and it says connect or disconnect exactly when the engine's turn for that tunnel, taken now on any trigger but an SSID change, would act.\<close>

theorem preview_shows_engine:
  assumes "w_settings w = Some s0" and "handleAutomationPreview w h = Some (ctx, rows)"
    and "reason \<noteq> ''ssid-change''" and "row \<in> set rows" and "pv_name row \<notin> set (s_manual_on (EnsureAutomation s0))"
  shows "(pv_decision row = ''connect'' \<longleftrightarrow> gates_open w (EnsureAutomation s0) ctx (pv_name row) h) \<and>
    (pv_decision row \<in> {''connect'', ''disconnect''} \<longleftrightarrow>
       fst (snd (automation_turn w (EnsureAutomation s0) ctx reason (ActiveTunnels (h_mgr h)) (pv_name row) h)))"
proof -
  let ?s = "EnsureAutomation s0" and ?n = "pv_name row" and ?a = "ActiveTunnels (h_mgr h)"
  let ?d = "EvaluateTunnelDecision w h ?n ?s ctx"
  have ctx: "ctx = currentNetworkContext w h" and pv: "pv_decision row = preview_decision ?d"
    using assms(1,2,4) by (auto simp: handleAutomationPreview_def Let_def)
  note same = turn_decision[OF assms(3,5) refl, where h = h and w = w and ctx = ctx]
  have con: "preview_decision ?d = ''connect'' \<longleftrightarrow> td_action ?d = ''connect''"
    and dis: "preview_decision ?d = ''disconnect'' \<longleftrightarrow> td_action ?d = ''disconnect''"
    by (simp_all add: EvaluateTunnelDecision_def preview_connect preview_disconnect)
  have off: "\<not> (td_action ?d = ''connect'' \<or> td_action ?d = ''disconnect'')"
    if "automationDisabled w ?n \<or> isAutoConnectPaused h ?n"
    using that by (auto simp: EvaluateTunnelDecision_def action_connect action_disconnect judged_def gather_simps)
  have "fst (snd (automation_turn w ?s ctx reason ?a ?n h)) \<longleftrightarrow> td_action ?d = ''connect'' \<or> td_action ?d = ''disconnect''"
    using same off by (auto simp: turn_eq Let_def)
  then show ?thesis unfolding pv using con dis connect_iff_gates[of w h ?n ?s ctx] by simp
qed

theorem preview_shows_engine_witness:
  "\<exists>row. pv_name row = ''a'' \<and> handleAutomationPreview demo_world helper0 = Some (demo_ctx, [row]) \<and>
     pv_decision row = ''connect'' \<and>
     fst (snd (automation_turn demo_world demo_s demo_ctx ''poll'' (ActiveTunnels (h_mgr helper0)) ''a'' helper0))"
proof -
  let ?row = "\<lparr>pv_name = ''a'', pv_rule_count = 0, pv_decision = ''connect'', pv_active = False,
    pv_manual_off = False, pv_manual_on = False\<rparr>"
  have pv: "handleAutomationPreview demo_world helper0 = Some (demo_ctx, [?row])" by code_simp
  have st: "w_settings demo_world = Some (the (w_settings demo_world))" by (simp add: demo_world_def)
  have on: "''a'' \<notin> set (s_manual_on demo_s)" by code_simp
  from preview_shows_engine[OF st pv, of "''poll''" ?row] on pv show ?thesis by (intro exI[of _ ?row]) simp
qed

text \<open>The reconnect gate and the engine. A tunnel the engine would tear down is never put back by the monitor; but a tunnel the engine skips because the user switched it off by hand is allowed through the gate, which does not consult the manual-off latch.\<close>

theorem reconnect_gate_vs_engine:
  fixes h :: helper
  assumes "w_settings w = Some s0" and "n \<noteq> ''''"
  defines "d \<equiv> EvaluateTunnelDecision w h n (EnsureAutomation s0) (currentNetworkContext w h)"
  shows "(td_action d = ''disconnect'' \<longrightarrow> reconnectPolicyBlocked w h n) \<and>
    (td_action d = ''skip-manual-off'' \<longrightarrow> \<not> reconnectPolicyBlocked w h n)"
proof -
  let ?e = "gather_env w h n (EnsureAutomation s0) (currentNetworkContext w h)"
  have d: "d = evaluateTunnelDecision ?e" by (simp add: d_def EvaluateTunnelDecision_def)
  have pol: "wanted ?e = StateDisconnect \<Longrightarrow> de_has_policy ?e"
    using no_policy_unmanaged by (auto simp: wanted_def gather_simps)
  have blocked: "reconnectPolicyBlocked w h n \<longleftrightarrow> \<not> DecisionConnectAllowed d"
    using assms by (simp add: reconnectPolicyBlocked_def d_def)
  have off: "td_action d = ''skip-manual-off'' \<Longrightarrow> judged ?e \<and> wanted ?e = StateConnect"
    by (auto simp: d evaluateTunnelDecision_def decision_base_def judged_def wanted_def Let_def detail_state split: if_splits)
  have "td_action d = ''disconnect'' \<Longrightarrow> \<not> DecisionConnectAllowed d"
    using pol unfolding d action_disconnect by (simp add: DecisionConnectAllowed_def desired_judged judged_def)
  moreover have "td_action d = ''skip-manual-off'' \<Longrightarrow> DecisionConnectAllowed d"
    using off unfolding d by (simp add: DecisionConnectAllowed_def desired_judged judged_def)
  ultimately show ?thesis unfolding blocked by blast
qed

definition off_world :: world where
  "off_world = demo_world\<lparr>w_settings := map_option (\<lambda>s. s\<lparr>s_manual_off := [''a'']\<rparr>) (w_settings demo_world)\<rparr>"

theorem reconnect_gate_vs_engine_witness:
  "td_action (EvaluateTunnelDecision off_world helper0 ''a'' (EnsureAutomation (the (w_settings off_world)))
     (currentNetworkContext off_world helper0)) = ''skip-manual-off'' \<and> \<not> reconnectPolicyBlocked off_world helper0 ''a''"
proof -
  have st: "w_settings off_world = Some (the (w_settings off_world))" by (simp add: off_world_def demo_world_def)
  have "td_action (EvaluateTunnelDecision off_world helper0 ''a'' (EnsureAutomation (the (w_settings off_world)))
     (currentNetworkContext off_world helper0)) = ''skip-manual-off''" by code_simp
  then show ?thesis using reconnect_gate_vs_engine[OF st, of "''a''" helper0] by simp
qed

section \<open>Disconnecting forgets\<close>

lemma mgr_disconnect_frame:
  assumes "mgr_disconnect w n h = (h', r)"
  shows "h_active h' = h_active h \<and> h_auto_by h' = h_auto_by h \<and> h_latency h' = h_latency h \<and> h_probe h' = h_probe h \<and>
    h_waived h' = h_waived h \<and> h_dns_owner h' = h_dns_owner h \<and> h_fw h' = h_fw h"
  using assms by (auto simp: mgr_disconnect_def split: prod.splits)

lemma disconnect_removes:
  assumes "DisconnectTunnel f p rs n m = (m', tr, None)"
  shows "entry_of m' n = None"
proof -
  obtain m1 q where poll: "disconnect_poll n False True m = (m1, q)" by fastforce
  have q: "\<exists>e. q = PollGo e" using assms poll
    by (auto simp: DisconnectTunnel_def disconnect_poll_def Let_def split: option.splits if_splits)
  then obtain e where e: "q = PollGo e" by blast
  have rem: "entry_of (removeEntry n x) n = None" for x by (simp add: entry_of_def removeEntry_def)
  from assms poll e rem show ?thesis
    by (auto simp: DisconnectTunnel_def Let_def split: option.splits prod.splits)
qed

lemma disconnect_keeps:
  assumes "DisconnectTunnel f p rs n m = (m', tr, r)" "k \<noteq> n"
  shows "entry_of m' k = entry_of m k"
proof -
  obtain m1 q where poll: "disconnect_poll n False True m = (m1, q)" by fastforce
  have "m_tunnels (premod_effect e x) = m_tunnels x" for e x
    by (cases e) (simp_all add: capturePreModDNS_def clearPreModDNS_def)
  then have pre: "m_tunnels (premod_after t x) = m_tunnels x" for t x
    by (induction t arbitrary: x) (simp_all add: premod_after_def)
  have m1: "entry_of m1 k = entry_of m k"
    using poll assms(2) by (auto simp: disconnect_poll_def Let_def entry_of_def set_entry_def removeEntry_def
      AList.update_conv' AList.delete_conv' split: option.splits if_splits)
  have rem: "entry_of (removeEntry n m1) k = entry_of m1 k" "entry_of (removeEntry n (premod_after t m1)) k = entry_of m1 k" for t
    using assms(2) by (simp_all add: entry_of_def removeEntry_def AList.delete_conv' pre)
  show ?thesis using assms(1) m1 rem
    by (auto simp: DisconnectTunnel_def poll Let_def split: poll.splits option.splits)
qed

text \<open>C28: a successful disconnect of a named tunnel forgets it: the manager has no entry, the caches of the helper for connected tunnels (active configurations, automation owner, latency, probe, DNS-path waiver) do not mention it, it does not own the DNS path, and an enforcement it owned is lifted unless the firewall refuses. Every other tunnel keeps its entry in the manager and in those caches; the back-off, pause and wait records, which are about connecting, stay as they are for every tunnel.\<close>

theorem disconnect_forgets:
  assumes "n \<noteq> ''''" and "handleDisconnect w n h = (h', None)"
  shows "entry_of (h_mgr h') n = None \<and> map_of (h_active h') n = None \<and> map_of (h_auto_by h') n = None \<and>
    map_of (h_latency h') n = None \<and> map_of (h_probe h') n = None \<and> \<not> dnsPathClaimWaived h' n \<and>
    h_dns_owner h' \<noteq> n \<and> (h_dns_owner h = n \<and> w_fw_disable w \<longrightarrow> h_fw h' = None) \<and>
    (\<forall>k. k \<noteq> n \<longrightarrow> map_of (h_active h') k = map_of (h_active h) k \<and> map_of (h_auto_by h') k = map_of (h_auto_by h) k \<and>
       map_of (h_latency h') k = map_of (h_latency h) k \<and> map_of (h_probe h') k = map_of (h_probe h) k \<and>
       entry_of (h_mgr h') k = entry_of (h_mgr h) k \<and> dnsPathClaimWaived h' k = dnsPathClaimWaived h k) \<and>
    h_backoff h' = h_backoff h \<and> h_paused h' = h_paused h \<and> h_waits h' = h_waits h"
proof -
  let ?h0 = "emit (CancelRetryFor n) h"
  obtain h1 where run: "mgr_disconnect w n ?h0 = (h1, None)"
    and h': "h' = maybeArmShutdownAfterTeardown w (clearDNSPathIfOwner w n (clear_caches n h1))"
    using assms by (auto simp: handleDisconnect_def disconnect_named_def split: prod.splits option.splits)
  note fr = mgr_disconnect_frame[OF run]
  have "entry_of (h_mgr h1) n = None"
    using run disconnect_removes by (auto simp: mgr_disconnect_def split: prod.splits)
  moreover have "entry_of (h_mgr h1) k = entry_of (h_mgr h) k" if "k \<noteq> n" for k
    using run disconnect_keeps[OF _ that] by (auto simp: mgr_disconnect_def split: prod.splits)
  moreover have "h_backoff h1 = h_backoff h \<and> h_paused h1 = h_paused h \<and> h_waits h1 = h_waits h"
    using run by (auto simp: mgr_disconnect_def split: prod.splits)
  ultimately show ?thesis using fr assms(1)
    by (simp add: h' maybeArmShutdownAfterTeardown_def armShutdownTimer_def clearDNSPathIfOwner_def clearDNSPathWaiver_def
      clear_caches_def disable_dns_def dnsPathClaimWaived_def Let_def amap.get_del)
qed

definition up_a :: helper where
  "up_a = fst (handleConnect demo_world AwaitCancelled (demo_tunnel ''a'') helper0)"

theorem disconnect_forgets_witness:
  "snd (handleConnect demo_world AwaitCancelled (demo_tunnel ''a'') helper0) = None \<and>
   map_of (h_active up_a) ''a'' \<noteq> None \<and>
   map_of (h_active (fst (handleDisconnect demo_world ''a'' up_a))) ''a'' = None"
proof -
  have up: "snd (handleConnect demo_world AwaitCancelled (demo_tunnel ''a'') helper0) = None" by code_simp
  have act: "map_of (h_active up_a) ''a'' \<noteq> None" by code_simp
  have "snd (handleDisconnect demo_world ''a'' up_a) = None" by code_simp
  then have "handleDisconnect demo_world ''a'' up_a = (fst (handleDisconnect demo_world ''a'' up_a), None)"
    by (metis prod.collapse)
  from disconnect_forgets[OF _ this] up act show ?thesis by simp
qed

end
