(* ===== verification/ReconnectMonitor.thy ===== *)
theory ReconnectMonitor
  imports TunnelManager
begin

text \<open>
  The reconnect monitor (\<open>internal/reconnect/monitor.go\<close>): the retry session of one goroutine, which
  tunnels the health loop and the session-resume heal pick, and the table of retry slots that the
  triggers and cancellations share. The \<open>TunnelManager\<close> interface and the callbacks are the record
  \<open>tunnel_ops\<close> over an arbitrary world; the laws a client relies on are the locale \<open>retry_ops\<close>.
\<close>

section \<open>Configuration, state, interface\<close>

record monitor_config =
  mc_handshake_timeout :: int
  mc_initial :: int
  mc_max :: int
  mc_attempts :: int

definition DefaultConfig :: monitor_config where
  "DefaultConfig = \<lparr>mc_handshake_timeout = 120 * second, mc_initial = 5 * second, mc_max = 60 * second, mc_attempts = 0\<rparr>"

text \<open>\<open>State\<close>; \<open>rs_next\<close> is the duration whose \<open>String()\<close> the code sends, 0 for none.\<close>

record retry_state =
  rs_reconnecting :: bool
  rs_attempt :: int
  rs_max_attempts :: int
  rs_next :: int

datatype fn_result = FnOk | FnBlocked | FnFailed

record 's tunnel_ops =
  t_connected :: "'s \<Rightarrow> bool"
  t_active :: "'s \<Rightarrow> string"
  t_statuses :: "'s \<Rightarrow> 's \<times> conn_status list"
  t_disconnect :: "string \<Rightarrow> 's \<Rightarrow> 's \<times> tunnel_error option"
  t_disconnect_all :: "'s \<Rightarrow> 's"
  t_reconnect :: "string \<Rightarrow> 's \<Rightarrow> 's \<times> fn_result"
  t_suspend :: "('s \<Rightarrow> 's \<times> bool) option"
  t_resume :: "('s \<Rightarrow> 's \<times> bool) option"

definition tunnelIsUp :: "'s tunnel_ops \<Rightarrow> string \<Rightarrow> 's \<Rightarrow> 's \<times> bool" where
  "tunnelIsUp ops name s =
     (if name = '''' then (s, t_connected ops s)
      else let (s', sts) = t_statuses ops s in
        (s', list_ex (\<lambda>st. st_tunnel st = name \<and> st_state st = Connected) sts))"

section \<open>One attempt of a retry session\<close>

datatype call = Suspended bool | Resumed bool | TornDown | Reconnected fn_result

text \<open>The goroutine's locals, the world, what it told the status callback and the calls it made.\<close>

record 's session =
  se_world :: 's
  se_attempt :: int
  se_delay :: int
  se_torn :: bool
  se_notes :: "retry_state list"
  se_calls :: "call list"

datatype exit_reason = ExitStopped | ExitMaxAttempts | ExitCancelled | ExitAlreadyUp | ExitBlocked | ExitReconnected

datatype wait_result = WaitCancelled | WaitStopped | WaitFired

text \<open>
  What an iteration meets: whether the monitor still runs, how the backoff select ends, what the rest of
  the program does to the world during it, and \<open>ctx.Err()\<close> after the wait and before the reconnect.
\<close>

record 's attempt_env =
  ae_running :: bool
  ae_wait :: wait_result
  ae_move :: "'s \<Rightarrow> 's"
  ae_ctx_after_wait :: bool
  ae_ctx_before_fn :: bool

definition note_state :: "retry_state \<Rightarrow> 's session \<Rightarrow> 's session" where
  "note_state st se = se\<lparr>se_notes := se_notes se @ [st]\<rparr>"

definition idle_state :: retry_state where
  "idle_state = \<lparr>rs_reconnecting = False, rs_attempt = 0, rs_max_attempts = 0, rs_next = 0\<rparr>"

definition log_call :: "call \<Rightarrow> 's \<Rightarrow> 's session \<Rightarrow> 's session" where
  "log_call c s se = se\<lparr>se_world := s, se_calls := se_calls se @ [c]\<rparr>"

text \<open>The result tells \<open>firewallWasSuspended\<close>.\<close>

definition suspend_fw :: "'s tunnel_ops \<Rightarrow> 's session \<Rightarrow> 's session \<times> bool" where
  "suspend_fw ops se =
     (case t_suspend ops of
        None \<Rightarrow> (se, False)
      | Some f \<Rightarrow> (case f (se_world se) of (s, ok) \<Rightarrow> (log_call (Suspended ok) s se, ok)))"

definition resume_fw :: "'s tunnel_ops \<Rightarrow> bool \<Rightarrow> 's session \<Rightarrow> 's session" where
  "resume_fw ops suspended se =
     (case t_resume ops of
        None \<Rightarrow> se
      | Some f \<Rightarrow> if suspended then (case f (se_world se) of (s, ok) \<Rightarrow> log_call (Resumed ok) s se) else se)"

definition back_off :: "monitor_config \<Rightarrow> 's session \<Rightarrow> 's session" where
  "back_off cfg se = (let d = se_delay se * 2 in se\<lparr>se_delay := (if d > mc_max cfg then mc_max cfg else d)\<rparr>)"

text \<open>The teardown before the reconnect: \<open>False\<close> when it failed for another reason than not being connected.\<close>

definition teardown :: "'s tunnel_ops \<Rightarrow> string \<Rightarrow> 's session \<Rightarrow> 's session \<times> bool" where
  "teardown ops name se =
     (if name = '''' then ((log_call TornDown (t_disconnect_all ops (se_world se)) se)\<lparr>se_torn := True\<rparr>, True)
      else case t_disconnect ops name (se_world se) of
        (s, None) \<Rightarrow> ((log_call TornDown s se)\<lparr>se_torn := True\<rparr>, True)
      | (s, Some e) \<Rightarrow>
          if te_kind e = ErrNotConnected then ((log_call TornDown s se)\<lparr>se_torn := True\<rparr>, True)
          else (log_call TornDown s se, False))"

text \<open>\<open>None\<close> is \<open>continue\<close>.\<close>

definition reconnect_part ::
    "'s tunnel_ops \<Rightarrow> monitor_config \<Rightarrow> string \<Rightarrow> bool \<Rightarrow> 's session \<Rightarrow> 's session \<times> exit_reason option" where
  "reconnect_part ops cfg name suspended se =
     (case t_reconnect ops name (se_world se) of
        (s, r) \<Rightarrow>
          (let se1 = log_call (Reconnected r) s se in
           case r of
             FnBlocked \<Rightarrow> (note_state idle_state se1, Some ExitBlocked)
           | FnFailed \<Rightarrow> (back_off cfg (resume_fw ops suspended se1), None)
           | FnOk \<Rightarrow> (note_state idle_state (resume_fw ops suspended se1), Some ExitReconnected)))"

definition woken_part ::
    "'s tunnel_ops \<Rightarrow> monitor_config \<Rightarrow> string \<Rightarrow> bool \<Rightarrow> 's session \<Rightarrow> 's session \<times> exit_reason option" where
  "woken_part ops cfg name ctx_before_fn se0 =
     (let (se, suspended) = suspend_fw ops se0;
          (s, up) = (if se_torn se then tunnelIsUp ops name (se_world se) else (se_world se, False));
          se1 = se\<lparr>se_world := s\<rparr> in
      if up then (note_state idle_state se1, Some ExitAlreadyUp)
      else
        let (se2, down) = teardown ops name se1 in
        if \<not> down then (back_off cfg (resume_fw ops suspended se2), None)
        else if ctx_before_fn then (resume_fw ops suspended se2, Some ExitCancelled)
        else reconnect_part ops cfg name suspended se2)"

definition one_attempt ::
    "'s tunnel_ops \<Rightarrow> monitor_config \<Rightarrow> string \<Rightarrow> 's attempt_env \<Rightarrow> 's session \<Rightarrow> 's session \<times> exit_reason option" where
  "one_attempt ops cfg name env se0 =
     (if \<not> ae_running env then (se0, Some ExitStopped)
      else
        let se = se0\<lparr>se_attempt := se_attempt se0 + 1\<rparr>; k = se_attempt se in
        if mc_attempts cfg > 0 \<and> k > mc_attempts cfg then
          (note_state \<lparr>rs_reconnecting = False, rs_attempt = k - 1, rs_max_attempts = mc_attempts cfg, rs_next = 0\<rparr> se,
           Some ExitMaxAttempts)
        else
          let se1 = (note_state \<lparr>rs_reconnecting = True, rs_attempt = k, rs_max_attempts = mc_attempts cfg,
                rs_next = se_delay se\<rparr> se)\<lparr>se_world := ae_move env (se_world se)\<rparr> in
          if ae_wait env = WaitCancelled then (se1, Some ExitCancelled)
          else if ae_wait env = WaitStopped then (se1, Some ExitStopped)
          else if ae_ctx_after_wait env then (se1, Some ExitCancelled)
          else woken_part ops cfg name (ae_ctx_before_fn env) se1)"

text \<open>
  \<open>reconnectWithBackoff\<close> over the iterations it meets; \<open>None\<close> says that it still loops when the given
  environments are used up.
\<close>

fun retry_loop ::
    "'s tunnel_ops \<Rightarrow> monitor_config \<Rightarrow> string \<Rightarrow> 's attempt_env list \<Rightarrow> 's session \<Rightarrow> 's session \<times> exit_reason option" where
  "retry_loop ops cfg name [] se = (se, None)"
| "retry_loop ops cfg name (env # envs) se =
     (case one_attempt ops cfg name env se of
        (se', None) \<Rightarrow> retry_loop ops cfg name envs se'
      | (se', Some r) \<Rightarrow> (se', Some r))"

definition session0 :: "monitor_config \<Rightarrow> 's \<Rightarrow> 's session" where
  "session0 cfg s = \<lparr>se_world = s, se_attempt = 0, se_delay = mc_initial cfg, se_torn = False, se_notes = [], se_calls = []\<rparr>"

definition reconnectWithBackoff ::
    "'s tunnel_ops \<Rightarrow> monitor_config \<Rightarrow> string \<Rightarrow> 's attempt_env list \<Rightarrow> 's \<Rightarrow> 's session \<times> exit_reason option" where
  "reconnectWithBackoff ops cfg name envs s = retry_loop ops cfg name envs (session0 cfg s)"

section \<open>Which tunnels the loops pick\<close>

abbreviation actionStaleThreshold :: int where "actionStaleThreshold \<equiv> 180 * second"

definition handshake_stale_for_action :: "int \<Rightarrow> conn_status \<Rightarrow> bool" where
  "handshake_stale_for_action now st =
     (if st_handshake_time st = 0 then st_connected_at st \<noteq> 0 \<and> now - st_connected_at st > actionStaleThreshold
      else now - st_handshake_time st > actionStaleThreshold)"

text \<open>A tick of \<open>monitorLoop\<close> and a session resume: the tunnels for which \<open>triggerReconnectTunnel\<close> is called.\<close>

definition health_tick :: "'s tunnel_ops \<Rightarrow> bool \<Rightarrow> (string \<Rightarrow> bool) option \<Rightarrow> int \<Rightarrow> 's \<Rightarrow> 's \<times> string list" where
  "health_tick ops enabled disabled now s =
     (if \<not> enabled \<or> \<not> t_connected ops s then (s, [])
      else let (s', sts) = t_statuses ops s in
        (s', map st_tunnel (filter (\<lambda>st. st_state st = Connected \<and>
            (case disabled of None \<Rightarrow> True | Some d \<Rightarrow> \<not> d (st_tunnel st)) \<and> handshake_stale_for_action now st) sts)))"

definition healIfNeeded :: "'s tunnel_ops \<Rightarrow> bool \<Rightarrow> (string \<Rightarrow> bool) option \<Rightarrow> 's \<Rightarrow> 's \<times> string list" where
  "healIfNeeded ops enabled disabled s =
     (if \<not> enabled then (s, [])
      else let (s', sts) = t_statuses ops s in
        (s', map st_tunnel (filter (\<lambda>st. (st_state st \<noteq> Connected \<or> st_stale st) \<and>
            (case disabled of None \<Rightarrow> True | Some d \<Rightarrow> \<not> d (st_tunnel st))) sts)))"

text \<open>Wake and network change in \<open>triggerLoop\<close>.\<close>

definition wake_triggers :: "'s tunnel_ops \<Rightarrow> 's \<Rightarrow> string list" where
  "wake_triggers ops s = (if t_connected ops s \<or> t_active ops s \<noteq> '''' then [''''] else [])"


section \<open>The retry slots\<close>

text \<open>
  A \<open>retryState\<close> with the goroutine that owns it: its key, whether its context is cancelled, whether the
  goroutine was spawned, whether it has returned.
\<close>

record retry_entry =
  r_key :: string
  r_cancelled :: bool
  r_spawned :: bool
  r_done :: bool

text \<open>
  \<open>mo_slots\<close> is \<open>retries\<close>; an entry is named by its position in \<open>mo_entries\<close>. \<open>mo_pending\<close> holds the
  triggers between their locked section and the spawn: the new entry and the old ones still to cancel.
\<close>

record monitor =
  mo_running :: bool
  mo_slots :: "(string \<times> nat) list"
  mo_entries :: "retry_entry list"
  mo_pending :: "(nat \<times> nat list) list"

definition monitor_started :: monitor where
  "monitor_started = \<lparr>mo_running = True, mo_slots = [], mo_entries = [], mo_pending = []\<rparr>"

definition cancel_entry :: "nat \<Rightarrow> monitor \<Rightarrow> monitor" where
  "cancel_entry i m = m\<lparr>mo_entries := (mo_entries m)[i := (mo_entries m ! i)\<lparr>r_cancelled := True\<rparr>]\<rparr>"

text \<open>The locked section of \<open>triggerReconnectTunnel\<close>, after its gate.\<close>

definition claim_slot :: "string \<Rightarrow> monitor \<Rightarrow> monitor" where
  "claim_slot name m =
     (let olds = (if name = '''' then map snd (mo_slots m)
                  else case map_of (mo_slots m) name of None \<Rightarrow> [] | Some i \<Rightarrow> [i]);
          slots = (if name = '''' then [] else AList.delete name (mo_slots m)) in
      m\<lparr>mo_slots := AList.update name (length (mo_entries m)) slots,
        mo_entries := mo_entries m @ [\<lparr>r_key = name, r_cancelled = False, r_spawned = False, r_done = False\<rparr>],
        mo_pending := mo_pending m @ [(length (mo_entries m), olds)]\<rparr>)"

definition CancelRetry :: "monitor \<Rightarrow> monitor" where
  "CancelRetry m = (foldr cancel_entry (map snd (mo_slots m)) m)\<lparr>mo_slots := []\<rparr>"

definition CancelRetryFor_slot :: "string \<Rightarrow> monitor \<Rightarrow> monitor" where
  "CancelRetryFor_slot name m =
     (case map_of (mo_slots m) name of
        None \<Rightarrow> m
      | Some i \<Rightarrow> (cancel_entry i m)\<lparr>mo_slots := AList.delete name (mo_slots m)\<rparr>)"

definition monitor_Stop :: "monitor \<Rightarrow> monitor" where
  "monitor_Stop m = (if mo_running m then (foldr cancel_entry (map snd (mo_slots m)) m)\<lparr>mo_running := False\<rparr> else m)"

text \<open>The exits that remove the slot, when it is still this entry's.\<close>

definition clears_slot :: "exit_reason \<Rightarrow> bool" where
  "clears_slot r \<longleftrightarrow> r \<in> {ExitMaxAttempts, ExitAlreadyUp, ExitBlocked, ExitReconnected}"

definition release_slot :: "nat \<Rightarrow> exit_reason \<Rightarrow> monitor \<Rightarrow> monitor" where
  "release_slot i r m =
     (let k = r_key (mo_entries m ! i);
          m1 = (if clears_slot r \<and> map_of (mo_slots m) k = Some i then m\<lparr>mo_slots := AList.delete k (mo_slots m)\<rparr> else m) in
      m1\<lparr>mo_entries := (mo_entries m1)[i := (mo_entries m1 ! i)\<lparr>r_done := True\<rparr>]\<rparr>)"

text \<open>
  The events: a trigger passes its gate; a trigger thread cancels its next old entry, gives up because the
  monitor stopped, or spawns the goroutine; a goroutine returns; the three cancellations. The bounded wait
  for an old goroutine lies between two events of its trigger.
\<close>

datatype mon_event =
    EvTrigger string
  | EvCancelOld nat
  | EvAbandon nat
  | EvSpawn nat
  | EvReturn nat exit_reason
  | EvCancelRetry
  | EvCancelRetryFor string
  | EvStop

fun mon_step :: "mon_event \<Rightarrow> monitor \<Rightarrow> monitor option" where
  "mon_step (EvTrigger n) m = Some (claim_slot n m)"
| "mon_step (EvCancelOld p) m =
     (if p < length (mo_pending m) then
        (case mo_pending m ! p of
           (i, []) \<Rightarrow> None
         | (i, old # olds) \<Rightarrow> Some (cancel_entry old (m\<lparr>mo_pending := (mo_pending m)[p := (i, olds)]\<rparr>)))
      else None)"
| "mon_step (EvAbandon p) m =
     (if p < length (mo_pending m) \<and> \<not> mo_running m
      then Some (m\<lparr>mo_pending := take p (mo_pending m) @ drop (Suc p) (mo_pending m)\<rparr>) else None)"
| "mon_step (EvSpawn p) m =
     (if p < length (mo_pending m) then
        (case mo_pending m ! p of
           (i, []) \<Rightarrow> Some (m\<lparr>mo_pending := take p (mo_pending m) @ drop (Suc p) (mo_pending m),
               mo_entries := (mo_entries m)[i := (mo_entries m ! i)\<lparr>r_spawned := True\<rparr>]\<rparr>)
         | _ \<Rightarrow> None)
      else None)"
| "mon_step (EvReturn i r) m =
     (if i < length (mo_entries m) \<and> r_spawned (mo_entries m ! i) \<and> \<not> r_done (mo_entries m ! i) \<and>
         (r = ExitStopped \<longrightarrow> \<not> mo_running m) \<and> (r = ExitCancelled \<longrightarrow> r_cancelled (mo_entries m ! i))
      then Some (release_slot i r m) else None)"
| "mon_step EvCancelRetry m = Some (CancelRetry m)"
| "mon_step (EvCancelRetryFor n) m = Some (CancelRetryFor_slot n m)"
| "mon_step EvStop m = Some (monitor_Stop m)"

inductive mon_reachable :: "monitor \<Rightarrow> bool" where
  mon_start: "mon_reachable monitor_started"
| mon_next: "mon_reachable m \<Longrightarrow> mon_step e m = Some m' \<Longrightarrow> mon_reachable m'"

definition aggregate_state :: "monitor_config \<Rightarrow> int list \<Rightarrow> retry_state" where
  "aggregate_state cfg attempts = \<lparr>rs_reconnecting = list_ex (\<lambda>a. a > 0) attempts,
     rs_attempt = foldl max 0 attempts, rs_max_attempts = mc_attempts cfg, rs_next = 0\<rparr>"

end
