(* ===== verification/MonitorProps.thy ===== *)
theory MonitorProps
  imports ReconnectMonitor
begin

text \<open>
  What the reconnect monitor guarantees: a bounded session ends, its delays double up to the cap, every
  suspension of the firewall is undone except at two exits, and one retry per tunnel is current.
\<close>

section \<open>One attempt\<close>

lemmas session_parts = note_state_def log_call_def suspend_fw_def resume_fw_def back_off_def teardown_def
  reconnect_part_def woken_part_def

lemma part_frames [simp]:
  "se_attempt (note_state st se) = se_attempt se" "se_delay (note_state st se) = se_delay se"
  "se_attempt (log_call c s se) = se_attempt se" "se_delay (log_call c s se) = se_delay se"
  "se_notes (log_call c s se) = se_notes se" "se_attempt (back_off cfg se) = se_attempt se"
  "se_notes (back_off cfg se) = se_notes se" "se_calls (back_off cfg se) = se_calls se"
  "se_calls (note_state st se) = se_calls se" "se_notes (note_state st se) = se_notes se @ [st]"
  "se_calls (log_call c s se) = se_calls se @ [c]" "se_torn (log_call c s se) = se_torn se"
  "se_world (log_call c s se) = s" "se_world (note_state st se) = se_world se"
  "se_world (back_off cfg se) = se_world se" "se_torn (note_state st se) = se_torn se"
  by (simp_all add: note_state_def log_call_def back_off_def Let_def)

lemma resume_frames [simp]:
  "se_attempt (resume_fw ops b se) = se_attempt se" "se_delay (resume_fw ops b se) = se_delay se"
  "se_notes (resume_fw ops b se) = se_notes se" "se_torn (resume_fw ops b se) = se_torn se"
  by (simp_all add: resume_fw_def split: option.splits prod.splits)

lemma suspend_frames:
  assumes "suspend_fw ops se = (se', b)"
  shows "se_attempt se' = se_attempt se" "se_delay se' = se_delay se" "se_notes se' = se_notes se" "se_torn se' = se_torn se"
  using assms by (auto simp: suspend_fw_def split: option.splits prod.splits)

lemma teardown_frames:
  assumes "teardown ops name se = (se', b)"
  shows "se_attempt se' = se_attempt se" "se_delay se' = se_delay se" "se_notes se' = se_notes se"
    "se_calls se' = se_calls se @ [TornDown]" "b \<Longrightarrow> se_torn se'"
  using assms by (auto simp: teardown_def split: option.splits prod.splits if_splits)

text \<open>How the part after the wait ends, with the sessions in between.\<close>

lemma woken_cases:
  assumes "woken_part ops cfg name c se0 = (se', r)"
  obtains (up) se b s where "suspend_fw ops se0 = (se, b)" "se_torn se" "tunnelIsUp ops name (se_world se) = (s, True)"
      "se' = note_state idle_state (se\<lparr>se_world := s\<rparr>)" "r = Some ExitAlreadyUp"
    | (stuck) se b s se2 where "suspend_fw ops se0 = (se, b)" "teardown ops name (se\<lparr>se_world := s\<rparr>) = (se2, False)"
      "se' = back_off cfg (resume_fw ops b se2)" "r = None"
    | (cancelled) se b s se2 where "suspend_fw ops se0 = (se, b)" "teardown ops name (se\<lparr>se_world := s\<rparr>) = (se2, True)"
      "se' = resume_fw ops b se2" "r = Some ExitCancelled" "c"
    | (blocked) se b s se2 s3 where "suspend_fw ops se0 = (se, b)" "teardown ops name (se\<lparr>se_world := s\<rparr>) = (se2, True)"
      "t_reconnect ops name (se_world se2) = (s3, FnBlocked)"
      "se' = note_state idle_state (log_call (Reconnected FnBlocked) s3 se2)" "r = Some ExitBlocked"
    | (failed) se b s se2 s3 where "suspend_fw ops se0 = (se, b)" "teardown ops name (se\<lparr>se_world := s\<rparr>) = (se2, True)"
      "t_reconnect ops name (se_world se2) = (s3, FnFailed)"
      "se' = back_off cfg (resume_fw ops b (log_call (Reconnected FnFailed) s3 se2))" "r = None"
    | (ok) se b s se2 s3 where "suspend_fw ops se0 = (se, b)" "teardown ops name (se\<lparr>se_world := s\<rparr>) = (se2, True)"
      "t_reconnect ops name (se_world se2) = (s3, FnOk)"
      "se' = note_state idle_state (resume_fw ops b (log_call (Reconnected FnOk) s3 se2))" "r = Some ExitReconnected"
proof -
  obtain se b where su: "suspend_fw ops se0 = (se, b)" by fastforce
  obtain s u where up: "(if se_torn se then tunnelIsUp ops name (se_world se) else (se_world se, False)) = (s, u)" by fastforce
  obtain se2 d where td: "teardown ops name (se\<lparr>se_world := s\<rparr>) = (se2, d)" by fastforce
  obtain s3 f where fn: "t_reconnect ops name (se_world se2) = (s3, f)" by fastforce
  note eq = assms[unfolded woken_part_def Let_def su prod.case up td]
  show ?thesis
  proof (cases u)
    case True
    with up have "se_torn se" "tunnelIsUp ops name (se_world se) = (s, True)" by (auto split: if_splits)
    with True eq su that(1) show ?thesis by auto
  next
    case u: False
    show ?thesis
    proof (cases d)
      case False
      with u eq su td that(2) show ?thesis by auto
    next
      case d: True
      show ?thesis
        using u d eq su td fn that(3-6)
        by (cases f) (auto simp: reconnect_part_def Let_def split: if_splits)
    qed
  qed
qed

lemma woken_attempt: "woken_part ops cfg name c se0 = (se', r) \<Longrightarrow> se_attempt se' = se_attempt se0"
  by (erule woken_cases) (auto simp: teardown_frames suspend_frames)

text \<open>An attempt that does not end the session counts one, within the limit.\<close>

lemma attempt_again:
  assumes "one_attempt ops cfg name env se = (se', None)"
  shows "se_attempt se' = se_attempt se + 1 \<and> (0 < mc_attempts cfg \<longrightarrow> se_attempt se' \<le> mc_attempts cfg)"
  using assms by (auto simp: one_attempt_def Let_def split: if_splits dest!: woken_attempt)

text \<open>An attempt ends before it touches a tunnel, or is the part after the wait.\<close>

lemma attempt_cases:
  assumes "one_attempt ops cfg name env se = (se', r)"
  obtains (idle) "r \<in> {Some ExitStopped, Some ExitMaxAttempts, Some ExitCancelled}"
      "se_world se' \<in> {se_world se, ae_move env (se_world se)}"
    | (woken) se1 c where "woken_part ops cfg name c se1 = (se', r)" "se_world se1 = ae_move env (se_world se)"
proof (cases "ae_running env \<and> \<not> (mc_attempts cfg > 0 \<and> se_attempt se + 1 > mc_attempts cfg) \<and>
    ae_wait env = WaitFired \<and> \<not> ae_ctx_after_wait env")
  case True
  let ?st = "\<lparr>rs_reconnecting = True, rs_attempt = se_attempt se + 1, rs_max_attempts = mc_attempts cfg, rs_next = se_delay se\<rparr>"
  have "woken_part ops cfg name (ae_ctx_before_fn env)
      ((note_state ?st (se\<lparr>se_attempt := se_attempt se + 1\<rparr>))\<lparr>se_world := ae_move env (se_world se)\<rparr>) = (se', r)"
    using assms True by (auto simp: one_attempt_def Let_def)
  from that(2)[OF this] show ?thesis by simp
next
  case False
  with assms that(1) show ?thesis
    by (cases "ae_wait env") (auto simp: one_attempt_def Let_def split: if_splits)
qed

section \<open>Sessions end\<close>

lemma loop_ends:
  assumes "0 < mc_attempts cfg" and "mc_attempts cfg < se_attempt se + int (length envs)" and "se_attempt se \<le> mc_attempts cfg"
  shows "snd (retry_loop ops cfg name envs se) \<noteq> None"
  using assms(2,3)
proof (induction envs arbitrary: se)
  case (Cons env envs)
  obtain se' r where one: "one_attempt ops cfg name env se = (se', r)" by fastforce
  show ?case
  proof (cases r)
    case None
    note again = attempt_again[OF one[unfolded None]]
    from again assms(1) Cons.prems have "mc_attempts cfg < se_attempt se' + int (length envs)" "se_attempt se' \<le> mc_attempts cfg"
      by simp_all
    from Cons.IH[OF this] show ?thesis by (simp add: one None)
  qed (simp add: one)
qed simp

text \<open>C39: with a limit on the attempts every retry session ends: whatever the tunnels, the network and the user do, at most one iteration beyond the limit is entered, and the session never starts an attempt beyond it.\<close>

theorem limited_session_ends:
  assumes "0 < mc_attempts cfg" and "nat (mc_attempts cfg) < length envs"
  shows "\<exists>r. snd (reconnectWithBackoff ops cfg name envs s) = Some r"
proof -
  have "snd (retry_loop ops cfg name envs (session0 cfg s)) \<noteq> None"
    by (rule loop_ends) (use assms in \<open>auto simp: session0_def\<close>)
  then show ?thesis by (auto simp: reconnectWithBackoff_def)
qed

text \<open>A concrete world for the examples: whether the tunnel is up, and whether the next reconnect works.\<close>

definition toy_status :: conn_status where
  "toy_status = simple_status Connected ''a'' []"

definition flaky_ops :: "fn_result \<Rightarrow> bool tunnel_ops" where
  "flaky_ops r = \<lparr>t_connected = (\<lambda>up. up), t_active = (\<lambda>up. if up then ''a'' else ''''),
     t_statuses = (\<lambda>up. (up, if up then [toy_status] else [])), t_disconnect = (\<lambda>n up. (False, None)),
     t_disconnect_all = (\<lambda>up. False), t_reconnect = (\<lambda>n up. (r = FnOk, r)),
     t_suspend = Some (\<lambda>up. (up, True)), t_resume = Some (\<lambda>up. (up, True))\<rparr>"

definition calm :: "bool attempt_env" where
  "calm = \<lparr>ae_running = True, ae_wait = WaitFired, ae_move = (\<lambda>s. s), ae_ctx_after_wait = False, ae_ctx_before_fn = False\<rparr>"

definition three_attempts :: monitor_config where
  "three_attempts = DefaultConfig\<lparr>mc_attempts := 3\<rparr>"

theorem limited_session_ends_witness:
  "\<exists>r. snd (reconnectWithBackoff (flaky_ops FnFailed) three_attempts ''a'' (replicate 4 calm) True) = Some r"
  by (rule limited_session_ends) (simp_all add: three_attempts_def)

section \<open>The delays\<close>

definition delay_ok :: "monitor_config \<Rightarrow> 's session \<Rightarrow> bool" where
  "delay_ok cfg se \<longleftrightarrow> 0 \<le> se_attempt se \<and> se_delay se = min (mc_max cfg) (mc_initial cfg * 2 ^ nat (se_attempt se)) \<and>
     (\<forall>rs \<in> set (se_notes se). rs_reconnecting rs \<longrightarrow> 1 \<le> rs_attempt rs \<and>
        rs_next rs = min (mc_max cfg) (mc_initial cfg * 2 ^ nat (rs_attempt rs - 1)))"

lemma double_min:
  fixes d mx :: int
  assumes "0 \<le> x" "0 \<le> mx"
  shows "(if min mx x * 2 > mx then mx else min mx x * 2) = min mx (x * 2)"
  using assms by auto

lemma woken_delay:
  assumes "woken_part ops cfg name c se0 = (se', r)"
  shows "(se_delay se' = se_delay se0 \<and> r \<noteq> None \<or> se_delay se' = se_delay (back_off cfg se0) \<and> r = None) \<and>
    (se_notes se' = se_notes se0 \<or> se_notes se' = se_notes se0 @ [idle_state])"
  using assms by (rule woken_cases) (auto simp: teardown_frames suspend_frames back_off_def Let_def)

lemma attempt_delay:
  assumes "one_attempt ops cfg name env se = (se', r)" and "delay_ok cfg se" and "0 \<le> mc_initial cfg" and "0 \<le> mc_max cfg"
  shows "(\<forall>rs \<in> set (se_notes se'). rs_reconnecting rs \<longrightarrow> 1 \<le> rs_attempt rs \<and>
      rs_next rs = min (mc_max cfg) (mc_initial cfg * 2 ^ nat (rs_attempt rs - 1))) \<and> (r = None \<longrightarrow> delay_ok cfg se')"
proof (cases "ae_running env \<and> \<not> (mc_attempts cfg > 0 \<and> se_attempt se + 1 > mc_attempts cfg) \<and>
    ae_wait env = WaitFired \<and> \<not> ae_ctx_after_wait env")
  case False
  with assms show ?thesis
    by (cases "ae_wait env") (auto simp: one_attempt_def Let_def delay_ok_def split: if_splits)
next
  case True
  let ?st = "\<lparr>rs_reconnecting = True, rs_attempt = se_attempt se + 1, rs_max_attempts = mc_attempts cfg, rs_next = se_delay se\<rparr>"
  let ?se1 = "(note_state ?st (se\<lparr>se_attempt := se_attempt se + 1\<rparr>))\<lparr>se_world := ae_move env (se_world se)\<rparr>"
  have w: "woken_part ops cfg name (ae_ctx_before_fn env) ?se1 = (se', r)"
    using assms(1) True by (auto simp: one_attempt_def Let_def)
  note d = woken_delay[OF w] and a = woken_attempt[OF w]
  have "se_delay (back_off cfg ?se1) = min (mc_max cfg) (mc_initial cfg * 2 ^ nat (se_attempt se) * 2)"
    using assms(2-4) double_min[of "mc_initial cfg * 2 ^ nat (se_attempt se)" "mc_max cfg"]
    by (simp add: back_off_def Let_def delay_ok_def)
  moreover have "nat (se_attempt se + 1) = Suc (nat (se_attempt se))"
    using assms(2) unfolding delay_ok_def by (simp add: nat_add_distrib)
  ultimately have next_delay: "se_delay (back_off cfg ?se1) = min (mc_max cfg) (mc_initial cfg * 2 ^ nat (se_attempt se + 1))"
    by (simp add: mult.assoc mult.commute[of 2])
  have told: "set (se_notes se') \<subseteq> insert ?st (insert idle_state (set (se_notes se)))" using d by auto
  have att: "1 \<le> rs_attempt rs \<and> rs_next rs = min (mc_max cfg) (mc_initial cfg * 2 ^ nat (rs_attempt rs - 1))"
    if old: "rs \<in> set (se_notes se')" and on: "rs_reconnecting rs" for rs
  proof -
    consider "rs = ?st" | "rs = idle_state" | "rs \<in> set (se_notes se)" using old told by blast
    then show ?thesis
    proof cases
      case 1
      then show ?thesis using assms(2) by (simp add: delay_ok_def del: min.absorb_iff1 min.absorb_iff2)
    next
      case 2
      then show ?thesis using on by (simp add: idle_state_def)
    next
      case 3
      then show ?thesis using assms(2) on unfolding delay_ok_def by blast
    qed
  qed
  moreover have "delay_ok cfg se'" if "r = None"
  proof -
    have "se_delay se' = se_delay (back_off cfg ?se1)" using d that by blast
    moreover have "se_attempt se' = se_attempt se + 1" using a by simp
    moreover have "0 \<le> se_attempt se" using assms(2) by (simp add: delay_ok_def)
    ultimately show ?thesis using att unfolding delay_ok_def next_delay by simp
  qed
  ultimately show ?thesis by blast
qed

lemma loop_delay:
  assumes "delay_ok cfg se" and "0 \<le> mc_initial cfg" and "0 \<le> mc_max cfg"
  shows "\<forall>rs \<in> set (se_notes (fst (retry_loop ops cfg name envs se))). rs_reconnecting rs \<longrightarrow> 1 \<le> rs_attempt rs \<and>
      rs_next rs = min (mc_max cfg) (mc_initial cfg * 2 ^ nat (rs_attempt rs - 1))"
  using assms(1)
proof (induction envs arbitrary: se)
  case (Cons env envs)
  obtain se' r where one: "one_attempt ops cfg name env se = (se', r)" by fastforce
  note at = attempt_delay[OF one Cons.prems assms(2,3)]
  show ?case
  proof (cases r)
    case None
    with at Cons.IH[of se'] show ?thesis by (simp add: one)
  next
    case (Some x)
    with at show ?thesis by (simp add: one)
  qed
qed (simp add: delay_ok_def)

text \<open>The delays of a retry session double from the initial delay and stop at the maximum: every announced attempt k waits the smaller of the maximum and the initial delay times two to the power k - 1, so no wait ever exceeds the maximum.\<close>

theorem backoff_doubles_to_cap:
  assumes "0 \<le> mc_initial cfg" and "mc_initial cfg \<le> mc_max cfg"
    and "rs \<in> set (se_notes (fst (reconnectWithBackoff ops cfg name envs s)))" and "rs_reconnecting rs"
  shows "1 \<le> rs_attempt rs \<and> rs_next rs = min (mc_max cfg) (mc_initial cfg * 2 ^ nat (rs_attempt rs - 1)) \<and>
    rs_next rs \<le> mc_max cfg"
proof -
  have "delay_ok cfg (session0 cfg s)" using assms(1,2) by (simp add: delay_ok_def session0_def)
  from loop_delay[OF this assms(1)] assms show ?thesis by (fastforce simp: reconnectWithBackoff_def)
qed

theorem backoff_doubles_to_cap_witness:
  "map rs_next (se_notes (fst (reconnectWithBackoff (flaky_ops FnFailed) DefaultConfig ''a'' (replicate 5 calm) True))) =
     map (\<lambda>x. x * second) [5, 10, 20, 40, 60] \<and>
   rs_next (se_notes (fst (reconnectWithBackoff (flaky_ops FnFailed) DefaultConfig ''a'' (replicate 5 calm) True)) ! 4) \<le> 60 * second"
proof -
  let ?ns = "se_notes (fst (reconnectWithBackoff (flaky_ops FnFailed) DefaultConfig ''a'' (replicate 5 calm) True))"
  have run: "map rs_next ?ns = map (\<lambda>x. x * second) [5, 10, 20, 40, 60]" by code_simp
  from arg_cong[OF run, of length] have "length ?ns = 5" by (simp only: length_map list.size)
  then have last: "?ns ! 4 \<in> set ?ns" by simp
  have on: "rs_reconnecting (?ns ! 4)" by code_simp
  have "0 \<le> mc_initial DefaultConfig" "mc_initial DefaultConfig \<le> mc_max DefaultConfig" "mc_max DefaultConfig = 60 * second"
    by (simp_all add: DefaultConfig_def)
  with run backoff_doubles_to_cap[OF this(1,2) last on] show ?thesis by metis
qed

section \<open>The firewall around a session\<close>

text \<open>
  Suspensions and resumptions as brackets: a successful suspension opens, every call of the resume callback closes,
  whether or not the callback succeeds. \<open>None\<close> when a bracket opens twice or closes without being open, else
  whether one is open at the end.
\<close>

fun brackets :: "bool \<Rightarrow> call list \<Rightarrow> bool option" where
  "brackets b [] = Some b"
| "brackets b (Suspended ok # cs) = (if b then None else brackets ok cs)"
| "brackets b (Resumed ok # cs) = (if b then brackets False cs else None)"
| "brackets b (TornDown # cs) = brackets b cs"
| "brackets b (Reconnected x # cs) = brackets b cs"

text \<open>Whether the last suspension succeeded.\<close>

fun lift_step :: "bool \<Rightarrow> call \<Rightarrow> bool" where
  "lift_step b (Suspended x) = x"
| "lift_step b _ = b"

definition last_lifted :: "call list \<Rightarrow> bool" where
  "last_lifted cs = foldl lift_step False cs"

lemma brackets_append: "brackets b (xs @ ys) = Option.bind (brackets b xs) (\<lambda>c. brackets c ys)"
  by (induction b xs rule: brackets.induct) simp_all

lemma last_lifted_append [simp]: "last_lifted (xs @ ys) = foldl lift_step (last_lifted xs) ys"
  by (simp add: last_lifted_def)

lemma suspend_calls:
  assumes "suspend_fw ops se = (se', b)" and "t_suspend ops \<noteq> None"
  shows "se_calls se' = se_calls se @ [Suspended b]"
  using assms by (auto simp: suspend_fw_def split: option.splits prod.splits)

lemma resume_calls:
  assumes "t_resume ops \<noteq> None"
  shows "\<exists>ok. se_calls (resume_fw ops b se) = se_calls se @ (if b then [Resumed ok] else [])"
  using assms by (auto simp: resume_fw_def split: option.splits prod.splits)

lemma woken_balance:
  assumes "woken_part ops cfg name c se0 = (se', r)" and "t_suspend ops \<noteq> None" and "t_resume ops \<noteq> None"
    and "brackets False (se_calls se0) = Some False"
  shows "brackets False (se_calls se') = Some ((r = Some ExitAlreadyUp \<or> r = Some ExitBlocked) \<and> last_lifted (se_calls se'))"
proof -
  obtain se b where su: "suspend_fw ops se0 = (se, b)" by fastforce
  note sc = suspend_calls[OF su assms(2)]
  have res: "brackets False (se_calls (resume_fw ops b x)) = (case brackets False (se_calls x) of None \<Rightarrow> None
        | Some c \<Rightarrow> if b then (if c then Some False else None) else Some c) \<and>
      last_lifted (se_calls (resume_fw ops b x)) = last_lifted (se_calls x)" for x
    using resume_calls[OF assms(3), of b x] by (cases b) (auto simp: brackets_append split: option.splits)
  show ?thesis
    using assms(1) by (rule woken_cases) (use su sc res assms(4) in \<open>auto simp: teardown_frames brackets_append\<close>)
qed


lemma loop_balance:
  assumes "t_suspend ops \<noteq> None" and "t_resume ops \<noteq> None"
    and "brackets False (se_calls se) = Some False" and "retry_loop ops cfg name envs se = (se', r)"
  shows "brackets False (se_calls se') = Some ((r = Some ExitAlreadyUp \<or> r = Some ExitBlocked) \<and> last_lifted (se_calls se'))"
  using assms(3,4)
proof (induction envs arbitrary: se)
  case (Cons env envs)
  obtain se1 r1 where one: "one_attempt ops cfg name env se = (se1, r1)" by fastforce
  have bal: "brackets False (se_calls se1) = Some ((r1 = Some ExitAlreadyUp \<or> r1 = Some ExitBlocked) \<and> last_lifted (se_calls se1))"
  proof (cases "ae_running env \<and> \<not> (mc_attempts cfg > 0 \<and> se_attempt se + 1 > mc_attempts cfg) \<and>
      ae_wait env = WaitFired \<and> \<not> ae_ctx_after_wait env")
    case True
    then show ?thesis using one Cons.prems(1) woken_balance[OF _ assms(1,2)]
      by (force simp: one_attempt_def Let_def)
  next
    case False
    then show ?thesis using one Cons.prems(1)
      by (cases "ae_wait env") (auto simp: one_attempt_def Let_def split: if_splits)
  qed
  then show ?case using one Cons.prems(2) Cons.IH[of se1] by (cases r1) auto
qed auto

text \<open>C14: the enforcement that the monitor lifts for a reconnect: whatever happens in a session, successful suspensions and calls of the resume callback alternate, starting with a suspension. A suspension is left open only at the end of the session and only at two exits: when the tunnel came back on its own, and when the policy refuses the reconnect, and there it always is.\<close>

theorem firewall_balance:
  assumes "t_suspend ops \<noteq> None" and "t_resume ops \<noteq> None" and "reconnectWithBackoff ops cfg name envs s = (se, r)"
  shows "brackets False (se_calls se) = Some ((r = Some ExitAlreadyUp \<or> r = Some ExitBlocked) \<and> last_lifted (se_calls se))"
proof (rule loop_balance[OF assms(1,2)])
  show "brackets False (se_calls (session0 cfg s)) = Some False" by (simp add: session0_def)
  show "retry_loop ops cfg name envs (session0 cfg s) = (se, r)" using assms(3) by (simp add: reconnectWithBackoff_def)
qed

theorem firewall_balance_witness:
  "\<exists>se. reconnectWithBackoff (flaky_ops FnBlocked) DefaultConfig ''a'' [calm] True = (se, Some ExitBlocked) \<and>
     brackets False (se_calls se) = Some True"
proof -
  have run: "snd (reconnectWithBackoff (flaky_ops FnBlocked) DefaultConfig ''a'' [calm] True) = Some ExitBlocked \<and>
      last_lifted (se_calls (fst (reconnectWithBackoff (flaky_ops FnBlocked) DefaultConfig ''a'' [calm] True)))" by code_simp
  then obtain se where se: "reconnectWithBackoff (flaky_ops FnBlocked) DefaultConfig ''a'' [calm] True = (se, Some ExitBlocked)"
    by (metis prod.collapse)
  have "t_suspend (flaky_ops FnBlocked) \<noteq> None" "t_resume (flaky_ops FnBlocked) \<noteq> None" by (simp_all add: flaky_ops_def)
  from firewall_balance[OF this se] run se show ?thesis by simp
qed

section \<open>The retry slots\<close>

definition live :: "monitor \<Rightarrow> nat \<Rightarrow> bool" where
  "live m i \<longleftrightarrow> i < length (mo_entries m) \<and> \<not> r_cancelled (mo_entries m ! i) \<and> \<not> r_done (mo_entries m ! i)"

definition to_cancel :: "monitor \<Rightarrow> nat set" where
  "to_cancel m = (\<Union>(j, olds) \<in> set (mo_pending m). set olds)"

definition slots_ok :: "monitor \<Rightarrow> bool" where
  "slots_ok m \<longleftrightarrow> (\<forall>k i. map_of (mo_slots m) k = Some i \<longrightarrow> i < length (mo_entries m) \<and> r_key (mo_entries m ! i) = k) \<and>
     distinct (map fst (mo_slots m)) \<and>
     (mo_running m \<longrightarrow> (\<forall>i. live m i \<longrightarrow> map_of (mo_slots m) (r_key (mo_entries m ! i)) = Some i \<or> i \<in> to_cancel m))"

lemma cancel_frame [simp]:
  "mo_running (cancel_entry i m) = mo_running m" "mo_slots (cancel_entry i m) = mo_slots m"
  "mo_pending (cancel_entry i m) = mo_pending m" "length (mo_entries (cancel_entry i m)) = length (mo_entries m)"
  by (simp_all add: cancel_entry_def)

lemma cancel_key [simp]: "r_key (mo_entries (cancel_entry i m) ! j) = r_key (mo_entries m ! j)"
  by (cases "i < length (mo_entries m)") (simp_all add: cancel_entry_def nth_list_update list_update_beyond not_less)

lemma cancel_live [simp]: "live (cancel_entry i m) j \<longleftrightarrow> live m j \<and> j \<noteq> i"
  by (cases "j = i") (auto simp: live_def cancel_entry_def)

lemma cancel_many [simp]:
  "mo_running (foldr cancel_entry is m) = mo_running m" "mo_slots (foldr cancel_entry is m) = mo_slots m"
  "mo_pending (foldr cancel_entry is m) = mo_pending m"
  "length (mo_entries (foldr cancel_entry is m)) = length (mo_entries m)"
  "r_key (mo_entries (foldr cancel_entry is m) ! j) = r_key (mo_entries m ! j)"
  "live (foldr cancel_entry is m) j \<longleftrightarrow> live m j \<and> j \<notin> set is"
  by (induction "is") auto


lemma slots_valid:
  assumes "slots_ok m" and "map_of (mo_slots m) k = Some i"
  shows "i < length (mo_entries m)" and "r_key (mo_entries m ! i) = k"
  using assms by (auto simp: slots_ok_def)

lemma live_slot:
  assumes "slots_ok m" and "mo_running m" and "live m i"
  shows "map_of (mo_slots m) (r_key (mo_entries m ! i)) = Some i \<or> i \<in> to_cancel m"
  using assms by (auto simp: slots_ok_def)

text \<open>Claiming a slot: the replaced entries are handed to the trigger that must cancel them.\<close>

lemma claim_ok:
  assumes "slots_ok m"
  shows "slots_ok (claim_slot n m)"
proof -
  let ?n = "length (mo_entries m)" and ?m = "claim_slot n m"
  have entries: "mo_entries ?m = mo_entries m @ [\<lparr>r_key = n, r_cancelled = False, r_spawned = False, r_done = False\<rparr>]"
    and run: "mo_running ?m = mo_running m" by (simp_all add: claim_slot_def Let_def)
  have look: "map_of (mo_slots ?m) k = (if k = n then Some ?n else if n = '''' then None else map_of (mo_slots m) k)" for k
    by (simp add: claim_slot_def Let_def AList.update_conv' AList.delete_conv')
  have pend: "to_cancel ?m = to_cancel m \<union> (if n = '''' then snd ` set (mo_slots m) else set_option (map_of (mo_slots m) n))"
    by (auto simp: to_cancel_def claim_slot_def Let_def split: option.splits)
  have dist: "distinct (map fst (mo_slots ?m))"
    using assms by (auto simp: claim_slot_def Let_def slots_ok_def intro!: AList.distinct_update AList.distinct_delete)
  have old: "map_of (mo_slots ?m) (r_key (mo_entries ?m ! i)) = Some i \<or> i \<in> to_cancel ?m"
    if l: "live ?m i" and r: "mo_running m" for i
  proof (cases "i = ?n")
    case True
    then show ?thesis by (simp add: entries look)
  next
    case False
    with l have i: "i < ?n" "live m i" by (auto simp: live_def entries nth_append split: if_splits)
    let ?k = "r_key (mo_entries m ! i)"
    have key: "r_key (mo_entries ?m ! i) = ?k" using i by (simp add: entries nth_append)
    from live_slot[OF assms r i(2)] show ?thesis
    proof
      assume s: "map_of (mo_slots m) ?k = Some i"
      then have "i \<in> snd ` set (mo_slots m)" by (force dest: map_of_SomeD)
      with s have "n = '''' \<or> ?k = n \<Longrightarrow> i \<in> to_cancel ?m" unfolding pend by auto
      with s show ?thesis unfolding key look by auto
    qed (simp add: pend)
  qed
  show ?thesis unfolding slots_ok_def
    using dist old slots_valid[OF assms] by (auto simp: run look entries nth_append less_SucI)
qed

lemma slots_ok_shrink:
  assumes "slots_ok m" and "mo_running m' \<Longrightarrow> mo_running m" and "length (mo_entries m') = length (mo_entries m)"
    and "\<And>i. r_key (mo_entries m' ! i) = r_key (mo_entries m ! i)"
    and "\<And>k i. map_of (mo_slots m') k = Some i \<Longrightarrow> map_of (mo_slots m) k = Some i" and "distinct (map fst (mo_slots m'))"
    and "\<And>i. mo_running m' \<Longrightarrow> live m' i \<Longrightarrow> live m i \<and>
      (map_of (mo_slots m) (r_key (mo_entries m ! i)) = Some i \<longrightarrow> map_of (mo_slots m') (r_key (mo_entries m ! i)) = Some i) \<and>
      (i \<in> to_cancel m \<longrightarrow> i \<in> to_cancel m')"
  shows "slots_ok m'"
proof -
  have "map_of (mo_slots m') (r_key (mo_entries m' ! i)) = Some i \<or> i \<in> to_cancel m'"
    if r: "mo_running m'" and l: "live m' i" for i
    using assms(7)[OF r l] live_slot[OF assms(1) assms(2)[OF r]] assms(4) by metis
  moreover have "i < length (mo_entries m') \<and> r_key (mo_entries m' ! i) = k" if "map_of (mo_slots m') k = Some i" for k i
    using slots_valid[OF assms(1) assms(5)[OF that]] assms(3,4) by simp
  ultimately show ?thesis using assms(6) unfolding slots_ok_def by blast
qed


lemma cancel_retry_ok:
  assumes "slots_ok m"
  shows "slots_ok (CancelRetry m)"
proof (rule slots_ok_shrink[OF assms])
  fix i assume "live (CancelRetry m) i"
  then have "live (foldr cancel_entry (map snd (mo_slots m)) m) i" by (simp add: CancelRetry_def live_def)
  then have "live m i" "i \<notin> snd ` set (mo_slots m)" by simp_all
  then show "live m i \<and> (map_of (mo_slots m) (r_key (mo_entries m ! i)) = Some i \<longrightarrow>
      map_of (mo_slots (CancelRetry m)) (r_key (mo_entries m ! i)) = Some i) \<and>
      (i \<in> to_cancel m \<longrightarrow> i \<in> to_cancel (CancelRetry m))"
    by (force simp: CancelRetry_def to_cancel_def dest: map_of_SomeD)
qed (simp_all add: CancelRetry_def)

lemma cancel_for_ok:
  assumes "slots_ok m"
  shows "slots_ok (CancelRetryFor_slot n m)"
proof (cases "map_of (mo_slots m) n")
  case (Some i)
  have eq: "CancelRetryFor_slot n m = (cancel_entry i m)\<lparr>mo_slots := AList.delete n (mo_slots m)\<rparr>"
    by (simp add: CancelRetryFor_slot_def Some)
  show ?thesis
  proof (rule slots_ok_shrink[OF assms])
    fix j assume "live (CancelRetryFor_slot n m) j"
    then have "live (cancel_entry i m) j" by (simp add: eq live_def)
    then have "live m j" "j \<noteq> i" by simp_all
    then show "live m j \<and> (map_of (mo_slots m) (r_key (mo_entries m ! j)) = Some j \<longrightarrow>
        map_of (mo_slots (CancelRetryFor_slot n m)) (r_key (mo_entries m ! j)) = Some j) \<and>
        (j \<in> to_cancel m \<longrightarrow> j \<in> to_cancel (CancelRetryFor_slot n m))"
      using Some by (auto simp: eq to_cancel_def AList.delete_conv')
  next
    show "distinct (map fst (mo_slots (CancelRetryFor_slot n m)))"
      using assms by (simp add: eq slots_ok_def AList.distinct_delete)
  qed (auto simp: eq AList.delete_conv' split: if_splits)
qed (simp add: CancelRetryFor_slot_def assms)

lemma stop_ok:
  assumes "slots_ok m"
  shows "slots_ok (monitor_Stop m)"
proof (cases "mo_running m")
  case True
  then have "monitor_Stop m = (foldr cancel_entry (map snd (mo_slots m)) m)\<lparr>mo_running := False\<rparr>"
    by (simp add: monitor_Stop_def)
  then show ?thesis using assms unfolding slots_ok_def by simp
qed (simp add: monitor_Stop_def assms)

text \<open>Returning: the slot may go, and only this entry stops being live.\<close>

lemma release_ok:
  assumes "slots_ok m" and "i < length (mo_entries m)"
  shows "slots_ok (release_slot i r m)"
proof -
  let ?k = "r_key (mo_entries m ! i)" and ?m = "release_slot i r m"
  have slots: "mo_slots ?m = mo_slots m \<or> map_of (mo_slots m) ?k = Some i \<and> mo_slots ?m = AList.delete ?k (mo_slots m)"
    by (auto simp: release_slot_def Let_def)
  have ent: "mo_entries ?m = (mo_entries m)[i := (mo_entries m ! i)\<lparr>r_done := True\<rparr>]"
    and fr: "mo_running ?m = mo_running m" "mo_pending ?m = mo_pending m"
    by (simp_all add: release_slot_def Let_def)
  have key: "r_key (mo_entries ?m ! j) = r_key (mo_entries m ! j)" for j
    using assms(2) by (simp add: ent nth_list_update)
  have lv: "live ?m j \<longleftrightarrow> live m j \<and> j \<noteq> i" for j
    using assms(2) by (auto simp: live_def ent nth_list_update)
  have keep: "map_of (mo_slots ?m) k = Some j" if "map_of (mo_slots m) k = Some j" and "j \<noteq> i" for k j
    using slots that by (elim disjE conjE) (simp, cases "k = ?k", simp_all add: AList.delete_conv')
  show ?thesis
  proof (rule slots_ok_shrink[OF assms(1)])
    fix j assume "live ?m j"
    then show "live m j \<and> (map_of (mo_slots m) (r_key (mo_entries m ! j)) = Some j \<longrightarrow>
        map_of (mo_slots ?m) (r_key (mo_entries m ! j)) = Some j) \<and> (j \<in> to_cancel m \<longrightarrow> j \<in> to_cancel ?m)"
      using keep lv by (simp add: to_cancel_def fr)
  next
    have "distinct (map fst (mo_slots m))" using assms(1) by (simp add: slots_ok_def)
    then show "distinct (map fst (mo_slots ?m))" using slots AList.distinct_delete by metis
  next
    fix k j assume "map_of (mo_slots ?m) k = Some j"
    then show "map_of (mo_slots m) k = Some j" using slots by (auto simp: AList.delete_conv' split: if_splits)
  qed (simp add: fr, simp add: ent, rule key)
qed


lemma shrink_pending:
  assumes "slots_ok m" and "p < length (mo_pending m)" and "mo_running m \<Longrightarrow> snd (mo_pending m ! p) = []"
  shows "slots_ok (m\<lparr>mo_pending := take p (mo_pending m) @ drop (Suc p) (mo_pending m)\<rparr>)"
proof (rule slots_ok_shrink[OF assms(1)])
  let ?m = "m\<lparr>mo_pending := take p (mo_pending m) @ drop (Suc p) (mo_pending m)\<rparr>"
  fix i assume run: "mo_running ?m" and l: "live ?m i"
  have split: "set (mo_pending m) = insert (mo_pending m ! p) (set (mo_pending ?m))"
    using arg_cong[OF id_take_nth_drop[OF assms(2)], of set] by simp
  obtain j where "mo_pending m ! p = (j, [])" using assms(3) run by (cases "mo_pending m ! p") simp
  then have "to_cancel m = to_cancel ?m" unfolding to_cancel_def split by simp
  with l show "live m i \<and> (map_of (mo_slots m) (r_key (mo_entries m ! i)) = Some i \<longrightarrow>
      map_of (mo_slots ?m) (r_key (mo_entries m ! i)) = Some i) \<and> (i \<in> to_cancel m \<longrightarrow> i \<in> to_cancel ?m)"
    by (simp add: live_def)
next
  show "distinct (map fst (mo_slots (m\<lparr>mo_pending := take p (mo_pending m) @ drop (Suc p) (mo_pending m)\<rparr>)))"
    using assms(1) by (simp add: slots_ok_def)
qed simp_all

lemma spawn_ok:
  assumes "slots_ok m"
  shows "slots_ok (m\<lparr>mo_entries := (mo_entries m)[i := (mo_entries m ! i)\<lparr>r_spawned := True\<rparr>]\<rparr>)"
proof -
  let ?m = "m\<lparr>mo_entries := (mo_entries m)[i := (mo_entries m ! i)\<lparr>r_spawned := True\<rparr>]\<rparr>"
  have nth: "mo_entries ?m ! j = (if j = i \<and> i < length (mo_entries m) then (mo_entries m ! i)\<lparr>r_spawned := True\<rparr>
      else mo_entries m ! j)" for j
    by (cases "i < length (mo_entries m)") (simp_all add: nth_list_update list_update_beyond not_less)
  have key: "r_key (mo_entries ?m ! j) = r_key (mo_entries m ! j)" for j unfolding nth by simp
  have lv: "live ?m j = live m j" for j unfolding live_def nth by simp
  have tc: "to_cancel ?m = to_cancel m" by (simp add: to_cancel_def)
  show ?thesis
    using assms unfolding slots_ok_def key lv tc by (simp del: map_of_eq_Some_iff)
qed

lemma cancel_old_ok:
  assumes "slots_ok m" and "p < length (mo_pending m)" and "mo_pending m ! p = (j, old # olds)"
  shows "slots_ok (cancel_entry old (m\<lparr>mo_pending := (mo_pending m)[p := (j, olds)]\<rparr>))"
proof (rule slots_ok_shrink[OF assms(1)])
  let ?m1 = "m\<lparr>mo_pending := (mo_pending m)[p := (j, olds)]\<rparr>"
  let ?m = "cancel_entry old ?m1"
  fix i assume "live ?m i"
  then have "live ?m1 i" "i \<noteq> old" by simp_all
  then have l: "live m i" "i \<noteq> old" by (simp_all add: live_def)
  have "i \<in> to_cancel ?m" if mem: "i \<in> to_cancel m"
  proof -
    obtain k os where k: "(k, os) \<in> set (mo_pending m)" "i \<in> set os" using mem by (auto simp: to_cancel_def)
    then obtain q where q: "q < length (mo_pending m)" "mo_pending m ! q = (k, os)" by (auto simp: in_set_conv_nth)
    show ?thesis
    proof (cases "q = p")
      case True
      with k q assms(3) l have "i \<in> set olds" by auto
      moreover have "(j, olds) \<in> set (mo_pending ?m)" using assms(2) by (simp add: set_update_memI)
      ultimately show ?thesis by (auto simp: to_cancel_def)
    next
      case False
      then have "(k, os) \<in> set (mo_pending ?m)" using q by (auto simp: in_set_conv_nth intro!: exI[of _ q])
      with k show ?thesis by (auto simp: to_cancel_def)
    qed
  qed
  with l show "live m i \<and> (map_of (mo_slots m) (r_key (mo_entries m ! i)) = Some i \<longrightarrow>
      map_of (mo_slots ?m) (r_key (mo_entries m ! i)) = Some i) \<and> (i \<in> to_cancel m \<longrightarrow> i \<in> to_cancel ?m)" by simp
qed (use assms(1) in \<open>simp_all add: slots_ok_def\<close>)

lemma step_ok: "mon_step e m = Some m' \<Longrightarrow> slots_ok m \<Longrightarrow> slots_ok m'"
proof (induction e m rule: mon_step.induct)
  case (2 p m)
  then show ?case using cancel_old_ok by (auto split: if_splits prod.splits list.splits)
next
  case (3 p m)
  then show ?case using shrink_pending by (auto split: if_splits)
next
  case (4 p m)
  then obtain i where p: "p < length (mo_pending m)" "mo_pending m ! p = (i, [])"
    and m': "m' = m\<lparr>mo_pending := take p (mo_pending m) @ drop (Suc p) (mo_pending m),
        mo_entries := (mo_entries m)[i := (mo_entries m ! i)\<lparr>r_spawned := True\<rparr>]\<rparr>"
    by (auto split: if_splits prod.splits list.splits)
  from spawn_ok[OF shrink_pending[OF 4(2) p(1)], of i] show ?case by (simp add: p(2) m')
next
  case (5 i r m)
  then show ?case using release_ok by (auto split: if_splits)
qed (auto intro: claim_ok cancel_retry_ok cancel_for_ok stop_ok)

lemma reachable_ok: "mon_reachable m \<Longrightarrow> slots_ok m"
proof (induction rule: mon_reachable.induct)
  case mon_start
  show ?case by (simp add: slots_ok_def monitor_started_def live_def)
next
  case (mon_next m e m')
  then show ?case by (blast intro: step_ok)
qed


text \<open>C17: the retry table. In every reachable state of a running monitor a live retry (not cancelled, not returned) is the one its key's slot names, unless a trigger has replaced it and has not yet cancelled it; so two such live retries never share a key, and a key without a slot (cancelled, finished) has none.\<close>

theorem live_retry_is_current:
  assumes "mon_reachable m" and "mo_running m" and "live m i" and "i \<notin> to_cancel m"
  shows "map_of (mo_slots m) (r_key (mo_entries m ! i)) = Some i \<and>
    (\<forall>j. live m j \<and> j \<notin> to_cancel m \<and> r_key (mo_entries m ! j) = r_key (mo_entries m ! i) \<longrightarrow> j = i)"
proof -
  note ok = reachable_ok[OF assms(1)]
  have cur: "map_of (mo_slots m) (r_key (mo_entries m ! j)) = Some j" if "live m j" "j \<notin> to_cancel m" for j
    using live_slot[OF ok assms(2) that(1)] that(2) by blast
  from cur[OF assms(3,4)] have i: "map_of (mo_slots m) (r_key (mo_entries m ! i)) = Some i" .
  have "j = i" if "live m j" "j \<notin> to_cancel m" "r_key (mo_entries m ! j) = r_key (mo_entries m ! i)" for j
    using cur[OF that(1,2), unfolded that(3), unfolded i] by (rule option.inject[THEN iffD1, symmetric])
  with i show ?thesis by blast
qed

definition run_events :: "mon_event list \<Rightarrow> monitor \<Rightarrow> monitor option" where
  "run_events es m = foldl (\<lambda>r e. case r of None \<Rightarrow> None | Some m \<Rightarrow> mon_step e m) (Some m) es"

lemma run_events_reachable: "run_events es m = Some m' \<Longrightarrow> mon_reachable m \<Longrightarrow> mon_reachable m'"
proof (induction es arbitrary: m' rule: rev_induct)
  case (snoc e es)
  then obtain m1 where "run_events es m = Some m1" "mon_step e m1 = Some m'"
    by (auto simp: run_events_def split: option.splits)
  with snoc show ?case by (blast intro: mon_next)
qed (simp add: run_events_def)

theorem live_retry_is_current_witness:
  "\<exists>m. run_events [EvTrigger ''a'', EvSpawn 0] monitor_started = Some m \<and> map_of (mo_slots m) ''a'' = Some 0"
proof -
  let ?m = "the (run_events [EvTrigger ''a'', EvSpawn 0] monitor_started)"
  have run: "run_events [EvTrigger ''a'', EvSpawn 0] monitor_started = Some ?m" by code_simp
  have st: "mo_running ?m" "length (mo_entries ?m) = 1" "\<not> r_cancelled (mo_entries ?m ! 0)" "\<not> r_done (mo_entries ?m ! 0)"
    "r_key (mo_entries ?m ! 0) = ''a''" "mo_pending ?m = []" by code_simp+
  then have "live ?m 0" "0 \<notin> to_cancel ?m" by (simp_all add: live_def to_cancel_def)
  from live_retry_is_current[OF run_events_reachable[OF run mon_start] st(1) this]
  have "map_of (mo_slots ?m) ''a'' = Some 0" unfolding st(5) by (rule conjunct1)
  with run show ?thesis by blast
qed

text \<open>
  The all-tunnels trigger cancels the replaced retries one after the other and waits up to five seconds
  for each: a trigger for a tunnel whose old retry is still in that queue finds no slot, so both run.
\<close>

theorem trigger_all_race:
  "\<exists>m i j. mon_reachable m \<and> i \<noteq> j \<and> live m i \<and> live m j \<and> r_spawned (mo_entries m ! i) \<and> r_spawned (mo_entries m ! j) \<and>
     r_key (mo_entries m ! i) = ''a'' \<and> r_key (mo_entries m ! j) = ''a''"
proof -
  let ?es = "[EvTrigger ''x'', EvSpawn 0, EvTrigger ''a'', EvSpawn 0, EvTrigger '''', EvCancelOld 0, EvTrigger ''a'', EvSpawn 1]"
  let ?m = "the (run_events ?es monitor_started)"
  have run: "run_events ?es monitor_started = Some ?m" by code_simp
  have "length (mo_entries ?m) = 4" "\<not> r_cancelled (mo_entries ?m ! 1)" "\<not> r_done (mo_entries ?m ! 1)"
    "\<not> r_cancelled (mo_entries ?m ! 3)" "\<not> r_done (mo_entries ?m ! 3)" "r_spawned (mo_entries ?m ! 1)"
    "r_spawned (mo_entries ?m ! 3)" "r_key (mo_entries ?m ! 1) = ''a''" "r_key (mo_entries ?m ! 3) = ''a''" by code_simp+
  then have "live ?m 1 \<and> live ?m 3 \<and> r_spawned (mo_entries ?m ! 1) \<and> r_spawned (mo_entries ?m ! 3) \<and>
      r_key (mo_entries ?m ! 1) = ''a'' \<and> r_key (mo_entries ?m ! 3) = ''a''" by (simp add: live_def)
  moreover have "(1::nat) \<noteq> 3" by simp
  ultimately show ?thesis using run_events_reachable[OF run mon_start] by blast
qed


section \<open>The interface of the tunnel manager\<close>

text \<open>
  What a session relies on. \<open>inv\<close> is the provider's own invariant, \<open>up n s\<close> says that tunnel \<open>n\<close> is
  connected: a teardown that succeeds or finds nothing leaves it down, a reconnect that succeeds leaves it
  up, one that is refused changes nothing, and only connected tunnels are reported as connected.
\<close>

locale retry_ops =
  fixes ops :: "'s tunnel_ops"
    and inv :: "'s \<Rightarrow> bool"
    and up :: "string \<Rightarrow> 's \<Rightarrow> bool"
  assumes disconnect: "inv s \<Longrightarrow> t_disconnect ops n s = (s', r) \<Longrightarrow> inv s' \<and>
      (r = None \<or> (\<exists>e. r = Some e \<and> te_kind e = ErrNotConnected) \<longrightarrow> \<not> up n s')"
    and reconnect: "inv s \<Longrightarrow> n \<noteq> '''' \<Longrightarrow> t_reconnect ops n s = (s', q) \<Longrightarrow> inv s' \<and>
      (q = FnOk \<longrightarrow> up n s') \<and> (q = FnBlocked \<longrightarrow> s' = s)"
    and suspend: "t_suspend ops = Some f \<Longrightarrow> inv s \<Longrightarrow> inv (fst (f s)) \<and> up n (fst (f s)) = up n s"
    and resume: "t_resume ops = Some f \<Longrightarrow> inv s \<Longrightarrow> inv (fst (f s)) \<and> up n (fst (f s)) = up n s"
    and statuses: "inv s \<Longrightarrow> t_statuses ops s = (s', sts) \<Longrightarrow> inv s' \<and> (up n s' \<longleftrightarrow> up n s) \<and>
      (\<forall>st \<in> set sts. st_state st = Connected \<longrightarrow> up (st_tunnel st) s)"
begin

lemma suspend_up:
  "inv (se_world se) \<Longrightarrow> suspend_fw ops se = (se', b) \<Longrightarrow> inv (se_world se') \<and> up n (se_world se') = up n (se_world se)"
  using suspend[of _ "se_world se" n] by (auto simp: suspend_fw_def split: option.splits prod.splits)

lemma resume_up:
  "inv (se_world se) \<Longrightarrow> inv (se_world (resume_fw ops b se)) \<and> up n (se_world (resume_fw ops b se)) = up n (se_world se)"
  using resume[of _ "se_world se" n] by (auto simp: resume_fw_def split: option.splits prod.splits)

lemma is_up:
  "inv s \<Longrightarrow> n \<noteq> '''' \<Longrightarrow> tunnelIsUp ops n s = (s', b) \<Longrightarrow> inv s' \<and> (b \<longrightarrow> up n s') \<and> (up n s' \<longleftrightarrow> up n s)"
  using statuses[of s] by (fastforce simp: tunnelIsUp_def list_ex_iff Let_def split: prod.splits)

lemma teardown_up:
  assumes "inv (se_world se)" and "n \<noteq> ''''" and "teardown ops n se = (se', b)"
  shows "inv (se_world se') \<and> (b \<longrightarrow> \<not> up n (se_world se'))"
  using disconnect[OF assms(1)] assms(2,3)
  by (auto simp: teardown_def split: prod.splits option.splits if_splits)

definition outcome_ok :: "string \<Rightarrow> exit_reason option \<Rightarrow> 's \<Rightarrow> bool" where
  "outcome_ok n r s \<longleftrightarrow> (r \<in> {Some ExitReconnected, Some ExitAlreadyUp} \<longrightarrow> up n s) \<and> (r = Some ExitBlocked \<longrightarrow> \<not> up n s)"

lemma woken_outcome:
  assumes "inv (se_world se0)" and "n \<noteq> ''''" and "woken_part ops cfg n c se0 = (se', r)"
  shows "inv (se_world se') \<and> outcome_ok n r (se_world se')"
proof -
  obtain se b where su: "suspend_fw ops se0 = (se, b)" by fastforce
  obtain s u where up: "(if se_torn se then tunnelIsUp ops n (se_world se) else (se_world se, False)) = (s, u)" by fastforce
  obtain se2 d where td: "teardown ops n (se\<lparr>se_world := s\<rparr>) = (se2, d)" by fastforce
  obtain s3 f where fn: "t_reconnect ops n (se_world se2) = (s3, f)" by fastforce
  have "inv (se_world se)" using suspend_up[OF assms(1) su] by blast
  then have s: "inv s" "u \<Longrightarrow> up n s" using up is_up[OF _ assms(2)] by (auto split: if_splits)
  then have t: "inv (se_world se2)" "d \<Longrightarrow> \<not> up n (se_world se2)" using teardown_up[OF _ assms(2) td] by simp_all
  note r = reconnect[OF t(1) assms(2) fn]
  note eq = assms(3)[unfolded woken_part_def Let_def su prod.case up td]
  show ?thesis
    using eq s t r fn resume_up[of se2 b n] resume_up[of "log_call (Reconnected f) s3 se2" b n]
    by (cases f) (auto simp: outcome_ok_def reconnect_part_def Let_def split: if_splits)
qed

text \<open>What a session leaves behind, whatever other goroutines do as long as they keep the invariant.\<close>

lemma session_outcome:
  assumes "n \<noteq> ''''" and "\<forall>env \<in> set envs. \<forall>s. inv s \<longrightarrow> inv (ae_move env s)" and "inv (se_world se)"
    and "retry_loop ops cfg n envs se = (se', r)"
  shows "inv (se_world se') \<and> outcome_ok n r (se_world se')"
  using assms(2-4)
proof (induction envs arbitrary: se)
  case Nil
  then show ?case by (auto simp: outcome_ok_def)
next
  case (Cons env envs)
  obtain se1 r1 where one: "one_attempt ops cfg n env se = (se1, r1)" by fastforce
  have moved: "inv (ae_move env (se_world se))" using Cons.prems(1,2) by simp
  from one have "inv (se_world se1) \<and> outcome_ok n r1 (se_world se1)"
  proof (cases rule: attempt_cases)
    case idle
    with moved Cons.prems(2) show ?thesis by (auto simp: outcome_ok_def)
  next
    case (woken se2 c)
    show ?thesis by (rule woken_outcome[OF _ assms(1) woken(1)]) (simp add: woken(2) moved)
  qed
  with one Cons show ?case by (cases r1) auto
qed

text \<open>The health tick triggers connected tunnels only.\<close>

lemma health_up: "inv s \<Longrightarrow> n \<in> set (snd (health_tick ops en d now s)) \<Longrightarrow> up n s"
  using statuses[of s] by (fastforce simp: health_tick_def Let_def split: if_splits prod.splits)

lemma blocked_stays_down:
  assumes "n \<noteq> ''''" and "\<forall>env \<in> set envs. \<forall>s. inv s \<longrightarrow> inv (ae_move env s)" and "inv s"
    and "reconnectWithBackoff ops cfg n envs s = (se, Some ExitBlocked)"
  shows "inv (se_world se) \<and> \<not> up n (se_world se)"
proof -
  have "inv (se_world se) \<and> outcome_ok n (Some ExitBlocked) (se_world se)"
    using session_outcome[OF assms(1,2) _ assms(4)[unfolded reconnectWithBackoff_def]] assms(3) by (simp add: session0_def)
  then show ?thesis by (simp add: outcome_ok_def)
qed


end

end
