(* ===== verification/TunnelStatus.thy ===== *)
theory TunnelStatus
  imports TunnelManager Config "HOL-Library.Word"
begin

text \<open>
  Reading the device (\<open>internal/tunnel/status.go\<close>, \<open>status_engine.go\<close>): the aggregation of the peers that
  \<open>wgctrl\<close> reports, and the parser of the UAPI text that takes its place on Windows and for AmneziaWG. The
  device itself (its peers, its text) is the input; counters are 64-bit words, as \<open>int64\<close> sums wrap.
  Times are nanoseconds since the epoch, 0 for the zero time.
\<close>

record peer_stats =
  ps_rx :: "64 word"
  ps_tx :: "64 word"
  ps_handshake :: int
  ps_endpoint :: string

record totals =
  to_rx :: "64 word"
  to_tx :: "64 word"
  to_handshake :: int
  to_endpoint :: string

definition totals0 :: totals where
  "totals0 = \<lparr>to_rx = 0, to_tx = 0, to_handshake = 0, to_endpoint = ''''\<rparr>"

text \<open>The body of the peer loop of \<open>GetStatus\<close>; the other reader has its own, in \<open>flushPeer\<close>.\<close>

definition add_peer :: "totals \<Rightarrow> peer_stats \<Rightarrow> totals" where
  "add_peer t p = \<lparr>to_rx = to_rx t + ps_rx p, to_tx = to_tx t + ps_tx p,
     to_handshake = (if ps_handshake p \<noteq> 0 \<and> (to_handshake t = 0 \<or> ps_handshake p > to_handshake t)
                     then ps_handshake p else to_handshake t),
     to_endpoint = (if ps_endpoint p \<noteq> '''' \<and> to_endpoint t = '''' then ps_endpoint p else to_endpoint t)\<rparr>"

text \<open>The status both readers build from the totals. \<open>Unix()\<close> floors.\<close>

definition device_status :: "int \<Rightarrow> string \<Rightarrow> string \<Rightarrow> int \<Rightarrow> totals \<Rightarrow> conn_status" where
  "device_status now iface name ca t =
     (let hs = to_handshake t in
      ConnStatus Connected name iface ca (FormatDuration (now - ca)) (sint (to_rx t)) (sint (to_tx t)) hs
        (if hs = 0 then '''' else FormatDuration (now - hs)) (if hs = 0 then 0 else hs div second)
        (markHandshakeStale now ca hs False) False (to_endpoint t) 0 '''' '''' '''' [] [] [] [])"

definition GetStatus :: "int \<Rightarrow> string \<Rightarrow> string \<Rightarrow> int \<Rightarrow> peer_stats list \<Rightarrow> conn_status" where
  "GetStatus now iface name ca peers = device_status now iface name ca (foldl add_peer totals0 peers)"

section \<open>The UAPI text\<close>

text \<open>\<open>strconv.ParseInt\<close> and \<open>ParseUint\<close> with the error ignored: 0 on bad syntax, the nearest bound out of range.\<close>

definition parse_int64_val :: "string \<Rightarrow> int" where
  "parse_int64_val s =
     (let (neg, ds) = (case s of c # r \<Rightarrow> if c = CHR ''-'' then (True, r)
                                       else if c = CHR ''+'' then (False, r) else (False, s)
                       | [] \<Rightarrow> (False, s))
      in case parse_nat ds of
           None \<Rightarrow> 0
         | Some n \<Rightarrow> if neg then max (- (2 ^ 63)) (- n) else min (2 ^ 63 - 1) n)"

definition parse_uint64_val :: "string \<Rightarrow> 64 word" where
  "parse_uint64_val s = (case parse_nat s of None \<Rightarrow> 0 | Some n \<Rightarrow> word_of_int (min (2 ^ 64 - 1) n))"

text \<open>The scanner's locals: whether a peer section is open, its fields, the totals so far.\<close>

record uapi_state =
  ua_in :: bool
  ua_sec :: int
  ua_nsec :: int
  ua_rx :: "64 word"
  ua_tx :: "64 word"
  ua_endpoint :: string
  ua_totals :: totals

definition uapi0 :: uapi_state where
  "uapi0 = \<lparr>ua_in = False, ua_sec = 0, ua_nsec = 0, ua_rx = 0, ua_tx = 0, ua_endpoint = '''', ua_totals = totals0\<rparr>"

definition unix_time :: "int \<Rightarrow> int \<Rightarrow> int" where
  "unix_time sec nsec = sec * second + nsec"

definition flushPeer :: "uapi_state \<Rightarrow> uapi_state" where
  "flushPeer u =
     (if \<not> ua_in u then u
      else
        let s = ua_totals u;
            s = s\<lparr>to_rx := to_rx s + ua_rx u, to_tx := to_tx s + ua_tx u\<rparr>;
            s = (if ua_sec u > 0 \<or> ua_nsec u > 0
                 then let t = unix_time (ua_sec u) (ua_nsec u)
                      in if to_handshake s = 0 \<or> t > to_handshake s then s\<lparr>to_handshake := t\<rparr> else s
                 else s);
            s = (if ua_endpoint u \<noteq> '''' \<and> to_endpoint s = '''' then s\<lparr>to_endpoint := ua_endpoint u\<rparr> else s)
        in \<lparr>ua_in = True, ua_sec = 0, ua_nsec = 0, ua_rx = 0, ua_tx = 0, ua_endpoint = '''', ua_totals = s\<rparr>)"

definition drop_cr :: "string \<Rightarrow> string" where
  "drop_cr l = (if l \<noteq> [] \<and> last l = CHR 0x0D then butlast l else l)"

definition uapi_line :: "uapi_state \<Rightarrow> string \<Rightarrow> uapi_state" where
  "uapi_line u raw =
     (case str_cut (CHR ''='') (drop_cr raw) of
        None \<Rightarrow> u
      | Some (k, v) \<Rightarrow>
          if k = '''' then u
          else if k = ''public_key'' then (flushPeer u)\<lparr>ua_in := True\<rparr>
          else if \<not> ua_in u then u
          else if k = ''endpoint'' then u\<lparr>ua_endpoint := v\<rparr>
          else if k = ''last_handshake_time_sec'' then u\<lparr>ua_sec := parse_int64_val v\<rparr>
          else if k = ''last_handshake_time_nsec'' then u\<lparr>ua_nsec := parse_int64_val v\<rparr>
          else if k = ''rx_bytes'' then u\<lparr>ua_rx := parse_uint64_val v\<rparr>
          else if k = ''tx_bytes'' then u\<lparr>ua_tx := parse_uint64_val v\<rparr>
          else u)"

text \<open>\<open>bufio.Scanner\<close> stops at a line that does not fit its 64 KiB buffer.\<close>

definition uapi_lines :: "string \<Rightarrow> string list" where
  "uapi_lines text = takeWhile (\<lambda>l. length l < 65536) (scan_lines text)"

definition GetStatusFromEngine :: "int \<Rightarrow> string \<Rightarrow> string \<Rightarrow> int \<Rightarrow> string \<Rightarrow> conn_status" where
  "GetStatusFromEngine now iface name ca uapi =
     device_status now iface name ca (ua_totals (flushPeer (foldl uapi_line uapi0 (uapi_lines uapi))))"

text \<open>\<open>getStatusForEngine\<close>: which reader answers; \<open>None\<close> is an error of the device.\<close>

definition getStatusForEngine ::
    "bool \<Rightarrow> (engine \<Rightarrow> bool) \<Rightarrow> (engine \<Rightarrow> peer_stats list option) \<Rightarrow> (engine \<Rightarrow> string option) \<Rightarrow> int \<Rightarrow> query" where
  "getStatusForEngine windows awg peers uapi now eng name ca =
     (if windows \<or> awg eng
      then map_option (GetStatusFromEngine now (en_iface eng) name ca) (uapi eng)
      else map_option (GetStatus now (en_iface eng) name ca) (peers eng))"

lemma device_status_fields [simp]:
  "st_state (device_status now i n ca t) = Connected" "st_tunnel (device_status now i n ca t) = n"
  "st_iface (device_status now i n ca t) = i" "st_connected_at (device_status now i n ca t) = ca"
  "st_handshake_time (device_status now i n ca t) = to_handshake t"
  by (simp_all add: device_status_def Let_def)

lemma drop_cr_id [simp]: "CHR 0x0D \<notin> set l \<Longrightarrow> drop_cr l = l"
  by (cases "l = []") (auto simp: drop_cr_def dest: last_in_set)

lemma getStatus_fields:
  assumes "getStatusForEngine win awg peers uapi now eng name ca = Some st"
  shows "st_state st = Connected" "st_tunnel st = name" "st_iface st = en_iface eng"
  using assms by (auto simp: getStatusForEngine_def GetStatus_def GetStatusFromEngine_def split: if_splits)

section \<open>The two readers agree\<close>

text \<open>
  The protocol, read without the scanner's state: a line whose key is \<open>public_key\<close> opens a peer, the peer's section
  is what follows up to the next such line, and the value of a key in a section is that of its last line. Nothing
  is said of the order of the lines, of the lines with other keys (\<open>preshared_key\<close>, \<open>protocol_version\<close>,
  \<open>persistent_keepalive_interval\<close>, any number of \<open>allowed_ip\<close>), nor of those before the first peer.
\<close>

definition line_value :: "string \<Rightarrow> string \<Rightarrow> string option" where
  "line_value k l = (case str_cut (CHR ''='') (drop_cr l) of Some (k', v) \<Rightarrow> if k' = k then Some v else None | None \<Rightarrow> None)"

definition opens_peer :: "string \<Rightarrow> bool" where
  "opens_peer l \<longleftrightarrow> line_value ''public_key'' l \<noteq> None"

fun sections :: "string list \<Rightarrow> string list list" where
  "sections [] = []"
| "sections (l # ls) = (if opens_peer l then takeWhile (\<lambda>m. \<not> opens_peer m) ls # sections ls else sections ls)"

fun last_value :: "string \<Rightarrow> string list \<Rightarrow> string option" where
  "last_value k [] = None"
| "last_value k (l # ls) = (case last_value k ls of Some v \<Rightarrow> Some v | None \<Rightarrow> line_value k l)"

text \<open>
  A section shows a peer: decimal counters and the two halves of the handshake time, the endpoint when there is
  one. This is the cross-platform userspace protocol of WireGuard, which the device of the engine answers.
\<close>

definition shows_peer :: "string list \<Rightarrow> peer_stats \<Rightarrow> bool" where
  "shows_peer ls p \<longleftrightarrow>
     last_value ''endpoint'' ls = (if ps_endpoint p = '''' then None else Some (ps_endpoint p)) \<and>
     last_value ''last_handshake_time_sec'' ls = Some (itoa (ps_handshake p div second)) \<and>
     last_value ''last_handshake_time_nsec'' ls = Some (itoa (ps_handshake p mod second)) \<and>
     last_value ''rx_bytes'' ls = Some (itoa (uint (ps_rx p))) \<and>
     last_value ''tx_bytes'' ls = Some (itoa (uint (ps_tx p))) \<and>
     0 \<le> ps_handshake p \<and> ps_handshake p < 2 ^ 63"

lemma parse_int64_itoa: "0 \<le> n \<Longrightarrow> n < 2 ^ 63 \<Longrightarrow> parse_int64_val (itoa n) = n"
proof -
  assume n: "0 \<le> n" "n < 2 ^ 63"
  obtain c r where cr: "dec_str n = c # r" by (cases "dec_str n") auto
  then have "c \<in> set (dec_str n)" by simp
  with n have "c \<noteq> CHR ''-''" "c \<noteq> CHR ''+''" using dec_str_range[of n c] by auto
  with n cr show ?thesis by (simp add: parse_int64_val_def itoa_nonneg Let_def parse_dec_str[of n, unfolded cr])
qed

lemma parse_uint64_itoa: "parse_uint64_val (itoa (uint w)) = w"
proof -
  have "uint w \<le> 2 ^ 64 - 1" using uint_lt2p[of w] by simp
  then show ?thesis by (simp add: parse_uint64_val_def itoa_nonneg min_def)
qed

text \<open>The section the scanner holds once the rest of its lines is read, and what closing it adds to the totals.\<close>

definition or_else :: "'a \<Rightarrow> (string \<Rightarrow> 'a) \<Rightarrow> string option \<Rightarrow> 'a" where
  "or_else d f v = (case v of None \<Rightarrow> d | Some s \<Rightarrow> f s)"

definition held :: "uapi_state \<Rightarrow> string list \<Rightarrow> uapi_state" where
  "held u ls =
     \<lparr>ua_in = True,
      ua_sec = or_else (ua_sec u) parse_int64_val (last_value ''last_handshake_time_sec'' ls),
      ua_nsec = or_else (ua_nsec u) parse_int64_val (last_value ''last_handshake_time_nsec'' ls),
      ua_rx = or_else (ua_rx u) parse_uint64_val (last_value ''rx_bytes'' ls),
      ua_tx = or_else (ua_tx u) parse_uint64_val (last_value ''tx_bytes'' ls),
      ua_endpoint = or_else (ua_endpoint u) id (last_value ''endpoint'' ls),
      ua_totals = totals0\<rparr>"

definition close_into :: "totals \<Rightarrow> uapi_state \<Rightarrow> totals" where
  "close_into t h = ua_totals (flushPeer (h\<lparr>ua_totals := t\<rparr>))"

definition cleared :: "bool \<Rightarrow> totals \<Rightarrow> uapi_state" where
  "cleared b t = uapi0\<lparr>ua_in := b, ua_totals := t\<rparr>"

lemma cleared_fields [simp]: "ua_in (cleared b t) = b" "ua_totals (cleared b t) = t" "(cleared b t)\<lparr>ua_in := c\<rparr> = cleared c t"
  by (simp_all add: cleared_def)

lemma held_cleared [simp]: "held (cleared b t) ls = held uapi0 ls"
  by (simp add: held_def cleared_def)

lemma held_self: "ua_in u \<Longrightarrow> (held u [])\<lparr>ua_totals := ua_totals u\<rparr> = u"
  by (simp add: held_def or_else_def)

lemma flush_open: "ua_in u \<Longrightarrow> flushPeer u = cleared True (close_into (ua_totals u) (held u []))"
  by (simp add: close_into_def held_self) (simp add: flushPeer_def cleared_def uapi0_def Let_def)

lemma uapi_line_opens: "opens_peer l \<Longrightarrow> uapi_line u l = (flushPeer u)\<lparr>ua_in := True\<rparr>"
  by (cases "str_cut (CHR ''='') (drop_cr l)") (auto simp: opens_peer_def line_value_def uapi_line_def split: if_splits)

lemma not_opens: "\<not> opens_peer l \<Longrightarrow> str_cut (CHR ''='') (drop_cr l) = Some (k, v) \<Longrightarrow> k \<noteq> ''public_key''"
  by (simp add: opens_peer_def line_value_def split: if_splits)

lemma uapi_line_outside: "\<not> opens_peer l \<Longrightarrow> \<not> ua_in u \<Longrightarrow> uapi_line u l = u"
  using not_opens[of l] by (cases "str_cut (CHR ''='') (drop_cr l)") (auto simp: uapi_line_def)

lemma uapi_line_inside:
  assumes "\<not> opens_peer l" and "ua_in u"
  shows "ua_in (uapi_line u l) \<and> ua_totals (uapi_line u l) = ua_totals u \<and> held (uapi_line u l) ls = held u (l # ls)"
proof (cases "str_cut (CHR ''='') (drop_cr l)")
  case None
  then show ?thesis using assms(2) by (simp add: uapi_line_def held_def line_value_def or_else_def split: option.split)
next
  case (Some kv)
  obtain k v where kv: "kv = (k, v)" by fastforce
  with Some have at: "line_value k' l = (if k = k' then Some v else None)" for k' by (simp add: line_value_def)
  have "k \<noteq> ''public_key''" using not_opens[OF assms(1)] Some kv by simp
  then consider "k = ''endpoint''" | "k = ''last_handshake_time_sec''" | "k = ''last_handshake_time_nsec''"
    | "k = ''rx_bytes''" | "k = ''tx_bytes''" | "uapi_line u l = u" "k \<noteq> ''endpoint''" "k \<noteq> ''last_handshake_time_sec''"
      "k \<noteq> ''last_handshake_time_nsec''" "k \<noteq> ''rx_bytes''" "k \<noteq> ''tx_bytes''"
    using Some kv by (cases "k = ''''") (auto simp: uapi_line_def)
  then show ?thesis
    using assms(2) Some kv by cases (simp_all add: uapi_line_def held_def at or_else_def split: option.split)
qed

lemma scan_inside:
  "ua_in u \<Longrightarrow> ua_totals (flushPeer (foldl uapi_line u ls)) =
     foldl close_into (ua_totals u) (held u (takeWhile (\<lambda>m. \<not> opens_peer m) ls) # map (held uapi0) (sections ls))"
proof (induction ls arbitrary: u)
  case (Cons l ls)
  then show ?case
    using Cons.IH[of "cleared True (close_into (ua_totals u) (held u []))"] Cons.IH[of "uapi_line u l"]
      uapi_line_inside[of l u]
    by (cases "opens_peer l") (simp_all add: uapi_line_opens flush_open)
qed (simp add: flush_open)

lemma scan_outside:
  "ua_totals (flushPeer (foldl uapi_line (cleared False t) ls)) = foldl close_into t (map (held uapi0) (sections ls))"
proof (induction ls)
  case Nil
  then show ?case by (simp add: flushPeer_def)
next
  case (Cons l ls)
  have "flushPeer (cleared False t) = cleared False t" by (simp add: flushPeer_def)
  then show ?case
    using Cons.IH scan_inside[of "cleared True t" ls]
    by (cases "opens_peer l") (simp_all add: uapi_line_opens uapi_line_outside)
qed

text \<open>What the two loops add for a shown peer is the same, though each is written out on its own.\<close>

lemma close_shown:
  assumes p: "shows_peer ls p"
  shows "close_into t (held uapi0 ls) = add_peer t p"
proof -
  let ?s = "ps_handshake p div second" and ?n = "ps_handshake p mod second"
  have h: "0 \<le> ?s" "?s < 2 ^ 63" "0 \<le> ?n" "?n < 2 ^ 63"
    using p pos_mod_bound[of second "ps_handshake p"] by (auto simp: shows_peer_def)
  have pos: "?s > 0 \<or> ?n > 0 \<longleftrightarrow> ps_handshake p \<noteq> 0"
    using p h div_mult_mod_eq[of "ps_handshake p" second] by (auto simp: shows_peer_def le_less)
  have "held uapi0 ls = \<lparr>ua_in = True, ua_sec = ?s, ua_nsec = ?n, ua_rx = ps_rx p, ua_tx = ps_tx p,
      ua_endpoint = ps_endpoint p, ua_totals = totals0\<rparr>"
    using p by (simp add: shows_peer_def held_def or_else_def uapi0_def parse_int64_itoa[OF h(1,2)]
        parse_int64_itoa[OF h(3,4)] parse_uint64_itoa)
  then show ?thesis using pos
    by (simp add: close_into_def flushPeer_def add_peer_def Let_def unix_time_def div_mult_mod_eq)
qed

lemma close_all_shown:
  "list_all2 shows_peer secs ps \<Longrightarrow> foldl close_into t (map (held uapi0) secs) = foldl add_peer t ps"
  by (induction arbitrary: t rule: list_all2_induct) (simp_all add: close_shown)

text \<open>C31: the two status readers agree. Take any text of a device whose peer sections (the lines between one \<open>public_key\<close> line and the next) show, in order, the peers that wgctrl would report: the last value of each of the five keys is the decimal of the counter or of the half of the handshake time, the endpoint is there when the peer has one, and handshake times lie between 0 and 2 to the 63 nanoseconds. Any other lines may stand anywhere and in any order. Then the scanner of the text builds exactly the status that the aggregation of those peers builds. Lines from the first that does not fit the scanner's buffer on are not part of the text, for either.\<close>

theorem status_readers_agree:
  assumes "list_all2 shows_peer (sections (uapi_lines uapi)) peers"
  shows "GetStatusFromEngine now iface name ca uapi = GetStatus now iface name ca peers"
proof -
  have "cleared False totals0 = uapi0" by (simp add: cleared_def uapi0_def)
  then show ?thesis using scan_outside[of totals0 "uapi_lines uapi"] close_all_shown[OF assms]
    by (simp add: GetStatusFromEngine_def GetStatus_def)
qed

text \<open>Two peers, the second without a handshake and an endpoint, as the userspace device prints them.\<close>

definition demo_lines :: "string list" where
  "demo_lines =
     [''private_key=00'', ''listen_port=51820'',
      ''public_key=aa'', ''preshared_key=00'', ''protocol_version=1'', ''endpoint=192.0.2.1:51820'',
      ''last_handshake_time_sec=1700000000'', ''last_handshake_time_nsec=7'', ''tx_bytes=9'', ''rx_bytes=5'',
      ''persistent_keepalive_interval=25'', ''allowed_ip=10.0.0.0/8'', ''allowed_ip=::/0'',
      ''public_key=bb'', ''preshared_key=00'', ''protocol_version=1'',
      ''last_handshake_time_sec=0'', ''last_handshake_time_nsec=0'', ''tx_bytes=148'', ''rx_bytes=0'',
      ''persistent_keepalive_interval=0'', ''errno=0'', '''']"

definition demo_uapi :: string where
  "demo_uapi = concat (map (\<lambda>l. l @ [nl]) demo_lines)"

definition demo_peers :: "peer_stats list" where
  "demo_peers =
     [\<lparr>ps_rx = 5, ps_tx = 9, ps_handshake = 1700000000 * second + 7, ps_endpoint = ''192.0.2.1:51820''\<rparr>,
      \<lparr>ps_rx = 0, ps_tx = 148, ps_handshake = 0, ps_endpoint = ''''\<rparr>]"

theorem status_readers_agree_witness:
  "GetStatusFromEngine (1700000100 * second) ''wg0'' ''home'' second demo_uapi =
     GetStatus (1700000100 * second) ''wg0'' ''home'' second demo_peers \<and>
   st_tx (GetStatus (1700000100 * second) ''wg0'' ''home'' second demo_peers) = 157"
proof -
  have "list_all (\<lambda>l. nl \<notin> set l \<and> length l \<le> 60) demo_lines" by code_simp
  then have l: "\<forall>l \<in> set demo_lines. nl \<notin> set l" "\<forall>l \<in> set demo_lines. length l < 65536" by (auto simp: list_all_iff)
  have "uapi_lines demo_uapi = demo_lines"
    using l by (simp add: uapi_lines_def demo_uapi_def scan_written takeWhile_eq_all_conv)
  moreover have "sections demo_lines = [take 10 (drop 3 demo_lines), drop 14 demo_lines]" by code_simp
  moreover have "shows_peer (take 10 (drop 3 demo_lines)) (demo_peers ! 0)" by code_simp
  moreover have "shows_peer (drop 14 demo_lines) (demo_peers ! 1)" by code_simp
  moreover have "demo_peers = [demo_peers ! 0, demo_peers ! 1]" by (simp add: demo_peers_def)
  ultimately have "list_all2 shows_peer (sections (uapi_lines demo_uapi)) demo_peers"
    by (metis list_all2_Cons list_all2_Nil)
  note status_readers_agree[OF this, of "1700000100 * second" "''wg0''" "''home''" second]
  moreover have "st_tx (GetStatus (1700000100 * second) ''wg0'' ''home'' second demo_peers) = 157"
    by (simp add: GetStatus_def device_status_def Let_def add_peer_def totals0_def demo_peers_def)
  ultimately show ?thesis by simp
qed

end
