(* ===== verification/HelperMonitor.thy ===== *)
theory HelperMonitor
  imports HelperProps MonitorProps TunnelStatus
begin

text \<open>
  The reconnect monitor on the helper: its \<open>TunnelManager\<close> is the tunnel manager, its callbacks are
  \<open>reconnectFn\<close>, \<open>suspendFirewall\<close> and \<open>resumeFirewall\<close> (\<open>helper.go\<close>). The laws of \<open>retry_ops\<close> hold, so what
  the session guarantees holds of the helper.
\<close>

section \<open>The nameless reconnect\<close>

text \<open>The legacy path over the cached configurations; \<open>lastErr\<close> is the last failed connect.\<close>

fun reconnect_each ::
    "world \<Rightarrow> switch_env \<Rightarrow> bool \<Rightarrow> (nat \<Rightarrow> string option) \<Rightarrow> (string \<times> wg_config) list \<Rightarrow> helper \<times> switch_state \<Rightarrow>
     tunnel_error option \<Rightarrow> (helper \<times> switch_state) \<times> reconnect_result" where
  "reconnect_each w env cancelled ctx [] hs lastErr = (hs, case lastErr of None \<Rightarrow> ReconnectOk | Some e \<Rightarrow> ReconnectFailed e)"
| "reconnect_each w env cancelled ctx ((k, cfg) # cfgs) (h, sw) lastErr =
     (if reconnectPolicyBlocked w h (cfg_name cfg) then reconnect_each w env cancelled ctx cfgs (h, sw) lastErr
      else if cancelled then ((h, sw), ReconnectCancelled)
      else
        let (sw1, cfg1, _) = maybeSwitchEndpoint env (cfg_name cfg) cfg sw;
            h1 = h\<lparr>h_active := AList.update k cfg1 (h_active h)\<rparr> in
        (case mgr_connect w ctx cfg1 h1 of
           (h2, None) \<Rightarrow> reconnect_each w env cancelled ctx cfgs (h2, sw1) lastErr
         | (h2, Some e) \<Rightarrow>
             reconnect_each w env cancelled ctx cfgs
               ((case w_conflict w e of
                   Some (addr, holder) \<Rightarrow> pauseForAddressConflict (cfg_name cfg) addr holder ''down'' h2
                 | None \<Rightarrow> h2), sw1) (Some e)))"

definition reconnectAll ::
    "world \<Rightarrow> switch_env \<Rightarrow> bool \<Rightarrow> (nat \<Rightarrow> string option) \<Rightarrow> helper \<times> switch_state \<Rightarrow> (helper \<times> switch_state) \<times> reconnect_result" where
  "reconnectAll w env cancelled ctx hs =
     (if h_active (fst hs) = [] then (hs, ReconnectNoConfig)
      else reconnect_each w env cancelled ctx (h_active (fst hs)) hs None)"

section \<open>The interface, provided by the helper\<close>

definition fn_of :: "reconnect_result \<Rightarrow> fn_result" where
  "fn_of r = (case r of ReconnectOk \<Rightarrow> FnOk | ReconnectBlocked \<Rightarrow> FnBlocked | _ \<Rightarrow> FnFailed)"

definition on_helper :: "(helper \<Rightarrow> helper \<times> 'r) \<Rightarrow> helper \<times> switch_state \<Rightarrow> (helper \<times> switch_state) \<times> 'r" where
  "on_helper f hs = (case f (fst hs) of (h, r) \<Rightarrow> ((h, snd hs), r))"

definition helper_statuses :: "world \<Rightarrow> helper \<Rightarrow> helper \<times> conn_status list" where
  "helper_statuses w h = (case AllStatuses (w_query w) (w_now w) (h_mgr h) of (m, sts) \<Rightarrow> (h\<lparr>h_mgr := m\<rparr>, sts))"

definition helper_disconnect_all :: "world \<Rightarrow> helper \<Rightarrow> helper" where
  "helper_disconnect_all w h =
     (case DisconnectAll (w_disc_fails w) (w_precleaner w) (w_restorer w) (h_mgr h) of
        (m, tr) \<Rightarrow> emit (ManagerEffects tr) (h\<lparr>h_mgr := m\<rparr>))"

definition helper_ops :: "world \<Rightarrow> switch_env \<Rightarrow> bool \<Rightarrow> (nat \<Rightarrow> string option) \<Rightarrow> (helper \<times> switch_state) tunnel_ops" where
  "helper_ops w env cancelled ctx = \<lparr>
     t_connected = (\<lambda>hs. IsConnected (h_mgr (fst hs))),
     t_active = (\<lambda>hs. ActiveTunnel (h_mgr (fst hs))),
     t_statuses = on_helper (helper_statuses w),
     t_disconnect = (\<lambda>n. on_helper (mgr_disconnect w n)),
     t_disconnect_all = (\<lambda>hs. (helper_disconnect_all w (fst hs), snd hs)),
     t_reconnect = (\<lambda>n hs. case (if n = '''' then reconnectAll w env cancelled ctx hs else reconnectFn w env cancelled ctx n hs) of
        (hs', r) \<Rightarrow> (hs', fn_of r)),
     t_suspend = Some (on_helper (suspendFirewall w)),
     t_resume = Some (on_helper (resumeFirewall w))\<rparr>"

section \<open>The invariant of the names\<close>

definition names_ok :: "manager \<Rightarrow> bool" where
  "names_ok m \<longleftrightarrow> distinct (map fst (m_tunnels m)) \<and> (\<forall>(n, e) \<in> set (m_tunnels m). entry_cfg_name e = n)"

definition helper_ok :: "helper \<Rightarrow> bool" where
  "helper_ok h \<longleftrightarrow> names_ok (h_mgr h) \<and> (\<forall>n c. map_of (h_active h) n = Some c \<longrightarrow> cfg_name c = n)"

definition tunnel_up :: "string \<Rightarrow> manager \<Rightarrow> bool" where
  "tunnel_up n m \<longleftrightarrow> map_option e_state (entry_of m n) = Some MConnected"

lemma names_set: "names_ok m \<Longrightarrow> entry_cfg_name e = n \<Longrightarrow> names_ok (set_entry n e m)"
  using update_mem[of _ _ n e "m_tunnels m"] by (fastforce simp: names_ok_def set_entry_def AList.distinct_update)

lemma names_remove: "names_ok m \<Longrightarrow> names_ok (removeEntry n m)"
  by (auto simp: names_ok_def removeEntry_def AList.distinct_delete delete_mem)

lemma premod_tunnels [simp]: "m_tunnels (premod_effect e m) = m_tunnels m"
  by (cases e) (simp_all add: capturePreModDNS_def clearPreModDNS_def)

lemma premod_after_tunnels [simp]: "m_tunnels (premod_after tr m) = m_tunnels m"
  unfolding premod_after_def by (induction tr arbitrary: m) simp_all

lemma names_premod [simp]: "names_ok (premod_after tr m) = names_ok m" and up_premod [simp]: "tunnel_up n (premod_after tr m) = tunnel_up n m"
  by (simp_all add: names_ok_def tunnel_up_def entry_of_def)

lemma premod_entry [simp]: "entry_of (premod_after tr m) n = entry_of m n"
  by (simp add: entry_of_def)

lemma up_set [simp]: "tunnel_up n (set_entry n e m) \<longleftrightarrow> e_state e = MConnected"
  by (simp add: tunnel_up_def set_entry_def entry_of_def AList.update_conv')

lemma up_remove [simp]: "\<not> tunnel_up n (removeEntry n m)"
  by (simp add: tunnel_up_def removeEntry_def entry_of_def AList.delete_conv')

lemma claim_names: "connect_claim cfg m = Inr m1 \<Longrightarrow> names_ok m \<Longrightarrow> names_ok m1"
  by (auto simp: connect_claim_def Let_def entry_cfg_name_def intro!: names_set split: option.splits mstate.splits if_splits)

lemma claim_entry: "connect_claim cfg m = Inr m1 \<Longrightarrow> e_cfg (getOrCreateEntry (cfg_name cfg) m1) = Some cfg"
  by (auto simp: connect_claim_def Let_def getOrCreateEntry_def set_entry_def entry_of_def AList.update_conv'
    split: option.splits mstate.splits if_splits)

lemma connect_names:
  assumes "ConnectWithContext env c0 c1 now cfg m = (m', tr, r)" and "names_ok m"
  shows "names_ok m' \<and> (r = None \<longrightarrow> tunnel_up (cfg_name cfg) m')"
proof (cases "connect_claim cfg m")
  case (Inl e)
  with assms show ?thesis by (auto simp: ConnectWithContext_def split: option.splits)
next
  case (Inr m1)
  note n1 = claim_names[OF Inr assms(2)]
  have e1: "e_cfg (getOrCreateEntry (cfg_name cfg) (premod_after tr m1)) = Some cfg" for tr
    using claim_entry[OF Inr] by (simp add: getOrCreateEntry_def)
  have com: "names_ok m3 \<and> tunnel_up (cfg_name cfg) m3" if "connect_commit now cfg eng (premod_after tr m1) = Some m3" for eng tr m3
    using that n1 e1[of tr] by (auto simp: connect_commit_def Let_def entry_cfg_name_def intro!: names_set split: if_splits)
  show ?thesis
    using assms Inr n1 com
    by (auto simp: ConnectWithContext_def Let_def names_remove split: option.splits prod.splits sum.splits)
qed


lemma disconnect_names:
  assumes "DisconnectTunnel f p rs n m = (m', tr, r)" and "names_ok m"
  shows "names_ok m' \<and> (r = None \<or> (\<exists>e. r = Some e \<and> te_kind e = ErrNotConnected) \<longrightarrow> \<not> tunnel_up n m')"
proof -
  obtain m1 q where poll: "disconnect_poll n False True m = (m1, q)" by fastforce
  have cfgn: "entry_cfg_name e = n" if "entry_of m n = Some e" for e
    using that assms(2) by (auto simp: names_ok_def entry_of_def dest: map_of_SomeD)
  have cn [simp]: "entry_cfg_name (e\<lparr>e_state := s, e_watchdog := a, e_sockbind := b\<rparr>) = entry_cfg_name e" for e s a b
    by (simp add: entry_cfg_name_def)
  have m1: "names_ok m1"
    using poll assms(2) by (auto simp: disconnect_poll_def Let_def cfgn names_remove intro!: names_set split: option.splits if_splits)
  have fin: "\<not> tunnel_up n m1" if "q = PollDone (Some e)" "te_kind e = ErrNotConnected" for e
    using poll that by (auto simp: disconnect_poll_def Let_def tunnel_up_def newTunnelError_def split: option.splits if_splits)
  have "q \<noteq> PollWait" "q \<noteq> PollDone None"
    using poll by (auto simp: disconnect_poll_def Let_def split: option.splits if_splits)
  with assms(1) m1 fin show ?thesis unfolding DisconnectTunnel_def poll
    by (auto simp: Let_def names_remove split: poll.splits option.splits)
qed

lemma first_endpoint_name: "maybeSwitchEndpoint env n cfg sw = (sw', cfg', r) \<Longrightarrow> cfg_name cfg' = cfg_name cfg"
  by (auto simp: maybeSwitchEndpoint_def Let_def split: option.splits if_splits prod.splits bool.splits)

lemma map_ops_mgr [simp]:
  "h_mgr (pauseForAddressConflict a b c d h) = h_mgr h" "h_active (pauseForAddressConflict a b c d h) = h_active h"
  by (simp_all add: pauseForAddressConflict_def Let_def split: option.splits)

lemma mgr_connect_ok:
  assumes "mgr_connect w ctx cfg h = (h', r)" and "helper_ok h"
  shows "helper_ok h' \<and> (r = None \<longrightarrow> tunnel_up (cfg_name cfg) (h_mgr h'))"
  using assms connect_names by (auto simp: mgr_connect_def helper_ok_def split: prod.splits)

lemma active_update_ok: "helper_ok h \<Longrightarrow> cfg_name c = n \<Longrightarrow> helper_ok (h\<lparr>h_active := AList.update n c (h_active h)\<rparr>)"
  by (auto simp: helper_ok_def AList.update_conv' split: if_splits)

lemma reconnect_ok:
  assumes "helper_ok h" and "reconnectFn w env cancelled ctx n (h, sw) = (hs', r)"
  shows "helper_ok (fst hs') \<and> (r = ReconnectOk \<longrightarrow> tunnel_up n (h_mgr (fst hs'))) \<and> (r = ReconnectBlocked \<longrightarrow> hs' = (h, sw))"
proof (cases "map_of (h_active h) n")
  case None
  with assms show ?thesis by (auto simp: reconnectFn_def)
next
  case (Some cfg)
  then have name: "cfg_name cfg = n" using assms(1) by (auto simp: helper_ok_def)
  obtain sw1 cfg1 x where sw: "maybeSwitchEndpoint env n cfg sw = (sw1, cfg1, x)" by (metis prod.exhaust)
  have name1: "cfg_name cfg1 = n" using first_endpoint_name[OF sw] name by simp
  obtain h2 e where con: "mgr_connect w ctx cfg1 (h\<lparr>h_active := AList.update n cfg1 (h_active h)\<rparr>) = (h2, e)" by fastforce
  note ok = mgr_connect_ok[OF con active_update_ok[OF assms(1) name1]]
  from assms Some show ?thesis
    using ok name1 by (auto simp: reconnectFn_def Let_def sw con helper_ok_def split: if_splits option.splits prod.splits)
qed

lemma statuses_ok:
  assumes "names_ok m" and "AllStatuses q t m = (m', sts)"
    and "\<And>eng n ca st. q eng n ca = Some st \<Longrightarrow> st_tunnel st = n"
  shows "names_ok m' \<and> (tunnel_up n m' \<longleftrightarrow> tunnel_up n m) \<and> (\<forall>st \<in> set sts. st_state st = Connected \<longrightarrow> tunnel_up (st_tunnel st) m)"
proof -
  have fr: "e_state (fst (entry_status q t e)) = e_state e" "e_cfg (fst (entry_status q t e)) = e_cfg e" for e
    by (auto simp: entry_status_def advanceDuration_def Let_def split: mstate.splits option.splits)
  have m': "m' = m\<lparr>m_tunnels := map (\<lambda>(n, e). (n, fst (entry_status q t e))) (m_tunnels m)\<rparr>"
    and sts: "sts = map (\<lambda>(n, e). snd (entry_status q t e)) (m_tunnels m)"
    using assms(2) by (simp_all add: AllStatuses_def)
  have keys: "map fst (m_tunnels m') = map fst (m_tunnels m)" by (simp add: m' comp_def case_prod_beta)
  have "\<forall>(k, e) \<in> set (m_tunnels m'). entry_cfg_name e = k"
    using assms(1) fr by (auto simp: names_ok_def m' entry_cfg_name_def)
  with assms(1) have "names_ok m'" unfolding names_ok_def keys by blast
  moreover have "tunnel_up n m' \<longleftrightarrow> tunnel_up n m"
    by (simp add: tunnel_up_def entry_of_def m' map_of_map_val option.map_comp comp_def fr)
  moreover have "tunnel_up (st_tunnel st) m" if "st \<in> set sts" "st_state st = Connected" for st
  proof -
    from that(1) obtain k e where ke: "(k, e) \<in> set (m_tunnels m)" "st = snd (entry_status q t e)" by (auto simp: sts)
    have name: "entry_cfg_name e = k" "entry_of m k = Some e" using assms(1) ke(1) by (auto simp: names_ok_def entry_of_def)
    have stamp: "st_tunnel (stamp_duration d p s) = st_tunnel s" for d p s by (cases s) simp
    have "e_state e = MConnected \<and> st_tunnel st = k"
      using that(2) ke(2) name(1) assms(3)
      by (auto simp: entry_status_def simple_status_def Let_def stamp split: mstate.splits option.splits)
    with name(2) show ?thesis by (simp add: tunnel_up_def)
  qed
  ultimately show ?thesis by blast
qed

lemma suspend_frame:
  "h_mgr (fst (suspendFirewall w h)) = h_mgr h" "h_active (fst (suspendFirewall w h)) = h_active h"
  "h_mgr (fst (resumeFirewall w h)) = h_mgr h" "h_active (fst (resumeFirewall w h)) = h_active h"
  by (simp_all add: suspendFirewall_def resumeFirewall_def Let_def)

text \<open>The world whose status reader is the one of \<open>TunnelStatus\<close>.\<close>

definition reading :: "bool \<Rightarrow> (engine \<Rightarrow> bool) \<Rightarrow> (engine \<Rightarrow> peer_stats list option) \<Rightarrow> (engine \<Rightarrow> string option) \<Rightarrow> world \<Rightarrow> world" where
  "reading win awg peers uapi w = w\<lparr>w_query := getStatusForEngine win awg peers uapi (w_now w)\<rparr>"

interpretation hm: retry_ops "helper_ops (reading win awg peers uapi w) env cancelled ctx" "\<lambda>hs. helper_ok (fst hs)"
    "\<lambda>n hs. tunnel_up n (h_mgr (fst hs))" for win awg peers uapi w env cancelled ctx
proof (unfold_locales, goal_cases)
  case (1 s n s' r)
  then show ?case using disconnect_names
    by (auto simp: helper_ops_def on_helper_def mgr_disconnect_def helper_ok_def split: prod.splits)
next
  case (2 s n s' q)
  obtain h sw where s: "s = (h, sw)" by fastforce
  obtain hs' r where fn: "reconnectFn (reading win awg peers uapi w) env cancelled ctx n (h, sw) = (hs', r)" by fastforce
  from 2 show ?case using reconnect_ok[OF _ fn]
    by (auto simp: helper_ops_def s fn fn_of_def split: reconnect_result.splits)
next
  case (3 f s n)
  then show ?case using suspend_frame by (auto simp: helper_ops_def on_helper_def helper_ok_def split: prod.splits) (metis fst_conv)+
next
  case (4 f s n)
  then show ?case using suspend_frame by (auto simp: helper_ops_def on_helper_def helper_ok_def split: prod.splits) (metis fst_conv)+
next
  case (5 s s' sts n)
  obtain m m' where m: "AllStatuses (w_query (reading win awg peers uapi w)) (w_now (reading win awg peers uapi w)) (h_mgr (fst s)) = (m', sts)"
    and s': "s' = ((fst s)\<lparr>h_mgr := m'\<rparr>, snd s)"
    using 5(2) by (auto simp: helper_ops_def on_helper_def helper_statuses_def split: prod.splits)
  have "names_ok (h_mgr (fst s))" using 5(1) by (simp add: helper_ok_def)
  from statuses_ok[OF this m] 5(1) show ?case
    by (auto simp: s' helper_ok_def reading_def dest: getStatus_fields(2))
qed

text \<open>C9: a reconnect refused by the policy. The monitor tears the tunnel down before it asks; when a session of the helper ends as blocked, the tunnel is disconnected and the state of the helper is consistent, whatever the automation, the user and the other sessions do meanwhile. From then on no health tick, in whatever consistent state and with whatever settings and clock it runs, triggers the tunnel while it is not connected.\<close>

theorem blocked_reconnect_stays_down:
  assumes "name \<noteq> ''''" and "helper_ok h" and "\<forall>e \<in> set envs. \<forall>hs. helper_ok (fst hs) \<longrightarrow> helper_ok (fst (ae_move e hs))"
    and "reconnectWithBackoff (helper_ops (reading win awg peers uapi w) env cancelled ctx) cfg name envs (h, sw) = (se, Some ExitBlocked)"
  shows "helper_ok (fst (se_world se)) \<and> \<not> tunnel_up name (h_mgr (fst (se_world se))) \<and>
    (\<forall>later w'. helper_ok (fst later) \<and> \<not> tunnel_up name (h_mgr (fst later)) \<longrightarrow>
       name \<notin> set (snd (health_tick (helper_ops (reading win awg peers uapi w') env cancelled ctx) enabled disabled now later)))"
proof -
  have "helper_ok (fst (se_world se)) \<and> \<not> tunnel_up name (h_mgr (fst (se_world se)))"
    by (rule hm.blocked_stays_down[OF assms(1,3) _ assms(4)]) (simp add: assms(2))
  then show ?thesis using hm.health_up by blast
qed


definition blocking_world :: world where
  "blocking_world = demo_world\<lparr>w_settings := map_option (\<lambda>s. s\<lparr>s_automation := Some \<lparr>a_defaults = [(''a'', ''disconnect'')], a_per_tunnel = []\<rparr>\<rparr>)
     (w_settings demo_world)\<rparr>"

definition calm_helper :: "(helper \<times> switch_state) attempt_env" where
  "calm_helper = \<lparr>ae_running = True, ae_wait = WaitFired, ae_move = (\<lambda>s. s), ae_ctx_after_wait = False, ae_ctx_before_fn = False\<rparr>"

definition no_switch :: switch_env where
  "no_switch = \<lparr>se_now = 0, se_store = False, se_settings = None, se_meta = (\<lambda>_. None), se_measure = (\<lambda>_. [])\<rparr>"

lemma up_a_ok: "helper_ok up_a \<and> tunnel_up ''a'' (h_mgr up_a)"
proof -
  have s: "map fst (m_tunnels (h_mgr up_a)) = [''a'']" "map (entry_cfg_name \<circ> snd) (m_tunnels (h_mgr up_a)) = [''a'']"
    "map_option e_state (entry_of (h_mgr up_a) ''a'') = Some MConnected"
    "map fst (h_active up_a) = [''a'']" "map (cfg_name \<circ> snd) (h_active up_a) = [''a'']" by code_simp+
  then obtain e c where "m_tunnels (h_mgr up_a) = [(''a'', e)]" "h_active up_a = [(''a'', c)]"
    by (cases "m_tunnels (h_mgr up_a)"; cases "h_active up_a") auto
  with s show ?thesis by (simp add: helper_ok_def names_ok_def tunnel_up_def)
qed

theorem blocked_reconnect_stays_down_witness:
  "\<exists>sw se. tunnel_up ''a'' (h_mgr up_a) \<and>
     reconnectWithBackoff (helper_ops (reading False (\<lambda>_. False) (\<lambda>_. None) (\<lambda>_. None) blocking_world) no_switch False (\<lambda>_. None))
       DefaultConfig ''a'' [calm_helper] (up_a, sw) = (se, Some ExitBlocked) \<and>
     \<not> tunnel_up ''a'' (h_mgr (fst (se_world se)))"
proof -
  let ?ops = "helper_ops (reading False (\<lambda>_. False) (\<lambda>_. None) (\<lambda>_. None) blocking_world) no_switch False (\<lambda>_. None)"
  have "snd (reconnectWithBackoff ?ops DefaultConfig ''a'' [calm_helper] (up_a, switch0)) = Some ExitBlocked" by code_simp
  then obtain se where se: "reconnectWithBackoff ?ops DefaultConfig ''a'' [calm_helper] (up_a, switch0) = (se, Some ExitBlocked)"
    by (metis prod.collapse)
  have "\<forall>e \<in> set [calm_helper]. \<forall>hs. helper_ok (fst hs) \<longrightarrow> helper_ok (fst (ae_move e hs))" by (simp add: calm_helper_def)
  from blocked_reconnect_stays_down[OF _ conjunct1[OF up_a_ok] this se]
  have "\<not> tunnel_up ''a'' (h_mgr (fst (se_world se)))" by blast
  with se up_a_ok show ?thesis by blast
qed

end
