(* ===== verification/HelperDNS.thy ===== *)
theory HelperDNS
  imports HelperMonitor
begin

text \<open>
  The machine-wide DNS resolve path: operations that run one after the other never let two connected
  tunnels claim it, while connects that overlap can.

\<close>

section \<open>Who claims the path\<close>

definition wants_path :: "world \<Rightarrow> string \<Rightarrow> bool" where
  "wants_path w n \<longleftrightarrow> (case w_meta w n of None \<Rightarrow> False | Some m \<Rightarrow> tm_resolve_path m)"

definition claimants :: "world \<Rightarrow> helper \<Rightarrow> string set" where
  "claimants w h = {n. map_of (h_active h) n \<noteq> None \<and> wants_path w n}"

text \<open>The operations that bring tunnels up and down; the flag of a connect is the end of its wait when it parks.\<close>

datatype path_op =
    OpConnect wg_config await_result
  | OpAutoConnect string string
  | OpDisconnect string
  | OpAutoDisconnect string

fun path_run :: "world \<Rightarrow> path_op \<Rightarrow> helper \<Rightarrow> helper" where
  "path_run w (OpConnect cfg answer) h = fst (handleConnect w answer cfg h)"
| "path_run w (OpAutoConnect n ssid) h = automationConnect w n ssid h"
| "path_run w (OpDisconnect n) h = fst (handleDisconnect w n h)"
| "path_run w (OpAutoDisconnect n) h = disconnectAutoManaged w n h"

definition path_ok :: "world \<Rightarrow> helper \<Rightarrow> bool" where
  "path_ok w h \<longleftrightarrow> h_waived h = [] \<and> (\<exists>x. claimants w h \<subseteq> {x})"

lemma path_ok_mono: "path_ok w h \<Longrightarrow> h_waived h' = h_waived h \<Longrightarrow> claimants w h' \<subseteq> claimants w h \<Longrightarrow> path_ok w h'"
  unfolding path_ok_def by (metis subset_trans)

lemma blockers_empty:
  "w_store w \<Longrightarrow> dnsPathMasterEnabled w \<Longrightarrow> dnsPathBlockers w h n = [] \<Longrightarrow> claimants w h \<subseteq> {n}"
  by (fastforce simp: dnsPathBlockers_def claimants_def wants_path_def filter_empty_conv dest: map_of_SomeD split: option.splits)

lemma claims_iff:
  "h_waived h = [] \<Longrightarrow> tunnelClaimsDNSPath w h n \<longleftrightarrow> n \<noteq> '''' \<and> w_store w \<and> dnsPathMasterEnabled w \<and> wants_path w n"
  by (auto simp: tunnelClaimsDNSPath_def dnsPathClaimWaived_def wants_path_def split: option.splits)

lemma active_frames [simp]:
  "h_active (applyPostConnectFirewall w cfg h) = h_active h" "h_waived (applyPostConnectFirewall w cfg h) = h_waived h"
  "h_active (resumeAutoConnect n h) = h_active h" "h_waived (resumeAutoConnect n h) = h_waived h"
  "h_active (scheduleRuleCheck w h) = h_active h" "h_waived (scheduleRuleCheck w h) = h_waived h"
  "h_waived (pauseForAddressConflict a b c d h) = h_waived h"
  "h_active (recordAutoConnectFailure w n h) = h_active h" "h_waived (recordAutoConnectFailure w n h) = h_waived h"
  "h_active (clearAutoConnectBackoff n h) = h_active h" "h_waived (clearAutoConnectBackoff n h) = h_waived h"
  "h_active (endDNSPathWait n h) = h_active h" "h_waived (endDNSPathWait n h) = h_waived h"
  "h_active (maybeArmShutdownAfterTeardown w h) = h_active h" "h_waived (maybeArmShutdownAfterTeardown w h) = h_waived h"
  "h_active (clearDNSPathWaiver n h) = h_active h"
  "h_active (clearDNSPathIfOwner w n h) = h_active h" "h_waived (clear_caches n h) = h_waived h"
  by (simp_all add: applyPostConnectFirewall_def resumeAutoConnect_def scheduleRuleCheck_def pauseForAddressConflict_def
    recordAutoConnectFailure_def clearAutoConnectBackoff_def endDNSPathWait_def maybeArmShutdownAfterTeardown_def
    armShutdownTimer_def clearDNSPathWaiver_def clearDNSPathIfOwner_def disable_dns_def clear_caches_def Let_def
    split: option.splits)

lemma waiver_empty [simp]: "h_waived h = [] \<Longrightarrow> h_waived (clearDNSPathWaiver n h) = []"
  "h_waived h = [] \<Longrightarrow> h_waived (clearDNSPathIfOwner w n h) = []"
  by (simp_all add: clearDNSPathWaiver_def clearDNSPathIfOwner_def disable_dns_def Let_def)

lemma mgr_frames:
  "mgr_connect w ctx cfg h = (h', r) \<Longrightarrow> h_active h' = h_active h \<and> h_waived h' = h_waived h"
  by (auto simp: mgr_connect_def split: prod.splits)

text \<open>A connect adds at most its own name to the active tunnels.\<close>

lemma doConnectHeld_active:
  assumes "doConnectHeld w cfg h = (h', r)"
  shows "h_waived h' = h_waived h \<and> claimants w h' \<subseteq> insert (cfg_name cfg) (claimants w h)"
proof (cases rule: doConnectHeld_cases[of w cfg h])
  case refused
  with assms show ?thesis by auto
next
  case (failed cfg' h1 h2 err)
  with assms mgr_frames[OF failed(4)] show ?thesis
    by (auto simp: claimants_def AList.update_conv' AList.delete_conv' split: option.splits if_splits)
next
  case (ok cfg' h1 h2)
  with assms mgr_frames[OF ok(4)] show ?thesis
    by (auto simp: claimants_def AList.update_conv' split: if_splits)
qed

text \<open>So it keeps the path exclusive when its tunnel does not want it, or when nobody else has it.\<close>

lemma doConnectHeld_path:
  assumes "path_ok w h" and "\<not> wants_path w (cfg_name cfg) \<or> claimants w h \<subseteq> {cfg_name cfg}"
    and "doConnectHeld w cfg h = (h', r)"
  shows "path_ok w h'"
proof -
  have "claimants w h' \<subseteq> {n. wants_path w n}" by (auto simp: claimants_def)
  then have "claimants w h' \<subseteq> claimants w h \<or> claimants w h' \<subseteq> {cfg_name cfg}"
    using doConnectHeld_active[OF assms(3)] assms(2) by blast
  then show ?thesis
    using doConnectHeld_active[OF assms(3)] assms(1) path_ok_mono[OF assms(1), of h']
    by (auto simp: path_ok_def)
qed

definition path_world :: "world \<Rightarrow> bool" where
  "path_world w \<longleftrightarrow> w_store w \<and> dnsPathMasterEnabled w \<and> w_meta w '''' = None \<and> names_loaded w"

lemma claim_open:
  assumes "path_world w" and "path_ok w h" and "\<not> (tunnelClaimsDNSPath w h n \<and> dnsPathBlockers w h n \<noteq> [])"
  shows "\<not> wants_path w n \<or> claimants w h \<subseteq> {n}"
proof -
  have "wants_path w n \<Longrightarrow> tunnelClaimsDNSPath w h n"
    using assms(1,2) by (auto simp: claims_iff path_ok_def path_world_def wants_path_def)
  then show ?thesis using assms(1,3) blockers_empty by (auto simp: path_world_def)
qed


lemma connect_locked_path:
  assumes "path_ok w h" and "\<not> wants_path w (cfg_name cfg) \<or> claimants w h \<subseteq> {cfg_name cfg}"
  shows "path_ok w (fst (connect_locked w cfg h))"
proof -
  obtain h1 r where run: "doConnectHeld w cfg h = (h1, r)" by fastforce
  note ok = doConnectHeld_path[OF assms run]
  have same: "path_ok w h'" if "h_active h' = h_active h1" "h_waived h' = h_waived h1" for h'
    using ok that by (simp add: path_ok_def claimants_def)
  show ?thesis using assms(1) ok
    by (cases r) (auto simp: connect_locked_def run intro!: same split: option.splits)
qed

lemma handleConnect_path:
  assumes "path_world w" and "path_ok w h" and "answer \<noteq> AwaitClear"
  shows "path_ok w (fst (handleConnect w answer cfg h))"
proof -
  let ?n = "cfg_name cfg" and ?h1 = "clearDNSPathWaiver (cfg_name cfg) h"
  have h1: "path_ok w ?h1" using assms(2) by (auto simp: path_ok_def claimants_def)
  show ?thesis
  proof (cases "tunnelClaimsDNSPath w ?h1 ?n \<and> dnsPathBlockers w ?h1 ?n \<noteq> []")
    case False
    then have "await_enter w ?n ?h1 = (?h1, AwaitClear)" by (auto simp: await_enter_def)
    with connect_locked_path[OF h1 claim_open[OF assms(1) h1 False]] show ?thesis by (simp add: handleConnect_def)
  next
    case True
    have same: "path_ok w h'" if "h_active h' = h_active ?h1" "h_waived h' = h_waived ?h1" for h'
      using h1 that by (simp add: path_ok_def claimants_def)
    from True assms(3) show ?thesis
      by (auto simp: handleConnect_def await_enter_def Let_def beginDNSPathWait_def endDNSPathWait_def intro!: same)
  qed
qed

lemma automationConnect_path:
  assumes "path_world w" and "path_ok w h"
  shows "path_ok w (automationConnect w n ssid h)"
proof (cases "policyBlockFor w h n = None \<and> \<not> (tunnelClaimsDNSPath w h n \<and> dnsPathBlockers w h n \<noteq> [])")
  case False
  have same: "path_ok w h'" if "h_active h' = h_active h" "h_waived h' = h_waived h" for h'
    using assms(2) that by (simp add: path_ok_def claimants_def)
  from False assms(2) show ?thesis
    by (auto simp: automation_connect_defs intro!: same split: option.splits)
next
  case True
  show ?thesis
  proof (cases "if w_store w then w_load w n else None")
    case None
    with True assms(2) show ?thesis by (simp add: automationConnect_open)
  next
    case (Some cfg)
    then have name: "cfg_name cfg = n" using assms(1) by (auto simp: path_world_def names_loaded_def split: if_splits)
    obtain h1 r where run: "doConnectHeld w cfg h = (h1, r)" by fastforce
    have ok: "path_ok w h1"
      using doConnectHeld_path[OF assms(2) _ run] claim_open[OF assms conjunct2[OF True]] by (simp add: name)
    have same: "path_ok w h'" if "h_active h' = h_active h1" "h_waived h' = h_waived h1" for h'
      using ok that by (simp add: path_ok_def claimants_def)
    show ?thesis
      unfolding automationConnect_open[OF conjunct1[OF True] conjunct2[OF True]] Some option.case run
      by (cases r) (auto simp: connect_outcome_def Let_def intro!: same split: option.splits)
  qed
qed

lemma clear_caches_claimants: "claimants w (clear_caches n h) \<subseteq> claimants w h"
  by (auto simp: claimants_def clear_caches_def AList.delete_conv' split: if_splits)

lemma disconnects_path:
  assumes "path_ok w h"
  shows "path_ok w (fst (disconnect_named w n h)) \<and> path_ok w (disconnectAutoManaged w n h)"
proof -
  let ?h0 = "emit (CancelRetryFor n) h"
  obtain h1 r where run: "mgr_disconnect w n ?h0 = (h1, r)" by fastforce
  have h1: "path_ok w h1" using assms mgr_disconnect_frame[OF run] by (simp add: path_ok_def claimants_def)
  have c1: "path_ok w (clear_caches n h1)" by (rule path_ok_mono[OF h1]) (simp_all add: clear_caches_claimants)
  then have w: "h_waived h1 = []" by (simp add: path_ok_def)
  have "path_ok w (clear_caches n (clearDNSPathIfOwner w n h1))"
    by (rule path_ok_mono[OF c1]) (use w in \<open>auto simp: claimants_def clear_caches_def AList.delete_conv' split: if_splits\<close>)
  moreover have "path_ok w (clearDNSPathIfOwner w n (clear_caches n h1))"
    by (rule path_ok_mono[OF c1]) (use w in \<open>auto simp: claimants_def\<close>)
  moreover have "path_ok w (maybeArmShutdownAfterTeardown w x)" if "path_ok w x" for x
    by (rule path_ok_mono[OF that]) (simp_all add: claimants_def)
  ultimately show ?thesis using h1
    by (cases r) (simp_all add: disconnect_named_def disconnectAutoManaged_def run)
qed

fun path_op_ok :: "path_op \<Rightarrow> bool" where
  "path_op_ok (OpConnect cfg answer) \<longleftrightarrow> answer \<noteq> AwaitClear"
| "path_op_ok (OpDisconnect n) \<longleftrightarrow> n \<noteq> ''''"
| "path_op_ok _ \<longleftrightarrow> True"

lemma path_step: "path_world w \<Longrightarrow> path_ok w h \<Longrightarrow> path_op_ok e \<Longrightarrow> path_ok w (path_run w e h)"
  by (cases e) (simp_all add: handleConnect_path automationConnect_path disconnects_path handleDisconnect_def)

text \<open>C10: the DNS resolve path is exclusive among operations that run one after the other. From a fresh helper, after any sequence of manual connects (none of which goes on after it had to wait for the path), automation connects that find the lock free, and disconnects, with the settings and the options of the tunnels unchanged and the master switch on, at most one connected tunnel claims the path.\<close>

theorem dns_path_exclusive:
  assumes "path_world w" and "list_all path_op_ok es"
    and "a \<in> claimants w (foldl (\<lambda>h e. path_run w e h) helper0 es)"
    and "b \<in> claimants w (foldl (\<lambda>h e. path_run w e h) helper0 es)"
  shows "a = b"
proof -
  have "path_ok w (foldl (\<lambda>h e. path_run w e h) h es)" if "path_ok w h" for h
    using that assms(2) by (induction es arbitrary: h) (simp_all add: path_step[OF assms(1)])
  moreover have "path_ok w helper0" by (simp add: path_ok_def claimants_def helper0_def)
  ultimately show ?thesis using assms(3,4) by (auto simp: path_ok_def)
qed

lemma demo_path_world: "path_world demo_world"
proof -
  have "dnsPathMasterEnabled demo_world" "w_meta demo_world '''' = None" by code_simp+
  then show ?thesis using demo_names_loaded by (simp add: path_world_def demo_world_def)
qed

lemma up_a_claims: "path_ok demo_world up_a \<and> ''a'' \<in> claimants demo_world up_a"
proof -
  have "path_ok demo_world helper0" by (simp add: path_ok_def claimants_def helper0_def)
  from handleConnect_path[OF demo_path_world this, of AwaitCancelled "demo_tunnel ''a''"]
  have "path_ok demo_world up_a" by (simp add: up_a_def)
  moreover have "wants_path demo_world ''a''" by code_simp
  moreover have "map_of (h_active up_a) ''a'' \<noteq> None" by code_simp
  ultimately show ?thesis by (simp add: claimants_def)
qed

text \<open>A second tunnel that wants the path parks.\<close>

lemma b_parks: "claimants demo_world (fst (handleConnect demo_world AwaitCancelled (demo_tunnel ''b'') up_a)) = claimants demo_world up_a"
proof -
  let ?h = "clearDNSPathWaiver ''b'' up_a"
  have w: "h_waived ?h = []" using up_a_claims by (simp add: path_ok_def)
  have facts: "wants_path demo_world ''b''" "w_store demo_world" "dnsPathMasterEnabled demo_world" "w_control demo_world" by code_simp+
  have "''a'' \<in> claimants demo_world ?h" using up_a_claims by (simp add: claimants_def)
  then have "dnsPathBlockers demo_world ?h ''b'' \<noteq> []" using blockers_empty[OF facts(2,3)] by fastforce
  moreover have "tunnelClaimsDNSPath demo_world ?h ''b''" by (simp add: claims_iff[OF w] facts)
  ultimately show ?thesis using facts(4)
    by (simp add: handleConnect_def await_enter_def Let_def demo_tunnel_def claimants_def beginDNSPathWait_def endDNSPathWait_def)
qed

theorem dns_path_exclusive_witness:
  "''a'' \<in> claimants demo_world (foldl (\<lambda>h e. path_run demo_world e h) helper0 [OpConnect (demo_tunnel ''a'') AwaitCancelled, OpConnect (demo_tunnel ''b'') AwaitCancelled]) \<and>
   ''b'' \<notin> claimants demo_world (foldl (\<lambda>h e. path_run demo_world e h) helper0 [OpConnect (demo_tunnel ''a'') AwaitCancelled, OpConnect (demo_tunnel ''b'') AwaitCancelled])"
proof -
  let ?es = "[OpConnect (demo_tunnel ''a'') AwaitCancelled, OpConnect (demo_tunnel ''b'') AwaitCancelled]"
  let ?h = "foldl (\<lambda>h e. path_run demo_world e h) helper0 ?es"
  have a: "''a'' \<in> claimants demo_world ?h" using up_a_claims b_parks by (simp add: up_a_def)
  have "''b'' \<in> claimants demo_world ?h \<Longrightarrow> ''b'' = ''a''"
    by (rule dns_path_exclusive[OF demo_path_world _ _ a]) simp_all
  with a show ?thesis by fastforce
qed

section \<open>Overlapping connects\<close>

text \<open>
  \<open>handleConnect\<close> asks whether the path is free before it takes \<open>connectMu\<close> and does not ask again. Two
  connects that both ask before either has connected both proceed.
\<close>

lemma connect_locked_active:
  "snd (connect_locked w cfg h) = None \<Longrightarrow> map_of (h_active (fst (connect_locked w cfg h))) (cfg_name cfg) \<noteq> None \<and>
     (\<forall>n. map_of (h_active h) n \<noteq> None \<longrightarrow> map_of (h_active (fst (connect_locked w cfg h))) n \<noteq> None)"
proof -
  assume ok: "snd (connect_locked w cfg h) = None"
  then have v: "Validate cfg = []" by (auto simp: connect_locked_def split: if_splits)
  obtain h1 r where run: "doConnectHeld w cfg h = (h1, r)" by fastforce
  have r: "r = None" using ok v run by (cases r) (auto simp: connect_locked_def)
  have "map_of (h_active h1) (cfg_name cfg) \<noteq> None \<and> (\<forall>n. map_of (h_active h) n \<noteq> None \<longrightarrow> map_of (h_active h1) n \<noteq> None)"
  proof (cases rule: doConnectHeld_cases[of w cfg h])
    case (ok cfg' h1' h2)
    with run mgr_frames[OF ok(4)] show ?thesis by (auto simp: AList.update_conv')
  qed (use run r in auto)
  then show ?thesis by (simp add: connect_locked_def v run r)
qed

text \<open>So does an automation connect that waits for the lock while a manual one, of another tunnel that wants the path, has it.\<close>

lemma automation_race:
  "(let h = automationConnect_waiting demo_world (\<lambda>(w, h). (w, fst (handleConnect w AwaitCancelled (demo_tunnel ''b'') h))) ''a'' ''home'' helper0
    in map_of (h_active h) ''a'' \<noteq> None \<and> map_of (h_active h) ''b'' \<noteq> None) \<and>
   wants_path demo_world ''a'' \<and> wants_path demo_world ''b''"
  by code_simp

theorem dns_path_race:
  "\<exists>w h a b. snd (await_enter w (cfg_name a) h) = AwaitClear \<and> snd (await_enter w (cfg_name b) h) = AwaitClear \<and>
     snd (connect_locked w a h) = None \<and> snd (connect_locked w b (fst (connect_locked w a h))) = None \<and>
     cfg_name a \<noteq> cfg_name b \<and>
     {cfg_name a, cfg_name b} \<subseteq> claimants w (fst (connect_locked w b (fst (connect_locked w a h))))"
proof -
  let ?w = demo_world and ?a = "demo_tunnel ''a''" and ?b = "demo_tunnel ''b''"
  have names: "cfg_name ?a = ''a''" "cfg_name ?b = ''b''" by (simp_all add: demo_tunnel_def)
  have free: "snd (await_enter ?w ''a'' helper0) = AwaitClear" "snd (await_enter ?w ''b'' helper0) = AwaitClear" by code_simp+
  have c1: "snd (connect_locked ?w ?a helper0) = None" by code_simp
  have c2: "snd (connect_locked ?w ?b (fst (connect_locked ?w ?a helper0))) = None" by code_simp
  have wants: "wants_path ?w ''a''" "wants_path ?w ''b''" by code_simp+
  have "{''a'', ''b''} \<subseteq> claimants ?w (fst (connect_locked ?w ?b (fst (connect_locked ?w ?a helper0))))"
    using connect_locked_active[OF c1] connect_locked_active[OF c2] wants by (simp add: claimants_def names)
  with free c1 c2 show ?thesis by (intro exI[of _ ?w] exI[of _ helper0] exI[of _ ?a] exI[of _ ?b]) (simp add: names)
qed

end
