(* ===== verification/GoURL.thy ===== *)
theory GoURL
  imports GoStrings
begin

text \<open>
  The part of Go's \<open>net/url\<close> the update client relies on: the scheme and the host name that \<open>url.Parse\<close>
  reads out of an URL, and its errors. A host with a percent escape is refused (Go refuses it too unless
  the escape stands for a byte above 0x7F or an IPv6 zone).
\<close>

section \<open>Character classes\<close>

definition is_letter :: "char \<Rightarrow> bool" where
  "is_letter c \<longleftrightarrow> (let n = of_char c :: int in (65 \<le> n \<and> n \<le> 90) \<or> (97 \<le> n \<and> n \<le> 122))"

definition is_digit :: "char \<Rightarrow> bool" where
  "is_digit c \<longleftrightarrow> digit_val c \<noteq> None"

definition url_hex :: "char \<Rightarrow> bool" where
  "url_hex c \<longleftrightarrow> (let n = of_char c :: int in (48 \<le> n \<and> n \<le> 57) \<or> (65 \<le> n \<and> n \<le> 70) \<or> (97 \<le> n \<and> n \<le> 102))"

definition is_ctl :: "char \<Rightarrow> bool" where
  "is_ctl c \<longleftrightarrow> (let n = of_char c :: int in n < 32 \<or> n = 127)"

definition user_char :: "char \<Rightarrow> bool" where
  "user_char c \<longleftrightarrow> is_letter c \<or> is_digit c \<or> c \<in> set ''-._:~!$&()*+,;=%@'' \<or> c = CHR 0x27"

definition url_host_char :: "char \<Rightarrow> bool" where
  "url_host_char c \<longleftrightarrow> is_letter c \<or> is_digit c \<or> c \<in> set ''-_.~!$&()*+,;=:[]<>'' \<or> c = CHR 0x27 \<or> c = CHR 0x22
     \<or> 128 \<le> (of_char c :: int)"

text \<open>Every percent sign starts an escape of two hexadecimal digits.\<close>

fun escapes_ok :: "string \<Rightarrow> bool" where
  "escapes_ok [] = True"
| "escapes_ok (c # s) =
     (if c = CHR ''%'' then (case s of a # b # r \<Rightarrow> url_hex a \<and> url_hex b \<and> escapes_ok r | _ \<Rightarrow> False)
      else escapes_ok s)"

text \<open>The text before the first occurrence of a character, and the text before and after the last one.\<close>

definition before :: "char \<Rightarrow> string \<Rightarrow> string" where
  "before c s = (case str_cut c s of None \<Rightarrow> s | Some (a, b) \<Rightarrow> a)"

definition after :: "char \<Rightarrow> string \<Rightarrow> string" where
  "after c s = (case str_cut c s of None \<Rightarrow> '''' | Some (a, b) \<Rightarrow> b)"

definition url_cut_last :: "char \<Rightarrow> string \<Rightarrow> (string \<times> string) option" where
  "url_cut_last c s = map_option (\<lambda>(a, b). (rev b, rev a)) (str_cut c (rev s))"

section \<open>Parsing\<close>

text \<open>\<open>getScheme\<close>: \<open>None\<close> is the error for a leading colon.\<close>

fun get_scheme :: "string \<Rightarrow> string \<Rightarrow> string \<Rightarrow> (string \<times> string) option" where
  "get_scheme raw acc [] = Some ('''', raw)"
| "get_scheme raw acc (c # s) =
     (if is_letter c then get_scheme raw (acc @ [c]) s
      else if is_digit c \<or> c \<in> set ''+-.'' then (if acc = [] then Some ('''', raw) else get_scheme raw (acc @ [c]) s)
      else if c = CHR '':'' then (if acc = [] then None else Some (acc, s))
      else Some ('''', raw))"

definition valid_port :: "string \<Rightarrow> bool" where
  "valid_port p \<longleftrightarrow> p = '''' \<or> (hd p = CHR '':'' \<and> list_all is_digit (tl p))"

text \<open>\<open>parseHost\<close> and \<open>parseAuthority\<close>: the host with its port.\<close>

definition parse_host :: "string \<Rightarrow> string option" where
  "parse_host h =
     (let port_ok = (if has_prefix h ''['' then (case url_cut_last CHR '']'' h of None \<Rightarrow> False | Some (a, p) \<Rightarrow> valid_port p)
                     else (case url_cut_last CHR '':'' h of None \<Rightarrow> True | Some (a, p) \<Rightarrow> valid_port (CHR '':'' # p)))
      in if port_ok \<and> list_all url_host_char h then Some h else None)"

definition parse_authority :: "string \<Rightarrow> string option" where
  "parse_authority a =
     (case url_cut_last CHR ''@'' a of
        None \<Rightarrow> parse_host a
      | Some (user, h) \<Rightarrow> (if list_all user_char user \<and> escapes_ok user then parse_host h else None))"

record url =
  url_scheme :: string
  url_hostport :: string

definition url_Parse :: "string \<Rightarrow> url option" where
  "url_Parse raw =
     (let u = before CHR ''#'' raw; frag = after CHR ''#'' raw
      in if list_ex is_ctl u \<or> \<not> escapes_ok frag then None
         else if u = ''*'' then Some \<lparr>url_scheme = '''', url_hostport = ''''\<rparr>
         else case get_scheme u [] u of
           None \<Rightarrow> None
         | Some (scheme, rest0) \<Rightarrow>
             (let scheme = to_lower scheme; rest = before CHR ''?'' rest0
              in if \<not> has_prefix rest ''/'' \<and> scheme \<noteq> '''' then Some \<lparr>url_scheme = scheme, url_hostport = ''''\<rparr>
                 else if \<not> has_prefix rest ''/'' \<and> CHR '':'' \<in> set (before CHR ''/'' rest) then None
                 else if has_prefix rest ''//'' \<and> (scheme \<noteq> '''' \<or> \<not> has_prefix rest ''///'') then
                   (let auth = before CHR ''/'' (drop 2 rest); path = drop (2 + length auth) rest
                    in case parse_authority auth of
                         None \<Rightarrow> None
                       | Some h \<Rightarrow> (if escapes_ok path then Some \<lparr>url_scheme = scheme, url_hostport = h\<rparr> else None))
                 else if escapes_ok rest then Some \<lparr>url_scheme = scheme, url_hostport = ''''\<rparr>
                 else None))"

text \<open>\<open>URL.Hostname\<close>: the host without its port and brackets.\<close>

definition Hostname :: "url \<Rightarrow> string" where
  "Hostname u =
     (let h = url_hostport u
      in if CHR '':'' \<notin> set h then h
         else case str_cut CHR '']'' h of Some (a, b) \<Rightarrow> trim_prefix a ''['' | None \<Rightarrow> before CHR '':'' h)"

end
