(* ===== verification/UpdateFeed.thy ===== *)
theory UpdateFeed
  imports GoURL
begin

text \<open>
  The update client (\<open>internal/update\<close>): version comparison, checksum files, the choice of the release
  asset, the guarded HTTP requests, the check, the download with its verification, the installer gate and
  the scheduler with its persisted state. The server, SHA-256, Ed25519, the JSON decoder and the disk are
  fields of the world.
\<close>

section \<open>Versions\<close>

definition stripSuffix :: "string \<Rightarrow> string" where
  "stripSuffix v = before CHR ''-'' (before CHR ''+'' v)"

fun parse_ints :: "string list \<Rightarrow> int list option" where
  "parse_ints [] = Some []"
| "parse_ints (s # ss) = (case atoi s of None \<Rightarrow> None | Some n \<Rightarrow> map_option (Cons n) (parse_ints ss))"

definition parseParts :: "string \<Rightarrow> int list option" where
  "parseParts v = (let v = stripSuffix v in if v = '''' then None else parse_ints (split_on CHR ''.'' v))"

fun newer_parts :: "int list \<Rightarrow> int list \<Rightarrow> bool" where
  "newer_parts (l # ls) (c # cs) = (if c < l then True else if l < c then False else newer_parts ls cs)"
| "newer_parts ls cs = (length cs < length ls)"

definition isNewerVersion :: "string \<Rightarrow> string \<Rightarrow> bool" where
  "isNewerVersion latest current =
     (case (parseParts latest, parseParts current) of
        (Some lp, Some cp) \<Rightarrow> newer_parts lp cp
      | _ \<Rightarrow> False)"

definition devBuildMarkers :: "string list" where
  "devBuildMarkers = [''-dev'', ''-snap'', ''-pre'']"

definition IsDevBuild :: "string \<Rightarrow> bool" where
  "IsDevBuild currentVersion = list_ex (str_contains (to_lower currentVersion)) devBuildMarkers"

section \<open>Checksum files\<close>

definition isHexString :: "string \<Rightarrow> bool" where
  "isHexString s \<longleftrightarrow> s \<noteq> '''' \<and> list_all url_hex s"

definition blank :: "char \<Rightarrow> bool" where
  "blank c \<longleftrightarrow> c = CHR '' '' \<or> c = CHR 0x09"

text \<open>\<open>\\s\<close> of the regular expression.\<close>

definition re_space :: "char \<Rightarrow> bool" where
  "re_space c \<longleftrightarrow> c \<in> {CHR '' '', CHR 0x09, CHR 0x0A, CHR 0x0C, CHR 0x0D}"

text \<open>The part after the file name: \<open>\\s*\\)\\s*=\\s*([0-9a-fA-F]+)\\s*$\<close>; the hash it captures.\<close>

definition bsd_tail :: "string \<Rightarrow> string option" where
  "bsd_tail s =
     (case dropWhile re_space s of
        [] \<Rightarrow> None
      | c # s1 \<Rightarrow>
          (if c \<noteq> CHR '')'' then None
           else case dropWhile re_space s1 of
             [] \<Rightarrow> None
           | e # s2 \<Rightarrow>
               (let h = dropWhile re_space s2; hash = takeWhile url_hex h
                in if e = CHR ''='' \<and> hash \<noteq> '''' \<and> list_all re_space (dropWhile url_hex h) then Some hash else None)))"

text \<open>The lazy group \<open>(.+?)\<close>: the shortest non-empty name after which the tail matches.\<close>

fun bsd_name :: "string \<Rightarrow> string \<Rightarrow> (string \<times> string) option" where
  "bsd_name acc [] = None"
| "bsd_name acc (c # s) =
     (if c = CHR 0x0A then None
      else case bsd_tail s of Some hash \<Rightarrow> Some (acc @ [c], hash) | None \<Rightarrow> bsd_name (acc @ [c]) s)"

text \<open>The greedy \<open>\\s*\<close> before it gives back one blank at a time.\<close>

fun bsd_group :: "nat \<Rightarrow> string \<Rightarrow> (string \<times> string) option" where
  "bsd_group 0 s = bsd_name [] s"
| "bsd_group (Suc k) s = (case bsd_name [] (drop (Suc k) s) of Some m \<Rightarrow> Some m | None \<Rightarrow> bsd_group k s)"

definition bsd_match :: "string \<Rightarrow> (string \<times> string) option" where
  "bsd_match line =
     (if \<not> has_prefix line ''SHA256'' then None
      else case dropWhile re_space (drop 6 line) of
        [] \<Rightarrow> None
      | c # s \<Rightarrow> (if c = CHR ''('' then bsd_group (length (takeWhile re_space s)) s else None))"

definition matchBSDChecksumLine :: "string \<Rightarrow> string \<Rightarrow> string" where
  "matchBSDChecksumLine line assetName =
     (case bsd_match line of
        None \<Rightarrow> ''''
      | Some (name, hash) \<Rightarrow> (if equal_fold name assetName then hash else ''''))"

definition checksum_line :: "string \<Rightarrow> string \<Rightarrow> string" where
  "checksum_line line0 assetName =
     (let line = trim_space line0
      in if line = '''' \<or> has_prefix line ''#'' then ''''
         else if matchBSDChecksumLine line assetName \<noteq> '''' then matchBSDChecksumLine line assetName
         else let hash = takeWhile (\<lambda>c. \<not> blank c) line
              in if hash = line then ''''
                 else let filename = trim_prefix (dropWhile blank (drop (length hash) line)) ''*''
                      in if isHexString hash \<and> equal_fold filename assetName then hash else '''')"

fun first_hash :: "string \<Rightarrow> string list \<Rightarrow> string" where
  "first_hash assetName [] = ''''"
| "first_hash assetName (l # ls) =
     (if checksum_line l assetName \<noteq> '''' then checksum_line l assetName else first_hash assetName ls)"

definition parseExpectedHash :: "string \<Rightarrow> string \<Rightarrow> string" where
  "parseExpectedHash body assetName = first_hash assetName (split_on CHR 0x0A body)"

section \<open>Release assets\<close>

record asset =
  as_name :: string
  as_url :: string
  as_size :: int

record release =
  rl_tag :: string
  rl_body :: string
  rl_html :: string
  rl_assets :: "asset list"

definition archTokens :: "string \<Rightarrow> string list" where
  "archTokens arch =
     (if arch = ''386'' then [''386'', ''x86'', ''i386'', ''i686'', ''32bit'']
      else if arch = ''arm64'' then [''arm64'', ''aarch64'']
      else [arch])"

definition boundary :: "char \<Rightarrow> bool" where
  "boundary c \<longleftrightarrow> c = CHR ''-'' \<or> c = CHR ''_'' \<or> c = CHR ''.''"

fun anchored_from :: "bool \<Rightarrow> string \<Rightarrow> string \<Rightarrow> bool" where
  "anchored_from left token [] = False"
| "anchored_from left token (c # s) =
     ((has_prefix (c # s) token \<and> left \<and>
       (case drop (length token) (c # s) of [] \<Rightarrow> True | d # _ \<Rightarrow> boundary d))
      \<or> anchored_from (boundary c) token s)"

definition matchTokenAnchored :: "string \<Rightarrow> string \<Rightarrow> bool" where
  "matchTokenAnchored name token = anchored_from True token name"

definition preferredExtensions :: "string \<Rightarrow> string list" where
  "preferredExtensions goos =
     (if goos = ''darwin'' then [''.dmg'', ''.zip'', ''.pkg'']
      else if goos = ''linux'' then [''.tar.gz'', ''.tar.xz'', ''.deb'', ''.rpm'', ''.appimage'']
      else if goos = ''windows'' then [''.exe'', ''.msi'', ''.zip'']
      else [''.zip'', ''.tar.gz''])"

definition assetMatchesOSArch :: "string \<Rightarrow> string list \<Rightarrow> string \<Rightarrow> bool" where
  "assetMatchesOSArch name osNames arch =
     (if \<not> list_ex (matchTokenAnchored name) (archTokens arch) then False
      else if list_ex (matchTokenAnchored name) osNames then True
      else if hd osNames = ''windows'' then
        has_suffix name ''.exe'' \<or> has_suffix name ''.msi'' \<or> has_suffix name ''.zip''
      else False)"

definition os_names :: "string \<Rightarrow> string list" where
  "os_names goos =
     goos # (if goos = ''darwin'' then [''macos'', ''osx''] else if goos = ''windows'' then [''win'', ''win64''] else [])"

definition matchAsset :: "string \<Rightarrow> string \<Rightarrow> asset list \<Rightarrow> string" where
  "matchAsset goos arch assets =
     (let fits = (\<lambda>a. assetMatchesOSArch (to_lower (as_name a)) (os_names goos) arch);
          pass1 = concat (map (\<lambda>ext. filter (\<lambda>a. has_suffix (to_lower (as_name a)) ext \<and> fits a) assets) (preferredExtensions goos))
      in case pass1 @ filter fits assets of [] \<Rightarrow> '''' | a # _ \<Rightarrow> as_name a)"

definition isCanonicalChecksumName :: "string \<Rightarrow> bool" where
  "isCanonicalChecksumName name \<longleftrightarrow>
     to_lower name \<in> set [''sha256sums'', ''sha256sums.txt'', ''checksums.txt'', ''checksums'', ''sha256.txt'', ''shasums'']"

text \<open>The loop over the assets: the last asset of that name and the first canonical checksum file.\<close>

fun asset_urls :: "string \<Rightarrow> asset list \<Rightarrow> string \<times> int \<times> string \<Rightarrow> string \<times> int \<times> string" where
  "asset_urls assetName [] acc = acc"
| "asset_urls assetName (a # others) (dl, sz, sums) =
     (let (dl', sz') = (if as_name a = assetName then (as_url a, as_size a) else (dl, sz));
          sums' = (if isCanonicalChecksumName (as_name a) \<and> sums = '''' then as_url a else sums)
      in asset_urls assetName others (dl', sz', sums'))"

section \<open>The world of one operation\<close>

text \<open>What the server answers to one request; a redirect carries its resolved location.\<close>

record http_resp =
  rs_status :: int
  rs_etag :: string
  rs_modified :: string
  rs_length :: int
  rs_body :: string

datatype reply = NoReply | RedirectTo string | Response http_resp

record update_world =
  uw_version :: string
  uw_goos :: string
  uw_goarch :: string
  uw_pubkey :: string
  uw_require :: bool
  uw_proxy :: "(string \<times> string) option"
  uw_server :: "string \<Rightarrow> string \<Rightarrow> string \<Rightarrow> reply"
  uw_decode :: "string \<Rightarrow> release option"
  uw_unhex :: "string \<Rightarrow> string option"
  uw_sha256 :: "string \<Rightarrow> string"
  uw_ed25519 :: "string \<Rightarrow> string \<Rightarrow> string \<Rightarrow> bool"
  uw_temp_ok :: bool
  uw_copy_ok :: bool
  uw_install_ok :: bool
  uw_brew :: bool
  uw_brew_ok :: bool
  uw_save_ok :: bool

section \<open>URLs the client may contact\<close>

definition githubRepo :: string where
  "githubRepo = ''imonior/wireguide-plus''"

definition apiEndpoint :: string where
  "apiEndpoint = ''https://api.github.com/repos/'' @ githubRepo @ ''/releases/latest''"

definition minAssetSize :: int where
  "minAssetSize = 1048576"

definition allowedRedirectHosts :: "string list" where
  "allowedRedirectHosts =
     [''api.github.com'', ''github.com'', ''objects.githubusercontent.com'',
      ''release-assets.githubusercontent.com'', ''codeload.github.com'']"

definition checkUpdateURLStrict :: "url \<Rightarrow> bool" where
  "checkUpdateURLStrict u \<longleftrightarrow> url_scheme u = ''https'' \<and> Hostname u \<in> set allowedRedirectHosts"

definition checkUpdateURL :: "update_world \<Rightarrow> url \<Rightarrow> bool" where
  "checkUpdateURL w u =
     (case uw_proxy w of
        Some (mode, purl) \<Rightarrow>
          (if mode = ''mirror'' \<and> purl \<noteq> '''' then
             (case url_Parse purl of
                Some mp \<Rightarrow> Hostname mp = Hostname u \<or> checkUpdateURLStrict u
              | None \<Rightarrow> checkUpdateURLStrict u)
           else checkUpdateURLStrict u)
      | None \<Rightarrow> checkUpdateURLStrict u)"

definition checkUpdateRawURL :: "update_world \<Rightarrow> string \<Rightarrow> bool" where
  "checkUpdateRawURL w raw = (case url_Parse raw of None \<Rightarrow> False | Some u \<Rightarrow> checkUpdateURL w u)"

definition trim_right_slashes :: "string \<Rightarrow> string" where
  "trim_right_slashes s = rev (dropWhile (\<lambda>c. c = CHR ''/'') (rev s))"

definition ValidMirrorPrefix :: "string \<Rightarrow> bool" where
  "ValidMirrorPrefix prefix =
     (case url_Parse (trim_right_slashes (trim_space prefix)) of
        None \<Rightarrow> False
      | Some u \<Rightarrow> Hostname u \<noteq> '''' \<and> (url_scheme u = ''http'' \<or> url_scheme u = ''https''))"

definition mirrorEndpoint :: "string \<Rightarrow> string" where
  "mirrorEndpoint prefix0 =
     (let prefix = trim_right_slashes (trim_space prefix0)
      in if prefix = '''' \<or> \<not> ValidMirrorPrefix prefix then apiEndpoint else prefix @ ''/'' @ apiEndpoint)"

definition resolvedEndpoint :: "update_world \<Rightarrow> string" where
  "resolvedEndpoint w =
     (case uw_proxy w of
        Some (mode, purl) \<Rightarrow> (if mode = ''mirror'' \<and> purl \<noteq> '''' then mirrorEndpoint purl else apiEndpoint)
      | None \<Rightarrow> apiEndpoint)"

definition resolveAssetURL :: "update_world \<Rightarrow> string \<Rightarrow> string" where
  "resolveAssetURL w raw =
     (case uw_proxy w of
        Some (mode, purl) \<Rightarrow>
          (let prefix = trim_right_slashes (trim_space purl)
           in if mode = ''mirror'' \<and> purl \<noteq> '''' \<and> prefix \<noteq> '''' \<and> ValidMirrorPrefix prefix then prefix @ ''/'' @ raw
              else raw)
      | None \<Rightarrow> raw)"

text \<open>
  One request of the client: the URLs it contacts in order and the final answer. A client sends at most ten
  requests (\<open>updateCheckRedirect\<close> refuses when ten were sent) and checks every redirect, not the first URL.
\<close>

fun client_do :: "update_world \<Rightarrow> string \<Rightarrow> string \<Rightarrow> nat \<Rightarrow> string \<Rightarrow> string list \<times> http_resp option" where
  "client_do w etag modified 0 u = ([], None)"
| "client_do w etag modified (Suc n) u =
     (case uw_server w u etag modified of
        NoReply \<Rightarrow> ([u], None)
      | Response r \<Rightarrow> ([u], Some r)
      | RedirectTo loc \<Rightarrow>
          (if n = 0 \<or> \<not> checkUpdateRawURL w loc then ([u], None)
           else let (us, r) = client_do w etag modified n loc in (u # us, r)))"

definition client_get :: "update_world \<Rightarrow> string \<Rightarrow> string list \<times> http_resp option" where
  "client_get w u = client_do w '''' '''' 10 u"

definition fetchSmall :: "update_world \<Rightarrow> string \<Rightarrow> string list \<times> string option" where
  "fetchSmall w u =
     (if \<not> checkUpdateRawURL w u then ([], None)
      else let (us, r) = client_get w u
           in (us, case r of None \<Rightarrow> None | Some resp \<Rightarrow> (if rs_status resp = 200 then Some (take 1048576 (rs_body resp)) else None)))"

definition fetchExpectedHash :: "update_world \<Rightarrow> string \<Rightarrow> string \<Rightarrow> string list \<times> string" where
  "fetchExpectedHash w u assetName =
     (if \<not> checkUpdateRawURL w u then ([], '''')
      else let (us, r) = client_get w u
           in (us, case r of None \<Rightarrow> '''' | Some resp \<Rightarrow> parseExpectedHash (take 1048576 (rs_body resp)) assetName))"

section \<open>Checking for an update\<close>

record update_info =
  ui_available :: bool
  ui_version :: string
  ui_current :: string
  ui_release_url :: string
  ui_download :: string
  ui_notes :: string
  ui_asset :: string
  ui_size :: int
  ui_sums :: string
  ui_hash :: string
  ui_hash_ok :: bool
  ui_sig_ok :: bool

definition no_update :: "string \<Rightarrow> string \<Rightarrow> update_info" where
  "no_update current version = \<lparr>ui_available = False, ui_version = version, ui_current = current, ui_release_url = '''',
     ui_download = '''', ui_notes = '''', ui_asset = '''', ui_size = 0, ui_sums = '''', ui_hash = '''',
     ui_hash_ok = False, ui_sig_ok = False\<rparr>"

record check_result =
  cr_info :: "update_info option"
  cr_not_modified :: bool
  cr_etag :: string
  cr_modified :: string

datatype check_error = CheckRequestFailed | RateLimited int | BadStatus int | BadBody | RefusedSize int

definition parseReleaseBody :: "update_world \<Rightarrow> string \<Rightarrow> string list \<times> (check_error + update_info)" where
  "parseReleaseBody w body =
     (case uw_decode w (take 10485760 body) of
        None \<Rightarrow> ([], Inl BadBody)
      | Some rel \<Rightarrow>
          (let latest = trim_prefix (rl_tag rel) ''v'';
               none = no_update (uw_version w) latest
           in if \<not> isNewerVersion latest (uw_version w) then ([], Inr none)
              else let assetName = matchAsset (uw_goos w) (uw_goarch w) (rl_assets rel)
                   in if assetName = '''' then ([], Inr none)
                      else let (dl, sz, sums) = asset_urls assetName (rl_assets rel) ('''', 0, '''')
                           in if sz < minAssetSize then ([], Inl (RefusedSize sz))
                              else let (us, hash) = (if sums \<noteq> '''' then fetchExpectedHash w sums assetName else ([], ''''))
                                   in (us, Inr \<lparr>ui_available = True, ui_version = latest, ui_current = uw_version w,
                                        ui_release_url = rl_html rel, ui_download = dl, ui_notes = rl_body rel,
                                        ui_asset = assetName, ui_size = sz, ui_sums = sums, ui_hash = hash,
                                        ui_hash_ok = False, ui_sig_ok = False\<rparr>)))"

definition CheckForUpdateConditional ::
    "update_world \<Rightarrow> string \<Rightarrow> string \<Rightarrow> string list \<times> check_result option \<times> check_error option" where
  "CheckForUpdateConditional w prevETag prevModified =
     (let (us, r) = client_do w prevETag prevModified 10 (resolvedEndpoint w)
      in case r of
           None \<Rightarrow> (us, None, Some CheckRequestFailed)
         | Some resp \<Rightarrow>
             (let res = \<lparr>cr_info = None, cr_not_modified = False, cr_etag = rs_etag resp, cr_modified = rs_modified resp\<rparr>
              in if rs_status resp = 304 then (us, Some (res\<lparr>cr_not_modified := True\<rparr>), None)
                 else if rs_status resp \<noteq> 200 then
                   (us, Some res, Some (if rs_status resp = 403 \<or> rs_status resp = 429 then RateLimited (rs_status resp)
                                        else BadStatus (rs_status resp)))
                 else let (us', b) = parseReleaseBody w (rs_body resp)
                      in case b of
                           Inl e \<Rightarrow> (us @ us', Some res, Some e)
                         | Inr info \<Rightarrow> (us @ us', Some (res\<lparr>cr_info := Some info\<rparr>), None)))"

end
