(* ===== verification/UpdateClient.thy ===== *)
theory UpdateClient
  imports UpdateFeed
begin

text \<open>
  Downloading, verifying and installing an update (\<open>downloadUpdate\<close>, \<open>Install\<close>, \<open>RunUpdate\<close>), the
  persisted check state and the scheduler.
\<close>

section \<open>The download and its verification\<close>

datatype download_error =
    NoDownloadURL | BadSize int | URLRefused | DownloadFailed | DownloadStatus int | LengthMismatch int | TempFileFailed
  | CopyFailed | TooSmall int | SizeMismatch int | SignatureFailed | NotListed | NoSigningKey | NoChecksum | ChecksumMismatch

text \<open>\<open>filepath.Ext\<close> only shapes the temp name. A temp file is its content.\<close>

record download =
  dl_urls :: "string list"
  dl_temp :: "string option"
  dl_info :: update_info
  dl_out :: "download_error + string"

definition verifyEd25519 :: "update_world \<Rightarrow> string \<Rightarrow> string \<Rightarrow> string \<Rightarrow> bool" where
  "verifyEd25519 w content sig pubkey \<longleftrightarrow> length pubkey = 32 \<and> length sig = 64 \<and> uw_ed25519 w pubkey content sig"

text \<open>
  \<open>appendSigSuffix\<close>: \<open>.sig\<close> goes to the end of the path, before a query or a fragment. The result is
  written back from the parts as they were read.
\<close>

definition appendSigSuffix :: "string \<Rightarrow> string option" where
  "appendSigSuffix raw =
     (if url_Parse raw = None then None
      else let path = takeWhile (\<lambda>c. c \<noteq> CHR ''?'' \<and> c \<noteq> CHR ''#'') raw
           in Some (path @ ''.sig'' @ drop (length path) raw))"

definition verifyChecksumSignature :: "update_world \<Rightarrow> string \<Rightarrow> string list \<times> string option" where
  "verifyChecksumSignature w sumsURL =
     (if uw_pubkey w = '''' \<or> sumsURL = '''' then ([], None)
      else case uw_unhex w (uw_pubkey w) of
        None \<Rightarrow> ([], None)
      | Some pk \<Rightarrow>
          (if length pk \<noteq> 32 then ([], None)
           else let (us, sums) = fetchSmall w sumsURL
                in case sums of
                     None \<Rightarrow> (us, None)
                   | Some body \<Rightarrow>
                       (case appendSigSuffix sumsURL of
                          None \<Rightarrow> (us, None)
                        | Some sigURL \<Rightarrow>
                            (let (us', sig) = fetchSmall w sigURL
                             in (us @ us', case sig of
                                   None \<Rightarrow> None
                                 | Some s \<Rightarrow> (if verifyEd25519 w body s pk then Some body else None))))))"

text \<open>The authoritative hash, and whether it comes from signed sums.\<close>

definition expected_hash :: "update_world \<Rightarrow> update_info \<Rightarrow> string list \<times> (download_error + (string \<times> bool))" where
  "expected_hash w info =
     (if uw_pubkey w \<noteq> '''' then
        (let (us, sums) = verifyChecksumSignature w (resolveAssetURL w (ui_sums info))
         in (us, case sums of
               None \<Rightarrow> Inl SignatureFailed
             | Some body \<Rightarrow> (let h = parseExpectedHash body (ui_asset info) in if h = '''' then Inl NotListed else Inr (h, True))))
      else if uw_require w then ([], Inl NoSigningKey)
      else ([], Inr (ui_hash info, False)))"

text \<open>Everything after the body was copied to the temp file: every failure removes the file.\<close>

definition verify_file :: "update_world \<Rightarrow> update_info \<Rightarrow> string list \<Rightarrow> string \<Rightarrow> download" where
  "verify_file w info us content =
     (let n = int (length content);
          fail = (\<lambda>us e. \<lparr>dl_urls = us, dl_temp = None, dl_info = info, dl_out = Inl e\<rparr>)
      in if n < minAssetSize then fail us (TooSmall n)
         else if ui_size info > 0 \<and> n \<noteq> ui_size info then fail us (SizeMismatch n)
         else let (us', h) = expected_hash w info; us = us @ us'
              in case h of
                   Inl e \<Rightarrow> fail us e
                 | Inr (hash, signed) \<Rightarrow>
                     (if hash = '''' then fail us NoChecksum
                      else if \<not> equal_fold (uw_sha256 w content) hash then fail us ChecksumMismatch
                      else \<lparr>dl_urls = us, dl_temp = Some content,
                             dl_info = info\<lparr>ui_hash_ok := True, ui_sig_ok := signed\<rparr>, dl_out = Inr content\<rparr>))"

definition max_download :: "update_info \<Rightarrow> nat" where
  "max_download info = nat (max (ui_size info + ui_size info div 10) (100 * 1024 * 1024))"

definition downloadUpdate :: "update_world \<Rightarrow> update_info \<Rightarrow> download" where
  "downloadUpdate w info =
     (let fail = (\<lambda>us e. \<lparr>dl_urls = us, dl_temp = None, dl_info = info, dl_out = Inl e\<rparr>)
      in if ui_download info = '''' then fail [] NoDownloadURL
         else if ui_size info \<le> 0 then fail [] (BadSize (ui_size info))
         else let dlURL = resolveAssetURL w (ui_download info)
              in if \<not> checkUpdateRawURL w dlURL then fail [] URLRefused
                 else let (us, r) = client_get w dlURL
                      in case r of
                           None \<Rightarrow> fail us DownloadFailed
                         | Some resp \<Rightarrow>
                             (if rs_status resp \<noteq> 200 then fail us (DownloadStatus (rs_status resp))
                              else if rs_length resp > 0 \<and> rs_length resp \<noteq> ui_size info then fail us (LengthMismatch (rs_length resp))
                              else if \<not> uw_temp_ok w then fail us TempFileFailed
                              else if \<not> uw_copy_ok w then fail us CopyFailed
                              else verify_file w info us (take (max_download info) (rs_body resp))))"

section \<open>Installing\<close>

datatype install_error = ChecksumNotVerified | SignatureNotVerified | UnsupportedOS | InstallerFailed

datatype run_effect = RunInstaller string string | RunBrew | OpenReleasePage

definition Install :: "update_world \<Rightarrow> string \<Rightarrow> update_info \<Rightarrow> run_effect list \<times> install_error option" where
  "Install w content info =
     (if \<not> ui_hash_ok info then ([], Some ChecksumNotVerified)
      else if uw_require w \<and> \<not> ui_sig_ok info then ([], Some SignatureNotVerified)
      else if uw_goos w \<in> set [''darwin'', ''linux'', ''windows''] then
        ([RunInstaller (uw_goos w) content], if uw_install_ok w then None else Some InstallerFailed)
      else ([], Some UnsupportedOS))"

record update_run =
  ur_urls :: "string list"
  ur_effects :: "run_effect list"
  ur_ok :: bool

definition runUpdateNative :: "update_world \<Rightarrow> update_info \<Rightarrow> update_run" where
  "runUpdateNative w info =
     (let d = downloadUpdate w info
      in case dl_out d of
           Inl e \<Rightarrow> \<lparr>ur_urls = dl_urls d, ur_effects = [OpenReleasePage], ur_ok = False\<rparr>
         | Inr content \<Rightarrow>
             (let (effs, err) = Install w content (dl_info d)
              in if err = None then \<lparr>ur_urls = dl_urls d, ur_effects = effs, ur_ok = True\<rparr>
                 else \<lparr>ur_urls = dl_urls d, ur_effects = effs @ [OpenReleasePage], ur_ok = False\<rparr>))"

definition RunUpdate :: "update_world \<Rightarrow> update_info option \<Rightarrow> update_run" where
  "RunUpdate w info =
     (case info of
        None \<Rightarrow> \<lparr>ur_urls = [], ur_effects = [], ur_ok = False\<rparr>
      | Some i \<Rightarrow>
          (if \<not> ui_available i then \<lparr>ur_urls = [], ur_effects = [], ur_ok = False\<rparr>
           else if uw_goos w = ''darwin'' \<and> uw_brew w then \<lparr>ur_urls = [], ur_effects = [RunBrew], ur_ok = uw_brew_ok w\<rparr>
           else if uw_goos w \<in> set [''darwin'', ''windows'', ''linux''] then runUpdateNative w i
           else \<lparr>ur_urls = [], ur_effects = [OpenReleasePage], ur_ok = True\<rparr>))"

section \<open>The persisted state\<close>

record update_state =
  us_last_check :: int
  us_last_seen :: string
  us_etag :: string
  us_modified :: string
  us_dismissed :: "string list"
  us_last_error :: int
  us_errors :: int

definition update_state0 :: update_state where
  "update_state0 = \<lparr>us_last_check = 0, us_last_seen = '''', us_etag = '''', us_modified = '''', us_dismissed = [],
     us_last_error = 0, us_errors = 0\<rparr>"

record state_store =
  ss_state :: update_state
  ss_disk :: "update_state option"

definition store_Update :: "bool \<Rightarrow> (update_state \<Rightarrow> update_state) \<Rightarrow> state_store \<Rightarrow> state_store" where
  "store_Update save_ok f s =
     (let st = f (ss_state s) in s\<lparr>ss_state := st, ss_disk := (if save_ok then Some st else ss_disk s)\<rparr>)"

definition NewStateStore :: "update_state option \<Rightarrow> state_store" where
  "NewStateStore disk = \<lparr>ss_state = (case disk of None \<Rightarrow> update_state0 | Some st \<Rightarrow> st), ss_disk = disk\<rparr>"

definition Dismiss :: "bool \<Rightarrow> string \<Rightarrow> state_store \<Rightarrow> state_store" where
  "Dismiss save_ok version s =
     (if version = '''' then s
      else store_Update save_ok
             (\<lambda>st. if version \<in> set (us_dismissed st) then st else st\<lparr>us_dismissed := us_dismissed st @ [version]\<rparr>) s)"

definition IsDismissed :: "string \<Rightarrow> state_store \<Rightarrow> bool" where
  "IsDismissed version s \<longleftrightarrow> version \<in> set (us_dismissed (ss_state s))"

section \<open>The scheduler\<close>

record scheduler =
  sch_store :: state_store
  sch_last :: "check_result option"
  sch_notified :: string
  sch_errors :: int
  sch_kicked :: bool
  sch_notes :: "update_info list"

definition NewScheduler :: "update_state option \<Rightarrow> scheduler" where
  "NewScheduler disk = \<lparr>sch_store = NewStateStore disk, sch_last = None, sch_notified = '''', sch_errors = 0,
     sch_kicked = False, sch_notes = []\<rparr>"

definition recordResult :: "bool \<Rightarrow> int \<Rightarrow> check_result option \<Rightarrow> check_error option \<Rightarrow> scheduler \<Rightarrow> scheduler" where
  "recordResult save_ok now res err s =
     (let s = s\<lparr>sch_last := res\<rparr>
      in case err of
           Some _ \<Rightarrow>
             s\<lparr>sch_errors := sch_errors s + 1,
               sch_store := store_Update save_ok
                 (\<lambda>st. st\<lparr>us_last_error := now, us_errors := (if us_errors st + 1 > 1000 then 1000 else us_errors st + 1)\<rparr>) (sch_store s)\<rparr>
         | None \<Rightarrow>
             (case res of
                None \<Rightarrow> s
              | Some r \<Rightarrow>
                  s\<lparr>sch_errors := 0,
                    sch_store := store_Update save_ok
                      (\<lambda>st. st\<lparr>us_last_check := now, us_last_error := 0, us_errors := 0,
                        us_etag := (if cr_etag r \<noteq> '''' then cr_etag r else us_etag st),
                        us_modified := (if cr_modified r \<noteq> '''' then cr_modified r else us_modified st),
                        us_last_seen := (case cr_info r of
                            Some i \<Rightarrow> (if ui_version i \<noteq> '''' then ui_version i else us_last_seen st)
                          | None \<Rightarrow> us_last_seen st)\<rparr>) (sch_store s)\<rparr>))"

definition maybeNotify :: "check_result option \<Rightarrow> scheduler \<Rightarrow> scheduler" where
  "maybeNotify res s =
     (case res of
        None \<Rightarrow> s
      | Some r \<Rightarrow>
          (case cr_info r of
             None \<Rightarrow> s
           | Some info \<Rightarrow>
               (if \<not> ui_available info \<or> ui_version info = '''' \<or> IsDismissed (ui_version info) (sch_store s) then s
                else if sch_notified s = ui_version info then s
                else s\<lparr>sch_notified := ui_version info, sch_notes := sch_notes s @ [info]\<rparr>)))"

definition ResetNotifyMemory :: "scheduler \<Rightarrow> scheduler" where
  "ResetNotifyMemory s = s\<lparr>sch_notified := ''''\<rparr>"

text \<open>One check: the request with the stored validators, its record and the notification.\<close>

definition run_check :: "update_world \<Rightarrow> int \<Rightarrow> scheduler \<Rightarrow> scheduler \<times> check_result option \<times> check_error option" where
  "run_check w now s =
     (let st = ss_state (sch_store s);
          (us, res, err) = CheckForUpdateConditional w (us_etag st) (us_modified st);
          s = recordResult (uw_save_ok w) now res err s
      in (if err = None then maybeNotify res s else s, res, err))"

definition CheckNow :: "update_world \<Rightarrow> int \<Rightarrow> scheduler \<Rightarrow> scheduler \<times> check_result option \<times> check_error option" where
  "CheckNow w now s = run_check w now s"

text \<open>What \<open>CheckForUpdate\<close> of the app shows to the user: \<open>None\<close> is an error.\<close>

definition app_CheckForUpdate :: "update_world \<Rightarrow> int \<Rightarrow> scheduler \<Rightarrow> scheduler \<times> update_info option" where
  "app_CheckForUpdate w now s =
     (let (s', res, err) = CheckNow w now s
      in (s', if err \<noteq> None then None
              else case res of
                     None \<Rightarrow> Some (no_update (uw_version w) '''')
                   | Some r \<Rightarrow> (case cr_info r of None \<Rightarrow> Some (no_update (uw_version w) '''') | Some i \<Rightarrow> Some i)))"

definition minute_ns :: int where "minute_ns = 60 * 1000000000"

text \<open>\<open>r\<close> is the random number, below the width of the range.\<close>

definition jitterRange :: "int \<Rightarrow> int \<Rightarrow> int \<Rightarrow> int" where
  "jitterRange r lo hi = (if hi \<le> lo then lo else lo + r mod (hi - lo))"

definition jitterAround :: "int \<Rightarrow> int \<Rightarrow> int \<Rightarrow> int" where
  "jitterAround r base spread = (if spread \<le> 0 then base else base + (r mod (2 * spread) - spread))"

definition steadyInterval :: int where "steadyInterval = 1440 * minute_ns"

definition retry_delay :: "int \<Rightarrow> int \<Rightarrow> int" where
  "retry_delay r ses =
     (if ses \<le> 1 then jitterRange r (5 * minute_ns) (7 * minute_ns)
      else if ses \<le> 4 then jitterRange r (10 * minute_ns) (15 * minute_ns)
      else jitterRange r (25 * minute_ns) (30 * minute_ns))"

text \<open>One turn of \<open>loop\<close> after its timer or a kick, which empties the kick channel: the next delay.\<close>

definition loop_turn :: "update_world \<Rightarrow> bool \<Rightarrow> bool \<Rightarrow> int \<Rightarrow> int \<Rightarrow> scheduler \<Rightarrow> scheduler \<times> int" where
  "loop_turn w enabled by_kick r now s =
     (let s = s\<lparr>sch_kicked := sch_kicked s \<and> \<not> by_kick\<rparr>
      in if \<not> enabled then (s, jitterAround r steadyInterval (steadyInterval div 10))
         else let (s', res, err) = run_check w now s
              in if err \<noteq> None then (s', retry_delay r (sch_errors s'))
                 else (s', jitterAround r steadyInterval (steadyInterval div 10)))"

definition Kick :: "bool \<Rightarrow> int \<Rightarrow> scheduler \<Rightarrow> scheduler" where
  "Kick force now s =
     (let last = us_last_check (ss_state (sch_store s))
      in if \<not> force \<and> last \<noteq> 0 \<and> now - last < 4 * 3600 then s else s\<lparr>sch_kicked := True\<rparr>)"

end
