(* ===== verification/UpdateProps.thy ===== *)
theory UpdateProps
  imports UpdateClient
begin

text \<open>
  Properties of the update client: version order, checksum files, the URLs it contacts, what it installs,
  and what the scheduler announces.
\<close>

section \<open>Versions\<close>

abbreviation less_int :: "(int \<times> int) set" where
  "less_int \<equiv> {(x, y). x < y}"

lemma newer_parts_lexord: "newer_parts ls cs \<longleftrightarrow> (cs, ls) \<in> lexord less_int"
  by (induction ls cs rule: newer_parts.induct) (auto simp: neq_Nil_conv)

lemma newer_iff:
  "isNewerVersion l c \<longleftrightarrow> (\<exists>lp cp. parseParts l = Some lp \<and> parseParts c = Some cp \<and> (cp, lp) \<in> lexord less_int)"
  by (auto simp: isNewerVersion_def newer_parts_lexord split: option.splits)

text \<open>Version comparison is the lexicographic order on the numeric parts, and a chain of updates never comes
  back to a version it left: no sequence of releases, each newer than the one before, closes a cycle.\<close>

theorem version_order:
  "acyclic {(c, l). isNewerVersion l c} \<and>
   isNewerVersion l c =
     (case (parseParts l, parseParts c) of (Some lp, Some cp) \<Rightarrow> (cp, lp) \<in> lexord less_int | _ \<Rightarrow> False)"
proof -
  have "trans {(c, l). isNewerVersion l c}"
    unfolding newer_iff using lexord_transI[of less_int] by (fastforce simp: trans_def)
  moreover have "(c, c) \<notin> {(c, l). isNewerVersion l c}" for c
    using lexord_irreflexive[of less_int] by (auto simp: newer_iff)
  ultimately have "acyclic {(c, l). isNewerVersion l c}" by (auto simp: acyclic_def trancl_id)
  then show ?thesis by (auto simp: newer_iff split: option.splits)
qed

section \<open>Checksum files\<close>

definition gnu_line :: "string \<times> string \<Rightarrow> string" where
  "gnu_line e = snd e @ ''  '' @ fst e"

text \<open>A file name that a checksum tool writes as it is: no line break, no blank at its ends, no leading star.\<close>

definition listed_name :: "string \<Rightarrow> bool" where
  "listed_name n \<longleftrightarrow> n \<noteq> '''' \<and> trimmed n \<and> CHR 0x0A \<notin> set n \<and> hd n \<noteq> CHR ''*''"

lemma hex_not:
  "url_hex c \<Longrightarrow> c \<noteq> CHR ''S'' \<and> c \<noteq> CHR ''#'' \<and> \<not> blank c \<and> c \<noteq> CHR 0x0A \<and> \<not> ascii_space c \<and> (of_char c :: nat) < 128"
  using of_nat_of_char[of c, where 'a = int] by (auto simp: url_hex_def blank_def ascii_space_def Let_def)

lemma hex_space_width: "isHexString h \<Longrightarrow> space_width h = 0"
proof -
  assume "isHexString h"
  then obtain c r where h: "h = c # r" "url_hex c" by (cases h) (auto simp: isHexString_def)
  then have "\<not> uni_space (take n h)" if "0 < n" for n
    using uni_space_high[of "take n h" c] hex_not[OF h(2)] that by (cases n) auto
  from this[of 2] this[of 3] show ?thesis using h hex_not[OF h(2)] by (simp add: space_width_def)
qed

lemma gnu_trimmed: "isHexString h \<Longrightarrow> listed_name n \<Longrightarrow> trimmed (h @ ''  '' @ n)"
proof -
  assume a: "isHexString h" "listed_name n"
  have "space_width (h @ CHR '' '' # ('' '' @ n)) = 0"
    using a hex_space_width[OF a(1)] by (intro space_width_append) (auto simp: isHexString_def)
  moreover have "space_width_rev (rev n @ CHR '' '' # ('' '' @ rev h)) = 0"
    using a(2) by (intro space_width_rev_append) (auto simp: listed_name_def trimmed_def)
  ultimately show ?thesis by (simp add: trimmed_def)
qed

lemma gnu_checksum_line:
  assumes "isHexString h" and "listed_name n"
  shows "checksum_line (gnu_line (n, h)) a = (if equal_fold n a then h else '''')"
proof -
  obtain c r where h: "h = c # r" "url_hex c" using assms(1) by (cases h) (auto simp: isHexString_def)
  have no_blank: "\<forall>x \<in> set h. \<not> blank x" using assms(1) hex_not by (auto simp: isHexString_def list_all_iff)
  have n: "n \<noteq> ''''" "\<not> blank (hd n)" "hd n \<noteq> CHR ''*''"
    using assms(2) by (auto simp: listed_name_def trimmed_def space_width_def blank_def ascii_space_def split: if_splits)
  then obtain d m where nd: "n = d # m" by (cases n) auto
  have tw: "takeWhile (\<lambda>c. \<not> blank c) (h @ ''  '' @ n) = h"
    using no_blank by (subst takeWhile_append2) (simp_all add: blank_def)
  have dw: "dropWhile blank (''  '' @ n) = n" using n nd by (simp add: blank_def)
  have "\<not> has_prefix (h @ ''  '' @ n) ''SHA256''" "\<not> has_prefix (h @ ''  '' @ n) ''#''"
    using h hex_not[OF h(2)] by simp_all
  then have "matchBSDChecksumLine (h @ ''  '' @ n) a = ''''" by (simp add: matchBSDChecksumLine_def bsd_match_def)
  with \<open>\<not> has_prefix (h @ ''  '' @ n) ''#''\<close> gnu_trimmed[OF assms] tw dw n nd assms(1) show ?thesis
    by (simp add: checksum_line_def gnu_line_def trim_prefix_def Let_def h)
qed

lemma first_hash_gnu:
  "\<forall>e \<in> set es. isHexString (snd e) \<and> listed_name (fst e) \<Longrightarrow>
   first_hash a (map gnu_line es) = (case find (\<lambda>e. equal_fold (fst e) a) es of None \<Rightarrow> '''' | Some e \<Rightarrow> snd e)"
  by (induction es) (auto simp: gnu_checksum_line isHexString_def)

text \<open>A checksum file written the way \<open>sha256sum\<close> writes it is read back exactly: for any asset name the parser
  returns the hash of the first entry of that name, up to case, and nothing when there is no such entry.\<close>

theorem checksum_file_roundtrip:
  assumes "es \<noteq> []" and "\<forall>e \<in> set es. isHexString (snd e) \<and> listed_name (fst e)"
  shows "parseExpectedHash (join [CHR 0x0A] (map gnu_line es)) a =
    (case find (\<lambda>e. equal_fold (fst e) a) es of None \<Rightarrow> '''' | Some e \<Rightarrow> snd e)"
proof -
  have "CHR 0x0A \<notin> set (gnu_line e)" if "e \<in> set es" for e
    using assms(2) that hex_not by (fastforce simp: gnu_line_def isHexString_def listed_name_def list_all_iff)
  then have "split_on CHR 0x0A (join [CHR 0x0A] (map gnu_line es)) = map gnu_line es"
    using assms(1) by (intro split_on_join) auto
  then show ?thesis using first_hash_gnu[OF assms(2)] by (simp add: parseExpectedHash_def)
qed

theorem checksum_file_roundtrip_witness:
  "parseExpectedHash (join [CHR 0x0A] (map gnu_line [(''a.zip'', ''0aF''), (''B.exe'', ''12'')])) ''b.EXE'' = ''12''"
proof -
  have ok: "\<forall>e \<in> set [(''a.zip'', ''0aF''), (''B.exe'', ''12'')]. isHexString (snd e) \<and> listed_name (fst e)" by code_simp
  have "find (\<lambda>e. equal_fold (fst e) ''b.EXE'') [(''a.zip'', ''0aF''), (''B.exe'', ''12'')] = Some (''B.exe'', ''12'')" by code_simp
  then show ?thesis using checksum_file_roundtrip[OF _ ok, of "''b.EXE''"] by simp
qed

section \<open>What gets installed\<close>

text \<open>The checks a file passed before it may be installed.\<close>

definition signed_match :: "update_world \<Rightarrow> update_info \<Rightarrow> string \<Rightarrow> bool" where
  "signed_match w info content \<longleftrightarrow> (\<exists>pk sums sig. uw_unhex w (uw_pubkey w) = Some pk \<and> length pk = 32 \<and> length sig = 64 \<and>
     uw_ed25519 w pk sums sig \<and> parseExpectedHash sums (ui_asset info) \<noteq> '''' \<and>
     equal_fold (uw_sha256 w content) (parseExpectedHash sums (ui_asset info)))"

lemma signature_verified:
  "verifyChecksumSignature w u = (us, Some body) \<Longrightarrow>
   \<exists>pk sig. uw_unhex w (uw_pubkey w) = Some pk \<and> length pk = 32 \<and> length sig = 64 \<and> uw_ed25519 w pk body sig"
  by (auto simp: verifyChecksumSignature_def verifyEd25519_def Let_def split: if_splits option.splits prod.splits)

lemma expected_hash_origin:
  "expected_hash w info = (us, Inr (h, signed)) \<Longrightarrow>
   (if uw_pubkey w = '''' then \<not> uw_require w \<and> h = ui_hash info \<and> \<not> signed
    else signed \<and> h \<noteq> '''' \<and> (\<exists>us' body. verifyChecksumSignature w (resolveAssetURL w (ui_sums info)) = (us', Some body) \<and>
      h = parseExpectedHash body (ui_asset info)))"
  by (auto simp: expected_hash_def Let_def split: if_splits option.splits prod.splits)

lemma verify_file_accepts:
  assumes "dl_out (verify_file w info us content) = Inr out"
  shows "out = content \<and> minAssetSize \<le> int (length content) \<and> (0 < ui_size info \<longrightarrow> int (length content) = ui_size info) \<and>
    (if uw_pubkey w = '''' then \<not> uw_require w \<and> ui_hash info \<noteq> '''' \<and> equal_fold (uw_sha256 w content) (ui_hash info)
     else signed_match w info content)"
proof -
  obtain us' h signed where e: "expected_hash w info = (us', Inr (h, signed))"
    and ok: "h \<noteq> ''''" "equal_fold (uw_sha256 w content) h" "out = content" "minAssetSize \<le> int (length content)"
      "0 < ui_size info \<longrightarrow> int (length content) = ui_size info"
    using assms by (auto simp: verify_file_def Let_def split: if_splits sum.splits prod.splits)
  show ?thesis
  proof (cases "uw_pubkey w = ''''")
    case True
    with expected_hash_origin[OF e] ok show ?thesis by auto
  next
    case False
    with expected_hash_origin[OF e] obtain us2 body where
      v: "verifyChecksumSignature w (resolveAssetURL w (ui_sums info)) = (us2, Some body)" "h = parseExpectedHash body (ui_asset info)"
      by auto
    from signature_verified[OF v(1)] ok v(2) have "signed_match w info content" by (auto simp: signed_match_def)
    with False ok show ?thesis by simp
  qed
qed

lemma download_accepts:
  "dl_out (downloadUpdate w info) = Inr content \<Longrightarrow>
   0 < ui_size info \<and> (\<exists>us body. dl_out (verify_file w info us (take (max_download info) body)) = Inr content)"
  by (auto simp: downloadUpdate_def Let_def split: if_splits option.splits prod.splits)

lemma installer_content:
  "RunInstaller os content \<in> set (ur_effects (RunUpdate w (Some info))) \<Longrightarrow>
   os = uw_goos w \<and> dl_out (downloadUpdate w info) = Inr content"
  by (auto simp: RunUpdate_def runUpdateNative_def Install_def Let_def split: if_splits sum.splits prod.splits)

text \<open>C5: Whatever the server sends, the installer only ever runs a file of exactly the announced size, at least
  1 MB, whose SHA-256 is listed for that asset in a checksum file signed with the embedded key; without an
  embedded key it matches the hash read at check time, and a build that requires signatures installs nothing.\<close>

theorem only_verified_files_installed:
  assumes "RunInstaller os content \<in> set (ur_effects (RunUpdate w (Some info)))"
  shows "int (length content) = ui_size info \<and> minAssetSize \<le> ui_size info \<and>
    (if uw_pubkey w = '''' then \<not> uw_require w \<and> ui_hash info \<noteq> '''' \<and> equal_fold (uw_sha256 w content) (ui_hash info)
     else \<exists>pk sums sig. uw_unhex w (uw_pubkey w) = Some pk \<and> length sig = 64 \<and> uw_ed25519 w pk sums sig \<and>
       parseExpectedHash sums (ui_asset info) \<noteq> '''' \<and>
       equal_fold (uw_sha256 w content) (parseExpectedHash sums (ui_asset info)))"
proof -
  from installer_content[OF assms] download_accepts obtain us body where
    "0 < ui_size info" "dl_out (verify_file w info us (take (max_download info) body)) = Inr content" by blast
  from this(1) verify_file_accepts[OF this(2)] show ?thesis by (auto simp: signed_match_def split: if_splits)
qed

section \<open>The URLs that are contacted\<close>

lemma client_do_urls: "client_do w e m n u0 = (us, r) \<Longrightarrow> u \<in> set us \<Longrightarrow> u = u0 \<or> checkUpdateRawURL w u"
  by (induction w e m n u0 arbitrary: us r rule: client_do.induct) (fastforce simp: Let_def split: reply.splits if_splits prod.splits)+

lemma fetch_urls:
  "fetchSmall w u0 = (us, r) \<Longrightarrow> u \<in> set us \<Longrightarrow> checkUpdateRawURL w u"
  "fetchExpectedHash w u0 a = (us, h) \<Longrightarrow> u \<in> set us \<Longrightarrow> checkUpdateRawURL w u"
  by (auto simp: fetchSmall_def fetchExpectedHash_def client_get_def split: if_splits prod.splits dest: client_do_urls)

lemma signature_urls: "verifyChecksumSignature w u0 = (us, r) \<Longrightarrow> u \<in> set us \<Longrightarrow> checkUpdateRawURL w u"
  by (auto simp: verifyChecksumSignature_def Let_def split: if_splits option.splits prod.splits dest: fetch_urls)

lemma expected_hash_urls: "expected_hash w info = (us, r) \<Longrightarrow> u \<in> set us \<Longrightarrow> checkUpdateRawURL w u"
  by (auto simp: expected_hash_def Let_def split: if_splits option.splits prod.splits dest: signature_urls)

lemma verify_file_urls: "u \<in> set (dl_urls (verify_file w info us content)) \<Longrightarrow> u \<in> set us \<or> checkUpdateRawURL w u"
  by (auto simp: verify_file_def Let_def split: if_splits sum.splits prod.splits dest: expected_hash_urls)

lemma download_urls: "u \<in> set (dl_urls (downloadUpdate w info)) \<Longrightarrow> checkUpdateRawURL w u"
  by (auto simp: downloadUpdate_def client_get_def Let_def split: if_splits option.splits prod.splits
      dest: client_do_urls verify_file_urls)

lemma run_urls: "u \<in> set (ur_urls (RunUpdate w i)) \<Longrightarrow> checkUpdateRawURL w u"
  by (auto simp: RunUpdate_def runUpdateNative_def Let_def split: if_splits option.splits sum.splits prod.splits dest: download_urls)

lemma release_urls: "parseReleaseBody w body = (us, r) \<Longrightarrow> u \<in> set us \<Longrightarrow> checkUpdateRawURL w u"
  by (auto simp: parseReleaseBody_def Let_def split: if_splits option.splits prod.splits dest: fetch_urls)

lemma check_urls: "u \<in> set (fst (CheckForUpdateConditional w e m)) \<Longrightarrow> u = resolvedEndpoint w \<or> checkUpdateRawURL w u"
  by (auto simp: CheckForUpdateConditional_def Let_def split: if_splits option.splits sum.splits prod.splits
      dest: client_do_urls release_urls)

text \<open>A mirror that is not configured.\<close>

definition no_mirror :: "update_world \<Rightarrow> bool" where
  "no_mirror w \<longleftrightarrow> (case uw_proxy w of None \<Rightarrow> True | Some (mode, purl) \<Rightarrow> mode \<noteq> ''mirror'' \<or> purl = '''')"

lemma api_endpoint_trusted: "checkUpdateRawURL w apiEndpoint"
proof -
  have "url_Parse apiEndpoint = Some \<lparr>url_scheme = ''https'', url_hostport = ''api.github.com''\<rparr>" by code_simp
  moreover have "checkUpdateURLStrict \<lparr>url_scheme = ''https'', url_hostport = ''api.github.com''\<rparr>" by code_simp
  ultimately show ?thesis by (auto simp: checkUpdateRawURL_def checkUpdateURL_def split: option.splits)
qed

lemma no_mirror_strict:
  "no_mirror w \<Longrightarrow> checkUpdateRawURL w u \<Longrightarrow> \<exists>p. url_Parse u = Some p \<and> url_scheme p = ''https'' \<and> Hostname p \<in> set allowedRedirectHosts"
  by (auto simp: no_mirror_def checkUpdateRawURL_def checkUpdateURL_def checkUpdateURLStrict_def split: option.splits if_splits)

text \<open>C18: Without a mirror every request of an update check and of an update, redirects included, goes to one of
  GitHub's hosts over https, whatever the server answers.\<close>

theorem requests_stay_on_github:
  assumes "no_mirror w"
    and "u \<in> set (fst (CheckForUpdateConditional w e m)) \<union> set (ur_urls (RunUpdate w i))"
  shows "\<exists>p. url_Parse u = Some p \<and> url_scheme p = ''https'' \<and> Hostname p \<in> set allowedRedirectHosts"
proof -
  have "resolvedEndpoint w = apiEndpoint"
    using assms(1) by (auto simp: no_mirror_def resolvedEndpoint_def split: option.splits)
  with assms(2) have "checkUpdateRawURL w u" using check_urls[of u w e m] run_urls[of u w i] api_endpoint_trusted[of w] by auto
  from no_mirror_strict[OF assms(1) this] show ?thesis .
qed

section \<open>A release that installs\<close>

definition demo_blob :: string where
  "demo_blob = replicate 1048576 CHR ''x''"

definition demo_sums :: string where
  "demo_sums = ''12ab  wg-amd64.exe''"

definition demo_asset_url :: string where "demo_asset_url = ''https://github.com/r/wg-amd64.exe''"
definition demo_blob_url :: string where "demo_blob_url = ''https://objects.githubusercontent.com/wg?t=1''"
definition demo_sums_url :: string where "demo_sums_url = ''https://github.com/r/SHA256SUMS''"

definition demo_ok :: "string \<Rightarrow> reply" where
  "demo_ok body = Response \<lparr>rs_status = 200, rs_etag = ''e1'', rs_modified = '''', rs_length = int (length body), rs_body = body\<rparr>"

text \<open>The feed answers a conditional request that carries the current validator with 304.\<close>

definition demo_server :: "string \<Rightarrow> string \<Rightarrow> string \<Rightarrow> reply" where
  "demo_server u etag modified =
     (if u = apiEndpoint then
        (if etag = ''e1'' then Response \<lparr>rs_status = 304, rs_etag = ''e1'', rs_modified = '''', rs_length = 0, rs_body = ''''\<rparr>
         else demo_ok ''feed'')
      else if u = demo_asset_url then RedirectTo demo_blob_url
      else if u = demo_blob_url then demo_ok demo_blob
      else if u = demo_sums_url then demo_ok demo_sums
      else if u = demo_sums_url @ ''.sig'' then demo_ok (replicate 64 CHR ''s'')
      else NoReply)"

definition demo_release :: release where
  "demo_release = \<lparr>rl_tag = ''v2.0.0'', rl_body = '''', rl_html = '''',
     rl_assets = [\<lparr>as_name = ''wg-amd64.exe'', as_url = demo_asset_url, as_size = 1048576\<rparr>,
                  \<lparr>as_name = ''SHA256SUMS'', as_url = demo_sums_url, as_size = 20\<rparr>]\<rparr>"

definition demo_update :: update_world where
  "demo_update = \<lparr>uw_version = ''1.9'', uw_goos = ''windows'', uw_goarch = ''amd64'', uw_pubkey = ''k'', uw_require = True,
     uw_proxy = None, uw_server = demo_server, uw_decode = (\<lambda>b. if b = ''feed'' then Some demo_release else None),
     uw_unhex = (\<lambda>_. Some (replicate 32 CHR ''k'')), uw_sha256 = (\<lambda>_. ''12AB''),
     uw_ed25519 = (\<lambda>pk c s. c = demo_sums), uw_temp_ok = True, uw_copy_ok = True, uw_install_ok = True,
     uw_brew = False, uw_brew_ok = False, uw_save_ok = True\<rparr>"

definition demo_info :: update_info where
  "demo_info = \<lparr>ui_available = True, ui_version = ''2.0.0'', ui_current = ''1.9'', ui_release_url = '''',
     ui_download = demo_asset_url, ui_notes = '''', ui_asset = ''wg-amd64.exe'', ui_size = 1048576,
     ui_sums = demo_sums_url, ui_hash = '''', ui_hash_ok = False, ui_sig_ok = False\<rparr>"

lemma demo_fields [simp]:
  "uw_version demo_update = ''1.9''" "uw_goos demo_update = ''windows''" "uw_goarch demo_update = ''amd64''"
  "uw_pubkey demo_update = ''k''" "uw_require demo_update" "uw_proxy demo_update = None" "uw_server demo_update = demo_server"
  "uw_decode demo_update = (\<lambda>b. if b = ''feed'' then Some demo_release else None)"
  "uw_unhex demo_update = (\<lambda>_. Some (replicate 32 CHR ''k''))" "uw_sha256 demo_update = (\<lambda>_. ''12AB'')"
  "uw_ed25519 demo_update = (\<lambda>pk c s. c = demo_sums)" "uw_temp_ok demo_update" "uw_copy_ok demo_update"
  "uw_install_ok demo_update" "\<not> uw_brew demo_update" "uw_save_ok demo_update"
  "ui_available demo_info" "ui_download demo_info = demo_asset_url" "ui_asset demo_info = ''wg-amd64.exe''"
  "ui_size demo_info = 1048576" "ui_sums demo_info = demo_sums_url"
  by (simp_all add: demo_update_def demo_info_def)

lemma direct_check: "uw_proxy w = None \<Longrightarrow> checkUpdateURL w = checkUpdateURLStrict"
  by (rule ext) (simp add: checkUpdateURL_def)

lemma direct_urls: "uw_proxy w = None \<Longrightarrow> resolveAssetURL w u = u" "uw_proxy w = None \<Longrightarrow> resolvedEndpoint w = apiEndpoint"
  by (simp_all add: resolveAssetURL_def resolvedEndpoint_def)

lemma demo_urls_trusted:
  "checkUpdateRawURL demo_update demo_asset_url" "checkUpdateRawURL demo_update demo_blob_url"
  "checkUpdateRawURL demo_update demo_sums_url" "checkUpdateRawURL demo_update (demo_sums_url @ ''.sig'')"
proof -
  have *: "list_all (\<lambda>u. case url_Parse u of None \<Rightarrow> False | Some p \<Rightarrow> checkUpdateURLStrict p)
    [demo_asset_url, demo_blob_url, demo_sums_url, demo_sums_url @ ''.sig'']" by code_simp
  then show "checkUpdateRawURL demo_update demo_asset_url" "checkUpdateRawURL demo_update demo_blob_url"
    "checkUpdateRawURL demo_update demo_sums_url" "checkUpdateRawURL demo_update (demo_sums_url @ ''.sig'')"
    by (simp_all add: checkUpdateRawURL_def direct_check split: option.splits)
qed

lemma demo_url_diffs:
  "apiEndpoint \<noteq> demo_asset_url" "apiEndpoint \<noteq> demo_blob_url" "apiEndpoint \<noteq> demo_sums_url"
  "demo_blob_url \<noteq> demo_asset_url" "demo_sums_url \<noteq> demo_asset_url" "demo_sums_url \<noteq> demo_blob_url"
  "demo_sums_url @ ''.sig'' \<noteq> apiEndpoint" "demo_sums_url @ ''.sig'' \<noteq> demo_asset_url"
  "demo_sums_url @ ''.sig'' \<noteq> demo_blob_url" "demo_asset_url \<noteq> ''''" "demo_sums_url \<noteq> ''''"
  by code_simp+

lemma demo_sig_url: "appendSigSuffix demo_sums_url = Some (demo_sums_url @ ''.sig'')"
  by code_simp

lemma demo_hash: "parseExpectedHash demo_sums ''wg-amd64.exe'' = ''12ab''" "equal_fold ''12AB'' ''12ab''"
  by code_simp+

lemma demo_lengths: "length demo_blob = 1048576" "take 1048576 demo_sums = demo_sums"
  by (simp_all add: demo_blob_def demo_sums_def)

lemma first_hops:
  "client_do w e m 10 u = (case uw_server w u e m of NoReply \<Rightarrow> ([u], None) | Response r \<Rightarrow> ([u], Some r)
     | RedirectTo loc \<Rightarrow> (if \<not> checkUpdateRawURL w loc then ([u], None)
         else let (us, r) = client_do w e m 9 loc in (u # us, r)))"
  "uw_server w u e m = Response r \<Longrightarrow> client_do w e m 9 u = ([u], Some r)"
  using client_do.simps(2)[of w e m 9 u] client_do.simps(2)[of w e m 8 u] by (simp_all split: reply.splits)

lemma demo_fetch:
  "client_get demo_update demo_asset_url = ([demo_asset_url, demo_blob_url],
     Some \<lparr>rs_status = 200, rs_etag = ''e1'', rs_modified = '''', rs_length = int (length demo_blob), rs_body = demo_blob\<rparr>)"
  "fetchSmall demo_update demo_sums_url = ([demo_sums_url], Some demo_sums)"
  "fetchSmall demo_update (demo_sums_url @ ''.sig'') = ([demo_sums_url @ ''.sig''], Some (replicate 64 CHR ''s''))"
  using demo_url_diffs demo_url_diffs[symmetric] demo_urls_trusted demo_lengths
  by (simp_all add: client_get_def fetchSmall_def first_hops demo_server_def demo_ok_def)

lemma demo_run:
  "ur_effects (RunUpdate demo_update (Some demo_info)) = [RunInstaller ''windows'' demo_blob]"
  "ur_urls (RunUpdate demo_update (Some demo_info)) = [demo_asset_url, demo_blob_url, demo_sums_url, demo_sums_url @ ''.sig'']"
proof -
  have sums: "verifyChecksumSignature demo_update demo_sums_url = ([demo_sums_url, demo_sums_url @ ''.sig''], Some demo_sums)"
    using demo_fetch(2,3) demo_sig_url demo_url_diffs by (simp add: verifyChecksumSignature_def verifyEd25519_def)
  have exp: "expected_hash demo_update demo_info = ([demo_sums_url, demo_sums_url @ ''.sig''], Inr (''12ab'', True))"
    using sums demo_hash by (simp add: expected_hash_def direct_urls)
  have whole: "take (max_download demo_info) demo_blob = demo_blob" using demo_lengths by (simp add: max_download_def)
  have down: "downloadUpdate demo_update demo_info = \<lparr>dl_urls = [demo_asset_url, demo_blob_url, demo_sums_url, demo_sums_url @ ''.sig''],
      dl_temp = Some demo_blob, dl_info = demo_info\<lparr>ui_hash_ok := True, ui_sig_ok := True\<rparr>, dl_out = Inr demo_blob\<rparr>"
    using demo_fetch(1) demo_urls_trusted(1) demo_url_diffs(10) demo_hash(2) demo_lengths(1)
    by (simp add: downloadUpdate_def direct_urls verify_file_def exp whole minAssetSize_def)
  then show "ur_effects (RunUpdate demo_update (Some demo_info)) = [RunInstaller ''windows'' demo_blob]"
    "ur_urls (RunUpdate demo_update (Some demo_info)) = [demo_asset_url, demo_blob_url, demo_sums_url, demo_sums_url @ ''.sig'']"
    by (simp_all add: RunUpdate_def runUpdateNative_def Install_def)
qed

theorem only_verified_files_installed_witness:
  "RunInstaller ''windows'' demo_blob \<in> set (ur_effects (RunUpdate demo_update (Some demo_info))) \<and> int (length demo_blob) = ui_size demo_info"
proof -
  have i: "RunInstaller ''windows'' demo_blob \<in> set (ur_effects (RunUpdate demo_update (Some demo_info)))" by (simp add: demo_run)
  from only_verified_files_installed[OF i] i show ?thesis by blast
qed

theorem requests_stay_on_github_witness:
  "ur_urls (RunUpdate demo_update (Some demo_info)) = [demo_asset_url, demo_blob_url, demo_sums_url, demo_sums_url @ ''.sig''] \<and>
   (\<exists>p. url_Parse demo_blob_url = Some p \<and> url_scheme p = ''https'' \<and> Hostname p \<in> set allowedRedirectHosts)"
proof -
  have "no_mirror demo_update" by (simp add: no_mirror_def)
  from requests_stay_on_github[OF this, of demo_blob_url "''''" "''''" "Some demo_info"] show ?thesis by (simp add: demo_run)
qed

end
