(* ===== verification/UpdateSchedule.thy ===== *)
theory UpdateSchedule
  imports UpdateProps
begin

text \<open>
  The scheduler over its lifetime, restarts of the app included: a dismissed version stays silent, what is
  announced is an update, the delays, and a feed that did not change hides an update that is still pending.
\<close>

section \<open>Lifetimes\<close>

text \<open>
  \<open>Turn w enabled by_kick r now\<close>: one turn of the loop; \<open>ManualCheck\<close>: \<open>CheckNow\<close>; \<open>Restarted\<close>: a new
  process that reads the saved state. The log of notifications survives restarts.
\<close>

datatype sched_event =
    Turn update_world bool bool int int
  | ManualCheck update_world int
  | DismissedBy bool string
  | Kicked bool int
  | Restarted

fun sched_step :: "scheduler \<Rightarrow> sched_event \<Rightarrow> scheduler" where
  "sched_step s (Turn w enabled by_kick r now) = fst (loop_turn w enabled by_kick r now s)"
| "sched_step s (ManualCheck w now) = fst (CheckNow w now s)"
| "sched_step s (DismissedBy ok v) = s\<lparr>sch_store := Dismiss ok v (sch_store s)\<rparr>"
| "sched_step s (Kicked force now) = Kick force now s"
| "sched_step s Restarted = (NewScheduler (ss_disk (sch_store s)))\<lparr>sch_notes := sch_notes s\<rparr>"

fun saves :: "sched_event \<Rightarrow> bool" where
  "saves (Turn w enabled by_kick r now) = uw_save_ok w"
| "saves (ManualCheck w now) = uw_save_ok w"
| "saves (DismissedBy ok v) = ok"
| "saves _ = True"

section \<open>What is announced\<close>

definition real_update :: "update_info \<Rightarrow> bool" where
  "real_update i \<longleftrightarrow> ui_available i \<and> isNewerVersion (ui_version i) (ui_current i) \<and> ui_asset i \<noteq> '''' \<and> minAssetSize \<le> ui_size i"

lemma release_real: "parseReleaseBody w body = (us, Inr i) \<Longrightarrow> ui_available i \<Longrightarrow> real_update i"
  by (auto simp: parseReleaseBody_def no_update_def real_update_def Let_def split: if_splits option.splits prod.splits)

lemma check_real: "CheckForUpdateConditional w e m = (us, Some r, err) \<Longrightarrow> cr_info r = Some i \<Longrightarrow> ui_available i \<Longrightarrow> real_update i"
  by (auto simp: CheckForUpdateConditional_def Let_def split: if_splits option.splits sum.splits prod.splits dest: release_real)

text \<open>The notifications since a point in time: real updates, none of version \<open>v\<close>.\<close>

definition silenced :: "string \<Rightarrow> update_info list \<Rightarrow> scheduler \<Rightarrow> bool" where
  "silenced v old s \<longleftrightarrow> IsDismissed v (sch_store s) \<and> ss_disk (sch_store s) = Some (ss_state (sch_store s)) \<and>
     (\<exists>new. sch_notes s = old @ new \<and> list_all (\<lambda>i. ui_version i \<noteq> v \<and> real_update i) new)"

lemma silenced_record: "silenced v old s \<Longrightarrow> silenced v old (recordResult True now res err s)"
  by (auto simp: silenced_def recordResult_def store_Update_def IsDismissed_def Let_def split: option.splits)

lemma silenced_notify:
  "silenced v old s \<Longrightarrow> (\<And>r i. res = Some r \<Longrightarrow> cr_info r = Some i \<Longrightarrow> ui_available i \<Longrightarrow> real_update i) \<Longrightarrow>
   silenced v old (maybeNotify res s)"
  by (auto simp: silenced_def maybeNotify_def IsDismissed_def split: option.splits)

lemma silenced_check: "silenced v old s \<Longrightarrow> uw_save_ok w \<Longrightarrow> silenced v old (fst (run_check w now s))"
proof -
  assume a: "silenced v old s" "uw_save_ok w"
  let ?st = "ss_state (sch_store s)"
  obtain us res err where c: "CheckForUpdateConditional w (us_etag ?st) (us_modified ?st) = (us, res, err)"
    by (cases "CheckForUpdateConditional w (us_etag ?st) (us_modified ?st)") auto
  have "silenced v old (recordResult True now res err s)" using a(1) by (rule silenced_record)
  moreover from this have "silenced v old (maybeNotify res (recordResult True now res err s))"
    by (rule silenced_notify) (use c check_real in blast)
  ultimately show ?thesis using a(2) c by (cases err) (simp_all add: run_check_def Let_def)
qed

lemma silenced_frame: "silenced v old (s\<lparr>sch_kicked := b\<rparr>) = silenced v old s"
  by (simp add: silenced_def)

lemma silenced_step: "silenced v old s \<Longrightarrow> saves e \<Longrightarrow> silenced v old (sched_step s e)"
proof (cases e)
  case (Turn w enabled by_kick r now)
  assume a: "silenced v old s" "saves e"
  then have "silenced v old (fst (run_check w now (s\<lparr>sch_kicked := sch_kicked s \<and> \<not> by_kick\<rparr>)))"
    using Turn by (intro silenced_check) (simp_all add: silenced_frame)
  with a Turn show ?thesis by (auto simp: loop_turn_def silenced_frame Let_def split: prod.splits)
next
  case (DismissedBy ok w)
  assume "silenced v old s" "saves e"
  with DismissedBy show ?thesis by (auto simp: silenced_def Dismiss_def store_Update_def IsDismissed_def Let_def)
next
  case (ManualCheck w now)
  assume "silenced v old s" "saves e"
  with ManualCheck show ?thesis by (simp add: CheckNow_def silenced_check)
qed (auto simp: Kick_def silenced_frame silenced_def IsDismissed_def NewScheduler_def NewStateStore_def Let_def)

text \<open>Once a version is dismissed and the state can be saved, no later check announces it, over any sequence of
  turns of the loop, manual checks, dismissals, kicks and restarts of the app; and whatever is announced is a
  version newer than the running one with an asset of acceptable size for this platform.\<close>

theorem dismissed_stays_silent:
  assumes "v \<noteq> ''''" and "list_all saves es"
    and "s' = foldl sched_step (sched_step s (DismissedBy True v)) es"
  shows "\<exists>new. sch_notes s' = sch_notes s @ new \<and>
    list_all (\<lambda>i. ui_version i \<noteq> v \<and> isNewerVersion (ui_version i) (ui_current i) \<and> minAssetSize \<le> ui_size i) new"
proof -
  have "silenced v (sch_notes s) (sched_step s (DismissedBy True v))"
    using assms(1) by (simp add: silenced_def Dismiss_def store_Update_def IsDismissed_def Let_def)
  moreover have "silenced v old (foldl sched_step t es)" if "silenced v old t" for old t
    using that assms(2) by (induction es arbitrary: t) (simp_all add: silenced_step)
  ultimately have "silenced v (sch_notes s) s'" using assms(3) by metis
  then show ?thesis by (auto simp: silenced_def real_update_def list_all_iff)
qed

section \<open>A feed that did not change\<close>

text \<open>The server tells by the validator of the saved state that the feed did not change.\<close>

definition unchanged :: "string \<Rightarrow> update_world \<Rightarrow> bool" where
  "unchanged tag w \<longleftrightarrow> uw_save_ok w \<and> (\<forall>m. \<exists>r. uw_server w (resolvedEndpoint w) tag m = Response r \<and> rs_status r = 304 \<and>
     rs_etag r \<in> {tag, ''''})"

lemma unchanged_check:
  "unchanged tag w \<Longrightarrow> \<exists>r. CheckForUpdateConditional w tag m = ([resolvedEndpoint w], Some r, None) \<and> cr_info r = None \<and>
     cr_not_modified r \<and> cr_etag r \<in> {tag, ''''}"
proof -
  assume "unchanged tag w"
  then obtain r where r: "uw_server w (resolvedEndpoint w) tag m = Response r" "rs_status r = 304" "rs_etag r \<in> {tag, ''''}"
    by (auto simp: unchanged_def)
  then have "client_do w tag m 10 (resolvedEndpoint w) = ([resolvedEndpoint w], Some r)"
    by (simp add: first_hops)
  with r show ?thesis by (simp add: CheckForUpdateConditional_def)
qed

definition waiting :: "string \<Rightarrow> update_info list \<Rightarrow> scheduler \<Rightarrow> bool" where
  "waiting tag old s \<longleftrightarrow> us_etag (ss_state (sch_store s)) = tag \<and>
     ss_disk (sch_store s) = Some (ss_state (sch_store s)) \<and> sch_notes s = old"

lemma waiting_check:
  assumes "waiting tag old s" and "unchanged tag w"
  shows "waiting tag old (fst (run_check w now s)) \<and> snd (snd (run_check w now s)) = None \<and>
    (\<exists>r. fst (snd (run_check w now s)) = Some r \<and> cr_info r = None)"
proof -
  let ?st = "ss_state (sch_store s)"
  obtain r where r: "CheckForUpdateConditional w (us_etag ?st) (us_modified ?st) = ([resolvedEndpoint w], Some r, None)"
    "cr_info r = None" "cr_etag r \<in> {tag, ''''}"
    using unchanged_check[OF assms(2)] assms(1) by (auto simp: waiting_def)
  have "uw_save_ok w" using assms(2) by (simp add: unchanged_def)
  with r assms(1) show ?thesis
    by (auto simp: run_check_def recordResult_def maybeNotify_def store_Update_def waiting_def Let_def)
qed

fun quiet_event :: "string \<Rightarrow> sched_event \<Rightarrow> bool" where
  "quiet_event tag (Turn w enabled by_kick r now) = unchanged tag w"
| "quiet_event tag (ManualCheck w now) = unchanged tag w"
| "quiet_event tag (DismissedBy ok v) = ok"
| "quiet_event tag _ = True"

lemma waiting_frame: "waiting tag old (s\<lparr>sch_kicked := b\<rparr>) = waiting tag old s"
  by (simp add: waiting_def)

lemma waiting_step: "waiting tag old s \<Longrightarrow> quiet_event tag e \<Longrightarrow> waiting tag old (sched_step s e)"
proof (cases e)
  case (Turn w enabled by_kick r now)
  assume a: "waiting tag old s" "quiet_event tag e"
  then have "waiting tag old (fst (run_check w now (s\<lparr>sch_kicked := sch_kicked s \<and> \<not> by_kick\<rparr>)))"
    using Turn waiting_check[of tag old "s\<lparr>sch_kicked := sch_kicked s \<and> \<not> by_kick\<rparr>" w now] by (simp add: waiting_frame)
  with a Turn show ?thesis by (auto simp: loop_turn_def waiting_frame Let_def split: prod.splits)
next
  case (ManualCheck w now)
  assume "waiting tag old s" "quiet_event tag e"
  with ManualCheck show ?thesis by (simp add: CheckNow_def waiting_check)
qed (auto simp: Kick_def waiting_frame waiting_def NewScheduler_def NewStateStore_def
    Dismiss_def store_Update_def Let_def)

text \<open>C32: After the validator of a feed is saved, checks of that unchanged feed announce nothing, restarts of the app
  included, and a manual check reports that no update is available, even while the feed holds a newer release.\<close>

theorem unchanged_feed_hides_update:
  assumes "us_etag st = tag" and "list_all (quiet_event tag) es" and "unchanged tag w"
    and "s = foldl sched_step (NewScheduler (Some st)) es"
  shows "sch_notes s = [] \<and> (\<exists>i. snd (app_CheckForUpdate w now s) = Some i \<and> \<not> ui_available i)"
proof -
  have "waiting tag [] (NewScheduler (Some st))"
    using assms(1) by (simp add: waiting_def NewScheduler_def NewStateStore_def)
  moreover have "waiting tag old (foldl sched_step t es)" if "waiting tag old t" for old t
    using that assms(2) by (induction es arbitrary: t) (simp_all add: waiting_step)
  ultimately have s: "waiting tag [] s" using assms(4) by metis
  from waiting_check[OF s assms(3), of now] s show ?thesis
    by (auto simp: app_CheckForUpdate_def CheckNow_def waiting_def no_update_def split: prod.splits)
qed

section \<open>The pending release of the demo feed\<close>

lemma demo_release_facts:
  "trim_prefix ''v2.0.0'' ''v'' = ''2.0.0''" "isNewerVersion ''2.0.0'' ''1.9''"
  "matchAsset ''windows'' ''amd64'' (rl_assets demo_release) = ''wg-amd64.exe''"
  "asset_urls ''wg-amd64.exe'' (rl_assets demo_release) ('''', 0, '''') = (demo_asset_url, 1048576, demo_sums_url)"
  by code_simp+

lemma demo_release_fields: "rl_tag demo_release = ''v2.0.0''" "rl_html demo_release = ''''" "rl_body demo_release = ''''"
  by (simp_all add: demo_release_def)

definition demo_found :: update_info where
  "demo_found = demo_info\<lparr>ui_hash := ''12ab''\<rparr>"

lemma demo_check:
  "CheckForUpdateConditional demo_update '''' '''' =
     ([apiEndpoint, demo_sums_url], Some \<lparr>cr_info = Some demo_found, cr_not_modified = False, cr_etag = ''e1'', cr_modified = ''''\<rparr>, None)"
proof -
  have hash: "fetchExpectedHash demo_update demo_sums_url ''wg-amd64.exe'' = ([demo_sums_url], ''12ab'')"
    using demo_url_diffs demo_url_diffs[symmetric] demo_urls_trusted demo_lengths demo_hash
    by (simp add: fetchExpectedHash_def client_get_def first_hops demo_server_def demo_ok_def)
  have body: "parseReleaseBody demo_update ''feed'' = ([demo_sums_url], Inr demo_found)"
    using hash demo_release_facts demo_url_diffs
    by (simp add: parseReleaseBody_def minAssetSize_def demo_found_def demo_release_fields Let_def) (simp add: demo_info_def)
  have "client_do demo_update '''' '''' 10 apiEndpoint = ([apiEndpoint],
      Some \<lparr>rs_status = 200, rs_etag = ''e1'', rs_modified = '''', rs_length = 4, rs_body = ''feed''\<rparr>)"
    by (simp add: first_hops demo_server_def demo_ok_def)
  with body show ?thesis by (simp add: CheckForUpdateConditional_def direct_urls)
qed

lemma demo_unchanged: "unchanged ''e1'' demo_update"
  by (simp add: unchanged_def direct_urls demo_server_def)

definition demo_checked :: scheduler where
  "demo_checked = fst (CheckNow demo_update 1000 (NewScheduler None))"

lemma demo_checked_facts:
  "sch_notes demo_checked = [demo_found]"
  "\<exists>st. ss_disk (sch_store demo_checked) = Some st \<and> us_etag st = ''e1''"
  by (simp_all add: demo_checked_def CheckNow_def run_check_def NewScheduler_def NewStateStore_def update_state0_def demo_check
      recordResult_def maybeNotify_def store_Update_def IsDismissed_def demo_found_def demo_info_def Let_def)

theorem unchanged_feed_hides_update_witness:
  "sch_notes demo_checked = [demo_found] \<and> isNewerVersion (ui_version demo_found) ''1.9'' \<and>
   (\<exists>st. ss_disk (sch_store demo_checked) = Some st \<and>
     sch_notes (foldl sched_step (NewScheduler (Some st)) [Turn demo_update True False 0 2000]) = [] \<and>
     (\<exists>i. snd (app_CheckForUpdate demo_update 3000 (foldl sched_step (NewScheduler (Some st)) [Turn demo_update True False 0 2000])) = Some i \<and>
       \<not> ui_available i))"
proof -
  obtain st where st: "ss_disk (sch_store demo_checked) = Some st" "us_etag st = ''e1''" using demo_checked_facts(2) by blast
  have q: "list_all (quiet_event ''e1'') [Turn demo_update True False 0 2000]" using demo_unchanged by simp
  have "isNewerVersion (ui_version demo_found) ''1.9''" using demo_release_facts(2) by (simp add: demo_found_def demo_info_def)
  with unchanged_feed_hides_update[OF st(2) q demo_unchanged refl] demo_checked_facts(1) st(1) show ?thesis by blast
qed

theorem dismissed_stays_silent_witness:
  "\<exists>new. sch_notes (foldl sched_step (sched_step (NewScheduler None) (DismissedBy True ''2.0.0'')) [ManualCheck demo_update 1000, Restarted]) = new \<and>
     list_all (\<lambda>i. ui_version i \<noteq> ''2.0.0'') new"
proof -
  let ?es = "[ManualCheck demo_update 1000, Restarted]"
  have "list_all saves ?es" by simp
  from dismissed_stays_silent[OF _ this refl, of "''2.0.0''" "NewScheduler None"] show ?thesis
    by (auto simp: NewScheduler_def list_all_iff)
qed

section \<open>Two naming traps\<close>

text \<open>
  A 32-bit Windows build takes a 64-bit asset: \<open>x86\<close> is anchored in \<open>x86_64\<close>, and the assets are tried in
  the order of the release, not the tokens.
\<close>

theorem x86_build_takes_x86_64_asset:
  "matchAsset ''windows'' ''386''
     [\<lparr>as_name = ''wg-x86_64-installer.exe'', as_url = ''u1'', as_size = 2000000\<rparr>,
      \<lparr>as_name = ''wg-386-installer.exe'', as_url = ''u2'', as_size = 2000000\<rparr>] = ''wg-x86_64-installer.exe''"
  by code_simp

text \<open>A blank before the mirror prefix: the check goes to the mirror, the download refuses its URL.\<close>

theorem padded_mirror_refuses_download:
  "resolvedEndpoint (demo_update\<lparr>uw_proxy := Some (''mirror'', '' https://gh.example'')\<rparr>) = ''https://gh.example/'' @ apiEndpoint \<and>
   \<not> checkUpdateRawURL (demo_update\<lparr>uw_proxy := Some (''mirror'', '' https://gh.example'')\<rparr>)
       (resolveAssetURL (demo_update\<lparr>uw_proxy := Some (''mirror'', '' https://gh.example'')\<rparr>) demo_asset_url)"
proof -
  have "trim_right_slashes (trim_space '' https://gh.example'') = ''https://gh.example''" by code_simp
  moreover have "ValidMirrorPrefix ''https://gh.example''" by code_simp
  moreover have "url_Parse '' https://gh.example'' = None" by code_simp
  moreover have "url_Parse (''https://gh.example/'' @ demo_asset_url) = Some \<lparr>url_scheme = ''https'', url_hostport = ''gh.example''\<rparr>" by code_simp
  moreover have "\<not> checkUpdateURLStrict \<lparr>url_scheme = ''https'', url_hostport = ''gh.example''\<rparr>" by code_simp
  ultimately show ?thesis
    by (simp add: resolvedEndpoint_def mirrorEndpoint_def resolveAssetURL_def checkUpdateRawURL_def checkUpdateURL_def)
qed

end
