(* ===== verification/FileStore.thy ===== *)
theory FileStore
  imports GoStrings
begin

text \<open>
  The file system under the stores of \<open>internal/storage\<close>: one directory, its system calls with their failures,
  what a power loss may leave behind, and the atomic write of \<open>rename.go\<close>. Names are compared up to ASCII
  case on a case-insensitive file system.
\<close>

section \<open>Directories\<close>

text \<open>
  A file is its bytes and whether they were flushed; unflushed bytes may be anything after a power loss. The
  directory keeps its earlier states: after a power loss it may be any state since the last directory sync.
\<close>

record fileobj =
  f_data :: string
  f_synced :: bool

datatype node = File fileobj | Folder bool

type_synonym entries = "(string \<times> node) list"

record dir =
  d_entries :: entries
  d_log :: "entries list"
  d_durable :: nat

definition canon :: "bool \<Rightarrow> string \<Rightarrow> string" where
  "canon ci n = (if ci then to_lower n else n)"

definition look :: "bool \<Rightarrow> entries \<Rightarrow> string \<Rightarrow> node option" where
  "look ci es n = map_of (map (\<lambda>(m, x). (canon ci m, x)) es) (canon ci n)"

definition drop_name :: "bool \<Rightarrow> string \<Rightarrow> entries \<Rightarrow> entries" where
  "drop_name ci n es = filter (\<lambda>(m, x). canon ci m \<noteq> canon ci n) es"

definition put_name :: "bool \<Rightarrow> string \<Rightarrow> node \<Rightarrow> entries \<Rightarrow> entries" where
  "put_name ci n x es = (n, x) # drop_name ci n es"

definition move_name :: "bool \<Rightarrow> string \<Rightarrow> string \<Rightarrow> node \<Rightarrow> entries \<Rightarrow> entries" where
  "move_name ci a b x es = (b, x) # drop_name ci a (drop_name ci b es)"

definition set_entries :: "entries \<Rightarrow> dir \<Rightarrow> dir" where
  "set_entries es d = d\<lparr>d_entries := es, d_log := d_log d @ [d_entries d]\<rparr>"

text \<open>The directory states a power loss may leave, and the bytes that are then certain.\<close>

definition crash_views :: "dir \<Rightarrow> entries list" where
  "crash_views d = drop (d_durable d) (d_log d) @ [d_entries d]"

definition sure :: "bool \<Rightarrow> entries \<Rightarrow> string \<Rightarrow> string option" where
  "sure ci es n = (case look ci es n of Some (File f) \<Rightarrow> (if f_synced f then Some (f_data f) else None) | _ \<Rightarrow> None)"

definition bytes :: "bool \<Rightarrow> entries \<Rightarrow> string \<Rightarrow> string option" where
  "bytes ci es n = (case look ci es n of Some (File f) \<Rightarrow> Some (f_data f) | _ \<Rightarrow> None)"

lemma look_drop [simp]: "look ci (drop_name ci n es) m = (if canon ci m = canon ci n then None else look ci es m)"
  by (induction es) (auto simp: look_def drop_name_def)

lemma look_Cons: "look ci ((n, x) # es) m = (if canon ci m = canon ci n then Some x else look ci es m)"
  by (simp add: look_def)

lemma look_put [simp]: "look ci (put_name ci n x es) m = (if canon ci m = canon ci n then Some x else look ci es m)"
  by (simp add: put_name_def look_Cons)

lemma look_move [simp]:
  "look ci (move_name ci a b x es) m =
     (if canon ci m = canon ci b then Some x else if canon ci m = canon ci a then None else look ci es m)"
  by (simp add: move_name_def look_Cons)

section \<open>System calls\<close>

datatype syscall =
    SysCreate string | SysWrite string | SysSync string | SysClose string | SysChmod string
  | SysRename string string | SysRemove string | SysLink string string
  | SysReadDir | SysRead string | SysStat string | SysSyncDir | SysMkdir

text \<open>The environment of one operation: which calls fail, the case rule, the clock, the random part of temp names.\<close>

record fsenv =
  fs_ci :: bool
  fs_fails :: "syscall \<Rightarrow> bool"
  fs_now :: int
  fs_rand :: string
  fs_escapes :: "string \<Rightarrow> bool"

definition fs_create :: "fsenv \<Rightarrow> string \<Rightarrow> dir \<Rightarrow> dir \<times> bool" where
  "fs_create env n d =
     (if fs_fails env (SysCreate n) \<or> look (fs_ci env) (d_entries d) n \<noteq> None then (d, False)
      else (set_entries (put_name (fs_ci env) n (File \<lparr>f_data = '''', f_synced = False\<rparr>) (d_entries d)) d, True))"

text \<open>A failed write may leave a prefix of the data in the temp file; the model leaves the file empty (its bytes are not flushed, so they are unknown anyway).\<close>

definition fs_write :: "fsenv \<Rightarrow> string \<Rightarrow> string \<Rightarrow> dir \<Rightarrow> dir \<times> bool" where
  "fs_write env n data d =
     (if fs_fails env (SysWrite n) then (d, False)
      else (set_entries (put_name (fs_ci env) n (File \<lparr>f_data = data, f_synced = False\<rparr>) (d_entries d)) d, True))"

definition fs_sync :: "fsenv \<Rightarrow> string \<Rightarrow> dir \<Rightarrow> dir \<times> bool" where
  "fs_sync env n d =
     (if fs_fails env (SysSync n) then (d, False)
      else case look (fs_ci env) (d_entries d) n of
        Some (File f) \<Rightarrow> (set_entries (put_name (fs_ci env) n (File (f\<lparr>f_synced := True\<rparr>)) (d_entries d)) d, True)
      | _ \<Rightarrow> (d, False))"

fun is_folder :: "node \<Rightarrow> bool" where
  "is_folder (File f) = False"
| "is_folder (Folder e) = True"

text \<open>A rename replaces a file, never a folder, and a folder never replaces a file.\<close>

definition fs_rename :: "fsenv \<Rightarrow> string \<Rightarrow> string \<Rightarrow> dir \<Rightarrow> dir \<times> bool" where
  "fs_rename env a b d =
     (if fs_fails env (SysRename a b) then (d, False)
      else case look (fs_ci env) (d_entries d) a of
        None \<Rightarrow> (d, False)
      | Some x \<Rightarrow>
          (if canon (fs_ci env) a \<noteq> canon (fs_ci env) b \<and> look (fs_ci env) (d_entries d) b \<noteq> None \<and>
              (is_folder x \<or> is_folder (the (look (fs_ci env) (d_entries d) b))) then (d, False)
           else (set_entries (move_name (fs_ci env) a b x (d_entries d)) d, True)))"

definition fs_remove :: "fsenv \<Rightarrow> string \<Rightarrow> dir \<Rightarrow> dir \<times> bool" where
  "fs_remove env n d =
     (if fs_fails env (SysRemove n) then (d, False)
      else case look (fs_ci env) (d_entries d) n of
        None \<Rightarrow> (d, False)
      | Some (Folder e) \<Rightarrow> (if e then (set_entries (drop_name (fs_ci env) n (d_entries d)) d, True) else (d, False))
      | Some (File f) \<Rightarrow> (set_entries (drop_name (fs_ci env) n (d_entries d)) d, True))"

definition fs_link :: "fsenv \<Rightarrow> string \<Rightarrow> string \<Rightarrow> dir \<Rightarrow> dir \<times> bool" where
  "fs_link env a b d =
     (if fs_fails env (SysLink a b) \<or> look (fs_ci env) (d_entries d) b \<noteq> None then (d, False)
      else case look (fs_ci env) (d_entries d) a of
        Some (File f) \<Rightarrow> (set_entries (put_name (fs_ci env) b (File f) (d_entries d)) d, True)
      | _ \<Rightarrow> (d, False))"

datatype stat_result = StatFound | StatMissing | StatFails

definition fs_stat :: "fsenv \<Rightarrow> string \<Rightarrow> dir \<Rightarrow> stat_result" where
  "fs_stat env n d =
     (if fs_fails env (SysStat n) then StatFails
      else if look (fs_ci env) (d_entries d) n = None then StatMissing else StatFound)"

datatype read_result = ReadData string | ReadMissing | ReadFails

definition fs_read :: "fsenv \<Rightarrow> string \<Rightarrow> dir \<Rightarrow> read_result" where
  "fs_read env n d =
     (if fs_fails env (SysRead n) then ReadFails
      else case look (fs_ci env) (d_entries d) n of
        None \<Rightarrow> ReadMissing
      | Some (Folder e) \<Rightarrow> ReadFails
      | Some (File f) \<Rightarrow> ReadData (f_data f))"

text \<open>\<open>syncDir\<close>: best effort; a directory sync that fails is not reported.\<close>

definition syncDir :: "fsenv \<Rightarrow> dir \<Rightarrow> dir" where
  "syncDir env d = (if fs_fails env SysSyncDir then d else d\<lparr>d_durable := length (d_log d)\<rparr>)"

definition atomicRenameDurable :: "fsenv \<Rightarrow> string \<Rightarrow> string \<Rightarrow> dir \<Rightarrow> dir \<times> bool" where
  "atomicRenameDurable env src dst d =
     (let (d', ok) = fs_rename env src dst d in if ok then (syncDir env d', True) else (d', False))"

section \<open>The atomic write\<close>

text \<open>After each step: go on, or remove the temp file and report the error.\<close>

definition or_cleanup :: "fsenv \<Rightarrow> string \<Rightarrow> (dir \<Rightarrow> dir \<times> bool) \<Rightarrow> dir \<times> bool \<Rightarrow> dir \<times> bool" where
  "or_cleanup env tmp k r = (if snd r then k (fst r) else (fst (fs_remove env tmp (fst r)), False))"

definition write_via :: "fsenv \<Rightarrow> string \<Rightarrow> string \<Rightarrow> string \<Rightarrow> dir \<Rightarrow> dir \<times> bool" where
  "write_via env tmp dst data d =
     (let (d, ok) = fs_create env tmp d
      in if \<not> ok then (d, False)
         else or_cleanup env tmp (\<lambda>d.
                or_cleanup env tmp (\<lambda>d.
                  or_cleanup env tmp (\<lambda>d.
                    or_cleanup env tmp (\<lambda>d.
                      or_cleanup env tmp (\<lambda>d. (d, True)) (atomicRenameDurable env tmp dst d))
                    (d, \<not> fs_fails env (SysChmod tmp)))
                  (d, \<not> fs_fails env (SysClose tmp)))
                (fs_sync env tmp d))
              (fs_write env tmp data d))"

definition temp_name :: "string \<Rightarrow> fsenv \<Rightarrow> string" where
  "temp_name kind env = ''.wireguide-'' @ kind @ fs_rand env @ ''.tmp''"

definition writeBytesAtomic :: "fsenv \<Rightarrow> string \<Rightarrow> string \<Rightarrow> dir \<Rightarrow> dir \<times> bool" where
  "writeBytesAtomic env dst data d =
     (if fs_fails env SysMkdir then (d, False) else write_via env (temp_name '''' env) dst data d)"

section \<open>Every state on the way\<close>

text \<open>\<open>evolves P d d'\<close>: the directory went from \<open>d\<close> to \<open>d'\<close> and every state after the start satisfies \<open>P\<close>.\<close>

definition evolves :: "(entries \<Rightarrow> bool) \<Rightarrow> dir \<Rightarrow> dir \<Rightarrow> bool" where
  "evolves P d d' \<longleftrightarrow> (\<exists>new. d_log d' = d_log d @ new \<and> (\<forall>es \<in> set new. P es) \<and> P (d_entries d')) \<and>
     (d_durable d' = d_durable d \<or> length (d_log d) \<le> d_durable d')"

lemma evolves_refl: "P (d_entries d) \<Longrightarrow> evolves P d d"
  by (simp add: evolves_def)

lemma evolves_trans: "evolves P d d' \<Longrightarrow> evolves P d' d'' \<Longrightarrow> evolves P d d''"
  unfolding evolves_def by fastforce

lemma evolves_set: "P (d_entries d) \<Longrightarrow> P es \<Longrightarrow> evolves P d (set_entries es d)"
  by (simp add: evolves_def set_entries_def)

lemma evolves_at: "evolves P d d' \<Longrightarrow> P (d_entries d')"
  by (auto simp: evolves_def)

lemma evolves_mono: "evolves P d d' \<Longrightarrow> (\<And>es. P es \<Longrightarrow> Q es) \<Longrightarrow> evolves Q d d'"
  by (auto simp: evolves_def)

text \<open>After an operation that starts with everything flushed, a power loss shows a state on the way.\<close>

lemma evolves_crash: "evolves P d d' \<Longrightarrow> P (d_entries d) \<Longrightarrow> d_durable d = length (d_log d) \<Longrightarrow> \<forall>es \<in> set (crash_views d'). P es"
proof -
  assume e: "evolves P d d'" "P (d_entries d)" "d_durable d = length (d_log d)"
  then obtain new where n: "d_log d' = d_log d @ new" "\<forall>es \<in> set new. P es" "P (d_entries d')" "length (d_log d) \<le> d_durable d'"
    by (auto simp: evolves_def)
  then have "drop (d_durable d') (d_log d') = drop (d_durable d' - length (d_log d)) new" by simp
  with n show ?thesis by (auto simp: crash_views_def dest: in_set_dropD)
qed

text \<open>A name other than the temp file reads as before, or it is the target and reads the new bytes, flushed.\<close>

definition old_or_new :: "bool \<Rightarrow> string \<Rightarrow> string \<Rightarrow> string \<Rightarrow> entries \<Rightarrow> entries \<Rightarrow> bool" where
  "old_or_new ci tmp dst data es0 es \<longleftrightarrow> (\<forall>n. canon ci n \<noteq> canon ci tmp \<longrightarrow>
     look ci es n = look ci es0 n \<or>
     (canon ci n = canon ci dst \<and> look ci es n = Some (File \<lparr>f_data = data, f_synced = True\<rparr>)))"

lemma old_or_new_refl [simp]: "old_or_new ci tmp dst data es es"
  by (simp add: old_or_new_def)

lemma old_or_new_tmp:
  "old_or_new ci tmp dst data es0 es \<Longrightarrow> old_or_new ci tmp dst data es0 (put_name ci tmp x es)"
  "old_or_new ci tmp dst data es0 es \<Longrightarrow> old_or_new ci tmp dst data es0 (drop_name ci tmp es)"
  by (simp_all add: old_or_new_def)

lemma remove_tmp: "old_or_new (fs_ci env) tmp dst data es0 (d_entries d) \<Longrightarrow>
  evolves (old_or_new (fs_ci env) tmp dst data es0) d (fst (fs_remove env tmp d))"
  by (auto simp: fs_remove_def intro!: evolves_refl evolves_set old_or_new_tmp split: option.splits node.splits)

lemma or_cleanup_evolves:
  assumes "evolves (old_or_new (fs_ci env) tmp dst data es0) d (fst r)"
    and "snd r \<Longrightarrow> evolves (old_or_new (fs_ci env) tmp dst data es0) (fst r) (fst (k (fst r)))"
  shows "evolves (old_or_new (fs_ci env) tmp dst data es0) d (fst (or_cleanup env tmp k r))"
  using assms evolves_trans[OF assms(1)] remove_tmp[OF evolves_at[OF assms(1)]] by (auto simp: or_cleanup_def)

lemma sync_evolves [simp]: "d_entries (syncDir env d) = d_entries d" "d_log (syncDir env d) = d_log d"
  by (simp_all add: syncDir_def)

lemma evolves_syncDir: "evolves P d d' \<Longrightarrow> evolves P d (syncDir env d')"
  by (auto simp: evolves_def syncDir_def)

lemma write_via_evolves:
  "evolves (old_or_new (fs_ci env) tmp dst data (d_entries d)) d (fst (write_via env tmp dst data d))"
proof (cases "fs_create env tmp d")
  case (Pair d1 ok)
  let ?P = "old_or_new (fs_ci env) tmp dst data (d_entries d)"
  have e1: "evolves ?P d d1" using Pair by (auto simp: fs_create_def intro!: evolves_refl evolves_set old_or_new_tmp split: if_splits)
  have w: "evolves ?P d1 (fst (fs_write env tmp data d1))"
    using evolves_at[OF e1] by (auto simp: fs_write_def intro!: evolves_refl evolves_set old_or_new_tmp)
  have s: "evolves ?P d2 (fst (fs_sync env tmp d2))" if "?P (d_entries d2)" for d2
    using that by (auto simp: fs_sync_def intro!: evolves_refl evolves_set old_or_new_tmp split: option.splits node.splits)
  have r: "evolves ?P d3 (fst (atomicRenameDurable env tmp dst d3))"
    if "?P (d_entries d3)" "look (fs_ci env) (d_entries d3) tmp = Some (File \<lparr>f_data = data, f_synced = True\<rparr>)" for d3
  proof -
    have "?P (move_name (fs_ci env) tmp dst (File \<lparr>f_data = data, f_synced = True\<rparr>) (d_entries d3))"
      using that(1) by (auto simp: old_or_new_def)
    then show ?thesis using that
      by (auto simp: atomicRenameDurable_def fs_rename_def intro!: evolves_refl evolves_set evolves_syncDir split: prod.splits if_splits)
  qed
  have synced: "look (fs_ci env) (d_entries (fst (fs_sync env tmp d2))) tmp = Some (File \<lparr>f_data = data, f_synced = True\<rparr>)"
    if "snd (fs_sync env tmp d2)" "look (fs_ci env) (d_entries d2) tmp = Some (File \<lparr>f_data = data, f_synced = b\<rparr>)" for d2 b
    using that by (auto simp: fs_sync_def set_entries_def split: if_splits)
  have written: "\<exists>b. look (fs_ci env) (d_entries (fst (fs_write env tmp data d1))) tmp = Some (File \<lparr>f_data = data, f_synced = b\<rparr>)"
    if "snd (fs_write env tmp data d1)" using that by (auto simp: fs_write_def set_entries_def split: if_splits)
  show ?thesis
  proof (cases ok)
    case True
    let ?w = "fs_write env tmp data d1" let ?s = "fs_sync env tmp (fst ?w)"
    have at_s: "evolves ?P (fst ?w) (fst ?s)" by (rule s[OF evolves_at[OF w]])
    have ren: "evolves ?P (fst ?s) (fst (atomicRenameDurable env tmp dst (fst ?s)))" if "snd ?w" "snd ?s"
      using written[OF that(1)] synced[OF that(2)] by (auto intro!: r evolves_at[OF at_s])
    have stay: "evolves ?P (fst ?s) (fst ?s)" by (rule evolves_refl) (rule evolves_at[OF at_s])
    have fin: "evolves ?P d4 d4" if "evolves ?P (fst ?s) d4" for d4 by (rule evolves_refl) (rule evolves_at[OF that])
    have "evolves ?P d1 (fst (write_via env tmp dst data d))"
      unfolding write_via_def Pair using True w at_s ren stay fin[OF ren]
      by (auto intro!: or_cleanup_evolves)
    with e1 show ?thesis by (rule evolves_trans)
  next
    case False
    with e1 Pair show ?thesis by (simp add: write_via_def)
  qed
qed

text \<open>What a finished atomic write did: everything, or nothing but a temp file that could not be removed.\<close>

lemma write_via_ok:
  assumes "write_via env tmp dst data d = (d', True)"
  shows "look (fs_ci env) (d_entries d') n =
    (if canon (fs_ci env) n = canon (fs_ci env) dst then Some (File \<lparr>f_data = data, f_synced = True\<rparr>)
     else if canon (fs_ci env) n = canon (fs_ci env) tmp then None else look (fs_ci env) (d_entries d) n)"
  using assms
  by (auto simp: write_via_def or_cleanup_def fs_create_def fs_write_def fs_sync_def atomicRenameDurable_def fs_rename_def
      set_entries_def split: if_splits)

lemma write_via_failed:
  assumes "write_via env tmp dst data d = (d', False)" and "canon (fs_ci env) n \<noteq> canon (fs_ci env) tmp"
  shows "look (fs_ci env) (d_entries d') n = look (fs_ci env) (d_entries d) n"
proof -
  have rm: "look (fs_ci env) (d_entries (fst (fs_remove env tmp d1))) n = look (fs_ci env) (d_entries d1) n" for d1
    using assms(2) by (auto simp: fs_remove_def set_entries_def split: option.splits node.splits)
  have rn: "fst (atomicRenameDurable env tmp dst d1) = d1" if "\<not> snd (atomicRenameDurable env tmp dst d1)" for d1
    using that by (auto simp: atomicRenameDurable_def fs_rename_def split: option.splits if_splits prod.splits)
  from assms show ?thesis
    by (auto simp: write_via_def or_cleanup_def fs_create_def fs_write_def fs_sync_def rm rn set_entries_def Let_def
        split: if_splits option.splits node.splits)
qed

text \<open>What the steps of an atomic write preserve, its result does.\<close>

lemma write_via_keeps:
  assumes "Q (d_entries d)"
    and "\<And>es x. Q es \<Longrightarrow> Q (put_name (fs_ci env) tmp x es)" and "\<And>es. Q es \<Longrightarrow> Q (drop_name (fs_ci env) tmp es)"
    and "\<And>es x. Q es \<Longrightarrow> Q (move_name (fs_ci env) tmp dst x es)"
  shows "Q (d_entries (fst (write_via env tmp dst data d)))"
proof -
  have rm: "Q (d_entries (fst (fs_remove env tmp d1)))" if "Q (d_entries d1)" for d1
    using that assms(3) by (auto simp: fs_remove_def set_entries_def split: option.splits node.splits)
  have clean: "Q (d_entries (fst (or_cleanup env tmp k r)))" if "Q (d_entries (fst r))" "Q (d_entries (fst r)) \<Longrightarrow> Q (d_entries (fst (k (fst r))))" for k r
    using that rm by (auto simp: or_cleanup_def)
  have ren: "Q (d_entries (fst (atomicRenameDurable env tmp dst d1)))" if "Q (d_entries d1)" for d1
    using that assms(4) by (auto simp: atomicRenameDurable_def fs_rename_def set_entries_def split: option.splits prod.splits if_splits)
  have sync: "Q (d_entries (fst (fs_sync env tmp d1)))" if "Q (d_entries d1)" for d1
    using that assms(2) by (auto simp: fs_sync_def set_entries_def split: option.splits node.splits)
  have wr: "Q (d_entries (fst (fs_write env tmp data d1)))" if "Q (d_entries d1)" for d1
    using that assms(2) by (auto simp: fs_write_def set_entries_def)
  have mk: "Q (d_entries (fst (fs_create env tmp d)))" using assms(1,2) by (auto simp: fs_create_def set_entries_def)
  show ?thesis
    unfolding write_via_def using mk
    by (auto simp: case_prod_beta Let_def intro!: clean ren sync wr)
qed

lemma rename_cases:
  "fs_rename env a b d = (d', ok) \<Longrightarrow> (\<not> ok \<and> d' = d) \<or>
   (ok \<and> (\<exists>x. look (fs_ci env) (d_entries d) a = Some x \<and> d' = set_entries (move_name (fs_ci env) a b x (d_entries d)) d))"
  by (auto simp: fs_rename_def split: option.splits if_splits)

end
