(* ===== verification/TunnelStore.thy ===== *)
theory TunnelStore
  imports FileStore Config Settings Validator
begin

text \<open>
  The tunnel store (\<open>internal/storage/tunnels.go\<close>): \<open>.conf\<close> files with their \<open>.meta.json\<close> sidecars in one
  directory. Every operation runs under the store's lock; the JSON codec of the sidecar is part of the
  environment. The case rule (\<open>fs_ci\<close>) is that of the file system; \<open>EqualFold\<close> is the code's own test.
\<close>

section \<open>Sidecars\<close>

record sidecar = tunnel_meta +
  sc_notes :: string
  sc_probe_target :: string
  sc_probe_resolved :: string
  sc_probe_targets :: "string list"
  sc_created :: int

definition sidecar0 :: sidecar where
  "sidecar0 = tunnel_meta.extend meta0 \<lparr>sc_notes = '''', sc_probe_target = '''', sc_probe_resolved = '''',
     sc_probe_targets = [], sc_created = 0\<rparr>"

definition ProbeTargetSlotCount :: nat where
  "ProbeTargetSlotCount = 4"

text \<open>\<open>ProbeTargets\<close> on a present sidecar (a nil one gives four empty slots).\<close>

definition slots_of :: "string list \<Rightarrow> string list" where
  "slots_of ts = map (\<lambda>i. if i < length ts then trim_space (ts ! i) else '''') [0..<ProbeTargetSlotCount]"

definition ProbeTargets :: "sidecar option \<Rightarrow> string list" where
  "ProbeTargets m =
     (case m of
        None \<Rightarrow> slots_of []
      | Some s \<Rightarrow>
          (let out = slots_of (sc_probe_targets s); legacy = trim_space (sc_probe_target s)
           in if out ! 2 = '''' \<and> out ! 3 = '''' \<and> legacy \<noteq> '''' then out[2 := legacy] else out))"

definition SetProbeTargets :: "string list \<Rightarrow> sidecar \<Rightarrow> sidecar" where
  "SetProbeTargets targets s = s\<lparr>sc_probe_targets := slots_of targets, sc_probe_target := slots_of targets ! 2\<rparr>"

definition NormalizeDomainEntry :: "string \<Rightarrow> string" where
  "NormalizeDomainEntry d = to_lower (trim_suffix (trim_space d) ''.'')"

section \<open>Names and reads\<close>

record store_env = fsenv +
  se_marshal :: "sidecar \<Rightarrow> string"
  se_unmarshal :: "string \<Rightarrow> sidecar option"

definition conf_path :: "string \<Rightarrow> string" where "conf_path name = name @ ''.conf''"
definition meta_path :: "string \<Rightarrow> string" where "meta_path name = name @ ''.meta.json''"

abbreviation basic :: "store_env \<Rightarrow> fsenv" where
  "basic env \<equiv> fsenv.truncate env"

definition store_exists :: "store_env \<Rightarrow> string \<Rightarrow> dir \<Rightarrow> bool" where
  "store_exists env name d \<longleftrightarrow> fs_stat (basic env) (conf_path name) d = StatFound"

definition Exists :: "store_env \<Rightarrow> string \<Rightarrow> dir \<Rightarrow> bool" where
  "Exists env name d \<longleftrightarrow> ValidateTunnelName name = None \<and> store_exists env name d"

text \<open>The stored tunnel names in the order of \<open>ReadDir\<close>, sorted by file name.\<close>

definition conf_names :: "entries \<Rightarrow> string list" where
  "conf_names es = map (\<lambda>n. trim_suffix n ''.conf'')
     (filter (\<lambda>n. has_suffix n ''.conf'') (sort (map fst (filter (\<lambda>(n, x). \<not> is_folder x) es))))"

definition List :: "store_env \<Rightarrow> dir \<Rightarrow> string list option" where
  "List env d = (if fs_fails env SysReadDir then None else Some (conf_names (d_entries d)))"

definition caseVariantLocked :: "store_env \<Rightarrow> string \<Rightarrow> dir \<Rightarrow> string option" where
  "caseVariantLocked env name d =
     (if fs_fails env SysReadDir then None
      else find (\<lambda>stored. stored \<noteq> name \<and> equal_fold stored name) (conf_names (d_entries d)))"

datatype load_error = LoadName name_error | LoadRead | LoadParse parse_error

definition load_conf :: "store_env \<Rightarrow> string \<Rightarrow> dir \<Rightarrow> load_error + wg_config" where
  "load_conf env name d =
     (case fs_read (basic env) (conf_path name) d of
        ReadData data \<Rightarrow> (case Parse data of Inl e \<Rightarrow> Inl (LoadParse e) | Inr cfg \<Rightarrow> Inr (cfg\<lparr>cfg_name := name\<rparr>))
      | _ \<Rightarrow> Inl LoadRead)"

definition Load :: "store_env \<Rightarrow> string \<Rightarrow> dir \<Rightarrow> load_error + wg_config" where
  "Load env name d = (case ValidateTunnelName name of Some e \<Rightarrow> Inl (LoadName e) | None \<Rightarrow> load_conf env name d)"

text \<open>\<open>loadMetaLocked\<close>: \<open>None\<close> is a read error; a missing or unreadable JSON is the empty sidecar.\<close>

definition loadMetaLocked :: "store_env \<Rightarrow> string \<Rightarrow> dir \<Rightarrow> sidecar option" where
  "loadMetaLocked env name d =
     (case fs_read (basic env) (meta_path name) d of
        ReadFails \<Rightarrow> None
      | ReadMissing \<Rightarrow> Some sidecar0
      | ReadData data \<Rightarrow> (case se_unmarshal env data of None \<Rightarrow> Some sidecar0 | Some m \<Rightarrow> Some m))"

datatype meta_error = MetaName name_error | MetaRead | MetaWrite

definition LoadMeta :: "store_env \<Rightarrow> string \<Rightarrow> dir \<Rightarrow> meta_error + sidecar" where
  "LoadMeta env name d =
     (case ValidateTunnelName name of
        Some e \<Rightarrow> Inl (MetaName e)
      | None \<Rightarrow> (case loadMetaLocked env name d of None \<Rightarrow> Inl MetaRead | Some m \<Rightarrow> Inr m))"

definition LoadWithMeta :: "store_env \<Rightarrow> string \<Rightarrow> dir \<Rightarrow> load_error + (wg_config \<times> sidecar)" where
  "LoadWithMeta env name d =
     (case Load env name d of
        Inl e \<Rightarrow> Inl e
      | Inr cfg \<Rightarrow> Inr (cfg, case loadMetaLocked env name d of None \<Rightarrow> sidecar0 | Some m \<Rightarrow> m))"

section \<open>Writes\<close>

definition saveMetaLocked :: "store_env \<Rightarrow> string \<Rightarrow> sidecar \<Rightarrow> dir \<Rightarrow> dir \<times> bool" where
  "saveMetaLocked env name m d =
     write_via (basic env) (temp_name ''meta-'' (basic env)) (meta_path name) (se_marshal env m) d"

definition SaveMeta :: "store_env \<Rightarrow> string \<Rightarrow> sidecar \<Rightarrow> dir \<Rightarrow> dir \<times> meta_error option" where
  "SaveMeta env name m d =
     (case ValidateTunnelName name of
        Some e \<Rightarrow> (d, Some (MetaName e))
      | None \<Rightarrow> (let (d, ok) = saveMetaLocked env name m d in (d, if ok then None else Some MetaWrite)))"

definition UpdateMeta :: "store_env \<Rightarrow> string \<Rightarrow> (sidecar \<Rightarrow> sidecar) \<Rightarrow> dir \<Rightarrow> dir \<times> meta_error option" where
  "UpdateMeta env name f d =
     (case ValidateTunnelName name of
        Some e \<Rightarrow> (d, Some (MetaName e))
      | None \<Rightarrow>
          (case loadMetaLocked env name d of
             None \<Rightarrow> (d, Some MetaRead)
           | Some m \<Rightarrow> (let (d, ok) = saveMetaLocked env name (f m) d in (d, if ok then None else Some MetaWrite))))"

datatype save_error = SaveName name_error | SaveVariant string | SaveWrite

definition stamp_created :: "store_env \<Rightarrow> string \<Rightarrow> dir \<Rightarrow> dir" where
  "stamp_created env name d =
     (case loadMetaLocked env name d of
        None \<Rightarrow> d
      | Some m \<Rightarrow> (if sc_created m = 0 then fst (saveMetaLocked env name (m\<lparr>sc_created := fs_now env\<rparr>) d) else d))"

definition Save :: "store_env \<Rightarrow> wg_config \<Rightarrow> dir \<Rightarrow> dir \<times> save_error option" where
  "Save env cfg d =
     (case ValidateTunnelName (cfg_name cfg) of
        Some e \<Rightarrow> (d, Some (SaveName e))
      | None \<Rightarrow>
          (case caseVariantLocked env (cfg_name cfg) d of
             Some variant \<Rightarrow> (d, Some (SaveVariant variant))
           | None \<Rightarrow>
               (let isNew = \<not> store_exists env (cfg_name cfg) d;
                    (d, ok) = write_via (basic env) (temp_name '''' (basic env)) (conf_path (cfg_name cfg)) (Serialize cfg) d
                in if \<not> ok then (d, Some SaveWrite)
                   else (if isNew then stamp_created env (cfg_name cfg) d else d, None))))"

datatype import_error = ImportParse parse_error | ImportInvalid | ImportSave save_error

definition ImportFromContent :: "store_env \<Rightarrow> string \<Rightarrow> string \<Rightarrow> dir \<Rightarrow> dir \<times> (import_error + wg_config)" where
  "ImportFromContent env name content d =
     (case Parse content of
        Inl e \<Rightarrow> (d, Inl (ImportParse e))
      | Inr cfg \<Rightarrow>
          (let cfg = cfg\<lparr>cfg_name := name\<rparr>
           in if Validate cfg \<noteq> [] then (d, Inl ImportInvalid)
              else case Save env cfg d of
                (d, Some e) \<Rightarrow> (d, Inl (ImportSave e))
              | (d, None) \<Rightarrow> (d, Inr cfg)))"

definition Delete :: "store_env \<Rightarrow> string \<Rightarrow> dir \<Rightarrow> dir \<times> bool" where
  "Delete env name d =
     (if ValidateTunnelName name \<noteq> None then (d, False)
      else let (d, ok) = fs_remove (basic env) (conf_path name) d
           in (fst (fs_remove (basic env) (meta_path name) d), ok))"

section \<open>Rename\<close>

definition preCheckWritable :: "store_env \<Rightarrow> string \<Rightarrow> string \<Rightarrow> dir \<Rightarrow> dir \<times> bool" where
  "preCheckWritable env src dst d =
     (if fs_stat (basic env) src d \<noteq> StatFound \<or> fs_stat (basic env) dst d \<noteq> StatMissing then (d, False)
      else let probe = src @ ''.rename-probe''; (d, linked) = fs_link (basic env) src probe d
           in (if linked then fst (fs_remove (basic env) probe d) else d, True))"

datatype rename_error =
    RenameName name_error | RenameEscapes | RenameMissing | RenameExists | RenameVariant string
  | RenamePreConf | RenamePreMeta | RenameFailed | RenameMetaRolledBack | RenameSplit

definition commit_rename :: "store_env \<Rightarrow> string \<Rightarrow> string \<Rightarrow> bool \<Rightarrow> dir \<Rightarrow> dir \<times> rename_error option" where
  "commit_rename env oldName newName hasMeta d =
     (let (d1, ok) = fs_rename (basic env) (conf_path oldName) (conf_path newName) d
      in if \<not> ok then (d1, Some RenameFailed)
         else if \<not> hasMeta then (d1, None)
         else let (d2, ok2) = fs_rename (basic env) (meta_path oldName) (meta_path newName) d1
              in if ok2 then (d2, None)
                 else let (d3, back) = fs_rename (basic env) (conf_path newName) (conf_path oldName) d2
                      in (d3, Some (if back then RenameMetaRolledBack else RenameSplit)))"

definition Rename :: "store_env \<Rightarrow> string \<Rightarrow> string \<Rightarrow> dir \<Rightarrow> dir \<times> rename_error option" where
  "Rename env oldName newName d =
     (case ValidateTunnelName newName of
        Some e \<Rightarrow> (d, Some (RenameName e))
      | None \<Rightarrow>
          (if oldName = newName then (d, None)
           else if fs_escapes env oldName then (d, Some RenameEscapes)
           else if \<not> store_exists env oldName d then (d, Some RenameMissing)
           else let pureCaseChange = equal_fold oldName newName in
             if \<not> pureCaseChange \<and> store_exists env newName d then (d, Some RenameExists)
             else case (if pureCaseChange then None else caseVariantLocked env newName d) of
               Some variant \<Rightarrow> (d, Some (RenameVariant variant))
             | None \<Rightarrow>
                 (let hasMeta = (fs_stat (basic env) (meta_path oldName) d = StatFound)
                  in if pureCaseChange then commit_rename env oldName newName hasMeta d
                     else let (d, ok) = preCheckWritable env (conf_path oldName) (conf_path newName) d
                          in if \<not> ok then (d, Some RenamePreConf)
                             else if hasMeta then
                               (let (d, ok) = preCheckWritable env (meta_path oldName) (meta_path newName) d
                                in if \<not> ok then (d, Some RenamePreMeta) else commit_rename env oldName newName hasMeta d)
                             else commit_rename env oldName newName hasMeta d)))"

end
