(* ===== verification/TunnelStoreProps.thy ===== *)
theory TunnelStoreProps
  imports TunnelStore ConfigRoundtrip
begin

text \<open>
  Properties of the tunnel store: what is saved is loaded back and nothing else changes, a power loss shows the old
  or the new file, two tunnels never differ only in case, and a rename moves both files or neither.
\<close>

section \<open>The names of the files of the store\<close>

lemma canon_append: "canon ci (a @ b) = canon ci a @ canon ci b"
  by (simp add: canon_def to_lower_def)

lemma canon_suffixes [simp]:
  "canon ci ''.conf'' = ''.conf''" "canon ci ''.meta.json'' = ''.meta.json''" "canon ci ''.tmp'' = ''.tmp''"
  "canon ci ''.rename-probe'' = ''.rename-probe''"
  by (cases ci; simp add: canon_def to_lower_def lower_char_def)+

lemma last_names [simp]:
  "last (canon ci (conf_path n)) = CHR ''f''" "last (canon ci (meta_path n)) = CHR ''n''"
  "last (canon ci (temp_name k env)) = CHR ''p''" "last (canon ci (a @ ''.rename-probe'')) = CHR ''e''"
  by (simp_all only: conf_path_def meta_path_def temp_name_def canon_append canon_suffixes append_assoc[symmetric]) simp_all

lemma canon_names [simp]:
  "canon ci (conf_path a) = canon ci (conf_path b) \<longleftrightarrow> canon ci a = canon ci b"
  "canon ci (meta_path a) = canon ci (meta_path b) \<longleftrightarrow> canon ci a = canon ci b"
  by (simp_all add: conf_path_def meta_path_def canon_append)

lemma last_differs: "last a \<noteq> last b \<Longrightarrow> a \<noteq> b"
  by auto

lemma canon_kinds [simp]:
  "canon ci (conf_path a) \<noteq> canon ci (meta_path b)" "canon ci (conf_path a) \<noteq> canon ci (temp_name k env)"
  "canon ci (meta_path a) \<noteq> canon ci (temp_name k env)" "canon ci (conf_path a) \<noteq> canon ci (c @ ''.rename-probe'')"
  "canon ci (meta_path a) \<noteq> canon ci (c @ ''.rename-probe'')"
  "canon ci (meta_path b) \<noteq> canon ci (conf_path a)" "canon ci (temp_name k env) \<noteq> canon ci (conf_path a)"
  "canon ci (temp_name k env) \<noteq> canon ci (meta_path a)" "canon ci (c @ ''.rename-probe'') \<noteq> canon ci (conf_path a)"
  "canon ci (c @ ''.rename-probe'') \<noteq> canon ci (meta_path a)"
  by (rule last_differs, simp)+

lemma basic_fields [simp]:
  "fs_ci (basic env) = fs_ci env" "fs_fails (basic env) = fs_fails env" "fs_now (basic env) = fs_now env"
  by (simp_all add: fsenv.truncate_def)

section \<open>One save\<close>

lemma save_meta_look:
  "look (fs_ci env) (d_entries (fst (saveMetaLocked env name m d))) (conf_path n) = look (fs_ci env) (d_entries d) (conf_path n)"
proof (cases "saveMetaLocked env name m d")
  case (Pair d' ok)
  then show ?thesis
    using write_via_ok[of "basic env" _ _ _ d d' "conf_path n"] write_via_failed[of "basic env" _ _ _ d d' "conf_path n"]
    by (cases ok) (auto simp: saveMetaLocked_def)
qed

lemma stamp_look:
  "look (fs_ci env) (d_entries (stamp_created env name d)) (conf_path n) = look (fs_ci env) (d_entries d) (conf_path n)"
  by (simp add: stamp_created_def save_meta_look split: option.splits)

lemma save_look:
  assumes "Save env cfg d = (d', None)"
  shows "look (fs_ci env) (d_entries d') (conf_path n) =
    (if canon (fs_ci env) n = canon (fs_ci env) (cfg_name cfg) then Some (File \<lparr>f_data = Serialize cfg, f_synced = True\<rparr>)
     else look (fs_ci env) (d_entries d) (conf_path n))"
proof -
  obtain d1 where w: "write_via (basic env) (temp_name '''' (basic env)) (conf_path (cfg_name cfg)) (Serialize cfg) d = (d1, True)"
    and d': "d' = d1 \<or> d' = stamp_created env (cfg_name cfg) d1"
    using assms by (auto simp: Save_def split: option.splits if_splits prod.splits)
  from write_via_ok[OF w, of "conf_path n"] d' show ?thesis by (auto simp: stamp_look)
qed

section \<open>Saved tunnels are loaded back\<close>

lemma load_cong:
  "fs_ci env' = fs_ci env \<Longrightarrow> look (fs_ci env) (d_entries d') (conf_path m) = look (fs_ci env) (d_entries d) (conf_path m) \<Longrightarrow>
   Load env' m d' = Load env' m d"
  by (simp add: Load_def load_conf_def fs_read_def split: option.splits)

text \<open>C36: After a successful save the tunnel loads back as the parsed text that was written, under its name (so a
  well-formed configuration comes back with its interface and peers unchanged), and every other tunnel loads
  exactly as before.\<close>

theorem save_then_load:
  assumes "Save env cfg d = (d', None)"
    and "fs_ci env' = fs_ci env" and "\<not> fs_fails env' (SysRead (conf_path (cfg_name cfg)))"
  shows "Load env' (cfg_name cfg) d' =
      (case Parse (Serialize cfg) of Inl e \<Rightarrow> Inl (LoadParse e) | Inr c \<Rightarrow> Inr (c\<lparr>cfg_name := cfg_name cfg\<rparr>)) \<and>
    (wf_config cfg \<and> length (Serialize cfg) \<le> MaxConfigSize \<longrightarrow>
      (\<exists>c. Load env' (cfg_name cfg) d' = Inr c \<and> cfg_name c = cfg_name cfg \<and>
        cfg_interface c = cfg_interface cfg \<and> cfg_peers c = cfg_peers cfg)) \<and>
    (canon (fs_ci env) m \<noteq> canon (fs_ci env) (cfg_name cfg) \<longrightarrow> Load env' m d' = Load env' m d)"
proof -
  have name: "ValidateTunnelName (cfg_name cfg) = None" using assms(1) by (auto simp: Save_def split: option.splits)
  have "Load env' (cfg_name cfg) d' =
      (case Parse (Serialize cfg) of Inl e \<Rightarrow> Inl (LoadParse e) | Inr c \<Rightarrow> Inr (c\<lparr>cfg_name := cfg_name cfg\<rparr>))"
    using save_look[OF assms(1), of "cfg_name cfg"] assms(2,3) name by (simp add: Load_def load_conf_def fs_read_def)
  moreover have "Load env' m d' = Load env' m d" if "canon (fs_ci env) m \<noteq> canon (fs_ci env) (cfg_name cfg)"
    using save_look[OF assms(1), of m] that by (intro load_cong[OF assms(2)]) simp
  ultimately show ?thesis using parse_written by simp
qed

text \<open>A quiet disk: no system call fails. The store used by the examples.\<close>

definition calm_env :: "bool \<Rightarrow> store_env" where
  "calm_env ci = \<lparr>fs_ci = ci, fs_fails = (\<lambda>c. False), fs_now = 1, fs_rand = ''7'', fs_escapes = (\<lambda>n. False),
     se_marshal = (\<lambda>m. ''{}''), se_unmarshal = (\<lambda>s. None)\<rparr>"

definition empty_dir :: dir where
  "empty_dir = \<lparr>d_entries = [], d_log = [], d_durable = 0\<rparr>"

lemma calm_simps [simp]: "fs_ci (calm_env ci) = ci" "fs_fails (calm_env ci) = (\<lambda>c. False)"
  by (simp_all add: calm_env_def)

lemma demo_name [simp]: "cfg_name demo_config = ''home''"
  by (simp add: demo_config_def)

lemma demo_saved: "snd (Save (calm_env True) demo_config empty_dir) = None"
  by code_simp

theorem save_then_load_witness:
  "Load (calm_env True) ''home'' (fst (Save (calm_env True) demo_config empty_dir)) =
     (case Parse (Serialize demo_config) of Inl e \<Rightarrow> Inl (LoadParse e) | Inr c \<Rightarrow> Inr (c\<lparr>cfg_name := ''home''\<rparr>))"
  using save_then_load[of "calm_env True" demo_config empty_dir "fst (Save (calm_env True) demo_config empty_dir)" "calm_env True"]
    demo_saved by (cases "Save (calm_env True) demo_config empty_dir") (simp split: sum.splits)

section \<open>A power loss during a save\<close>

text \<open>Every configuration file reads as before, or it is the saved one and holds the new text, flushed.\<close>

definition old_or_saved :: "bool \<Rightarrow> wg_config \<Rightarrow> entries \<Rightarrow> entries \<Rightarrow> bool" where
  "old_or_saved ci cfg es0 es \<longleftrightarrow> (\<forall>n. look ci es (conf_path n) = look ci es0 (conf_path n) \<or>
     (canon ci n = canon ci (cfg_name cfg) \<and> look ci es (conf_path n) = Some (File \<lparr>f_data = Serialize cfg, f_synced = True\<rparr>)))"

lemma old_or_new_conf:
  "old_or_new ci (temp_name k env) dst data es0 es \<Longrightarrow> look ci es (conf_path n) = look ci es0 (conf_path n) \<or>
     (canon ci (conf_path n) = canon ci dst \<and> look ci es (conf_path n) = Some (File \<lparr>f_data = data, f_synced = True\<rparr>))"
  unfolding old_or_new_def by (drule spec[of _ "conf_path n"]) simp

lemma write_conf_evolves:
  "evolves (old_or_saved (fs_ci env) cfg (d_entries d)) d
     (fst (write_via (basic env) (temp_name '''' (basic env)) (conf_path (cfg_name cfg)) (Serialize cfg) d))"
  by (rule evolves_mono[OF write_via_evolves[of "basic env", simplified]]) (use old_or_new_conf in \<open>fastforce simp: old_or_saved_def\<close>)

lemma save_meta_evolves:
  assumes "P (d_entries d)"
    and "\<And>es'. (\<forall>n. look (fs_ci env) es' (conf_path n) = look (fs_ci env) (d_entries d) (conf_path n)) \<Longrightarrow> P es'"
  shows "evolves P d (fst (saveMetaLocked env name m d))"
  unfolding saveMetaLocked_def
proof (rule evolves_mono[OF write_via_evolves[of "basic env", simplified]])
  fix es assume "old_or_new (fs_ci env) (temp_name ''meta-'' (basic env)) (meta_path name) (se_marshal env m) (d_entries d) es"
  then have "look (fs_ci env) es (conf_path n) = look (fs_ci env) (d_entries d) (conf_path n)" for n
    using old_or_new_conf[of "fs_ci env" "''meta-''" "basic env" "meta_path name" _ "d_entries d" es n] by auto
  then show "P es" by (intro assms(2)) simp
qed

lemma save_evolves: "evolves (old_or_saved (fs_ci env) cfg (d_entries d)) d (fst (Save env cfg d))"
proof -
  let ?P = "old_or_saved (fs_ci env) cfg (d_entries d)"
  have refl: "evolves ?P d d" by (rule evolves_refl) (simp add: old_or_saved_def)
  obtain d1 ok where w: "write_via (basic env) (temp_name '''' (basic env)) (conf_path (cfg_name cfg)) (Serialize cfg) d = (d1, ok)" by fastforce
  have e1: "evolves ?P d d1" using write_conf_evolves[of env cfg d] w by simp
  have e1': "evolves ?P d1 d1" by (rule evolves_refl) (rule evolves_at[OF e1])
  have "evolves ?P d1 (fst (saveMetaLocked env (cfg_name cfg) m d1))" for m
    by (rule save_meta_evolves, rule evolves_at[OF e1]) (use evolves_at[OF e1] in \<open>simp add: old_or_saved_def\<close>)
  then have e2: "evolves ?P d1 (stamp_created env (cfg_name cfg) d1)"
    using e1' by (simp add: stamp_created_def split: option.splits)
  show ?thesis using refl e1 evolves_trans[OF e1 e2] w
    by (auto simp: Save_def split: option.splits)
qed

text \<open>C21: If the power fails at any point of a save that starts from a flushed directory, or after it, each tunnel's file is the old one or, for the saved
  tunnel, the complete new one flushed to disk: never a mixture, never missing.\<close>

theorem save_survives_power_loss:
  assumes "d_durable d = length (d_log d)"
    and "es \<in> set (drop (length (d_log d)) (d_log (fst (Save env cfg d)))) \<union> set (crash_views (fst (Save env cfg d)))"
  shows "look (fs_ci env) es (conf_path n) = look (fs_ci env) (d_entries d) (conf_path n) \<or>
    (canon (fs_ci env) n = canon (fs_ci env) (cfg_name cfg) \<and> sure (fs_ci env) es (conf_path n) = Some (Serialize cfg))"
proof -
  let ?P = "old_or_saved (fs_ci env) cfg (d_entries d)"
  have e: "evolves ?P d (fst (Save env cfg d))" by (rule save_evolves)
  have start: "?P (d_entries d)" by (simp add: old_or_saved_def)
  have "?P es" using assms(2) evolves_crash[OF e start assms(1)] e by (auto simp: evolves_def)
  from spec[OF this[unfolded old_or_saved_def], of n] show ?thesis by (auto simp: sure_def)
qed

text \<open>The state in the middle of a save of \<open>home\<close>, before its temp file is renamed.\<close>

theorem save_survives_power_loss_witness:
  "(let es = hd (crash_views (fst (Save (calm_env True) demo_config empty_dir))) in
     look True es (conf_path ''home'') = None \<or> sure True es (conf_path ''home'') = Some (Serialize demo_config))"
proof -
  have "crash_views (fst (Save (calm_env True) demo_config empty_dir)) \<noteq> []" by (simp add: crash_views_def)
  then have "hd (crash_views (fst (Save (calm_env True) demo_config empty_dir))) \<in>
      set (crash_views (fst (Save (calm_env True) demo_config empty_dir)))" by simp
  then show ?thesis
    using save_survives_power_loss[of empty_dir _ "calm_env True" demo_config "''home''"]
    by (simp add: empty_dir_def look_def Let_def)
qed

section \<open>Names that differ only in case\<close>

definition stored :: "entries \<Rightarrow> string set" where
  "stored es = {n. \<exists>f. (conf_path n, File f) \<in> set es}"

text \<open>No two stored tunnels differ only in case.\<close>

definition variant_free :: "entries \<Rightarrow> bool" where
  "variant_free es \<longleftrightarrow> (\<forall>a \<in> stored es. \<forall>b \<in> stored es. equal_fold a b \<longrightarrow> a = b)"

lemma conf_name: "has_suffix n ''.conf'' \<Longrightarrow> n = conf_path (trim_suffix n ''.conf'')"
  by (auto simp: conf_path_def trim_suffix_def) (metis append_take_drop_id)

lemma trim_conf [simp]: "trim_suffix (conf_path n) ''.conf'' = n" "has_suffix (conf_path n) ''.conf''"
  by (simp_all add: conf_path_def trim_suffix_def)

lemma not_folder: "\<not> is_folder x \<longleftrightarrow> (\<exists>f. x = File f)"
  by (cases x) auto

lemma set_conf_names: "set (conf_names es) = stored es"
proof -
  have "n \<in> set (conf_names es) \<longleftrightarrow> (\<exists>m f. (m, File f) \<in> set es \<and> has_suffix m ''.conf'' \<and> n = trim_suffix m ''.conf'')" for n
    by (auto simp: conf_names_def not_folder image_iff)
  moreover have "(\<exists>m f. (m, File f) \<in> set es \<and> has_suffix m ''.conf'' \<and> n = trim_suffix m ''.conf'') \<longleftrightarrow> n \<in> stored es" for n
    unfolding stored_def mem_Collect_eq using conf_name trim_conf by metis
  ultimately show ?thesis by blast
qed

lemma stored_drop: "stored (drop_name ci n es) = {m \<in> stored es. canon ci (conf_path m) \<noteq> canon ci n}"
  by (auto simp: stored_def drop_name_def)

lemma stored_Cons:
  "stored ((n, x) # es) = stored es \<union> {m. conf_path m = n \<and> \<not> is_folder x}"
  by (auto simp: stored_def not_folder)

lemma stored_put_other: "\<forall>m. canon ci (conf_path m) \<noteq> canon ci n \<Longrightarrow> stored (put_name ci n x es) = stored es"
  by (auto simp: put_name_def stored_Cons stored_drop)

lemma variant_free_mono: "variant_free es \<Longrightarrow> stored es' \<subseteq> stored es \<Longrightarrow> variant_free es'"
  by (auto simp: variant_free_def)

lemma conf_path_inj [simp]: "conf_path a = conf_path b \<longleftrightarrow> a = b"
  by (simp add: conf_path_def)

lemma equal_fold_sym: "equal_fold a b \<longleftrightarrow> equal_fold b a"
  by (auto simp: equal_fold_def)

lemma variant_free_put:
  assumes "variant_free es" and "\<And>m. m \<in> stored es \<Longrightarrow> equal_fold m n \<Longrightarrow> m = n \<or> canon ci (conf_path m) = canon ci (conf_path n)"
  shows "variant_free (put_name ci (conf_path n) x es)"
  using assms equal_fold_sym
  by (auto simp: variant_free_def put_name_def stored_Cons stored_drop)

lemma variant_free_move:
  assumes "variant_free es" and "\<And>m. m \<in> stored es \<Longrightarrow> equal_fold m b \<Longrightarrow> \<not> is_folder x \<Longrightarrow> m = b \<or> canon ci m = canon ci a"
  shows "variant_free (move_name ci (conf_path a) (conf_path b) x es)"
  using assms equal_fold_sym
  by (auto simp: variant_free_def move_name_def stored_Cons stored_drop)

lemma variant_none:
  "caseVariantLocked env name d = None \<Longrightarrow> \<not> fs_fails env SysReadDir \<Longrightarrow> m \<in> stored (d_entries d) \<Longrightarrow> equal_fold m name \<Longrightarrow> m = name"
  by (auto simp: caseVariantLocked_def find_None_iff set_conf_names)

section \<open>Every operation keeps the names apart\<close>

datatype store_op =
    OpSave store_env wg_config | OpImport store_env string string | OpDelete store_env string
  | OpRename store_env string string | OpSaveMeta store_env string sidecar | OpUpdateMeta store_env string "sidecar \<Rightarrow> sidecar"

fun store_step :: "dir \<Rightarrow> store_op \<Rightarrow> dir" where
  "store_step d (OpSave env cfg) = fst (Save env cfg d)"
| "store_step d (OpImport env name content) = fst (ImportFromContent env name content d)"
| "store_step d (OpDelete env name) = fst (Delete env name d)"
| "store_step d (OpRename env old new) = fst (Rename env old new d)"
| "store_step d (OpSaveMeta env name m) = fst (SaveMeta env name m d)"
| "store_step d (OpUpdateMeta env name f) = fst (UpdateMeta env name f d)"

fun op_env :: "store_op \<Rightarrow> store_env" where
  "op_env (OpSave env cfg) = env"
| "op_env (OpImport env name content) = env"
| "op_env (OpDelete env name) = env"
| "op_env (OpRename env old new) = env"
| "op_env (OpSaveMeta env name m) = env"
| "op_env (OpUpdateMeta env name f) = env"

lemma stored_move_other:
  "\<forall>m. canon ci (conf_path m) \<noteq> canon ci a \<Longrightarrow> \<forall>m. canon ci (conf_path m) \<noteq> canon ci b \<Longrightarrow> stored (move_name ci a b x es) = stored es"
  by (auto simp: move_name_def stored_Cons stored_drop)

lemma save_meta_stored: "stored (d_entries (fst (saveMetaLocked env name m d))) = stored (d_entries d)"
  unfolding saveMetaLocked_def
  by (rule write_via_keeps[where Q = "\<lambda>es. stored es = stored (d_entries d)"])
    (simp_all add: stored_put_other stored_move_other stored_drop)

lemma stamp_stored: "stored (d_entries (stamp_created env name d)) = stored (d_entries d)"
  by (simp add: stamp_created_def save_meta_stored split: option.splits)

lemma save_variant_free:
  assumes "variant_free (d_entries d)" and "\<not> fs_fails env SysReadDir"
  shows "variant_free (d_entries (fst (Save env cfg d)))"
proof (cases "caseVariantLocked env (cfg_name cfg) d")
  case None
  let ?Q = "\<lambda>es. variant_free es \<and> (\<forall>m \<in> stored es. equal_fold m (cfg_name cfg) \<longrightarrow> m = cfg_name cfg)"
  let ?w = "write_via (basic env) (temp_name '''' (basic env)) (conf_path (cfg_name cfg)) (Serialize cfg) d"
  have "?Q (d_entries d)" using assms variant_none[OF None assms(2)] by blast
  then have "?Q (d_entries (fst ?w))"
    by (rule write_via_keeps)
      (auto simp: variant_free_def stored_put_other stored_drop move_name_def stored_Cons equal_fold_sym)
  then show ?thesis using None assms(1) by (auto simp: Save_def variant_free_def stamp_stored split: option.splits prod.splits)
qed (use assms in \<open>simp add: Save_def split: option.splits\<close>)

lemma remove_stored: "stored (d_entries (fst (fs_remove env n d))) \<subseteq> stored (d_entries d)"
  by (auto simp: fs_remove_def set_entries_def stored_drop split: option.splits node.splits)

lemma delete_variant_free: "variant_free (d_entries d) \<Longrightarrow> variant_free (d_entries (fst (Delete env name d)))"
proof -
  have "stored (d_entries (fst (Delete env name d))) \<subseteq> stored (d_entries d)"
    by (auto simp: Delete_def case_prod_beta Let_def dest!: subsetD[OF remove_stored])
  then show "variant_free (d_entries d) \<Longrightarrow> variant_free (d_entries (fst (Delete env name d)))" by (rule variant_free_mono[rotated])
qed

lemma probe_stored:
  "stored (d_entries (fst (preCheckWritable env src dst d))) = stored (d_entries d)"
  by (auto simp: preCheckWritable_def fs_link_def fs_remove_def set_entries_def stored_put_other stored_drop Let_def
      split: option.splits node.splits)

lemma look_file_stored: "look False es (conf_path a) = Some (File f) \<Longrightarrow> a \<in> stored es"
  by (auto simp: look_def canon_def stored_def dest!: map_of_SomeD)

lemma equal_fold_canon: "equal_fold a b \<Longrightarrow> canon True a = canon True b" "canon ci a = canon ci b \<Longrightarrow> equal_fold a b"
  by (auto simp: equal_fold_def canon_def split: if_splits)

text \<open>A stored name that equals the old name up to case is the file that is moved.\<close>

lemma moved_variant:
  assumes "variant_free es" and "look ci es (conf_path a) = Some (File f)" and "m \<in> stored es" and "equal_fold m a"
  shows "canon ci m = canon ci a"
proof (cases ci)
  case True
  with equal_fold_canon(1)[OF assms(4)] show ?thesis by simp
next
  case False
  then have "a \<in> stored es" using assms(2) look_file_stored by simp
  with assms(1,3,4) have "m = a" by (auto simp: variant_free_def)
  then show ?thesis by simp
qed

lemma rename_variant_free:
  assumes "variant_free (d_entries d)"
    and "\<And>m f. look (fs_ci env) (d_entries d) (conf_path a) = Some (File f) \<Longrightarrow> m \<in> stored (d_entries d) \<Longrightarrow> equal_fold m b \<Longrightarrow>
      m = b \<or> canon (fs_ci env) m = canon (fs_ci env) a"
  shows "variant_free (d_entries (fst (fs_rename env (conf_path a) (conf_path b) d)))"
proof -
  obtain d' ok where r: "fs_rename env (conf_path a) (conf_path b) d = (d', ok)" by fastforce
  from rename_cases[OF this] show ?thesis
  proof (elim disjE conjE exE)
    fix x assume x: "look (fs_ci env) (d_entries d) (conf_path a) = Some x"
      "d' = set_entries (move_name (fs_ci env) (conf_path a) (conf_path b) x (d_entries d)) d"
    with assms(2) have "variant_free (move_name (fs_ci env) (conf_path a) (conf_path b) x (d_entries d))"
      by (intro variant_free_move[OF assms(1)]) (auto simp: not_folder)
    with x(2) r show ?thesis by (simp add: set_entries_def)
  qed (use assms(1) r in simp)
qed

lemma rename_stored_meta:
  "stored (d_entries (fst (fs_rename env (meta_path a) (meta_path b) d))) = stored (d_entries d)"
  by (auto simp: fs_rename_def set_entries_def stored_move_other split: option.splits)

lemma commit_variant_free:
  assumes v: "variant_free (d_entries d)"
    and h: "\<And>m f. look (fs_ci env) (d_entries d) (conf_path old) = Some (File f) \<Longrightarrow> m \<in> stored (d_entries d) \<Longrightarrow> equal_fold m new \<Longrightarrow>
      m = new \<or> canon (fs_ci env) m = canon (fs_ci env) old"
  shows "variant_free (d_entries (fst (commit_rename env old new hasMeta d)))"
proof -
  obtain d1 ok where r1: "fs_rename (basic env) (conf_path old) (conf_path new) d = (d1, ok)" by fastforce
  obtain d2 ok2 where r2: "fs_rename (basic env) (meta_path old) (meta_path new) d1 = (d2, ok2)" by fastforce
  obtain d3 undone where r3: "fs_rename (basic env) (conf_path new) (conf_path old) d2 = (d3, undone)" by fastforce
  have v1: "variant_free (d_entries d1)" using rename_variant_free[of d "basic env" old new] v h r1 by simp
  have s2: "stored (d_entries d2) = stored (d_entries d1)" using rename_stored_meta[of "basic env" old new d1] r2 by simp
  then have v2: "variant_free (d_entries d2)" using v1 by (simp add: variant_free_def)
  have "variant_free (d_entries d3)" if moved: "ok"
  proof -
    obtain x where x: "look (fs_ci env) (d_entries d) (conf_path old) = Some x"
      and e1: "d_entries d1 = move_name (fs_ci env) (conf_path old) (conf_path new) x (d_entries d)"
      using rename_cases[OF r1] moved by (auto simp: set_entries_def)
    have l2: "look (fs_ci env) (d_entries d2) (conf_path new) = Some x"
      using rename_cases[OF r2] e1 by (auto simp: set_entries_def)
    have "m = old \<or> canon (fs_ci env) m = canon (fs_ci env) new" if "look (fs_ci env) (d_entries d2) (conf_path new) = Some (File f)"
      "m \<in> stored (d_entries d2)" "equal_fold m old" for m f
    proof -
      have "look (fs_ci env) (d_entries d) (conf_path old) = Some (File f)" using that(1) l2 x by simp
      from moved_variant[OF v this _ that(3)] that(2) s2 e1 show ?thesis
        by (auto simp: move_name_def stored_Cons stored_drop)
    qed
    then show ?thesis using rename_variant_free[of d2 "basic env" new old] v2 r3 by simp
  qed
  then show ?thesis using v1 v2 r1 r2 r3 by (simp add: commit_rename_def)
qed

lemma rename_op_variant_free:
  assumes "variant_free (d_entries d)" and "\<not> fs_fails env SysReadDir"
  shows "variant_free (d_entries (fst (Rename env old new d)))"
proof -
  have pre: "variant_free (d_entries d1)" if "preCheckWritable env s t d0 = (d1, ok)" "variant_free (d_entries d0)" for s t d0 d1 ok
    using probe_stored[of env s t d0] that by (simp add: variant_free_def)
  have pure: "variant_free (d_entries (fst (commit_rename env old new b d)))" if "equal_fold old new" for b
  proof (rule commit_variant_free[OF assms(1)])
    fix m f assume "look (fs_ci env) (d_entries d) (conf_path old) = Some (File f)" "m \<in> stored (d_entries d)" "equal_fold m new"
    with moved_variant[OF assms(1), of "fs_ci env" old f m] that show "m = new \<or> canon (fs_ci env) m = canon (fs_ci env) old"
      by (auto simp: equal_fold_def)
  qed
  have other: "variant_free (d_entries (fst (commit_rename env old new b d1)))"
    if "caseVariantLocked env new d = None" "stored (d_entries d1) = stored (d_entries d)" for b d1
  proof (rule commit_variant_free)
    show "variant_free (d_entries d1)" using assms(1) that(2) by (simp add: variant_free_def)
    fix m f assume "m \<in> stored (d_entries d1)" "equal_fold m new"
    with variant_none[OF that(1) assms(2)] that(2) show "m = new \<or> canon (fs_ci env) m = canon (fs_ci env) old" by blast
  qed
  have st: "stored (d_entries d1) = stored (d_entries d0)" if "preCheckWritable env s t d0 = (d1, ok)" for s t d0 d1 ok
    using probe_stored[of env s t d0] that by simp
  show ?thesis
    using assms(1) pre pure other st
    by (auto simp: Rename_def Let_def split: option.splits if_splits prod.splits)
qed

lemma step_variant_free:
  assumes "variant_free (d_entries d)" and "\<not> fs_fails (op_env e) SysReadDir"
  shows "variant_free (d_entries (store_step d e))"
proof (cases e)
  case (OpImport env name content)
  have "variant_free (d_entries (fst (Save env cfg d)))" for cfg using assms OpImport save_variant_free by simp
  then show ?thesis using OpImport assms(1) by (auto simp: ImportFromContent_def Let_def split: sum.splits prod.splits option.splits) (metis fst_conv)+
next
  case (OpSaveMeta env name m)
  show ?thesis using assms(1) save_meta_stored[of env name m d] OpSaveMeta
    by (simp add: SaveMeta_def variant_free_def case_prod_beta Let_def split: option.splits)
next
  case (OpUpdateMeta env name f)
  show ?thesis using assms(1) save_meta_stored[of env name _ d] OpUpdateMeta
    by (simp add: UpdateMeta_def variant_free_def case_prod_beta Let_def split: option.splits)
qed (use assms save_variant_free delete_variant_free rename_op_variant_free in simp_all)

text \<open>C38: Starting from an empty directory, whatever sequence of saves, imports, renames, deletes and sidecar writes is
  run and whichever system calls fail in between (listing the directory excepted), two stored tunnels never differ
  only in case, so the store can be moved to a case-insensitive disk without losing a key.\<close>

theorem names_stay_apart:
  assumes "d_entries d = []" and "list_all (\<lambda>e. \<not> fs_fails (op_env e) SysReadDir) ops"
    and "List env (foldl store_step d ops) = Some ns" and "a \<in> set ns" and "b \<in> set ns" and "equal_fold a b"
  shows "a = b"
proof -
  have "variant_free (d_entries (foldl store_step d ops))" if "variant_free (d_entries d)" for d
    using that assms(2) by (induction ops arbitrary: d) (simp_all add: step_variant_free)
  moreover have "variant_free (d_entries d)" using assms(1) by (simp add: variant_free_def stored_def)
  ultimately have "variant_free (d_entries (foldl store_step d ops))" .
  then show ?thesis using assms(3-6) by (auto simp: List_def set_conf_names variant_free_def split: if_splits)
qed

definition demo_ops :: "store_op list" where
  "demo_ops = [OpSave (calm_env False) (config0\<lparr>cfg_name := ''Work''\<rparr>), OpSave (calm_env False) (config0\<lparr>cfg_name := ''work''\<rparr>),
     OpRename (calm_env False) ''Work'' ''work'']"

theorem names_stay_apart_witness:
  "List (calm_env False) (foldl store_step empty_dir demo_ops) = Some [''work''] \<and>
     (let ns = the (List (calm_env False) (foldl store_step empty_dir demo_ops)) in hd ns = last ns)"
proof -
  have l: "List (calm_env False) (foldl store_step empty_dir demo_ops) = Some [''work'']" by code_simp
  have "hd [''work''] = last [''work'']"
    by (rule names_stay_apart[of empty_dir demo_ops, OF _ _ l]) (simp_all add: empty_dir_def demo_ops_def equal_fold_def)
  with l show ?thesis by simp
qed

section \<open>A rename moves both files or neither\<close>

lemma probe_look:
  assumes "preCheckWritable env s t d = (d', ok)"
  shows "look (fs_ci env) (d_entries d') (conf_path n) = look (fs_ci env) (d_entries d) (conf_path n)"
    "look (fs_ci env) (d_entries d') (meta_path n) = look (fs_ci env) (d_entries d) (meta_path n)"
    "ok \<Longrightarrow> look (fs_ci env) (d_entries d) t = None"
  using assms
  by (auto simp: preCheckWritable_def fs_link_def fs_remove_def fs_stat_def set_entries_def Let_def
      split: option.splits node.splits if_splits)

lemma conf_cong: "canon ci a = canon ci b \<Longrightarrow> look ci es (conf_path a) = look ci es (conf_path b)"
  unfolding look_def by (rule arg_cong[where f = "map_of _"]) simp

text \<open>Both files of a tunnel.\<close>

definition files_of :: "bool \<Rightarrow> dir \<Rightarrow> string \<Rightarrow> node option \<times> node option" where
  "files_of ci d n = (look ci (d_entries d) (conf_path n), look ci (d_entries d) (meta_path n))"

lemma commit_files:
  assumes c: "commit_rename env old new hasMeta d = (d', r)"
    and free: "look (fs_ci env) (d_entries d) (conf_path new) = None \<or> canon (fs_ci env) new = canon (fs_ci env) old"
  shows "r = None \<Longrightarrow> files_of (fs_ci env) d' new =
      (look (fs_ci env) (d_entries d) (conf_path old), look (fs_ci env) (d_entries d) (meta_path (if hasMeta then old else new)))"
    and "r = None \<Longrightarrow> canon (fs_ci env) n \<noteq> canon (fs_ci env) old \<Longrightarrow> canon (fs_ci env) n \<noteq> canon (fs_ci env) new \<Longrightarrow>
      files_of (fs_ci env) d' n = files_of (fs_ci env) d n"
    and "r \<noteq> None \<Longrightarrow> r \<noteq> Some RenameSplit \<Longrightarrow> files_of (fs_ci env) d' n = files_of (fs_ci env) d n"
proof -
  obtain d1 ok where r1: "fs_rename (basic env) (conf_path old) (conf_path new) d = (d1, ok)" by fastforce
  obtain d2 ok2 where r2: "fs_rename (basic env) (meta_path old) (meta_path new) d1 = (d2, ok2)" by fastforce
  obtain d3 undone where r3: "fs_rename (basic env) (conf_path new) (conf_path old) d2 = (d3, undone)" by fastforce
  have run: "(d', r) = (if \<not> ok then (d1, Some RenameFailed) else if \<not> hasMeta then (d1, None) else if ok2 then (d2, None)
      else (d3, Some (if undone then RenameMetaRolledBack else RenameSplit)))"
    using c by (simp add: commit_rename_def r1 r2 r3 Let_def split: if_splits)
  note moves = rename_cases[OF r1] rename_cases[OF r2] rename_cases[OF r3]
  show "r = None \<Longrightarrow> files_of (fs_ci env) d' new =
      (look (fs_ci env) (d_entries d) (conf_path old), look (fs_ci env) (d_entries d) (meta_path (if hasMeta then old else new)))"
    using run moves(1,2) by (auto simp: files_of_def set_entries_def split: if_splits)
  show "r = None \<Longrightarrow> canon (fs_ci env) n \<noteq> canon (fs_ci env) old \<Longrightarrow> canon (fs_ci env) n \<noteq> canon (fs_ci env) new \<Longrightarrow>
      files_of (fs_ci env) d' n = files_of (fs_ci env) d n"
    using run moves(1,2) by (auto simp: files_of_def set_entries_def split: if_splits)
  show "r \<noteq> None \<Longrightarrow> r \<noteq> Some RenameSplit \<Longrightarrow> files_of (fs_ci env) d' n = files_of (fs_ci env) d n"
    using run moves free conf_cong[of "fs_ci env" n old "d_entries d"] conf_cong[of "fs_ci env" n new "d_entries d"]
    by (auto simp: files_of_def set_entries_def split: if_splits)
qed

lemma probe_files: "preCheckWritable env s t d = (d', ok) \<Longrightarrow> files_of (fs_ci env) d' n = files_of (fs_ci env) d n"
  using probe_look by (simp add: files_of_def)

text \<open>A rename either stops before the commit with all files as they were, or commits.\<close>

lemma rename_run:
  assumes "Rename env old new d = (d', r)" and "old \<noteq> new"
  obtains (stopped) "r \<noteq> None" "r \<noteq> Some RenameSplit" "\<And>n. files_of (fs_ci env) d' n = files_of (fs_ci env) d n"
    | (commit) d1 where "\<And>n. files_of (fs_ci env) d1 n = files_of (fs_ci env) d n" "store_exists env old d"
      "commit_rename env old new (fs_stat (basic env) (meta_path old) d = StatFound) d1 = (d', r)"
      "equal_fold old new \<or> look (fs_ci env) (d_entries d) (conf_path new) = None"
proof (cases "ValidateTunnelName new \<noteq> None \<or> fs_escapes env old \<or> \<not> store_exists env old d \<or>
    (\<not> equal_fold old new \<and> (store_exists env new d \<or> caseVariantLocked env new d \<noteq> None))")
  case True
  then have "r \<noteq> None" "r \<noteq> Some RenameSplit" "d' = d"
    using assms by (auto simp: Rename_def Let_def split: option.splits if_splits)
  then show thesis using stopped by simp
next
  case False
  let ?hm = "fs_stat (basic env) (meta_path old) d = StatFound"
  obtain d1 ok where p1: "preCheckWritable env (conf_path old) (conf_path new) d = (d1, ok)" by fastforce
  obtain d2 ok2 where p2: "preCheckWritable env (meta_path old) (meta_path new) d1 = (d2, ok2)" by fastforce
  have f1: "files_of (fs_ci env) d1 n = files_of (fs_ci env) d n" for n by (rule probe_files[OF p1])
  have f2: "files_of (fs_ci env) d2 n = files_of (fs_ci env) d n" for n using probe_files[OF p2] f1 by simp
  show thesis
  proof (cases "equal_fold old new")
    case True
    then have "commit_rename env old new ?hm d = (d', r)" using False assms by (auto simp: Rename_def Let_def)
    then show thesis using commit[of d] True False by blast
  next
    case differ: False
    then have run: "(d', r) = (if \<not> ok then (d1, Some RenamePreConf) else if \<not> ?hm then commit_rename env old new ?hm d1
        else if \<not> ok2 then (d2, Some RenamePreMeta) else commit_rename env old new ?hm d2)"
      using False assms by (auto simp: Rename_def Let_def p1 p2 split: if_splits)
    have none: "ok \<Longrightarrow> look (fs_ci env) (d_entries d) (conf_path new) = None" using probe_look(3)[OF p1] .
    show thesis
    proof (cases "ok \<and> (\<not> ?hm \<or> ok2)")
      case True
      then show thesis using run none commit[of d1] commit[of d2] f1 f2 False by (cases ?hm) auto
    next
      case False
      then show thesis using run stopped f1 f2 by (auto split: if_splits)
    qed
  qed
qed

text \<open>C26: In a store where no two names differ only in case and no folder is named like a configuration, and if the
  sidecar of the old name can be looked at: a rename that succeeds leaves the configuration and the sidecar under the
  new name and every tunnel but the two (names the disk does not take for either) untouched, and nothing was stored
  under the new name before; a rename that reports any error but a failed rollback leaves every configuration and
  every sidecar as it was.\<close>

theorem rename_moves_both_or_neither:
  assumes run: "Rename env old new d = (d', r)" and "old \<noteq> new" and v: "variant_free (d_entries d)"
    and conf: "\<forall>n e. look (fs_ci env) (d_entries d) (conf_path n) \<noteq> Some (Folder e)"
    and stat: "\<not> fs_fails env (SysStat (meta_path old))"
  shows "(r = None \<longrightarrow>
      files_of (fs_ci env) d' new = (fst (files_of (fs_ci env) d old),
        if snd (files_of (fs_ci env) d old) = None then snd (files_of (fs_ci env) d new) else snd (files_of (fs_ci env) d old)) \<and>
      (canon (fs_ci env) n \<noteq> canon (fs_ci env) old \<and> canon (fs_ci env) n \<noteq> canon (fs_ci env) new \<longrightarrow>
        files_of (fs_ci env) d' n = files_of (fs_ci env) d n) \<and>
      (fst (files_of (fs_ci env) d new) = None \<or> canon (fs_ci env) new = canon (fs_ci env) old)) \<and>
    (r \<noteq> None \<and> r \<noteq> Some RenameSplit \<longrightarrow> files_of (fs_ci env) d' n = files_of (fs_ci env) d n)"
proof (rule rename_run[OF run \<open>old \<noteq> new\<close>])
  fix d1 assume same: "\<And>n. files_of (fs_ci env) d1 n = files_of (fs_ci env) d n" and ex: "store_exists env old d"
    and c: "commit_rename env old new (fs_stat (basic env) (meta_path old) d = StatFound) d1 = (d', r)"
    and fresh: "equal_fold old new \<or> look (fs_ci env) (d_entries d) (conf_path new) = None"
  have free: "look (fs_ci env) (d_entries d) (conf_path new) = None \<or> canon (fs_ci env) new = canon (fs_ci env) old"
  proof (cases "look (fs_ci env) (d_entries d) (conf_path new)")
    case (Some x)
    then obtain f where f: "look (fs_ci env) (d_entries d) (conf_path new) = Some (File f)" using conf by (cases x) auto
    obtain g where g: "look (fs_ci env) (d_entries d) (conf_path old) = Some (File g)"
      using ex conf by (auto simp: store_exists_def fs_stat_def split: if_splits) (metis node.exhaust)
    have fold: "equal_fold old new" using Some fresh by auto
    show ?thesis
    proof (cases "fs_ci env")
      case True
      then show ?thesis using equal_fold_canon(1)[OF fold] by simp
    next
      case False
      then have "old \<in> stored (d_entries d)" "new \<in> stored (d_entries d)" using f g look_file_stored by auto
      then show ?thesis using v fold by (auto simp: variant_free_def)
    qed
  qed simp
  have meta: "fs_stat (basic env) (meta_path old) d = StatFound \<longleftrightarrow> snd (files_of (fs_ci env) d old) \<noteq> None"
    using stat by (auto simp: fs_stat_def files_of_def)
  have free1: "look (fs_ci env) (d_entries d1) (conf_path new) = None \<or> canon (fs_ci env) new = canon (fs_ci env) old"
    using free same[of new] by (simp add: files_of_def)
  show ?thesis
    using commit_files(1)[OF c free1] commit_files(2)[OF c free1, of n] commit_files(3)[OF c free1, of n] same[of n] same[of old] same[of new] free meta by (auto simp: files_of_def)
qed auto

definition tiny_config :: wg_config where
  "tiny_config = config0\<lparr>cfg_name := ''home''\<rparr>"

theorem rename_moves_both_or_neither_witness:
  "files_of False (fst (Rename (calm_env False) ''home'' ''away'' (fst (Save (calm_env False) tiny_config empty_dir)))) ''away'' =
     files_of False (fst (Save (calm_env False) tiny_config empty_dir)) ''home'' \<and>
   snd (Rename (calm_env False) ''home'' ''away'' (fst (Save (calm_env False) tiny_config empty_dir))) = None"
proof -
  let ?d = "fst (Save (calm_env False) tiny_config empty_dir)"
  have d: "map fst (d_entries ?d) = [''home.meta.json'', ''home.conf''] \<and>
      map (is_folder \<circ> snd) (d_entries ?d) = [False, False]" by code_simp
  then obtain x y where e: "d_entries ?d = [(''home.meta.json'', x), (''home.conf'', y)]" "\<not> is_folder x" "\<not> is_folder y"
    by (auto simp: map_eq_Cons_conv)
  have ok: "snd (Rename (calm_env False) ''home'' ''away'' ?d) = None" by code_simp
  have v: "variant_free (d_entries ?d)" by (rule save_variant_free) (simp_all add: variant_free_def stored_def empty_dir_def)
  have f: "\<forall>n g. look (fs_ci (calm_env False)) (d_entries ?d) (conf_path n) \<noteq> Some (Folder g)"
    using e(2,3) by (auto simp: e(1) look_def)
  have "snd (files_of False ?d ''home'') \<noteq> None" by (simp add: files_of_def e(1) look_def meta_path_def canon_def)
  then show ?thesis
    using rename_moves_both_or_neither[of "calm_env False" "''home''" "''away''" ?d _ None, OF _ _ v f] ok
    by (cases "Rename (calm_env False) ''home'' ''away'' ?d") auto
qed

text \<open>On a case-sensitive disk that already holds both spellings (a store copied from elsewhere), renaming one to the
  other is taken for a change of case: the other tunnel is overwritten.\<close>

definition both_cases :: dir where
  "both_cases = \<lparr>d_entries = [(''Work.conf'', File \<lparr>f_data = ''A'', f_synced = True\<rparr>),
      (''work.conf'', File \<lparr>f_data = ''B'', f_synced = True\<rparr>)], d_log = [], d_durable = 0\<rparr>"

lemma rename_overwrites_case_twin:
  "snd (Rename (calm_env False) ''Work'' ''work'' both_cases) = None \<and>
   d_entries (fst (Rename (calm_env False) ''Work'' ''work'' both_cases)) = [(''work.conf'', File \<lparr>f_data = ''A'', f_synced = True\<rparr>)]"
  by code_simp

end
