(* ===== verification/RouteKernel.thy ===== *)
theory RouteKernel
  imports GoNet
begin

text \<open>
  Routing tables as the packages under \<open>internal/network\<close> use them: longest-prefix lookup in one table, and
  external commands that either fail without effect or have their documented effect.
\<close>

section \<open>Longest prefix\<close>

type_synonym 'a rib = "(prefix \<times> 'a) list"

fun route_for :: "'a rib \<Rightarrow> ip_addr \<Rightarrow> (prefix \<times> 'a) option" where
  "route_for [] d = None"
| "route_for ((p, a) # r) d =
     (case route_for r d of
        None \<Rightarrow> if prefix_contains p d then Some (p, a) else None
      | Some (q, b) \<Rightarrow> if prefix_contains p d \<and> pbits q \<le> pbits p then Some (p, a) else Some (q, b))"

lemma route_for_None: "route_for r d = None \<longleftrightarrow> (\<forall>(p, a) \<in> set r. \<not> prefix_contains p d)"
  by (induction r d rule: route_for.induct) (auto split: option.splits)

lemma route_for_Some:
  "route_for r d = Some (p, a) \<Longrightarrow> (p, a) \<in> set r \<and> prefix_contains p d \<and> (\<forall>(q, b) \<in> set r. prefix_contains q d \<longrightarrow> pbits q \<le> pbits p)"
proof (induction r d arbitrary: p a rule: route_for.induct)
  case (2 q b r d)
  show ?case
  proof (cases "route_for r d")
    case None
    then have "\<forall>(p, a) \<in> set r. \<not> prefix_contains p d" by (simp add: route_for_None)
    then show ?thesis using 2(2) None by (auto split: if_splits)
  next
    case (Some x)
    then show ?thesis using 2(1)[of "fst x" "snd x"] 2(2) by (cases x) (fastforce split: if_splits)
  qed
qed simp

lemma route_for_append:
  assumes "\<forall>(p, a) \<in> set xs. \<not> prefix_contains p d"
  shows "route_for (xs @ r) d = route_for r d"
  using assms by (induction xs) (auto split: option.splits)

lemma route_for_filter:
  assumes "\<And>p a. prefix_contains p d \<Longrightarrow> P (p, a)"
  shows "route_for (filter P r) d = route_for r d"
  using assms by (induction r d rule: route_for.induct) (auto split: option.splits)

text \<open>A host route decides for its address.\<close>

lemma route_for_bits:
  assumes "(p, a) \<in> set r" "prefix_contains p d" "\<forall>(q, b) \<in> set r. prefix_contains q d \<longrightarrow> pbits q < pbits p \<or> b = a"
  shows "\<exists>q. route_for r d = Some (q, a)"
proof (cases "route_for r d")
  case None
  then show ?thesis using assms(1,2) by (auto simp: route_for_None)
next
  case (Some x)
  then show ?thesis using route_for_Some[of r d "fst x" "snd x"] assms by (cases x) fastforce
qed

lemma same_net_whole [simp]: "same_net 32 (a :: 32 word) b" "same_net 128 (c :: 128 word) d"
  by (simp_all add: same_net_def drop_bit_word_beyond)

section \<open>External commands\<close>

text \<open>
  \<open>tool\<close> runs a command of type \<open>'c\<close> in a system state \<open>'k\<close>; \<open>view\<close> is what the program relies on of that
  state. What is documented of the tool: a command that succeeds was possible and has its effect, a command that
  fails changes nothing the program relies on.
\<close>

type_synonym ('c, 'k) runner = "'c \<Rightarrow> 'k \<Rightarrow> 'k \<times> bool"

definition documented :: "('c \<Rightarrow> 'v \<Rightarrow> 'v option) \<Rightarrow> ('k \<Rightarrow> 'v) \<Rightarrow> ('c, 'k) runner \<Rightarrow> bool" where
  "documented effect view run \<longleftrightarrow>
     (\<forall>c k. if snd (run c k) then effect c (view k) = Some (view (fst (run c k))) else view (fst (run c k)) = view k)"

lemma documentedD:
  assumes "documented effect view run" "run c k = (k', ok)"
  shows "ok \<Longrightarrow> effect c (view k) = Some (view k')" "\<not> ok \<Longrightarrow> view k' = view k"
  using assms unfolding documented_def by (metis fst_conv snd_conv)+

text \<open>A command succeeds whenever it is possible.\<close>

definition obliging :: "('c \<Rightarrow> 'v \<Rightarrow> 'v option) \<Rightarrow> ('k \<Rightarrow> 'v) \<Rightarrow> ('c, 'k) runner \<Rightarrow> 'c \<Rightarrow> bool" where
  "obliging effect view run c \<longleftrightarrow> (\<forall>k. effect c (view k) \<noteq> None \<longrightarrow> snd (run c k))"

lemma run_obliging:
  assumes "documented effect view run" "obliging effect view run c" "run c k = (k', ok)"
  shows "view k' = (case effect c (view k) of None \<Rightarrow> view k | Some v \<Rightarrow> v)"
  using documentedD[OF assms(1,3)] assms(2,3) unfolding obliging_def by (cases ok) (auto split: option.splits dest: spec[of _ k])

end
