(* ===== verification/LinuxRoutes.thy ===== *)
theory LinuxRoutes
  imports RouteKernel
begin

text \<open>
  Routing on Linux (\<open>internal/network/linux.go\<close>): \<open>LinuxManager\<close> with its fwmark policy routing, split routes,
  throw routes and pinned endpoint routes. The commands \<open>ip\<close> and \<open>wg\<close> are a parameter (\<open>iptool\<close>); their
  documented effect on tables and rules is \<open>ip_effect\<close>, a hypothesis of the theorems.
\<close>

section \<open>The commands the code runs\<close>

datatype family = F4 | F6
datatype target = Dev string | Throw
datatype rule_sel = NotFwmark int string | SuppressMain | Lookup string

datatype ip_cmd =
    WgSetFwmark string int
  | RouteAdd family string target "string option"
  | RouteDel family string "target option" "string option"
  | RuleAdd family int rule_sel
  | RuleDel family int
  | WriteSrcValidMark

datatype ip_query =
    ShowTable family string | ShowRules family | ShowMatch family string string | ShowHost family string
  | ShowDefault string string

record 'k iptool =
  it_run :: "(ip_cmd, 'k) runner"
  it_ask :: "ip_query \<Rightarrow> 'k \<Rightarrow> bool \<times> string"
  it_src_valid :: "'k \<Rightarrow> string option"

definition asked :: "'k iptool \<Rightarrow> ip_query \<Rightarrow> 'k \<Rightarrow> string" where
  "asked t q k = trim_space (snd (it_ask t q k))"

abbreviation try_cmd :: "'k iptool \<Rightarrow> ip_cmd \<Rightarrow> 'k \<Rightarrow> 'k" where
  "try_cmd t c k \<equiv> fst (it_run t c k)"

section \<open>The manager\<close>

record linux_mgr =
  lm_fwmark :: int
  lm_table :: int
  lm_table_set :: bool
  lm_throw :: "string list"
  lm_bind :: string
  lm_bind_routes :: "string list"

definition linux_mgr0 :: linux_mgr where
  "linux_mgr0 = \<lparr>lm_fwmark = 0, lm_table = 0, lm_table_set = False, lm_throw = [], lm_bind = '''', lm_bind_routes = []\<rparr>"

definition wgRulePriorityFwmark :: int where "wgRulePriorityFwmark = 29040"
definition wgRulePrioritySuppress :: int where "wgRulePrioritySuppress = 29050"

text \<open>\<open>strconv.ParseInt(s, 16, 64)\<close>.\<close>

definition parse_hex64 :: "string \<Rightarrow> int option" where
  "parse_hex64 s =
     (let (neg, ds) = (case s of c # r \<Rightarrow> if c = CHR ''-'' then (True, r) else if c = CHR ''+'' then (False, r) else (False, s)
                       | [] \<Rightarrow> (False, s))
      in if ds = '''' \<or> \<not> list_all is_hex ds then None
         else if neg then (if hex_num ds \<le> 2 ^ 63 then Some (- hex_num ds) else None)
         else (if hex_num ds < 2 ^ 63 then Some (hex_num ds) else None))"

definition parseIntOrHex :: "string \<Rightarrow> int option" where
  "parseIntOrHex s =
     (let s = trim_space s
      in if has_prefix s ''0x'' \<or> has_prefix s ''0X'' then parse_hex64 (drop 2 s) else atoi s)"

definition table_free :: "'k iptool \<Rightarrow> 'k \<Rightarrow> int \<Rightarrow> bool" where
  "table_free t k n \<longleftrightarrow> asked t (ShowTable F4 (itoa n)) k = '''' \<and> asked t (ShowTable F6 (itoa n)) k = ''''"

definition findFreeTable :: "'k iptool \<Rightarrow> 'k \<Rightarrow> int \<Rightarrow> int" where
  "findFreeTable t k n =
     (case find (table_free t k) (map (\<lambda>i. n + int i) [0..<100]) of Some c \<Rightarrow> c | None \<Rightarrow> n)"

definition resolveTableAndFwMark :: "'k iptool \<Rightarrow> 'k \<Rightarrow> string \<Rightarrow> string \<Rightarrow> int \<times> int" where
  "resolveTableAndFwMark t k tableCfg fwmarkCfg =
     (let fwmark = (if fwmarkCfg = '''' then 51820 else case parseIntOrHex fwmarkCfg of Some n \<Rightarrow> n | None \<Rightarrow> 51820);
          word = to_lower (trim_space tableCfg)
      in if word = '''' \<or> word = ''auto'' then (findFreeTable t k fwmark, fwmark)
         else if word = ''off'' then (-1, fwmark)
         else case atoi tableCfg of Some n \<Rightarrow> (n, fwmark) | None \<Rightarrow> (findFreeTable t k fwmark, fwmark))"

definition marker :: "int \<Rightarrow> string" where
  "marker prio = itoa prio @ '':''"

definition ruleExists :: "'k iptool \<Rightarrow> family \<Rightarrow> int \<Rightarrow> 'k \<Rightarrow> bool" where
  "ruleExists t f prio k = (let (ok, out) = it_ask t (ShowRules f) k in ok \<and> str_contains out (marker prio))"

text \<open>The address family and the host route of an endpoint; blank and unparsable endpoints are skipped.\<close>

definition host_route :: "string \<Rightarrow> (family \<times> string) option" where
  "host_route ep =
     (if ep = '''' then None
      else case net_parse_ip ep of
        None \<Rightarrow> None
      | Some ip \<Rightarrow> Some (if is4 (to_net_ip ip) then (F4, ep @ ''/32'') else (F6, ep @ ''/128'')))"

section \<open>Removing\<close>

definition removeEndpointBindRoutes :: "'k iptool \<Rightarrow> linux_mgr \<Rightarrow> 'k \<Rightarrow> linux_mgr \<times> 'k" where
  "removeEndpointBindRoutes t m k =
     (m\<lparr>lm_bind_routes := []\<rparr>,
      foldl (\<lambda>k c. try_cmd t (RouteDel (if CHR '':'' \<in> set c then F6 else F4) c None None) k) k (lm_bind_routes m))"

fun delete_priority :: "'k iptool \<Rightarrow> nat \<Rightarrow> family \<Rightarrow> int \<Rightarrow> 'k \<Rightarrow> 'k" where
  "delete_priority t 0 f prio k = k"
| "delete_priority t (Suc n) f prio k =
     (if \<not> str_contains (snd (it_ask t (ShowRules f) k)) (marker prio) then k
      else let (k', ok) = it_run t (RuleDel f prio) k in if ok then delete_priority t n f prio k' else k')"

definition findOwnedTable :: "'k iptool \<Rightarrow> string \<Rightarrow> 'k \<Rightarrow> string" where
  "findOwnedTable t iface k =
     (case find (\<lambda>c. fst (it_ask t (ShowDefault iface c) k) \<and> asked t (ShowDefault iface c) k \<noteq> '''')
             (map (\<lambda>i. itoa (51820 + int i)) [0..<100]) of
        Some c \<Rightarrow> c | None \<Rightarrow> ''51820'')"

definition endpointThrowRouteDelete :: "string \<Rightarrow> string \<Rightarrow> ip_cmd" where
  "endpointThrowRouteDelete cidr table = RouteDel (if CHR '':'' \<in> set cidr then F6 else F4) cidr (Some Throw) (Some table)"

definition removeFullTunnelRoutes :: "'k iptool \<Rightarrow> string \<Rightarrow> linux_mgr \<Rightarrow> 'k \<Rightarrow> linux_mgr \<times> 'k" where
  "removeFullTunnelRoutes t iface m k =
     (let ts = (if lm_table_set m then itoa (lm_table m) else findOwnedTable t iface k);
          k = try_cmd t (RouteDel F4 ''default'' (Some (Dev iface)) (Some ts)) k;
          k = try_cmd t (RouteDel F6 ''default'' (Some (Dev iface)) (Some ts)) k;
          k = foldl (\<lambda>k c. try_cmd t (endpointThrowRouteDelete c ts) k) k (lm_throw m);
          (m, k) = removeEndpointBindRoutes t (m\<lparr>lm_throw := []\<rparr>) k;
          k = delete_priority t 50 F4 wgRulePriorityFwmark k;
          k = delete_priority t 50 F6 wgRulePriorityFwmark k;
          k = delete_priority t 50 F4 wgRulePrioritySuppress k;
          k = delete_priority t 50 F6 wgRulePrioritySuppress k
      in (m, k))"

definition splitRouteDelete :: "string \<Rightarrow> string \<Rightarrow> string \<Rightarrow> ip_cmd" where
  "splitRouteDelete iface cidr table =
     RouteDel (if CHR '':'' \<in> set cidr then F6 else F4) cidr (Some (Dev iface)) (if table = '''' then None else Some table)"

definition RemoveRoutes :: "'k iptool \<Rightarrow> string \<Rightarrow> string list \<Rightarrow> bool \<Rightarrow> linux_mgr \<Rightarrow> 'k \<Rightarrow> linux_mgr \<times> 'k" where
  "RemoveRoutes t iface allowed full m k =
     (if lm_table_set m \<and> lm_table m = -1 then (m, k)
      else if full then removeFullTunnelRoutes t iface m k
      else let ts = (if lm_table_set m \<and> lm_table m \<noteq> 0 then itoa (lm_table m) else '''');
               k = foldl (\<lambda>k c. try_cmd t (splitRouteDelete iface c ts) k) k allowed
           in removeEndpointBindRoutes t m k)"

section \<open>Adding\<close>

text \<open>The loop of \<open>addEndpointBindRoutes\<close>: every endpoint is tried, any failure fails the call.\<close>

fun bind_loop :: "'k iptool \<Rightarrow> string list \<Rightarrow> bool \<Rightarrow> linux_mgr \<Rightarrow> 'k \<Rightarrow> linux_mgr \<times> 'k \<times> bool" where
  "bind_loop t [] ok m k = (m, k, ok)"
| "bind_loop t (ep # eps) ok m k =
     (case host_route ep of
        None \<Rightarrow> bind_loop t eps ok m k
      | Some (f, cidr) \<Rightarrow>
          (if asked t (ShowHost f cidr) k \<noteq> '''' then bind_loop t eps ok m k
           else let (k', added) = it_run t (RouteAdd f cidr (Dev (lm_bind m)) None) k
                in if added then bind_loop t eps ok (m\<lparr>lm_bind_routes := lm_bind_routes m @ [cidr]\<rparr>) k'
                   else bind_loop t eps False m k'))"

definition addEndpointBindRoutes :: "'k iptool \<Rightarrow> string list \<Rightarrow> linux_mgr \<Rightarrow> 'k \<Rightarrow> linux_mgr \<times> 'k \<times> bool" where
  "addEndpointBindRoutes t eps m k = (if lm_bind m = '''' then (m, k, True) else bind_loop t eps True m k)"

fun throw_loop :: "'k iptool \<Rightarrow> string \<Rightarrow> string list \<Rightarrow> linux_mgr \<Rightarrow> 'k \<Rightarrow> linux_mgr \<times> 'k" where
  "throw_loop t ts [] m k = (m, k)"
| "throw_loop t ts (ep # eps) m k =
     (case host_route ep of
        None \<Rightarrow> throw_loop t ts eps m k
      | Some (f, cidr) \<Rightarrow>
          (if asked t (ShowHost f cidr) k \<noteq> '''' then throw_loop t ts eps m k
           else let (k', added) = it_run t (RouteAdd f cidr Throw (Some ts)) k
                in throw_loop t ts eps (if added then m\<lparr>lm_throw := lm_throw m @ [cidr]\<rparr> else m) k'))"

text \<open>An \<open>ip rule add\<close> guarded by \<open>ruleExists\<close>.\<close>

definition ensure_rule :: "'k iptool \<Rightarrow> family \<Rightarrow> int \<Rightarrow> rule_sel \<Rightarrow> 'k \<Rightarrow> 'k \<times> bool" where
  "ensure_rule t f prio sel k = (if ruleExists t f prio k then (k, True) else it_run t (RuleAdd f prio sel) k)"

definition set_src_valid :: "'k iptool \<Rightarrow> 'k \<Rightarrow> 'k" where
  "set_src_valid t k =
     (case it_src_valid t k of
        None \<Rightarrow> k
      | Some v \<Rightarrow> (if trim_space v \<noteq> ''1'' then try_cmd t WriteSrcValidMark k else k))"

definition addFullTunnelRoutesWithConfig :: "'k iptool \<Rightarrow> string \<Rightarrow> string list \<Rightarrow> int \<Rightarrow> int \<Rightarrow> linux_mgr \<Rightarrow> 'k \<Rightarrow> linux_mgr \<times> 'k \<times> bool" where
  "addFullTunnelRoutesWithConfig t iface eps table fwmark m k =
     (let ts = itoa table;
          m = m\<lparr>lm_fwmark := fwmark, lm_table := table, lm_table_set := True\<rparr>;
          rollback = (\<lambda>k. let (m, k) = removeFullTunnelRoutes t iface m k in (m, k, False));
          (k, ok) = it_run t (WgSetFwmark iface fwmark) k
      in if \<not> ok then (m, k, False)
         else let (k, ok) = it_run t (RouteAdd F4 ''default'' (Dev iface) (Some ts)) k
         in if \<not> ok then rollback k
         else let k = try_cmd t (RouteAdd F6 ''default'' (Dev iface) (Some ts)) k;
                  (k, ok) = ensure_rule t F4 wgRulePriorityFwmark (NotFwmark fwmark ts) k
         in if \<not> ok then rollback k
         else let k = fst (ensure_rule t F6 wgRulePriorityFwmark (NotFwmark fwmark ts) k);
                  k = fst (ensure_rule t F4 wgRulePrioritySuppress SuppressMain k);
                  k = fst (ensure_rule t F6 wgRulePrioritySuppress SuppressMain k);
                  k = set_src_valid t k
         in if lm_bind m \<noteq> '''' then addEndpointBindRoutes t eps m k
            else let (m, k) = throw_loop t ts eps m k in (m, k, True))"

fun split_loop :: "'k iptool \<Rightarrow> string \<Rightarrow> string option \<Rightarrow> string list \<Rightarrow> 'k \<Rightarrow> 'k \<times> bool" where
  "split_loop t iface table [] k = (k, True)"
| "split_loop t iface table (cidr # cs) k =
     (if cidr = ''0.0.0.0/0'' \<or> cidr = ''::/0'' then split_loop t iface table cs k
      else let f = (if CHR '':'' \<in> set cidr then F6 else F4)
           in if asked t (ShowMatch f iface cidr) k \<noteq> '''' then split_loop t iface table cs k
              else let (k', ok) = it_run t (RouteAdd f cidr (Dev iface) table) k
                   in if ok then split_loop t iface table cs k' else (k', False))"

definition AddRoutes :: "'k iptool \<Rightarrow> string \<Rightarrow> string list \<Rightarrow> bool \<Rightarrow> string list \<Rightarrow> string \<Rightarrow> string \<Rightarrow> linux_mgr \<Rightarrow> 'k \<Rightarrow> linux_mgr \<times> 'k \<times> bool" where
  "AddRoutes t iface allowed full eps tableCfg fwmarkCfg m k =
     (let (table, fwmark) = resolveTableAndFwMark t k tableCfg fwmarkCfg
      in if table = -1 then (m\<lparr>lm_table := -1, lm_table_set := True\<rparr>, k, True)
         else let m = m\<lparr>lm_fwmark := fwmark, lm_table := table\<rparr>
         in if full then addFullTunnelRoutesWithConfig t iface eps table fwmark m k
         else let explicitTable = trim_space tableCfg;
                  useExplicit = explicitTable \<noteq> '''' \<and> \<not> equal_fold explicitTable ''auto'';
                  m = m\<lparr>lm_table_set := True, lm_table := (if useExplicit then table else 0)\<rparr>;
                  (k, ok) = split_loop t iface (if useExplicit then Some explicitTable else None) allowed k
         in if \<not> ok then (m, k, False) else addEndpointBindRoutes t eps m k)"

definition SetBindInterface :: "string \<Rightarrow> linux_mgr \<Rightarrow> linux_mgr" where
  "SetBindInterface name m = m\<lparr>lm_bind := trim_space name\<rparr>"

definition RestoreRoutingState :: "string \<Rightarrow> string \<Rightarrow> linux_mgr \<Rightarrow> linux_mgr" where
  "RestoreRoutingState table fwmark m =
     (let m = (if equal_fold (trim_space table) ''off'' then m\<lparr>lm_table := -1, lm_table_set := True\<rparr>
               else case (if table = '''' then None else atoi table) of
                 Some n \<Rightarrow> m\<lparr>lm_table := n, lm_table_set := True\<rparr> | None \<Rightarrow> m)
      in case (if fwmark = '''' then None else parseIntOrHex fwmark) of Some n \<Rightarrow> m\<lparr>lm_fwmark := n\<rparr> | None \<Rightarrow> m)"

definition InstalledEndpointRoutes :: "linux_mgr \<Rightarrow> string list" where
  "InstalledEndpointRoutes m = lm_throw m"

definition RestoreEndpointRoutes :: "string list \<Rightarrow> linux_mgr \<Rightarrow> linux_mgr" where
  "RestoreEndpointRoutes routes m = m\<lparr>lm_throw := routes\<rparr>"

end
