(* ===== verification/LinuxRoutesProps.thy ===== *)
theory LinuxRoutesProps
  imports LinuxRoutes
begin

text \<open>
  What the Linux routes do: in a full tunnel every unmarked packet leaves through the tunnel and no marked one does,
  and removing the routes gives back the tables and rules of before.
\<close>

section \<open>What is documented of \<open>ip\<close>\<close>

record route_view =
  rv_tables :: "family \<Rightarrow> string \<Rightarrow> target rib"
  rv_rules :: "family \<Rightarrow> (int \<times> rule_sel) list"

fun any_prefix :: "family \<Rightarrow> prefix" where
  "any_prefix F4 = Prefix (V4 0) 0"
| "any_prefix F6 = Prefix (V6 0) 0"

definition dest_prefix :: "family \<Rightarrow> string \<Rightarrow> prefix option" where
  "dest_prefix f s =
     (if s = ''default'' then Some (any_prefix f)
      else if (CHR '':'' \<in> set s) \<noteq> (f = F6) then None
      else case netip_parse_prefix s of
        None \<Rightarrow> None
      | Some p \<Rightarrow> if canonical p \<and> is4 (paddr p) = (f = F4) then Some p else None)"

definition table_name :: "string option \<Rightarrow> string" where
  "table_name t = (case t of None \<Rightarrow> ''main'' | Some s \<Rightarrow> if s = ''254'' then ''main'' else s)"

definition set_table :: "family \<Rightarrow> string \<Rightarrow> target rib \<Rightarrow> route_view \<Rightarrow> route_view" where
  "set_table f t r v = v\<lparr>rv_tables := (rv_tables v)(f := (rv_tables v f)(t := r))\<rparr>"

definition set_rules :: "family \<Rightarrow> (int \<times> rule_sel) list \<Rightarrow> route_view \<Rightarrow> route_view" where
  "set_rules f rs v = v\<lparr>rv_rules := (rv_rules v)(f := rs)\<rparr>"

definition insert_rule :: "int \<Rightarrow> rule_sel \<Rightarrow> (int \<times> rule_sel) list \<Rightarrow> (int \<times> rule_sel) list" where
  "insert_rule p s rs = takeWhile (\<lambda>(q, s). q \<le> p) rs @ (p, s) # dropWhile (\<lambda>(q, s). q \<le> p) rs"

fun drop_rule :: "int \<Rightarrow> (int \<times> rule_sel) list \<Rightarrow> (int \<times> rule_sel) list" where
  "drop_rule p [] = []"
| "drop_rule p ((q, s) # rs) = (if q = p then rs else (q, s) # drop_rule p rs)"

text \<open>A route is added once per prefix and table, a rule is placed behind those of smaller or equal priority.\<close>

fun ip_effect :: "ip_cmd \<Rightarrow> route_view \<Rightarrow> route_view option" where
  "ip_effect (WgSetFwmark iface mark) v = Some v"
| "ip_effect WriteSrcValidMark v = Some v"
| "ip_effect (RouteAdd f d a t) v =
     (case dest_prefix f d of
        None \<Rightarrow> None
      | Some p \<Rightarrow> let r = rv_tables v f (table_name t)
                  in if p \<in> fst ` set r then None else Some (set_table f (table_name t) ((p, a) # r) v))"
| "ip_effect (RouteDel f d a t) v =
     (case dest_prefix f d of
        None \<Rightarrow> None
      | Some p \<Rightarrow> let r = rv_tables v f (table_name t); hit = (\<lambda>(q, b). q = p \<and> (a = None \<or> a = Some b))
                  in if list_ex hit r then Some (set_table f (table_name t) (filter (\<lambda>x. \<not> hit x) r) v) else None)"
| "ip_effect (RuleAdd f p s) v = Some (set_rules f (insert_rule p s (rv_rules v f)) v)"
| "ip_effect (RuleDel f p) v =
     (if p \<in> fst ` set (rv_rules v f) then Some (set_rules f (drop_rule p (rv_rules v f)) v) else None)"

text \<open>The listing of the rules succeeds; a rule is a line that starts with its priority and a colon. Nothing is assumed of the listing of a table.\<close>

definition truthful :: "('k \<Rightarrow> route_view) \<Rightarrow> 'k iptool \<Rightarrow> bool" where
  "truthful view t \<longleftrightarrow>
     (\<forall>f k p. fst (it_ask t (ShowRules f) k) \<and>
        (str_contains (snd (it_ask t (ShowRules f) k)) (marker p) \<longleftrightarrow>
          (\<exists>(q, s) \<in> set (rv_rules (view k) f). has_suffix (itoa q) (itoa p))))"

text \<open>The kernel's decision: rules in order; a table without a route, or with a throw route, passes on.\<close>

definition table_says :: "target rib \<Rightarrow> ip_addr \<Rightarrow> string option" where
  "table_says r d = (case route_for r d of Some (p, Dev i) \<Rightarrow> Some i | _ \<Rightarrow> None)"

fun rule_says :: "(string \<Rightarrow> target rib) \<Rightarrow> int \<Rightarrow> ip_addr \<Rightarrow> rule_sel \<Rightarrow> string option" where
  "rule_says tabs mark d (Lookup n) = table_says (tabs n) d"
| "rule_says tabs mark d (NotFwmark mk n) = (if mark = mk then None else table_says (tabs n) d)"
| "rule_says tabs mark d SuppressMain =
     (case route_for (tabs ''main'') d of Some (p, Dev i) \<Rightarrow> if pbits p = 0 then None else Some i | _ \<Rightarrow> None)"

fun decide :: "(string \<Rightarrow> target rib) \<Rightarrow> int \<Rightarrow> ip_addr \<Rightarrow> (int \<times> rule_sel) list \<Rightarrow> string option" where
  "decide tabs mark d [] = None"
| "decide tabs mark d ((p, s) # rs) = (case rule_says tabs mark d s of Some i \<Rightarrow> Some i | None \<Rightarrow> decide tabs mark d rs)"

definition egress :: "route_view \<Rightarrow> int \<Rightarrow> ip_addr \<Rightarrow> string option" where
  "egress v mark d = (let f = (if is4 d then F4 else F6) in decide (rv_tables v f) mark d (rv_rules v f))"

lemma decide_append:
  "decide tabs mark d (xs @ ys) = (case decide tabs mark d xs of Some i \<Rightarrow> Some i | None \<Rightarrow> decide tabs mark d ys)"
  by (induction xs rule: decide.induct) (auto split: option.splits)

lemma decide_None: "(\<And>p s. (p, s) \<in> set rs \<Longrightarrow> rule_says tabs mark d s = None) \<Longrightarrow> decide tabs mark d rs = None"
  by (induction rs) (fastforce split: option.splits)+

lemma decide_Some: "decide tabs mark d rs = Some i \<Longrightarrow> \<exists>(p, s) \<in> set rs. rule_says tabs mark d s = Some i"
  by (induction rs rule: decide.induct) (auto split: option.splits)

lemma tables_set [simp]:
  "rv_tables (set_table f t r v) g u = (if g = f \<and> u = t then r else rv_tables v g u)"
  "rv_rules (set_table f t r v) = rv_rules v"
  "rv_tables (set_rules f rs v) = rv_tables v"
  "rv_rules (set_rules f rs v) g = (if g = f then rs else rv_rules v g)"
  by (simp_all add: set_table_def set_rules_def)

lemma set_insert_rule [simp]: "set (insert_rule p s rs) = insert (p, s) (set rs)"
proof -
  have "set (takeWhile P rs @ dropWhile P rs) = set rs" for P :: "int \<times> rule_sel \<Rightarrow> bool" by (simp only: takeWhile_dropWhile_id)
  then have "set (takeWhile P rs) \<union> set (dropWhile P rs) = set rs" for P :: "int \<times> rule_sel \<Rightarrow> bool" by (simp only: set_append)
  then show ?thesis by (auto simp: insert_rule_def)
qed

section \<open>A property of the view kept by every command\<close>

definition kept_by :: "(route_view \<Rightarrow> bool) \<Rightarrow> ip_cmd \<Rightarrow> bool" where
  "kept_by P c \<longleftrightarrow> (\<forall>v v'. P v \<longrightarrow> ip_effect c v = Some v' \<longrightarrow> P v')"

lemma kept_run:
  assumes "documented ip_effect view run" "kept_by P c" "P (view k)"
  shows "P (view (fst (run c k)))"
  using documentedD[OF assms(1), of c k] assms(2,3) unfolding kept_by_def by (cases "run c k") (metis fst_conv)

lemma kept_ensure:
  assumes "documented ip_effect view (it_run t)" "kept_by P (RuleAdd f p s)" "P (view k)"
  shows "P (view (fst (ensure_rule t f p s k)))"
  using kept_run[OF assms] assms(3) by (simp add: ensure_rule_def)

lemma kept_src_valid:
  assumes "documented ip_effect view (it_run t)" "P (view k)"
  shows "P (view (set_src_valid t k))"
proof -
  have "kept_by P WriteSrcValidMark" by (simp add: kept_by_def)
  from kept_run[OF assms(1) this assms(2)] show ?thesis using assms(2) by (simp add: set_src_valid_def split: option.splits)
qed

section \<open>A full tunnel captures unmarked traffic\<close>

text \<open>
  The state while a full tunnel is installed: its table holds the default route and throw routes of recorded
  endpoints, every other table holds what it held or routes through the pinned device, and the fwmark rule stands
  behind rules of at most its priority.
\<close>

definition rule_placed :: "string \<Rightarrow> int \<Rightarrow> (int \<times> rule_sel) list \<Rightarrow> (int \<times> rule_sel) list \<Rightarrow> bool" where
  "rule_placed ts fwmark rs0 rs \<longleftrightarrow>
     (\<forall>x \<in> set rs. x \<in> set rs0 \<or> snd x = NotFwmark fwmark ts \<or> snd x = SuppressMain) \<and>
     (\<exists>A B. rs = A @ (wgRulePriorityFwmark, NotFwmark fwmark ts) # B \<and>
        (\<forall>x \<in> set A. x \<in> set rs0 \<and> fst x \<le> wgRulePriorityFwmark))"

definition captured :: "string \<Rightarrow> string \<Rightarrow> int \<Rightarrow> string list \<Rightarrow> string \<Rightarrow> route_view \<Rightarrow> route_view \<Rightarrow> bool" where
  "captured iface ts fwmark throws pin v0 v \<longleftrightarrow>
     (Prefix (V4 0) 0, Dev iface) \<in> set (rv_tables v F4 ts) \<and>
     (\<forall>x \<in> set (rv_tables v F4 ts). x = (Prefix (V4 0) 0, Dev iface) \<or>
        snd x = Throw \<and> (\<exists>c \<in> set throws. dest_prefix F4 c = Some (fst x))) \<and>
     (\<forall>n. n \<noteq> ts \<longrightarrow> (\<forall>x \<in> set (rv_tables v F4 n). x \<in> set (rv_tables v0 F4 n) \<or> pin \<noteq> '''' \<and> snd x = Dev pin)) \<and>
     rule_placed ts fwmark (rv_rules v0 F4) (rv_rules v F4)"

lemma insert_behind:
  assumes "\<forall>x \<in> set A. fst x \<le> p" "q \<le> p"
  shows "insert_rule p s (A @ (q, r) # B) = A @ (q, r) # insert_rule p s B"
proof -
  have "\<forall>x \<in> set A. case x of (y, z) \<Rightarrow> y \<le> p" using assms(1) by auto
  then show ?thesis using assms(2) by (simp add: insert_rule_def takeWhile_append dropWhile_append)
qed

lemma placed_suppress:
  assumes "rule_placed ts fw rs0 rs"
  shows "rule_placed ts fw rs0 (insert_rule wgRulePrioritySuppress SuppressMain rs)"
proof -
  obtain A B where ab: "rs = A @ (wgRulePriorityFwmark, NotFwmark fw ts) # B"
    "\<forall>x \<in> set A. x \<in> set rs0 \<and> fst x \<le> wgRulePriorityFwmark" using assms by (auto simp: rule_placed_def)
  have i: "insert_rule wgRulePrioritySuppress SuppressMain rs =
      A @ (wgRulePriorityFwmark, NotFwmark fw ts) # insert_rule wgRulePrioritySuppress SuppressMain B"
    unfolding ab(1) by (rule insert_behind) (use ab(2) in \<open>auto simp: wgRulePriorityFwmark_def wgRulePrioritySuppress_def\<close>)
  have all: "\<forall>x \<in> set (insert_rule wgRulePrioritySuppress SuppressMain rs). x \<in> set rs0 \<or> snd x = NotFwmark fw ts \<or> snd x = SuppressMain"
    using assms by (simp add: rule_placed_def)
  show ?thesis unfolding rule_placed_def
    by (intro conjI exI) (rule all, rule i, rule ab(2))
qed

lemma placed_new:
  assumes "\<forall>x \<in> set rs. x \<in> set rs0"
  shows "rule_placed ts fw rs0 (insert_rule wgRulePriorityFwmark (NotFwmark fw ts) rs)"
  unfolding rule_placed_def
proof (intro conjI exI)
  let ?le = "\<lambda>(q, s). q \<le> wgRulePriorityFwmark"
  show "insert_rule wgRulePriorityFwmark (NotFwmark fw ts) rs =
      takeWhile ?le rs @ (wgRulePriorityFwmark, NotFwmark fw ts) # dropWhile ?le rs" by (simp add: insert_rule_def)
  show "\<forall>x \<in> set (takeWhile ?le rs). x \<in> set rs0 \<and> fst x \<le> wgRulePriorityFwmark"
    using assms by (auto dest: set_takeWhileD)
qed (use assms in auto)

lemma captured_rule6 [simp]: "kept_by (captured iface ts fw th pin v0) (RuleAdd F6 p s)"
  by (simp add: kept_by_def captured_def)

lemma captured_suppress [simp]: "kept_by (captured iface ts fw th pin v0) (RuleAdd F4 wgRulePrioritySuppress SuppressMain)"
  by (simp add: kept_by_def captured_def placed_suppress)

lemma captured_route6: "f \<noteq> F4 \<Longrightarrow> kept_by (captured iface ts fw th pin v0) (RouteAdd f d a n)"
  by (auto simp: kept_by_def captured_def Let_def split: option.splits if_splits)

lemma captured_more: "captured iface ts fw th pin v0 v \<Longrightarrow> set th \<subseteq> set th' \<Longrightarrow> captured iface ts fw th' pin v0 v"
  unfolding captured_def by blast

lemma captured_throw:
  assumes "table_name (Some ts) = ts" "captured iface ts fw th pin v0 v" "ip_effect (RouteAdd F4 c Throw (Some ts)) v = Some v'"
  shows "captured iface ts fw (th @ [c]) pin v0 v'"
proof -
  obtain p where p: "dest_prefix F4 c = Some p" "v' = set_table F4 ts ((p, Throw) # rv_tables v F4 ts) v"
    using assms(1,3) by (auto simp: Let_def split: option.splits if_splits)
  have "set th \<subseteq> set (th @ [c])" by auto
  from captured_more[OF assms(2) this] show ?thesis using p(1) unfolding p(2) captured_def by simp
qed

lemma captured_bind:
  assumes "ts \<noteq> ''main''" "pin \<noteq> ''''"
  shows "kept_by (captured iface ts fw th pin v0) (RouteAdd f c (Dev pin) None)"
  using assms by (auto simp: kept_by_def captured_def Let_def table_name_def split: option.splits if_splits)

lemma throw_loop_captured:
  assumes d: "documented ip_effect view (it_run t)" and n: "table_name (Some ts) = ts"
  shows "throw_loop t ts eps m k = (m', k') \<Longrightarrow> captured iface ts fw (lm_throw m) pin v0 (view k) \<Longrightarrow>
    captured iface ts fw (lm_throw m') pin v0 (view k')"
proof (induction eps arbitrary: m k)
  case (Cons ep eps)
  show ?case
  proof (cases "host_route ep")
    case (Some fc)
    obtain f cidr where fc: "fc = (f, cidr)" by fastforce
    obtain k1 ok where r: "it_run t (RouteAdd f cidr Throw (Some ts)) k = (k1, ok)" by fastforce
    have "captured iface ts fw (lm_throw m @ [cidr]) pin v0 (view k1)" if added: "ok"
    proof (cases f)
      case F4
      then show ?thesis using captured_throw[OF n Cons.prems(2)] documentedD(1)[OF d r added] by blast
    next
      case F6
      then show ?thesis using captured_route6[of F6] documentedD(1)[OF d r added] captured_more[OF Cons.prems(2), of "lm_throw m @ [cidr]"]
        unfolding kept_by_def by (metis family.distinct(1) set_append sup_ge1)
    qed
    moreover have "view k1 = view k" if "\<not> ok" using documentedD(2)[OF d r that] .
    ultimately show ?thesis using Cons r by (auto simp: Some fc split: if_splits)
  qed (use Cons in simp)
qed simp

lemma bind_loop_captured:
  assumes d: "documented ip_effect view (it_run t)" and n: "ts \<noteq> ''main''"
  shows "bind_loop t eps ok m k = (m', k', ok') \<Longrightarrow> lm_bind m \<noteq> '''' \<Longrightarrow> captured iface ts fw (lm_throw m) (lm_bind m) v0 (view k) \<Longrightarrow>
    captured iface ts fw (lm_throw m') (lm_bind m) v0 (view k')"
proof (induction eps arbitrary: ok m k)
  case (Cons ep eps)
  show ?case
  proof (cases "host_route ep")
    case (Some fc)
    obtain f cidr where fc: "fc = (f, cidr)" by fastforce
    have "captured iface ts fw (lm_throw m) (lm_bind m) v0 (view (fst (it_run t (RouteAdd f cidr (Dev (lm_bind m)) None) k)))"
      using kept_run[OF d captured_bind[OF n Cons.prems(2)] Cons.prems(3)] .
    then show ?thesis using Cons.prems Cons.IH[of _ "m\<lparr>lm_bind_routes := lm_bind_routes m @ [cidr]\<rparr>"] Cons.IH[of _ m]
      by (auto simp: Some fc split: if_splits prod.splits)
  qed (use Cons in simp)
qed simp

lemma full_captured:
  assumes d: "documented ip_effect view (it_run t)" and tr: "truthful view t"
    and run: "addFullTunnelRoutesWithConfig t iface eps table fw m k = (m', k', True)"
    and n: "table_name (Some (itoa table)) = itoa table" "itoa table \<noteq> ''main''"
    and free: "rv_tables (view k) F4 (itoa table) = []"
    and rules: "\<forall>(q, s) \<in> set (rv_rules (view k) F4). \<not> has_suffix (itoa q) (itoa wgRulePriorityFwmark)"
  shows "captured iface (itoa table) fw (lm_throw m') (lm_bind m) (view k) (view k')"
proof -
  let ?ts = "itoa table"
  let ?m = "m\<lparr>lm_fwmark := fw, lm_table := table, lm_table_set := True\<rparr>"
  let ?P = "captured iface ?ts fw (lm_throw m) (lm_bind m) (view k)"
  obtain k1 ok1 where r1: "it_run t (WgSetFwmark iface fw) k = (k1, ok1)" by fastforce
  obtain k2 ok2 where r2: "it_run t (RouteAdd F4 ''default'' (Dev iface) (Some ?ts)) k1 = (k2, ok2)" by fastforce
  define k3 where "k3 = try_cmd t (RouteAdd F6 ''default'' (Dev iface) (Some ?ts)) k2"
  obtain k4 ok4 where r4: "ensure_rule t F4 wgRulePriorityFwmark (NotFwmark fw ?ts) k3 = (k4, ok4)" by fastforce
  define k5 where "k5 = set_src_valid t (fst (ensure_rule t F6 wgRulePrioritySuppress SuppressMain
    (fst (ensure_rule t F4 wgRulePrioritySuppress SuppressMain (fst (ensure_rule t F6 wgRulePriorityFwmark (NotFwmark fw ?ts) k4))))))"
  have ok: ok1 ok2 ok4 and fin: "(m', k', True) = (if lm_bind m \<noteq> '''' then addEndpointBindRoutes t eps ?m k5
      else let (m, k) = throw_loop t ?ts eps ?m k5 in (m, k, True))"
    using run by (auto simp: addFullTunnelRoutesWithConfig_def Let_def r1 r2 k3_def[symmetric] r4 k5_def split: if_splits prod.splits)
  note good = documentedD(1)[OF d]
  have v1: "view k1 = view k" using good[OF r1] ok(1) by simp
  have v2: "view k2 = set_table F4 ?ts [(Prefix (V4 0) 0, Dev iface)] (view k)"
    using good[OF r2] ok(2) n(1) free by (simp add: dest_prefix_def v1)
  let ?Q = "\<lambda>v. rv_tables v F4 = rv_tables (view k2) F4 \<and> rv_rules v F4 = rv_rules (view k2) F4"
  have v3: "?Q (view k3)"
    unfolding k3_def by (rule kept_run[OF d]) (auto simp: kept_by_def Let_def dest_prefix_def split: option.splits if_splits)
  have "\<not> ruleExists t F4 wgRulePriorityFwmark k3"
    using tr rules v3 v2 by (force simp: ruleExists_def truthful_def case_prod_beta)
  then have r4': "it_run t (RuleAdd F4 wgRulePriorityFwmark (NotFwmark fw ?ts)) k3 = (k4, ok4)" using r4 by (simp add: ensure_rule_def)
  have v4: "view k4 = set_rules F4 (insert_rule wgRulePriorityFwmark (NotFwmark fw ?ts) (rv_rules (view k3) F4)) (view k3)"
    using good[OF r4'] ok(3) by simp
  have p4: "?P (view k4)"
    unfolding captured_def v4 using v3 by (simp add: v2 placed_new)
  have p5: "?P (view k5)" unfolding k5_def
    by (intro kept_src_valid[OF d, where P = ?P] kept_ensure[OF d, where P = ?P] captured_rule6 captured_suppress p4)
  show ?thesis
  proof (cases "lm_bind m = ''''")
    case True
    then have "throw_loop t ?ts eps ?m k5 = (m', k')" using fin by (simp split: prod.splits)
    then show ?thesis using throw_loop_captured[OF d n(1)] p5 by fastforce
  next
    case False
    then have "bind_loop t eps True ?m k5 = (m', k', True)" using fin by (simp add: addEndpointBindRoutes_def)
    then show ?thesis using bind_loop_captured[OF d n(2), of eps True ?m k5 m' k' True iface fw "view k"] p5 False by simp
  qed
qed

text \<open>What a captured state does with a packet.\<close>

lemma captured_unmarked:
  assumes c: "captured iface ts fw throws pin v0 v" and "mark \<noteq> fw"
    and early: "\<forall>(q, s) \<in> set (rv_rules v0 F4). q \<le> wgRulePriorityFwmark \<longrightarrow> rule_says (rv_tables v F4) mark (V4 a) s = None"
    and thrown: "\<forall>c \<in> set throws. \<forall>p. dest_prefix F4 c = Some p \<longrightarrow> \<not> prefix_contains p (V4 a)"
  shows "egress v mark (V4 a) = Some iface"
proof -
  obtain A B where ab: "rv_rules v F4 = A @ (wgRulePriorityFwmark, NotFwmark fw ts) # B"
    "\<forall>x \<in> set A. x \<in> set (rv_rules v0 F4) \<and> fst x \<le> wgRulePriorityFwmark" using c by (auto simp: captured_def rule_placed_def)
  have "decide (rv_tables v F4) mark (V4 a) A = None" by (rule decide_None) (use ab(2) early in fastforce)
  moreover have "\<exists>q. route_for (rv_tables v F4 ts) (V4 a) = Some (q, Dev iface)"
  proof (rule route_for_bits)
    show "(Prefix (V4 0) 0, Dev iface) \<in> set (rv_tables v F4 ts)" using c by (simp add: captured_def)
    have "b = Dev iface" if "(q, b) \<in> set (rv_tables v F4 ts)" "prefix_contains q (V4 a)" for q b
      using that thrown c unfolding captured_def by (metis fst_conv snd_conv)
    then show "\<forall>(q, b) \<in> set (rv_tables v F4 ts). prefix_contains q (V4 a) \<longrightarrow> pbits q < pbits (Prefix (V4 0) 0) \<or> b = Dev iface" by auto
  qed simp
  ultimately show ?thesis using \<open>mark \<noteq> fw\<close> by (auto simp: egress_def ab(1) decide_append table_says_def)
qed

lemma captured_marked:
  assumes c: "captured iface ts fw throws pin v0 v" and "pin \<noteq> iface" and "ts \<noteq> ''main''"
    and others: "\<forall>n. n \<noteq> ts \<longrightarrow> (\<forall>x \<in> set (rv_tables v0 F4 n). snd x \<noteq> Dev iface)"
    and refs: "\<forall>x \<in> set (rv_rules v0 F4). snd x \<noteq> Lookup ts \<and> (\<forall>mk. snd x \<noteq> NotFwmark mk ts)"
  shows "egress v fw (V4 a) \<noteq> Some iface"
proof
  assume "egress v fw (V4 a) = Some iface"
  then obtain q s where qs: "(q, s) \<in> set (rv_rules v F4)" "rule_says (rv_tables v F4) fw (V4 a) s = Some iface"
    using decide_Some by (fastforce simp: egress_def)
  have ts: "\<not> (\<exists>p. route_for (rv_tables v F4 n) (V4 a) = Some (p, Dev iface))" if "n \<noteq> ts" for n
  proof
    assume "\<exists>p. route_for (rv_tables v F4 n) (V4 a) = Some (p, Dev iface)"
    then obtain p where "route_for (rv_tables v F4 n) (V4 a) = Some (p, Dev iface)" ..
    from route_for_Some[OF this] have "(p, Dev iface) \<in> set (rv_tables v F4 n)" by simp
    then have "(p, Dev iface) \<in> set (rv_tables v0 F4 n)" using c that \<open>pin \<noteq> iface\<close> unfolding captured_def by fastforce
    then show False using others that by fastforce
  qed
  have "(q, s) \<in> set (rv_rules v0 F4) \<or> s = NotFwmark fw ts \<or> s = SuppressMain" using c qs(1) by (auto simp: captured_def rule_placed_def)
  then show False using qs(2) refs ts \<open>ts \<noteq> ''main''\<close>
    by (cases s) (auto simp: table_says_def split: option.splits target.splits if_splits)
qed

text \<open>C6: On Linux a full tunnel that was installed carries every IPv4 packet that is neither marked nor bound for an
  excepted endpoint, those for the local networks included, unless an earlier rule of the machine decides it; and no packet
  with the tunnel's own mark ever goes into the tunnel, so encrypted packets cannot loop. Beforehand the chosen table,
  which is not main and has no other name, is empty, no rule has a priority that ends in 29040, and no route or rule leads
  to the tunnel; a command of \<open>ip\<close> that succeeds does what it documents, and the listing of the rules shows them.\<close>

theorem full_tunnel_captures:
  assumes "documented ip_effect view (it_run t)" and "truthful view t"
    and run: "AddRoutes t iface allowed True eps tableCfg fwmarkCfg m k = (m', k', True)"
    and "resolveTableAndFwMark t k tableCfg fwmarkCfg = (table, fw)" and "table \<noteq> -1"
    and "table_name (Some (itoa table)) = itoa table" and "itoa table \<noteq> ''main''"
    and "rv_tables (view k) F4 (itoa table) = []"
    and "\<forall>(q, s) \<in> set (rv_rules (view k) F4). \<not> has_suffix (itoa q) (itoa wgRulePriorityFwmark)"
    and own: "lm_bind m \<noteq> iface" "\<forall>n. n \<noteq> itoa table \<longrightarrow> (\<forall>x \<in> set (rv_tables (view k) F4 n). snd x \<noteq> Dev iface)"
      "\<forall>x \<in> set (rv_rules (view k) F4). snd x \<noteq> Lookup (itoa table) \<and> (\<forall>mk. snd x \<noteq> NotFwmark mk (itoa table))"
  shows "egress (view k') fw (V4 a) \<noteq> Some iface \<and>
    (mark \<noteq> fw \<and>
     (\<forall>(q, s) \<in> set (rv_rules (view k) F4). q \<le> wgRulePriorityFwmark \<longrightarrow> rule_says (rv_tables (view k') F4) mark (V4 a) s = None) \<and>
     (\<forall>c \<in> set (lm_throw m'). \<forall>p. dest_prefix F4 c = Some p \<longrightarrow> \<not> prefix_contains p (V4 a)) \<longrightarrow>
     egress (view k') mark (V4 a) = Some iface)"
proof -
  let ?m = "m\<lparr>lm_fwmark := fw, lm_table := table\<rparr>"
  have "addFullTunnelRoutesWithConfig t iface eps table fw ?m k = (m', k', True)"
    using run assms(4,5) by (simp add: AddRoutes_def)
  from full_captured[OF assms(1,2) this assms(6-9)]
  have c: "captured iface (itoa table) fw (lm_throw m') (lm_bind m) (view k) (view k')" by simp
  show ?thesis using captured_marked[OF c own(1) assms(7) own(2,3)] captured_unmarked[OF c] by blast
qed

section \<open>Removing gives back what was there\<close>

fun is_delete :: "ip_cmd \<Rightarrow> bool" where
  "is_delete (RouteDel f d a t) = True"
| "is_delete (RuleDel f p) = True"
| "is_delete c = False"

text \<open>The routes an installed tunnel owns, by its manager's record.\<close>

definition own_route :: "string \<Rightarrow> string \<Rightarrow> linux_mgr \<Rightarrow> family \<Rightarrow> string \<Rightarrow> prefix \<times> target \<Rightarrow> bool" where
  "own_route iface ts m f n x \<longleftrightarrow>
     (n = ts \<and> (x = (any_prefix f, Dev iface) \<or> snd x = Throw \<and> (\<exists>c \<in> set (lm_throw m). dest_prefix f c = Some (fst x)))) \<or>
     (n = ''main'' \<and> (\<exists>c \<in> set (lm_bind_routes m). dest_prefix f c = Some (fst x)))"

definition own_rule :: "int \<times> rule_sel \<Rightarrow> bool" where
  "own_rule x \<longleftrightarrow> fst x = wgRulePriorityFwmark \<or> fst x = wgRulePrioritySuppress"

definition rule_count :: "int \<Rightarrow> (int \<times> rule_sel) list \<Rightarrow> nat" where
  "rule_count p rs = length (filter (\<lambda>x. fst x = p) rs)"

definition owes :: "string \<Rightarrow> string \<Rightarrow> route_view \<Rightarrow> linux_mgr \<Rightarrow> route_view \<Rightarrow> bool" where
  "owes iface ts v0 m v \<longleftrightarrow>
     (\<forall>f n. filter (\<lambda>x. \<not> own_route iface ts m f n x) (rv_tables v f n) = rv_tables v0 f n) \<and>
     (\<forall>f. filter (\<lambda>x. \<not> own_rule x) (rv_rules v f) = rv_rules v0 f \<and>
        rule_count wgRulePriorityFwmark (rv_rules v f) \<le> 1 \<and> rule_count wgRulePrioritySuppress (rv_rules v f) \<le> 1)"

fun hits :: "ip_cmd \<Rightarrow> family \<Rightarrow> string \<Rightarrow> prefix \<times> target \<Rightarrow> bool" where
  "hits (RouteDel f d a t) g n x \<longleftrightarrow> g = f \<and> n = table_name t \<and> dest_prefix f d = Some (fst x) \<and> (a = None \<or> a = Some (snd x))"
| "hits c g n x \<longleftrightarrow> False"

lemma route_view_eqI:
  "(\<And>f n. rv_tables v f n = rv_tables w f n) \<Longrightarrow> (\<And>f. rv_rules v f = rv_rules w f) \<Longrightarrow> (v :: route_view) = w"
  by (cases v; cases w) (auto simp: fun_eq_iff)

text \<open>A tool that obeys every delete it can do.\<close>

definition deleting :: "('k \<Rightarrow> route_view) \<Rightarrow> 'k iptool \<Rightarrow> bool" where
  "deleting view t \<longleftrightarrow> documented ip_effect view (it_run t) \<and> (\<forall>c. is_delete c \<longrightarrow> obliging ip_effect view (it_run t) c)"

lemma delete_view:
  assumes "deleting view t" "is_delete c"
  shows "view (try_cmd t c k) = (case ip_effect c (view k) of None \<Rightarrow> view k | Some v \<Rightarrow> v)"
  using run_obliging[of ip_effect view "it_run t" c k "fst (it_run t c k)" "snd (it_run t c k)"] assms by (simp add: deleting_def)

lemma route_del_view:
  assumes "deleting view t" "is_delete c" "\<forall>f p. c \<noteq> RuleDel f p"
  shows "rv_tables (view (try_cmd t c k)) g n = filter (\<lambda>x. \<not> hits c g n x) (rv_tables (view k) g n) \<and>
    rv_rules (view (try_cmd t c k)) = rv_rules (view k)"
proof -
  obtain f e a u where c: "c = RouteDel f e a u" using assms(2,3) by (cases c) auto
  show ?thesis
  proof (cases "dest_prefix f e")
    case None
    then show ?thesis using delete_view[OF assms(1,2), of k] by (simp add: c)
  next
    case (Some p)
    let ?hit = "\<lambda>(q, b). q = p \<and> (a = None \<or> a = Some b)"
    have h: "hits c g n x \<longleftrightarrow> g = f \<and> n = table_name u \<and> ?hit x" for x by (cases x) (auto simp: c Some)
    have none: "filter (\<lambda>x. \<not> ?hit x) r = r" if "\<not> list_ex ?hit r" for r
      using that by (auto simp: list_ex_iff filter_id_conv)
    show ?thesis using delete_view[OF assms(1,2), of k] none unfolding h
      by (cases "g = f \<and> n = table_name u") (auto simp: c Some Let_def split: if_splits)
  qed
qed

lemma route_dels_view:
  assumes "deleting view t" "\<forall>c \<in> set cs. is_delete c \<and> (\<forall>f p. c \<noteq> RuleDel f p)"
  shows "rv_tables (view (foldl (\<lambda>k c. try_cmd t c k) k cs)) g n =
      filter (\<lambda>x. \<forall>c \<in> set cs. \<not> hits c g n x) (rv_tables (view k) g n) \<and>
    rv_rules (view (foldl (\<lambda>k c. try_cmd t c k) k cs)) = rv_rules (view k)"
  using assms(2) by (induction cs arbitrary: k) (simp_all add: route_del_view[OF assms(1)] conj_commute)

lemma drop_rule_count:
  "rule_count p (drop_rule q rs) = (if p = q then rule_count p rs - 1 else rule_count p rs)"
  "filter (\<lambda>x. fst x \<noteq> p) (drop_rule p rs) = filter (\<lambda>x. fst x \<noteq> p) rs"
  by (induction rs) (auto simp: rule_count_def)

lemma rule_count_0: "rule_count p rs = 0 \<longleftrightarrow> p \<notin> fst ` set rs"
  by (auto simp: rule_count_def filter_empty_conv)

lemma delete_priority_view:
  assumes d: "deleting view t" and tr: "truthful view t"
  shows "rule_count p (rv_rules (view k) f) \<le> n \<Longrightarrow>
    view (delete_priority t n f p k) = set_rules f (filter (\<lambda>x. fst x \<noteq> p) (rv_rules (view k) f)) (view k)"
proof (induction n arbitrary: k)
  case 0
  then show ?case by (auto simp: rule_count_def set_rules_def intro!: route_view_eqI) (simp add: filter_id_conv filter_empty_conv)
next
  case (Suc n)
  have none: "set_rules f (filter (\<lambda>x. fst x \<noteq> p) (rv_rules (view k) f)) (view k) = view k" if "p \<notin> fst ` set (rv_rules (view k) f)"
    using that by (intro route_view_eqI) (auto simp: filter_id_conv)
  show ?case
  proof (cases "p \<in> fst ` set (rv_rules (view k) f)")
    case False
    obtain k' ok where r: "it_run t (RuleDel f p) k = (k', ok)" by fastforce
    have "view k' = view k" using delete_view[OF d, of "RuleDel f p" k] r False by simp
    moreover have "\<not> ok" using documentedD(1)[of ip_effect view "it_run t" "RuleDel f p" k k' ok] d r False by (auto simp: deleting_def)
    ultimately show ?thesis using none[OF False] r by simp
  next
    case True
    obtain k' ok where r: "it_run t (RuleDel f p) k = (k', ok)" by fastforce
    have ok: "ok" using d r True unfolding deleting_def obliging_def by (metis ip_effect.simps(6) is_delete.simps(2) option.distinct(1) snd_conv)
    have v: "view k' = set_rules f (drop_rule p (rv_rules (view k) f)) (view k)"
      using delete_view[OF d, of "RuleDel f p" k] r True by simp
    have "str_contains (snd (it_ask t (ShowRules f) k)) (marker p)" using tr True by (force simp: truthful_def)
    moreover have "view (delete_priority t n f p k') = set_rules f (filter (\<lambda>x. fst x \<noteq> p) (rv_rules (view k) f)) (view k)"
      using Suc by (subst Suc.IH) (auto simp: v drop_rule_count intro!: route_view_eqI)
    ultimately show ?thesis using r ok by simp
  qed
qed

text \<open>Removing drops exactly what the manager recorded.\<close>

lemma fold_map: "foldl (\<lambda>k c. F (h c) k) k cs = foldl (\<lambda>k c. F c k) k (map h cs)"
  by (induction cs arbitrary: k) simp_all

lemma dest_family: "dest_prefix f c = Some p \<Longrightarrow> c \<noteq> ''default'' \<Longrightarrow> (CHR '':'' \<in> set c) = (f = F6)"
  by (auto simp: dest_prefix_def split: if_splits)

lemma ex_set_parts: "(\<exists>c \<in> set ([a, b] @ map f xs @ map g ys). P c) \<longleftrightarrow> (P a \<or> P b) \<or> (\<exists>c \<in> set xs. P (f c)) \<or> (\<exists>c \<in> set ys. P (g c))"
  by auto

text \<open>The deletions of a removal hit exactly the routes the tunnel owns.\<close>

definition removal_dels :: "string \<Rightarrow> string \<Rightarrow> linux_mgr \<Rightarrow> ip_cmd list" where
  "removal_dels iface ts m = [RouteDel F4 ''default'' (Some (Dev iface)) (Some ts), RouteDel F6 ''default'' (Some (Dev iface)) (Some ts)] @
    map (\<lambda>c. endpointThrowRouteDelete c ts) (lm_throw m) @
    map (\<lambda>c. RouteDel (if CHR '':'' \<in> set c then F6 else F4) c None None) (lm_bind_routes m)"

lemma removal_hits:
  assumes "table_name (Some ts) = ts" and names: "''default'' \<notin> set (lm_throw m) \<union> set (lm_bind_routes m)"
  shows "(\<exists>c \<in> set (removal_dels iface ts m). hits c g n x) \<longleftrightarrow> own_route iface ts m g n x"
proof -
  have dp: "dest_prefix f ''default'' = Some (any_prefix f)" for f by (simp add: dest_prefix_def)
  have fam: "dest_prefix (if CHR '':'' \<in> set c then F6 else F4) c = Some p \<and> g = (if CHR '':'' \<in> set c then F6 else F4) \<longleftrightarrow>
      dest_prefix g c = Some p" if "c \<noteq> ''default''" for c p
    using dest_family[of g c p] that by (cases g) auto
  have def: "hits (RouteDel F4 ''default'' (Some (Dev iface)) (Some ts)) g n x \<or>
      hits (RouteDel F6 ''default'' (Some (Dev iface)) (Some ts)) g n x \<longleftrightarrow> n = ts \<and> x = (any_prefix g, Dev iface)"
    by (cases g; cases x) (auto simp: dp assms(1))
  have thr: "hits (endpointThrowRouteDelete c ts) g n x \<longleftrightarrow> n = ts \<and> snd x = Throw \<and> dest_prefix g c = Some (fst x)"
    if "c \<in> set (lm_throw m)" for c
  proof -
    have "c \<noteq> ''default''" using that names by auto
    from fam[OF this, of "fst x"] show ?thesis by (auto simp: endpointThrowRouteDelete_def assms(1))
  qed
  have bnd: "hits (RouteDel (if CHR '':'' \<in> set c then F6 else F4) c None None) g n x \<longleftrightarrow> n = ''main'' \<and> dest_prefix g c = Some (fst x)"
    if "c \<in> set (lm_bind_routes m)" for c
  proof -
    have "c \<noteq> ''default''" using that names by auto
    from fam[OF this, of "fst x"] show ?thesis by (auto simp: table_name_def)
  qed
  show ?thesis unfolding removal_dels_def ex_set_parts def own_route_def using thr bnd by auto
qed

lemma remove_view:
  assumes d: "deleting view t" and tr: "truthful view t" and ow: "owes iface ts v0 m (view k)"
    and s: "lm_table_set m" "itoa (lm_table m) = ts" "table_name (Some ts) = ts" "ts \<noteq> ''main''"
    and names: "''default'' \<notin> set (lm_throw m) \<union> set (lm_bind_routes m)"
    and run: "removeFullTunnelRoutes t iface m k = (m', k')"
  shows "view k' = v0 \<and> m' = m\<lparr>lm_throw := [], lm_bind_routes := []\<rparr>"
proof -
  let ?cs = "removal_dels iface ts m"
  define k1 where "k1 = foldl (\<lambda>k c. try_cmd t c k) k ?cs"
  let ?dels = "delete_priority t 50 F6 wgRulePrioritySuppress (delete_priority t 50 F4 wgRulePrioritySuppress
    (delete_priority t 50 F6 wgRulePriorityFwmark (delete_priority t 50 F4 wgRulePriorityFwmark k1)))"
  have k': "k' = ?dels" "m' = m\<lparr>lm_throw := [], lm_bind_routes := []\<rparr>"
    using run s by (simp_all add: removeFullTunnelRoutes_def removeEndpointBindRoutes_def Let_def k1_def removal_dels_def
      fold_map[of "try_cmd t" "\<lambda>c. endpointThrowRouteDelete c ts"]
      fold_map[of "try_cmd t" "\<lambda>c. RouteDel (if CHR '':'' \<in> set c then F6 else F4) c None None"])
  have "\<forall>c \<in> set ?cs. is_delete c \<and> (\<forall>f p. c \<noteq> RuleDel f p)" by (auto simp: endpointThrowRouteDelete_def removal_dels_def)
  note k1 = route_dels_view[OF d this, of k, folded k1_def] and own = removal_hits[OF s(3) names, of iface]
  have t1: "rv_tables (view k1) g n = rv_tables v0 g n" for g n
  proof -
    have "rv_tables (view k1) g n = filter (\<lambda>x. \<forall>c \<in> set ?cs. \<not> hits c g n x) (rv_tables (view k) g n)" using k1 by blast
    also have "\<dots> = filter (\<lambda>x. \<not> own_route iface ts m g n x) (rv_tables (view k) g n)"
      by (intro filter_cong refl) (unfold own[symmetric], blast)
    finally show ?thesis using ow by (simp add: owes_def)
  qed
  have r1: "rv_rules (view k1) = rv_rules (view k)" using k1 by blast
  have le: "rule_count p (filter Q rs) \<le> 50" if "rule_count p rs \<le> 1" for p Q rs
  proof -
    have "rule_count p (filter Q rs) \<le> rule_count p rs"
      unfolding rule_count_def filter_filter by (induction rs) auto
    with that show ?thesis by simp
  qed
  have c: "rule_count wgRulePriorityFwmark (rv_rules (view k) f) \<le> 1" "rule_count wgRulePrioritySuppress (rv_rules (view k) f) \<le> 1"
    "filter (\<lambda>x. \<not> own_rule x) (rv_rules (view k) f) = rv_rules v0 f" for f using ow by (auto simp: owes_def)
  have c50: "rule_count wgRulePriorityFwmark (rv_rules (view k) f) \<le> 50" "rule_count wgRulePrioritySuppress (rv_rules (view k) f) \<le> 50" for f
    using c[of f] by simp_all
  have "view ?dels = v0"
  proof (rule route_view_eqI)
    fix f show "rv_rules (view ?dels) f = rv_rules v0 f"
      by (cases f) (simp_all add: delete_priority_view[OF d tr] c50 le[OF c(1)] le[OF c(2)] r1 c(3)[symmetric] own_rule_def conj_commute)
  qed (simp add: delete_priority_view[OF d tr] c50 le[OF c(1)] le[OF c(2)] r1 t1)
  then show ?thesis using k' by simp
qed

text \<open>Adding keeps the record complete.\<close>

lemma insert_rule_filter:
  "\<not> P (p, s) \<Longrightarrow> filter P (insert_rule p s rs) = filter P rs"
  "P (p, s) \<Longrightarrow> length (filter P (insert_rule p s rs)) = Suc (length (filter P rs))"
proof -
  let ?q = "\<lambda>(q, s). q \<le> p"
  have "filter P (takeWhile ?q rs) @ filter P (dropWhile ?q rs) = filter P rs"
    by (simp only: filter_append[symmetric] takeWhile_dropWhile_id)
  then have *: "filter P rs = filter P (takeWhile ?q rs) @ filter P (dropWhile ?q rs)" by simp
  show "\<not> P (p, s) \<Longrightarrow> filter P (insert_rule p s rs) = filter P rs" by (simp add: insert_rule_def *)
  show "P (p, s) \<Longrightarrow> length (filter P (insert_rule p s rs)) = Suc (length (filter P rs))" by (simp add: insert_rule_def *)
qed

lemma dest_default [simp]: "dest_prefix f ''default'' = Some (any_prefix f)"
  by (simp add: dest_prefix_def)

lemma own_default [simp]: "own_route iface ts m f ts (any_prefix f, Dev iface)"
  by (simp add: own_route_def)

lemma owes_default: "table_name (Some ts) = ts \<Longrightarrow> kept_by (owes iface ts v0 m) (RouteAdd f ''default'' (Dev iface) (Some ts))"
  by (auto simp: kept_by_def owes_def Let_def split: if_splits)

lemma owes_ensure:
  assumes d: "documented ip_effect view (it_run t)" and tr: "truthful view t" and o: "owes iface ts v0 m (view k)"
    and p: "p = wgRulePriorityFwmark \<or> p = wgRulePrioritySuppress"
  shows "owes iface ts v0 m (view (fst (ensure_rule t f p s k)))"
proof (cases "ruleExists t f p k")
  case False
  then have new: "p \<notin> fst ` set (rv_rules (view k) f)" using tr by (force simp: ruleExists_def truthful_def case_prod_beta)
  obtain k' ok where r: "it_run t (RuleAdd f p s) k = (k', ok)" by fastforce
  have "owes iface ts v0 m (set_rules f (insert_rule p s (rv_rules (view k) f)) (view k))"
    using o p new rule_count_0[of p "rv_rules (view k) f"]
    by (auto simp: owes_def rule_count_def insert_rule_filter own_rule_def wgRulePriorityFwmark_def wgRulePrioritySuppress_def)
  then show ?thesis using documentedD[OF d r] o False by (cases ok) (auto simp: ensure_rule_def r)
qed (use o in \<open>simp add: ensure_rule_def\<close>)

lemma fresh_filter:
  assumes "p \<notin> fst ` set r" "\<And>x. fst x \<noteq> p \<Longrightarrow> P' x = P x" "\<not> P' (p, a)"
  shows "filter P' ((p, a) # r) = filter P r"
proof -
  have "filter P' r = filter P r" using assms(1,2) by (intro filter_cong refl) (metis image_eqI)
  then show ?thesis using assms(3) by simp
qed

lemma dest_other:
  assumes "dest_prefix f c = Some p" "c \<noteq> ''default''" "g \<noteq> f"
  shows "dest_prefix g c = None"
proof -
  have "(CHR '':'' \<in> set c) \<noteq> (g = F6)" using dest_family[OF assms(1,2)] assms(3) by (cases f; cases g) auto
  then show ?thesis using assms(2) by (simp add: dest_prefix_def)
qed

lemma owes_throw:
  assumes "table_name (Some ts) = ts" "owes iface ts v0 m v" "ip_effect (RouteAdd f c Throw (Some ts)) v = Some v'" "c \<noteq> ''default''"
  shows "owes iface ts v0 (m\<lparr>lm_throw := lm_throw m @ [c]\<rparr>) v'"
proof -
  obtain p where p: "dest_prefix f c = Some p" "p \<notin> fst ` set (rv_tables v f ts)" "v' = set_table f ts ((p, Throw) # rv_tables v f ts) v"
    using assms(1,3) by (auto simp: Let_def split: option.splits if_splits)
  let ?m = "m\<lparr>lm_throw := lm_throw m @ [c]\<rparr>"
  have other: "own_route iface ts ?m g n x = own_route iface ts m g n x" if "\<not> (g = f \<and> n = ts) \<or> fst x \<noteq> p" for g n x
    using that dest_other[OF p(1) assms(4), of g] p(1) by (cases "g = f") (auto simp: own_route_def)
  have mine: "own_route iface ts ?m f ts (p, Throw)" using p(1) by (simp add: own_route_def)
  have "filter (\<lambda>x. \<not> own_route iface ts ?m g n x) (rv_tables v' g n) = filter (\<lambda>x. \<not> own_route iface ts m g n x) (rv_tables v g n)" for g n
  proof (cases "g = f \<and> n = ts")
    case True
    have "filter (\<lambda>x. \<not> own_route iface ts ?m f ts x) ((p, Throw) # rv_tables v f ts) =
        filter (\<lambda>x. \<not> own_route iface ts m f ts x) (rv_tables v f ts)"
      by (rule fresh_filter[OF p(2)]) (use other mine in blast)+
    with True show ?thesis by (simp only: p(3) tables_set simp_thms if_True)
  next
    case False
    then have "rv_tables v' g n = rv_tables v g n" by (auto simp: p(3))
    moreover have "own_route iface ts ?m g n = own_route iface ts m g n" by (rule ext) (use False other in blast)
    ultimately show ?thesis by (simp only:)
  qed
  then show ?thesis using assms(2) by (simp add: owes_def p(3))
qed

lemma owes_bind:
  assumes "owes iface ts v0 m v" "ip_effect (RouteAdd f c (Dev dev) None) v = Some v'" "c \<noteq> ''default''"
  shows "owes iface ts v0 (m\<lparr>lm_bind_routes := lm_bind_routes m @ [c]\<rparr>) v'"
proof -
  obtain p where p: "dest_prefix f c = Some p" "p \<notin> fst ` set (rv_tables v f ''main'')"
      "v' = set_table f ''main'' ((p, Dev dev) # rv_tables v f ''main'') v"
    using assms(2) by (auto simp: Let_def table_name_def split: option.splits if_splits)
  let ?m = "m\<lparr>lm_bind_routes := lm_bind_routes m @ [c]\<rparr>"
  have other: "own_route iface ts ?m g n x = own_route iface ts m g n x" if "\<not> (g = f \<and> n = ''main'') \<or> fst x \<noteq> p" for g n x
    using that dest_other[OF p(1) assms(3), of g] p(1) by (cases "g = f") (auto simp: own_route_def)
  have mine: "own_route iface ts ?m f ''main'' (p, Dev dev)" using p(1) by (simp add: own_route_def)
  have "filter (\<lambda>x. \<not> own_route iface ts ?m g n x) (rv_tables v' g n) = filter (\<lambda>x. \<not> own_route iface ts m g n x) (rv_tables v g n)" for g n
  proof (cases "g = f \<and> n = ''main''")
    case True
    have "filter (\<lambda>x. \<not> own_route iface ts ?m f ''main'' x) ((p, Dev dev) # rv_tables v f ''main'') =
        filter (\<lambda>x. \<not> own_route iface ts m f ''main'' x) (rv_tables v f ''main'')"
      by (rule fresh_filter[OF p(2)]) (use other mine in blast)+
    with True show ?thesis by (simp only: p(3) tables_set simp_thms if_True)
  next
    case False
    then have "rv_tables v' g n = rv_tables v g n" by (auto simp: p(3))
    moreover have "own_route iface ts ?m g n = own_route iface ts m g n" by (rule ext) (use False other in blast)
    ultimately show ?thesis by (simp only:)
  qed
  then show ?thesis using assms(1) by (simp add: owes_def p(3))
qed

text \<open>What holds of the manager and the machine from the first command of an installation on.\<close>

definition in_debt :: "string \<Rightarrow> int \<Rightarrow> route_view \<Rightarrow> linux_mgr \<Rightarrow> route_view \<Rightarrow> bool" where
  "in_debt iface table v0 m v \<longleftrightarrow> owes iface (itoa table) v0 m v \<and> lm_table_set m \<and> lm_table m = table \<and>
     ''default'' \<notin> set (lm_throw m) \<union> set (lm_bind_routes m)"

lemma host_not_default: "host_route ep = Some (f, c) \<Longrightarrow> c \<noteq> ''default''"
  by (auto simp: host_route_def append_eq_Cons_conv split: option.splits if_splits)

lemma throw_loop_debt:
  assumes d: "documented ip_effect view (it_run t)" and n: "table_name (Some (itoa table)) = itoa table"
  shows "throw_loop t (itoa table) eps m k = (m', k') \<Longrightarrow> in_debt iface table v0 m (view k) \<Longrightarrow> in_debt iface table v0 m' (view k')"
proof (induction eps arbitrary: m k)
  case (Cons ep eps)
  show ?case
  proof (cases "host_route ep")
    case (Some fc)
    obtain f c where fc: "fc = (f, c)" by fastforce
    have c: "c \<noteq> ''default''" using host_not_default Some fc by simp
    obtain k1 ok where r: "it_run t (RouteAdd f c Throw (Some (itoa table))) k = (k1, ok)" by fastforce
    have "in_debt iface table v0 (m\<lparr>lm_throw := lm_throw m @ [c]\<rparr>) (view k1)" if "ok"
      using owes_throw[OF n _ documentedD(1)[OF d r that] c] Cons.prems(2) c by (simp add: in_debt_def)
    moreover have "in_debt iface table v0 m (view k1)" if "\<not> ok" using documentedD(2)[OF d r that] Cons.prems(2) by simp
    ultimately show ?thesis using Cons r by (auto simp: Some fc split: if_splits)
  qed (use Cons in simp)
qed simp

lemma bind_loop_debt:
  assumes d: "documented ip_effect view (it_run t)"
  shows "bind_loop t eps ok m k = (m', k', ok') \<Longrightarrow> in_debt iface table v0 m (view k) \<Longrightarrow> in_debt iface table v0 m' (view k')"
proof (induction eps arbitrary: ok m k)
  case (Cons ep eps)
  show ?case
  proof (cases "host_route ep")
    case (Some fc)
    obtain f c where fc: "fc = (f, c)" by fastforce
    have c: "c \<noteq> ''default''" using host_not_default Some fc by simp
    obtain k1 added where r: "it_run t (RouteAdd f c (Dev (lm_bind m)) None) k = (k1, added)" by fastforce
    have "in_debt iface table v0 (m\<lparr>lm_bind_routes := lm_bind_routes m @ [c]\<rparr>) (view k1)" if "added"
      using owes_bind[OF _ documentedD(1)[OF d r that] c] Cons.prems(2) c by (simp add: in_debt_def)
    moreover have "in_debt iface table v0 m (view k1)" if "\<not> added" using documentedD(2)[OF d r that] Cons.prems(2) by simp
    ultimately show ?thesis using Cons r by (auto simp: Some fc split: if_splits)
  qed (use Cons in simp)
qed simp

lemma owes_cleared:
  assumes "owes iface ts v0 m v"
  shows "owes iface ts v0 (m\<lparr>lm_throw := [], lm_bind_routes := []\<rparr>) v0"
proof -
  let ?m = "m\<lparr>lm_throw := [], lm_bind_routes := []\<rparr>"
  have t: "rv_tables v0 f n = filter (\<lambda>x. \<not> own_route iface ts m f n x) (rv_tables v f n)"
    and r: "rv_rules v0 f = filter (\<lambda>x. \<not> own_rule x) (rv_rules v f)" for f n using assms by (simp_all add: owes_def)
  have "own_route iface ts ?m f n x \<Longrightarrow> own_route iface ts m f n x" for f n x by (auto simp: own_route_def)
  then have "\<forall>x \<in> set (rv_tables v0 f n). \<not> own_route iface ts ?m f n x" for f n by (auto simp: t)
  moreover have "rule_count wgRulePriorityFwmark (rv_rules v0 f) = 0" "rule_count wgRulePrioritySuppress (rv_rules v0 f) = 0" for f
    by (auto simp: rule_count_0 r own_rule_def)
  moreover have "filter (\<lambda>x. \<not> own_rule x) (rv_rules v0 f) = rv_rules v0 f" for f by (simp add: r)
  ultimately show ?thesis by (simp add: owes_def filter_id_conv)
qed

lemma removed_debt:
  assumes "deleting view t" "truthful view t" "in_debt iface table v0 m (view k)"
    and "table_name (Some (itoa table)) = itoa table" "itoa table \<noteq> ''main''"
    and "removeFullTunnelRoutes t iface m k = (m', k')"
  shows "view k' = v0 \<and> in_debt iface table v0 m' (view k') \<and> lm_throw m' = [] \<and> lm_bind_routes m' = []"
  using remove_view[of view t iface "itoa table" v0 m k m' k'] owes_cleared[of iface "itoa table" v0 m "view k"] assms
  by (auto simp: in_debt_def)

lemma full_debt:
  assumes del: "deleting view t" and tr: "truthful view t"
    and n: "table_name (Some (itoa table)) = itoa table" "itoa table \<noteq> ''main''"
    and start: "in_debt iface table v0 (m\<lparr>lm_fwmark := fw, lm_table := table, lm_table_set := True\<rparr>) (view k)"
    and run: "addFullTunnelRoutesWithConfig t iface eps table fw m k = (m', k', ok)"
  shows "in_debt iface table v0 m' (view k')"
proof -
  let ?ts = "itoa table"
  let ?m = "m\<lparr>lm_fwmark := fw, lm_table := table, lm_table_set := True\<rparr>"
  let ?P = "owes iface ?ts v0 ?m"
  have d: "documented ip_effect view (it_run t)" using del by (simp add: deleting_def)
  have debt: "in_debt iface table v0 ?m v \<longleftrightarrow> ?P v" for v using start by (simp add: in_debt_def)
  obtain k1 ok1 where r1: "it_run t (WgSetFwmark iface fw) k = (k1, ok1)" by fastforce
  obtain k2 ok2 where r2: "it_run t (RouteAdd F4 ''default'' (Dev iface) (Some ?ts)) k1 = (k2, ok2)" by fastforce
  define k3 where "k3 = try_cmd t (RouteAdd F6 ''default'' (Dev iface) (Some ?ts)) k2"
  obtain k4 ok4 where r4: "ensure_rule t F4 wgRulePriorityFwmark (NotFwmark fw ?ts) k3 = (k4, ok4)" by fastforce
  define k5 where "k5 = set_src_valid t (fst (ensure_rule t F6 wgRulePrioritySuppress SuppressMain
    (fst (ensure_rule t F4 wgRulePrioritySuppress SuppressMain (fst (ensure_rule t F6 wgRulePriorityFwmark (NotFwmark fw ?ts) k4))))))"
  have p1: "?P (view k1)" using kept_run[OF d, of ?P "WgSetFwmark iface fw" k] start by (simp add: debt r1 kept_by_def)
  have p2: "?P (view k2)" using kept_run[OF d owes_default[OF n(1)] p1, of F4] by (simp add: r2)
  have p3: "?P (view k3)" unfolding k3_def by (rule kept_run[OF d owes_default[OF n(1)] p2])
  have p4: "?P (view k4)" using owes_ensure[OF d tr p3, of wgRulePriorityFwmark F4 "NotFwmark fw ?ts"] by (simp add: r4)
  have p5: "?P (view k5)" unfolding k5_def
    by (rule kept_src_valid[OF d, where P = ?P], intro owes_ensure[OF d tr] p4) simp_all
  have rolled: "in_debt iface table v0 m2 (view q2)" if "?P (view q1)" "removeFullTunnelRoutes t iface ?m q1 = (m2, q2)" for q1 m2 q2
    using removed_debt[OF del tr _ n that(2), of v0] debt that(1) by blast
  show ?thesis
    using run p1 p2 p4 p5 rolled debt throw_loop_debt[OF d n(1), of eps ?m k5 m' k' iface v0] bind_loop_debt[OF d, of eps True ?m k5 m' k' ok iface table v0]
    by (auto simp: addFullTunnelRoutesWithConfig_def Let_def r1 r2 k3_def[symmetric] r4 k5_def[symmetric] addEndpointBindRoutes_def split: if_splits prod.splits)
qed

text \<open>C15: Removing the routes of a full tunnel gives back every table and every policy rule exactly as it was before the
  tunnel was set up, whether the setup succeeded or failed at any step; nothing of the tunnel stays recorded. Beforehand
  the chosen table, which is not main and has no other name, was empty in both families and no rule had one of the two
  priorities of the program; a deletion that is possible succeeds, and the listing of the rules shows them.\<close>

theorem remove_restores:
  assumes "deleting view t" and "truthful view t"
    and fresh: "lm_throw m = []" "lm_bind_routes m = []"
    and add: "AddRoutes t iface allowed True eps tableCfg fwmarkCfg m k = (m1, k1, ok)"
    and "resolveTableAndFwMark t k tableCfg fwmarkCfg = (table, fw)"
    and "table_name (Some (itoa table)) = itoa table" and "itoa table \<noteq> ''main''"
    and "\<forall>f. rv_tables (view k) f (itoa table) = []"
    and "\<forall>f. \<forall>x \<in> set (rv_rules (view k) f). \<not> own_rule x"
  shows "view (snd (RemoveRoutes t iface allowed' True m1 k1)) = view k \<and>
    lm_throw (fst (RemoveRoutes t iface allowed' True m1 k1)) = [] \<and> lm_bind_routes (fst (RemoveRoutes t iface allowed' True m1 k1)) = []"
proof (cases "table = -1")
  case True
  then show ?thesis using add assms(6) fresh by (auto simp: AddRoutes_def RemoveRoutes_def)
next
  case False
  let ?m = "m\<lparr>lm_fwmark := fw, lm_table := table\<rparr>"
  have none: "rule_count p (rv_rules (view k) f) = 0" if "p = wgRulePriorityFwmark \<or> p = wgRulePrioritySuppress" for p f
    using assms(10) that by (auto simp: rule_count_0 own_rule_def)
  have "\<not> own_route iface (itoa table) (?m\<lparr>lm_fwmark := fw, lm_table := table, lm_table_set := True\<rparr>) f n x"
    if "x \<in> set (rv_tables (view k) f n)" for f n x
    using that assms(9) fresh by (cases "n = itoa table") (simp_all add: own_route_def)
  then have "in_debt iface table (view k) (?m\<lparr>lm_fwmark := fw, lm_table := table, lm_table_set := True\<rparr>) (view k)"
    using assms(10) fresh none by (simp add: in_debt_def owes_def filter_id_conv)
  moreover have "addFullTunnelRoutesWithConfig t iface eps table fw ?m k = (m1, k1, ok)"
    using add assms(6) False by (simp add: AddRoutes_def)
  ultimately have debt: "in_debt iface table (view k) m1 (view k1)" by (rule full_debt[OF assms(1,2,7,8)])
  then have "RemoveRoutes t iface allowed' True m1 k1 = removeFullTunnelRoutes t iface m1 k1"
    using False by (simp add: RemoveRoutes_def in_debt_def)
  moreover obtain m2 k2 where r: "removeFullTunnelRoutes t iface m1 k1 = (m2, k2)" by fastforce
  ultimately show ?thesis using removed_debt[OF assms(1,2) debt assms(7,8) r] by simp
qed

section \<open>A machine\<close>

text \<open>A kernel that does exactly what is documented, and a machine with a default route and a local network.\<close>

definition rule_lines :: "(int \<times> rule_sel) list \<Rightarrow> string" where
  "rule_lines rs = concat (map (\<lambda>(q, s). itoa q @ CHR '':'' # [CHR 0x0A]) rs)"

definition plain_ip :: "route_view iptool" where
  "plain_ip = \<lparr>it_run = (\<lambda>c v. case ip_effect c v of None \<Rightarrow> (v, False) | Some w \<Rightarrow> (w, True)),
     it_ask = (\<lambda>q v. case q of
        ShowRules f \<Rightarrow> (True, rule_lines (rv_rules v f))
      | ShowTable f n \<Rightarrow> (True, if rv_tables v f (table_name (Some n)) = [] then '''' else ''x'')
      | _ \<Rightarrow> (True, '''')),
     it_src_valid = (\<lambda>v. None)\<rparr>"

lemma str_contains_iff: "str_contains s p \<longleftrightarrow> (\<exists>a b. s = a @ p @ b)"
proof (induction s)
  case (Cons c s)
  have "has_prefix (c # s) p \<longleftrightarrow> (\<exists>b. c # s = p @ b)" by (metis append_eq_conv_conj)
  then show ?case using Cons by (auto simp: Cons_eq_append_conv)
qed auto

lemma contains_line:
  assumes "CHR '':'' \<notin> set q" "CHR '':'' \<notin> set p" "CHR 0x0A \<notin> set p" "p \<noteq> ''''"
  shows "str_contains (q @ CHR '':'' # CHR 0x0A # rest) (p @ '':'') \<longleftrightarrow> has_suffix q p \<or> str_contains rest (p @ '':'')"
proof
  assume "str_contains (q @ CHR '':'' # CHR 0x0A # rest) (p @ '':'')"
  then obtain a b where e: "(a @ p) @ CHR '':'' # b = q @ CHR '':'' # CHR 0x0A # rest" by (auto simp: str_contains_iff)
  from append_eq_append_conv2[THEN iffD1, OF e] consider u where "a @ p = q @ u" "u @ CHR '':'' # b = CHR '':'' # CHR 0x0A # rest"
    | u where "(a @ p) @ u = q" "CHR '':'' # b = u @ CHR '':'' # CHR 0x0A # rest" by blast
  then show "has_suffix q p \<or> str_contains rest (p @ '':'')"
  proof cases
    case 1
    show ?thesis
    proof (cases u)
      case Nil
      then have "q = a @ p" using 1 by simp
      then show ?thesis by simp
    next
      case (Cons x w)
      then have w: "a @ p = q @ CHR '':'' # w" "w @ CHR '':'' # b = CHR 0x0A # rest" using 1 by auto
      from w(1) assms(2) obtain us where us: "us @ p = CHR '':'' # w" by (auto simp: append_eq_append_conv2)
      with assms(2) obtain c where "w = c @ p" by (cases us) auto
      with w(2) assms(3,4) obtain c' where "rest = c' @ p @ CHR '':'' # b" by (cases c; cases p) auto
      then show ?thesis by (auto simp: str_contains_iff)
    qed
  next
    case 2
    then have "u = []" using assms(1) by (cases u) auto
    then have "q = a @ p" using 2 by simp
    then show ?thesis by simp
  qed
next
  assume "has_suffix q p \<or> str_contains rest (p @ '':'')"
  then show "str_contains (q @ CHR '':'' # CHR 0x0A # rest) (p @ '':'')"
  proof
    assume "has_suffix q p"
    then have "q = take (length q - length p) q @ p" by (metis append_take_drop_id)
    then show ?thesis unfolding str_contains_iff by (metis append.assoc append_Cons append_Nil)
  next
    assume "str_contains rest (p @ '':'')"
    then obtain a b where "rest = a @ (p @ '':'') @ b" by (auto simp: str_contains_iff)
    then have "q @ CHR '':'' # CHR 0x0A # rest = (q @ CHR '':'' # CHR 0x0A # a) @ (p @ '':'') @ b" by simp
    then show ?thesis unfolding str_contains_iff by blast
  qed
qed

lemma itoa_chars: "CHR '':'' \<notin> set (itoa n)" "CHR 0x0A \<notin> set (itoa n)" "itoa n \<noteq> ''''"
proof -
  have "c \<notin> set (itoa n)" if "(of_char c :: int) < 45 \<or> 57 < (of_char c :: int)" for c
  proof (cases "n < 0")
    case True
    then show ?thesis using dec_str_not[of "- n" c] that by (auto simp: itoa_def)
  next
    case False
    then show ?thesis using dec_str_not[of n c] that by (auto simp: itoa_def)
  qed
  then show "CHR '':'' \<notin> set (itoa n)" "CHR 0x0A \<notin> set (itoa n)" by simp_all
  show "itoa n \<noteq> ''''" by (simp add: itoa_def)
qed

lemma rule_lines_contains: "str_contains (rule_lines rs) (marker p) \<longleftrightarrow> (\<exists>(q, s) \<in> set rs. has_suffix (itoa q) (itoa p))"
proof (induction rs)
  case (Cons x rs)
  then show ?case using contains_line[of "itoa (fst x)" "itoa p" "rule_lines rs"] itoa_chars
    by (cases x) (simp add: rule_lines_def marker_def)
qed (simp add: rule_lines_def marker_def)

lemma plain_documented: "documented ip_effect (\<lambda>v. v) (it_run plain_ip)"
  by (auto simp: documented_def plain_ip_def split: option.splits)

lemma plain_deleting: "deleting (\<lambda>v. v) plain_ip"
  using plain_documented by (auto simp: deleting_def obliging_def plain_ip_def split: option.splits)

lemma plain_truthful: "truthful (\<lambda>v. v) plain_ip"
  by (auto simp: truthful_def plain_ip_def rule_lines_contains asked_def)

definition demo_machine :: route_view where
  "demo_machine = \<lparr>rv_tables = (\<lambda>f n. if f = F4 \<and> n = ''main''
       then [(Prefix (V4 0) 0, Dev ''eth0''), (Prefix (V4 0xC0A80100) 24, Dev ''eth0'')] else []),
     rv_rules = (\<lambda>f. [(0, Lookup ''local''), (32766, Lookup ''main''), (32767, Lookup ''default'')])\<rparr>"

definition demo_add :: "linux_mgr \<times> route_view \<times> bool" where
  "demo_add = AddRoutes plain_ip ''wg0'' [] True [''198.51.100.7''] '''' '''' linux_mgr0 demo_machine"

lemma demo_add_runs: "snd (snd demo_add)" "resolveTableAndFwMark plain_ip demo_machine '''' '''' = (51820, 51820)"
  by code_simp+

text \<open>A printer at 192.168.1.5, on the local network of \<open>eth0\<close>, is reached through the tunnel; packets of the tunnel are not.\<close>

theorem full_tunnel_captures_witness:
  "egress demo_machine 0 (V4 0xC0A80105) = Some ''eth0'' \<and>
   egress (fst (snd demo_add)) 0 (V4 0xC0A80105) = Some ''wg0'' \<and>
   egress (fst (snd demo_add)) 51820 (V4 0xC6336407) \<noteq> Some ''wg0''"
proof -
  have before: "egress demo_machine 0 (V4 0xC0A80105) = Some ''eth0''" by code_simp
  have early: "rule_says (rv_tables (fst (snd demo_add)) F4) 0 (V4 0xC0A80105) (Lookup ''local'') = None" by code_simp
  have thrown: "list_all (\<lambda>c. case dest_prefix F4 c of None \<Rightarrow> True | Some p \<Rightarrow> \<not> prefix_contains p (V4 0xC0A80105)) (lm_throw (fst demo_add))"
    by code_simp
  have ts: "itoa 51820 = ''51820''" by code_simp
  have sfx: "\<not> has_suffix (itoa 0) (itoa wgRulePriorityFwmark)" "\<not> has_suffix (itoa 32766) (itoa wgRulePriorityFwmark)"
    "\<not> has_suffix (itoa 32767) (itoa wgRulePriorityFwmark)" by code_simp+
  have rules: "rv_rules demo_machine F4 = [(0, Lookup ''local''), (32766, Lookup ''main''), (32767, Lookup ''default'')]"
    by (simp add: demo_machine_def)
  have run: "AddRoutes plain_ip ''wg0'' [] True [''198.51.100.7''] '''' '''' linux_mgr0 demo_machine = (fst demo_add, fst (snd demo_add), True)"
    using demo_add_runs(1) by (simp add: demo_add_def prod_eq_iff)
  have claim: "egress (fst (snd demo_add)) 51820 (V4 a) \<noteq> Some ''wg0'' \<and>
    (0 \<noteq> (51820 :: int) \<and>
     (\<forall>(q, s) \<in> set (rv_rules demo_machine F4). q \<le> wgRulePriorityFwmark \<longrightarrow> rule_says (rv_tables (fst (snd demo_add)) F4) 0 (V4 a) s = None) \<and>
     (\<forall>c \<in> set (lm_throw (fst demo_add)). \<forall>p. dest_prefix F4 c = Some p \<longrightarrow> \<not> prefix_contains p (V4 a)) \<longrightarrow>
     egress (fst (snd demo_add)) 0 (V4 a) = Some ''wg0'')" for a
    by (rule full_tunnel_captures[OF plain_documented plain_truthful run demo_add_runs(2)])
      (use sfx in \<open>auto simp: rules ts table_name_def demo_machine_def linux_mgr0_def\<close>)
  have "egress (fst (snd demo_add)) 0 (V4 0xC0A80105) = Some ''wg0''"
    using claim[of "0xC0A80105"] early thrown unfolding rules by (force simp: wgRulePriorityFwmark_def list_all_iff)
  with before claim[of "0xC6336407"] show ?thesis by blast
qed

theorem remove_restores_witness:
  "snd (RemoveRoutes plain_ip ''wg0'' [] True (fst demo_add) (fst (snd demo_add))) = demo_machine"
proof -
  have ts: "itoa 51820 = ''51820''" by code_simp
  have run: "AddRoutes plain_ip ''wg0'' [] True [''198.51.100.7''] '''' '''' linux_mgr0 demo_machine = (fst demo_add, fst (snd demo_add), True)"
    using demo_add_runs(1) by (simp add: demo_add_def prod_eq_iff)
  show ?thesis
    using remove_restores[OF plain_deleting plain_truthful _ _ run demo_add_runs(2), where allowed' = "[]"]
    by (simp add: ts linux_mgr0_def table_name_def demo_machine_def own_rule_def wgRulePriorityFwmark_def wgRulePrioritySuppress_def)
qed

section \<open>Where the code falls short\<close>

text \<open>A \<open>Table\<close> that is a name: the routes go into that table, the manager records another one, and removing deletes nothing.\<close>

lemma named_table_leaks:
  "(let (m, v, ok) = AddRoutes plain_ip ''wg0'' [''10.9.0.0/16''] False [] ''main'' '''' linux_mgr0 demo_machine;
        (m', v') = RemoveRoutes plain_ip ''wg0'' [''10.9.0.0/16''] False m v
    in ok \<and> lm_table m = 51820 \<and> (Prefix (V4 0x0A090000) 16, Dev ''wg0'') \<in> set (rv_tables v' F4 ''main''))"
  by code_simp

text \<open>A second full tunnel finds the priority taken: its rule is not installed, its traffic goes into the first, and its
  removal deletes the rule of the first: what the first carried then leaves in the clear.\<close>

definition first_up :: route_view where
  "first_up = \<lparr>rv_tables = (\<lambda>f n. if n = ''main'' then [(Prefix (V4 0) 0, Dev ''eth0'')]
       else if n = ''51820'' then [(Prefix (V4 0) 0, Dev ''wg0'')] else []),
     rv_rules = (\<lambda>f. [(29040, NotFwmark 51820 ''51820''), (29050, SuppressMain), (32766, Lookup ''main'')])\<rparr>"

lemma second_full_tunnel:
  "(let (m, v, ok) = AddRoutes plain_ip ''wg1'' [] True [] ''51830'' '''' linux_mgr0 first_up
    in ok \<and> egress v 0 (V4 0x08080808) = Some ''wg0'')"
  by code_simp

lemma second_removal_exposes_first:
  "egress (snd (RemoveRoutes plain_ip ''wg1'' [] True (linux_mgr0\<lparr>lm_table := 51830, lm_table_set := True\<rparr>) first_up)) 0 (V4 0x08080808) =
   Some ''eth0''"
  by code_simp

text \<open>A listing that reports an absent table on standard error, which \<open>runOut\<close> reads too, makes every table look taken: the first one is used as it is.\<close>

lemma noisy_listing_takes_first:
  assumes "\<And>f n. asked t (ShowTable f n) k \<noteq> ''''"
  shows "findFreeTable t k n = n"
proof -
  have "find (table_free t k) (map (\<lambda>i. n + int i) [0..<100]) = None"
    using assms by (simp add: table_free_def find_None_iff)
  then show ?thesis by (simp only: findFreeTable_def option.case)
qed

end
