(* ===== verification/LinuxDNS.thy ===== *)
theory LinuxDNS
  imports Validator
begin

text \<open>
  DNS on Linux (\<open>internal/network/linux.go\<close>): systemd-resolved, resolvconf, and the rewriting of
  \<open>/etc/resolv.conf\<close> with the original kept in memory and on disk. The external commands and the outcome of each
  file operation are fields of the environment.
\<close>

section \<open>Search domains\<close>

definition search_label :: "string \<Rightarrow> bool" where
  "search_label l \<longleftrightarrow> l \<noteq> '''' \<and> length l \<le> 64 \<and> alnum (hd l) \<and> alnum (last l) \<and> list_all (\<lambda>c. alnum c \<or> c = CHR ''-'') l"

definition isValidSearchDomain :: "string \<Rightarrow> bool" where
  "isValidSearchDomain s \<longleftrightarrow> length s \<le> 253 \<and> list_all search_label (split_on (CHR ''.'') s)"

section \<open>The files\<close>

text \<open>The saved original: no file, a file that is not the JSON of a list, or the lines.\<close>

datatype saved = NoFile | Garbage | Lines "string list"

record dns_disk =
  dd_resolv :: string
  dd_saved :: saved

record dns_mgr =
  dn_orig :: "string list"
  dn_captured :: bool

definition dns_mgr0 :: dns_mgr where
  "dns_mgr0 = \<lparr>dn_orig = [], dn_captured = False\<rparr>"

datatype rename_outcome = Renamed | CrossDevice | RenameRefused

record dns_env =
  de_resolvectl :: bool
  de_resolvconf :: bool
  de_symlink :: bool
  de_readable :: bool
  de_tmp_write :: bool
  de_rename :: rename_outcome
  de_direct_write :: bool
  de_data_dir :: bool
  de_saved_write :: bool

abbreviation line_end :: char where "line_end \<equiv> CHR 0x0A"

definition writeResolvConf :: "dns_env \<Rightarrow> string \<Rightarrow> dns_disk \<Rightarrow> dns_disk \<times> bool" where
  "writeResolvConf env content d =
     (if \<not> de_tmp_write env then (d, False)
      else case de_rename env of
        Renamed \<Rightarrow> (d\<lparr>dd_resolv := content\<rparr>, True)
      | CrossDevice \<Rightarrow> (if de_direct_write env then (d\<lparr>dd_resolv := content\<rparr>, True) else (d, False))
      | RenameRefused \<Rightarrow> (d, False))"

definition persistOrigDNS :: "dns_env \<Rightarrow> string list \<Rightarrow> dns_disk \<Rightarrow> dns_disk" where
  "persistOrigDNS env orig d = (if de_data_dir env \<and> de_saved_write env then d\<lparr>dd_saved := Lines orig\<rparr> else d)"

definition loadPersistedDNS :: "dns_env \<Rightarrow> dns_disk \<Rightarrow> string list" where
  "loadPersistedDNS env d = (if de_data_dir env then case dd_saved d of Lines ls \<Rightarrow> ls | _ \<Rightarrow> [] else [])"

definition clearPersistedDNS :: "dns_env \<Rightarrow> dns_disk \<Rightarrow> dns_disk" where
  "clearPersistedDNS env d = (if de_data_dir env then d\<lparr>dd_saved := NoFile\<rparr> else d)"

section \<open>Setting and restoring\<close>

definition tryResolvectl :: "dns_env \<Rightarrow> string list \<Rightarrow> bool" where
  "tryResolvectl env ips \<longleftrightarrow> ips \<noteq> [] \<and> de_resolvectl env"

definition dns_ips :: "string list \<Rightarrow> string list" where
  "dns_ips servers = filter (\<lambda>s. net_parse_ip s \<noteq> None) servers"

definition search_domains :: "string list \<Rightarrow> string list" where
  "search_domains servers = filter (\<lambda>s. net_parse_ip s = None \<and> isValidSearchDomain s) servers"

definition resolv_lines :: "string list \<Rightarrow> string list" where
  "resolv_lines servers = map (\<lambda>s. ''nameserver '' @ s) (dns_ips servers) @
     (if search_domains servers \<noteq> [] then [''search '' @ join '' '' (search_domains servers)] else [])"

definition SetDNS :: "dns_env \<Rightarrow> string list \<Rightarrow> dns_mgr \<Rightarrow> dns_disk \<Rightarrow> dns_mgr \<times> dns_disk \<times> bool" where
  "SetDNS env servers m d =
     (if servers = [] then (m, d, True)
      else if tryResolvectl env (dns_ips servers) then (m, d, True)
      else if de_resolvconf env then (m, d, True)
      else if de_symlink env then (m, d, False)
      else let (m, d) = (if dn_captured m then (m, d)
             else let orig = split_on line_end (trim_space (if de_readable env then dd_resolv d else ''''))
                  in (m\<lparr>dn_orig := orig, dn_captured := True\<rparr>, persistOrigDNS env orig d));
               (d, ok) = writeResolvConf env (join [line_end] (resolv_lines servers) @ [line_end]) d
           in (m, d, ok))"

definition ResetDNSToSystemDefault :: "dns_env \<Rightarrow> dns_disk \<Rightarrow> dns_disk" where
  "ResetDNSToSystemDefault env d =
     (let saved = loadPersistedDNS env d
      in if saved = [] then d
         else clearPersistedDNS env (if de_symlink env then d
                                     else fst (writeResolvConf env (join [line_end] saved @ [line_end]) d)))"

definition RestoreDNS :: "dns_env \<Rightarrow> dns_mgr \<Rightarrow> dns_disk \<Rightarrow> dns_mgr \<times> dns_disk \<times> bool" where
  "RestoreDNS env m d =
     (let orig = (if dn_orig m = [] then loadPersistedDNS env d else dn_orig m); m = m\<lparr>dn_orig := orig\<rparr>
      in if orig = [] then (m, d, True)
         else let (d, ok) = (if de_symlink env then (d, True) else writeResolvConf env (join [line_end] orig @ [line_end]) d)
              in if ok then (m\<lparr>dn_orig := [], dn_captured := False\<rparr>, clearPersistedDNS env d, True) else (m, d, False))"

section \<open>What is written\<close>

lemma alnum_not_line_end: "\<not> alnum line_end" "\<not> host_char line_end"
  by code_simp+

lemma join_clean: "\<forall>s \<in> set ls. c \<notin> set s \<Longrightarrow> c \<notin> set sep \<Longrightarrow> c \<notin> set (join sep ls)"
  by (induction sep ls rule: join.induct) auto

lemma search_domain_clean:
  assumes "isValidSearchDomain s"
  shows "line_end \<notin> set s"
proof -
  have "line_end \<notin> set l" if "search_label l" for l
    using that alnum_not_line_end(1) unfolding search_label_def list_all_iff by fastforce
  then have "line_end \<notin> set (join ''.'' (split_on (CHR ''.'') s))"
    using assms by (intro join_clean) (auto simp: isValidSearchDomain_def list_all_iff)
  then show ?thesis by (simp add: join_split_on)
qed

lemma ip_clean: "net_parse_ip s \<noteq> None \<Longrightarrow> line_end \<notin> set s"
  using ip_chars[of s] alnum_not_line_end(2) unfolding list_all_iff by blast

lemma lines_clean:
  assumes "l \<in> set (resolv_lines servers)"
  shows "line_end \<notin> set l"
proof -
  have ips: "line_end \<notin> set s" if "s \<in> set (dns_ips servers)" for s
    using that by (intro ip_clean) (simp add: dns_ips_def)
  have "\<forall>s \<in> set (search_domains servers). line_end \<notin> set s"
    using search_domain_clean by (simp add: search_domains_def)
  then have "line_end \<notin> set (join '' '' (search_domains servers))" by (rule join_clean) simp
  with ips assms show ?thesis by (auto simp: resolv_lines_def split: if_splits)
qed

lemma join_end: "ls \<noteq> [] \<Longrightarrow> join [c] ls @ [c] = join [c] (ls @ [''''])"
  by (induction "[c]" ls rule: join.induct) auto

text \<open>A reader of the file, as the resolver sees it: lines, and the rest of each line that starts with a keyword.\<close>

definition conf_lines :: "string \<Rightarrow> string list" where
  "conf_lines text = split_on line_end text"

definition directive :: "string \<Rightarrow> string list \<Rightarrow> string list" where
  "directive kw ls = map (drop (length kw)) (filter (\<lambda>l. has_prefix l kw) ls)"

lemma written_lines:
  "conf_lines (join [line_end] (resolv_lines servers) @ [line_end]) = (if resolv_lines servers = [] then [''''] else resolv_lines servers) @ ['''']"
proof (cases "resolv_lines servers = []")
  case False
  have "split_on line_end (join [line_end] (resolv_lines servers @ [''''])) = resolv_lines servers @ ['''']"
    by (rule split_on_join) (use lines_clean in auto)
  with False show ?thesis using join_end[OF False] by (simp add: conf_lines_def)
qed (simp add: conf_lines_def)

lemma keyword_lines:
  "directive ''nameserver '' (map ((@) ''nameserver '') xs @ ys) = xs @ directive ''nameserver '' ys"
  "directive ''search '' (map ((@) ''nameserver '') xs @ ys) = directive ''search '' ys"
  by (simp_all add: directive_def comp_def filter_empty_conv)

lemma resolv_directives:
  "directive ''nameserver '' (resolv_lines servers @ zs) = dns_ips servers @ directive ''nameserver '' zs"
  "directive ''search '' (resolv_lines servers @ zs) =
     (if search_domains servers = [] then [] else [join '' '' (search_domains servers)]) @ directive ''search '' zs"
proof -
  have l: "resolv_lines servers @ zs = map ((@) ''nameserver '') (dns_ips servers) @
      ((if search_domains servers \<noteq> [] then [''search '' @ join '' '' (search_domains servers)] else []) @ zs)"
    by (simp add: resolv_lines_def)
  show "directive ''nameserver '' (resolv_lines servers @ zs) = dns_ips servers @ directive ''nameserver '' zs"
    unfolding l keyword_lines by (simp add: directive_def)
  show "directive ''search '' (resolv_lines servers @ zs) =
     (if search_domains servers = [] then [] else [join '' '' (search_domains servers)]) @ directive ''search '' zs"
    unfolding l keyword_lines by (simp add: directive_def)
qed

lemma domain_one_word:
  assumes "isValidSearchDomain s"
  shows "CHR '' '' \<notin> set s"
proof -
  have "\<not> alnum (CHR '' '')" by code_simp
  then have "CHR '' '' \<notin> set l" if "search_label l" for l
    using that unfolding search_label_def list_all_iff by fastforce
  then have "CHR '' '' \<notin> set (join ''.'' (split_on (CHR ''.'') s))"
    using assms by (intro join_clean) (auto simp: isValidSearchDomain_def list_all_iff)
  then show ?thesis by (simp add: join_split_on)
qed

section \<open>The original comes back\<close>

text \<open>The fallback on \<open>/etc/resolv.conf\<close>: no other tool takes the servers and the file operations succeed.\<close>

definition file_fallback :: "dns_env \<Rightarrow> bool" where
  "file_fallback env \<longleftrightarrow> \<not> de_resolvectl env \<and> \<not> de_resolvconf env \<and> \<not> de_symlink env \<and> de_readable env \<and> de_tmp_write env \<and>
     (de_rename env = Renamed \<or> de_rename env = CrossDevice \<and> de_direct_write env) \<and> de_data_dir env \<and> de_saved_write env"

lemma write_ok: "file_fallback env \<Longrightarrow> writeResolvConf env c d = (d\<lparr>dd_resolv := c\<rparr>, True)"
  by (auto simp: file_fallback_def writeResolvConf_def)

lemma set_writes:
  "file_fallback env \<Longrightarrow> servers \<noteq> [] \<Longrightarrow>
    dd_resolv (fst (snd (SetDNS env servers m d))) = join [line_end] (resolv_lines servers) @ [line_end]"
  using write_ok[of env] by (auto simp: SetDNS_def tryResolvectl_def file_fallback_def Let_def split: if_splits)

text \<open>C33: Whatever strings a configuration gives as DNS servers, when \<open>SetDNS\<close> writes resolv.conf itself (no resolver service, no symlink, file operations succeed), a reader of the
  file finds as nameservers exactly the entries that are IP addresses, in their order, at most one search line whose words
  are exactly the entries that are valid domain names, and no other line that is not blank: no entry can smuggle one in.\<close>

theorem resolv_conf_lines:
  assumes "file_fallback env" and "servers \<noteq> []" and "ls = conf_lines (dd_resolv (fst (snd (SetDNS env servers m d))))"
    and "ds = filter (\<lambda>s. net_parse_ip s = None \<and> isValidSearchDomain s) servers"
  shows "directive ''nameserver '' ls = filter (\<lambda>s. net_parse_ip s \<noteq> None) servers \<and>
    map (split_on (CHR '' '')) (directive ''search '' ls) = (if ds = [] then [] else [ds]) \<and>
    (\<forall>l \<in> set ls. l = '''' \<or> has_prefix l ''nameserver '' \<or> has_prefix l ''search '')"
proof -
  have ds: "ds = search_domains servers" by (simp add: assms(4) search_domains_def)
  have ls: "ls = (if resolv_lines servers = [] then [''''] else resolv_lines servers) @ ['''']"
    by (simp only: assms(3) set_writes[OF assms(1,2)] written_lines)
  have blank: "directive ''nameserver '' ['''', ''''] = []" "directive ''search '' ['''', ''''] = []"
    "directive ''nameserver '' [''''] = []" "directive ''search '' [''''] = []"
    by (simp_all add: directive_def)
  have dirs: "directive ''nameserver '' ls = dns_ips servers"
    "directive ''search '' ls = (if ds = [] then [] else [join '' '' ds])"
    using resolv_directives[of servers "['''']"] by (auto simp: ls ds blank resolv_lines_def split: if_splits)
  have words: "split_on (CHR '' '') (join '' '' ds) = ds" if "ds \<noteq> []"
    by (rule split_on_join) (use that domain_one_word in \<open>auto simp: assms(4)\<close>)
  have "\<forall>l \<in> set ls. l = '''' \<or> has_prefix l ''nameserver '' \<or> has_prefix l ''search ''"
    unfolding ls by (auto simp: resolv_lines_def)
  with words show ?thesis unfolding dirs by (simp add: dns_ips_def)
qed

fun set_all :: "dns_env \<Rightarrow> string list list \<Rightarrow> dns_mgr \<times> dns_disk \<Rightarrow> dns_mgr \<times> dns_disk" where
  "set_all env [] s = s"
| "set_all env (ss # rest) s = (let (m, d, ok) = SetDNS env ss (fst s) (snd s) in set_all env rest (m, d))"

text \<open>Once captured, the original stays in memory and on disk.\<close>

definition captured_dns :: "dns_disk \<Rightarrow> dns_mgr \<Rightarrow> dns_disk \<Rightarrow> bool" where
  "captured_dns d0 m d \<longleftrightarrow> (let orig = split_on line_end (trim_space (dd_resolv d0))
     in m = \<lparr>dn_orig = orig, dn_captured = True\<rparr> \<and> dd_saved d = Lines orig)"

lemma set_captures:
  assumes "file_fallback env" "ss \<noteq> []" "captured_dns d0 m d \<or> m = dns_mgr0 \<and> d = d0"
  shows "captured_dns d0 (fst (SetDNS env ss m d)) (fst (snd (SetDNS env ss m d)))"
  using assms write_ok[OF assms(1)]
  by (auto simp: SetDNS_def tryResolvectl_def captured_dns_def Let_def dns_mgr0_def persistOrigDNS_def file_fallback_def)

lemma set_all_captures:
  assumes "file_fallback env"
  shows "captured_dns d0 (fst s) (snd s) \<Longrightarrow> \<forall>ss \<in> set sets. ss \<noteq> [] \<Longrightarrow>
    captured_dns d0 (fst (set_all env sets s)) (snd (set_all env sets s))"
proof (induction sets arbitrary: s)
  case (Cons ss sets)
  then show ?case using set_captures[OF assms, of ss d0 "fst s" "snd s"] by (auto simp: case_prod_beta)
qed simp

lemma captured_restores:
  assumes "file_fallback env" "captured_dns d0 m d" "m' = m \<or> m' = dns_mgr0"
  shows "RestoreDNS env m' d = (dns_mgr0, d0\<lparr>dd_resolv := trim_space (dd_resolv d0) @ [line_end], dd_saved := NoFile\<rparr>, True)"
    and "ResetDNSToSystemDefault env d = d0\<lparr>dd_resolv := trim_space (dd_resolv d0) @ [line_end], dd_saved := NoFile\<rparr>"
  using assms write_ok[OF assms(1)]
  by (cases d0; cases d; auto simp: RestoreDNS_def ResetDNSToSystemDefault_def captured_dns_def Let_def dns_mgr0_def loadPersistedDNS_def
      clearPersistedDNS_def file_fallback_def join_split_on)+

text \<open>C27: However often DNS is set on a machine without a resolver service and with a plain resolv.conf, as long as every file operation succeeds, restoring gives back the resolv.conf of
  before the first time (trimmed, with one line end behind it) and clears what was saved; so do the restore of a new
  process that remembers nothing and the reset of crash recovery.\<close>

theorem resolv_conf_restored:
  assumes "file_fallback env" and "sets \<noteq> []" and "\<forall>ss \<in> set sets. ss \<noteq> []"
    and "set_all env sets (dns_mgr0, d0) = (m, d)"
    and "clean = d0\<lparr>dd_resolv := trim_space (dd_resolv d0) @ [line_end], dd_saved := NoFile\<rparr>"
  shows "RestoreDNS env m d = (dns_mgr0, clean, True) \<and> RestoreDNS env dns_mgr0 d = (dns_mgr0, clean, True) \<and>
    ResetDNSToSystemDefault env d = clean"
proof -
  obtain ss rest where s: "sets = ss # rest" using assms(2) by (cases sets) auto
  have "captured_dns d0 m d"
    using set_all_captures[OF assms(1), of d0 "(fst (SetDNS env ss dns_mgr0 d0), fst (snd (SetDNS env ss dns_mgr0 d0)))" rest]
      set_captures[OF assms(1), of ss d0 dns_mgr0 d0] assms(3,4) by (simp add: s case_prod_beta)
  then show ?thesis using captured_restores[OF assms(1)] assms(5) by blast
qed

definition bare_env :: dns_env where
  "bare_env = \<lparr>de_resolvectl = False, de_resolvconf = False, de_symlink = False, de_readable = True, de_tmp_write = True,
     de_rename = Renamed, de_direct_write = True, de_data_dir = True, de_saved_write = True\<rparr>"

definition bare_disk :: dns_disk where
  "bare_disk = \<lparr>dd_resolv = ''nameserver 192.168.1.1'' @ [line_end], dd_saved = NoFile\<rparr>"

text \<open>A reset that cannot write the file forgets the original all the same: no later recovery can bring it back.\<close>

lemma failed_reset_forgets:
  assumes "\<not> de_symlink env" "de_data_dir env" "\<not> de_tmp_write env" "dd_saved d = Lines orig" "orig \<noteq> []"
  shows "dd_resolv (ResetDNSToSystemDefault env d) = dd_resolv d \<and> dd_saved (ResetDNSToSystemDefault env d) = NoFile"
  using assms by (simp add: ResetDNSToSystemDefault_def loadPersistedDNS_def clearPersistedDNS_def writeResolvConf_def)

definition smuggler :: "string list" where
  "smuggler = [''10.0.0.1'', ''corp'', ''x'' @ line_end # ''nameserver 6.6.6.6'']"

theorem resolv_conf_lines_witness:
  "directive ''nameserver '' (conf_lines (dd_resolv (fst (snd (SetDNS bare_env smuggler dns_mgr0 bare_disk))))) = [''10.0.0.1''] \<and>
   map (split_on (CHR '' '')) (directive ''search '' (conf_lines (dd_resolv (fst (snd (SetDNS bare_env smuggler dns_mgr0 bare_disk)))))) = [[''corp'']]"
proof -
  have f: "filter (\<lambda>s. net_parse_ip s \<noteq> None) smuggler = [''10.0.0.1'']"
    "filter (\<lambda>s. net_parse_ip s = None \<and> isValidSearchDomain s) smuggler = [''corp'']" by code_simp+
  have "file_fallback bare_env" "smuggler \<noteq> []" by (simp_all add: file_fallback_def bare_env_def smuggler_def)
  from resolv_conf_lines[OF this refl refl, of dns_mgr0 bare_disk] show ?thesis unfolding f by simp
qed

theorem resolv_conf_restored_witness:
  "snd (RestoreDNS bare_env dns_mgr0 (snd (set_all bare_env [[''10.0.0.1''], [''10.0.0.2'']] (dns_mgr0, bare_disk)))) = (bare_disk, True)"
proof -
  have "trim_space (dd_resolv bare_disk) @ [line_end] = dd_resolv bare_disk" by code_simp
  then have c: "bare_disk = bare_disk\<lparr>dd_resolv := trim_space (dd_resolv bare_disk) @ [line_end], dd_saved := NoFile\<rparr>"
    by (simp add: bare_disk_def)
  show ?thesis
    using resolv_conf_restored[of bare_env "[[''10.0.0.1''], [''10.0.0.2'']]" bare_disk _ _ bare_disk, OF _ _ _ surjective_pairing c]
    by (simp add: file_fallback_def bare_env_def)
qed

end
