(* ===== verification/DarwinRoutes.thy ===== *)
theory DarwinRoutes
  imports RouteKernel
begin

text \<open>
  Routing on macOS (\<open>internal/network/darwin.go\<close>): the two half routes of a full tunnel with a host route around them
  for every endpoint, the update when the network changes, and the removal. The commands \<open>route\<close> and \<open>netstat\<close>, the
  state of the interfaces, the endpoints the device reports and the passing of time are a parameter.
\<close>

section \<open>The commands the code runs\<close>

datatype hop = Iface string | Gateway string "string option" | Blackhole

text \<open>The flag is the family: true for \<open>-inet6\<close>.\<close>

datatype rt_cmd = RtAdd bool string hop | RtChange bool string hop | RtDelete bool string

datatype rt_query = RouteGet bool string | Netstat bool

record 'k rttool =
  rt_run :: "(rt_cmd, 'k) runner"
  rt_ask :: "rt_query \<Rightarrow> 'k \<Rightarrow> bool \<times> string"
  rt_usable :: "string \<Rightarrow> 'k \<Rightarrow> bool"
  rt_peers :: "string \<Rightarrow> 'k \<Rightarrow> string list"
  rt_wait :: "'k \<Rightarrow> 'k"

section \<open>Reading their output\<close>

text \<open>\<open>strings.Fields\<close> on the ASCII the tools print.\<close>

fun fields_acc :: "string \<Rightarrow> string \<Rightarrow> string list" where
  "fields_acc [] w = (if w = [] then [] else [rev w])"
| "fields_acc (c # s) w =
     (if ascii_space c then (if w = [] then fields_acc s [] else rev w # fields_acc s []) else fields_acc s (c # w))"

definition str_fields :: "string \<Rightarrow> string list" where
  "str_fields s = fields_acc s []"

definition out_lines :: "string \<Rightarrow> string list" where
  "out_lines out = split_on (CHR 0x0A) out"

definition default_line :: "string \<Rightarrow> string option" where
  "default_line line =
     (case str_fields line of
        d # gw # _ \<Rightarrow> if d = ''default'' \<and> \<not> has_prefix gw ''link#'' then Some gw else None
      | _ \<Rightarrow> None)"

fun first_some :: "('a \<Rightarrow> 'b option) \<Rightarrow> 'a list \<Rightarrow> 'b option" where
  "first_some f [] = None"
| "first_some f (x # xs) = (case f x of None \<Rightarrow> first_some f xs | Some y \<Rightarrow> Some y)"

definition getDefaultGatewayFor :: "'k rttool \<Rightarrow> bool \<Rightarrow> 'k \<Rightarrow> string option" where
  "getDefaultGatewayFor t v6 k =
     (let (ok, out) = rt_ask t (Netstat v6) k in if ok then first_some default_line (out_lines out) else None)"

text \<open>The columns of a header: the last field of each name counts.\<close>

definition column :: "string \<Rightarrow> string list \<Rightarrow> nat option" where
  "column name fs = (case filter (\<lambda>i. fs ! i = name) [0..<length fs] of [] \<Rightarrow> None | is \<Rightarrow> Some (last is))"

text \<open>\<open>getDefaultInterface\<close>: the destination column may come from an earlier line than the interface column.\<close>

fun default_iface :: "nat option \<Rightarrow> nat option \<Rightarrow> string list list \<Rightarrow> string" where
  "default_iface d n [] = ''''"
| "default_iface d n (fs # rest) =
     (if fs = [] then default_iface d n rest
      else case n of
        None \<Rightarrow> default_iface (case column ''Destination'' fs of None \<Rightarrow> d | Some i \<Rightarrow> Some i) (column ''Netif'' fs) rest
      | Some ni \<Rightarrow>
          (case d of
             None \<Rightarrow> default_iface d n rest
           | Some di \<Rightarrow> if length fs \<le> max ni di then default_iface d n rest
                        else if fs ! di = ''default'' then fs ! ni else default_iface d n rest))"

definition getDefaultInterface :: "'k rttool \<Rightarrow> 'k \<Rightarrow> string" where
  "getDefaultInterface t k =
     (let (ok, out) = rt_ask t (Netstat False) k in if ok then default_iface None None (map str_fields (out_lines out)) else '''')"

fun uses_interface :: "string \<Rightarrow> string list \<Rightarrow> bool" where
  "uses_interface iface [] = False"
| "uses_interface iface (line # rest) =
     (let line = trim_space line
      in if has_prefix line ''interface:'' then trim_space (trim_prefix line ''interface:'') = iface else uses_interface iface rest)"

definition routeUsesInterface :: "string \<Rightarrow> string \<Rightarrow> bool" where
  "routeUsesInterface out iface = uses_interface iface (out_lines out)"

section \<open>Order of the prefixes\<close>

text \<open>\<open>fmt.Sscanf\<close> with \<open>%d\<close>: the digits at the front, zero without any. A sign, which no accepted prefix has, is left out.\<close>

definition leading_int :: "string \<Rightarrow> int" where
  "leading_int s = (case digits_acc 0 (takeWhile (\<lambda>c. digit_val c \<noteq> None) s) of Some n \<Rightarrow> n | None \<Rightarrow> 0)"

definition prefixLen :: "string \<Rightarrow> int" where
  "prefixLen cidr =
     (case str_cut (CHR ''/'') cidr of
        None \<Rightarrow> (if CHR '':'' \<in> set cidr then 128 else 32)
      | Some (a, n) \<Rightarrow> leading_int n)"

text \<open>One turn of the insertion sort: from the back past everything shorter.\<close>

definition insert_back :: "string list \<Rightarrow> string \<Rightarrow> string list" where
  "insert_back xs c =
     (let moved = takeWhile (\<lambda>x. prefixLen x < prefixLen c) (rev xs)
      in take (length xs - length moved) xs @ c # rev moved)"

definition sortAllowedIPs :: "string list \<Rightarrow> string list" where
  "sortAllowedIPs cidrs = foldl insert_back [] cidrs"

section \<open>The manager\<close>

text \<open>The saved DNS settings, \<open>lastMTU\<close> and \<open>dnsActive\<close> belong to the part left out; of \<open>lastDNS\<close> only whether there is any decides here.\<close>

record darwin_mgr =
  dm_bypass :: "string list"
  dm_iface :: string
  dm_endpoints :: "string list"
  dm_v4 :: bool
  dm_v6 :: bool
  dm_gw4 :: string
  dm_gw6 :: string
  dm_upstream :: string
  dm_pin :: bool
  dm_bind :: string
  dm_key :: string
  dm_has_dns :: bool

definition dm_SetPinInterface :: "bool \<Rightarrow> darwin_mgr \<Rightarrow> darwin_mgr" where
  "dm_SetPinInterface on m = m\<lparr>dm_pin := on, dm_upstream := (if on then dm_upstream m else '''')\<rparr>"

definition dm_SetBindInterface :: "string \<Rightarrow> darwin_mgr \<Rightarrow> darwin_mgr" where
  "dm_SetBindInterface name m =
     (let dev = trim_space name in m\<lparr>dm_bind := dev, dm_upstream := (if dev \<noteq> '''' then dev else dm_upstream m)\<rparr>)"

section \<open>Bypass routes\<close>

definition add_or_change :: "'k rttool \<Rightarrow> bool \<Rightarrow> string \<Rightarrow> hop \<Rightarrow> 'k \<Rightarrow> 'k \<times> bool" where
  "add_or_change t v6 ip h k =
     (let (k, ok) = rt_run t (RtAdd v6 ip h) k in if ok then (k, True) else rt_run t (RtChange v6 ip h) k)"

definition addBypassForIP :: "'k rttool \<Rightarrow> string \<Rightarrow> string option \<Rightarrow> string option \<Rightarrow> darwin_mgr \<Rightarrow> 'k \<Rightarrow> darwin_mgr \<times> 'k \<times> bool" where
  "addBypassForIP t ipStr g4 g6 m k =
     (case net_parse_ip ipStr of
        None \<Rightarrow> (m, k, False)
      | Some ip \<Rightarrow>
          (let v6 = (\<not> is4 (to_net_ip ip));
               iface = (if dm_bind m \<noteq> '''' then dm_bind m else dm_upstream m);
               done = (\<lambda>(k, ok). if ok then (m\<lparr>dm_bypass := dm_bypass m @ [ipStr]\<rparr>, k, True) else (m, k, False))
           in case (if v6 then g6 else g4) of
                None \<Rightarrow> (m, k, False)
              | Some gw \<Rightarrow>
                  (if dm_bind m \<noteq> '''' \<and> \<not> rt_usable t iface k then (m, k, False)
                   else if iface \<noteq> '''' then
                     (let (k, ok) = add_or_change t v6 ipStr (Gateway gw (Some iface)) k
                      in if ok \<or> dm_bind m \<noteq> '''' then done (k, ok) else done (add_or_change t v6 ipStr (Gateway gw None) k))
                   else done (add_or_change t v6 ipStr (Gateway gw None) k))))"

fun bypass_all :: "'k rttool \<Rightarrow> string option \<Rightarrow> string option \<Rightarrow> string list \<Rightarrow> darwin_mgr \<Rightarrow> 'k \<Rightarrow> darwin_mgr \<times> 'k \<times> bool" where
  "bypass_all t g4 g6 [] m k = (m, k, True)"
| "bypass_all t g4 g6 (ep # eps) m k =
     (let (m, k, ok) = addBypassForIP t ep g4 g6 m k in if ok then bypass_all t g4 g6 eps m k else (m, k, False))"

section \<open>Adding\<close>

fun add_specific :: "'k rttool \<Rightarrow> string \<Rightarrow> string list \<Rightarrow> 'k \<Rightarrow> 'k \<times> bool" where
  "add_specific t iface [] k = (k, True)"
| "add_specific t iface (cidr # cs) k =
     (if cidr = ''0.0.0.0/0'' \<or> cidr = ''::/0'' then add_specific t iface cs k
      else let v6 = (CHR '':'' \<in> set cidr)
           in if routeUsesInterface (snd (rt_ask t (RouteGet v6 cidr) k)) iface then add_specific t iface cs k
              else let (k, ok) = rt_run t (RtAdd v6 cidr (Iface iface)) k in if ok then add_specific t iface cs k else (k, False))"

text \<open>The bounded wait for a gateway: five seconds in steps of a quarter, not counting the time the commands take.\<close>

fun poll_gateways :: "'k rttool \<Rightarrow> bool \<Rightarrow> bool \<Rightarrow> nat \<Rightarrow> 'k \<Rightarrow> string option \<times> string option \<times> 'k" where
  "poll_gateways t v4 v6 n k =
     (let g4 = (if v4 then getDefaultGatewayFor t False k else None);
          g6 = (if v6 then getDefaultGatewayFor t True k else None)
      in if (v4 \<and> g4 = None \<or> v6 \<and> g6 = None) \<and> n > 0 then poll_gateways t v4 v6 (n - 1) (rt_wait t k) else (g4, g6, k))"

declare poll_gateways.simps [simp del]

text \<open>The endpoints of the families whose default route the tunnel takes.\<close>

definition ep_family :: "string \<Rightarrow> bool option" where
  "ep_family ep = (if ep = '''' then None else map_option (\<lambda>ip. \<not> is4 (to_net_ip ip)) (net_parse_ip ep))"

definition classified :: "bool \<Rightarrow> bool \<Rightarrow> string list \<Rightarrow> string list" where
  "classified v4 v6 eps = filter (\<lambda>ep. ep_family ep = Some False \<and> v4 \<or> ep_family ep = Some True \<and> v6) eps"

fun add_halves :: "'k rttool \<Rightarrow> string \<Rightarrow> (bool \<times> string) list \<Rightarrow> 'k \<Rightarrow> 'k \<times> bool" where
  "add_halves t iface [] k = (k, True)"
| "add_halves t iface ((v6, half) # hs) k =
     (let (k, ok) = rt_run t (RtAdd v6 half (Iface iface)) k in if ok then add_halves t iface hs k else (k, False))"

definition halves :: "bool \<Rightarrow> bool \<Rightarrow> (bool \<times> string) list" where
  "halves v4 v6 = (if v4 then [(False, ''0.0.0.0/1''), (False, ''128.0.0.0/1'')] else []) @
     (if v6 then [(True, ''::/1''), (True, ''8000::/1'')] else [])"

definition gateway_text :: "string option \<Rightarrow> string" where
  "gateway_text g = (case g of None \<Rightarrow> '''' | Some s \<Rightarrow> s)"

definition dm_AddRoutes :: "'k rttool \<Rightarrow> string \<Rightarrow> string list \<Rightarrow> bool \<Rightarrow> string list \<Rightarrow> string \<Rightarrow> darwin_mgr \<Rightarrow> 'k \<Rightarrow> darwin_mgr \<times> 'k \<times> bool" where
  "dm_AddRoutes t iface allowed full eps tableCfg m k =
     (if equal_fold tableCfg ''off'' then (m, k, True)
      else let (k, ok) = add_specific t iface (sortAllowedIPs allowed) k
      in if \<not> ok then (m, k, False)
      else let v4 = (''0.0.0.0/0'' \<in> set allowed);
               v6 = (''::/0'' \<in> set allowed);
               m = (if dm_bind m \<noteq> '''' then m\<lparr>dm_upstream := dm_bind m\<rparr>
                    else if dm_pin m then m\<lparr>dm_upstream := getDefaultInterface t k\<rparr> else m);
               (g4, g6, k) = poll_gateways t v4 v6 20 k;
               cl = classified v4 v6 eps
      in if (\<exists>ep \<in> set cl. ep_family ep = Some False) \<and> g4 = None then (m, k, False)
         else if (\<exists>ep \<in> set cl. ep_family ep = Some True) \<and> g6 = None then (m, k, False)
         else let (m, k, ok) = bypass_all t g4 g6 cl m k
      in if \<not> ok then (m, k, False)
      else let (k, ok) = add_halves t iface (halves v4 v6) k
      in if \<not> ok then (m, k, False)
      else (m\<lparr>dm_iface := iface, dm_endpoints := eps, dm_v4 := v4, dm_v6 := v6,
              dm_gw4 := gateway_text (getDefaultGatewayFor t False k), dm_gw6 := gateway_text (getDefaultGatewayFor t True k),
              dm_key := (if full \<or> dm_has_dns m then iface else dm_key m)\<rparr>, k, True))"

section \<open>Network changes\<close>

definition stringSetEqual :: "string list \<Rightarrow> string list \<Rightarrow> bool" where
  "stringSetEqual a b \<longleftrightarrow> length a = length b \<and> (\<forall>s \<in> set b. count_list b s \<le> count_list a s)"

definition installBlackholeBypass :: "'k rttool \<Rightarrow> string \<Rightarrow> bool \<Rightarrow> darwin_mgr \<Rightarrow> 'k \<Rightarrow> darwin_mgr \<times> 'k" where
  "installBlackholeBypass t ip v6 m k =
     (let (k, ok) = rt_run t (RtAdd v6 ip Blackhole) k in (if ok then m\<lparr>dm_bypass := dm_bypass m @ [ip]\<rparr> else m, k))"

text \<open>The deletion of the old bypass routes, and the new ones.\<close>

fun drop_bypass :: "'k rttool \<Rightarrow> bool \<Rightarrow> string list \<Rightarrow> string list \<Rightarrow> darwin_mgr \<Rightarrow> 'k \<Rightarrow> darwin_mgr \<times> 'k" where
  "drop_bypass t changed live [] m k = (m, k)"
| "drop_bypass t changed live (ip # ips) m k =
     (if \<not> changed \<and> ip \<in> set live then drop_bypass t changed live ips (m\<lparr>dm_bypass := dm_bypass m @ [ip]\<rparr>) k
      else drop_bypass t changed live ips m (fst (rt_run t (RtDelete (CHR '':'' \<in> set ip) ip) k)))"

fun renew_bypass :: "'k rttool \<Rightarrow> bool \<Rightarrow> string list \<Rightarrow> string option \<Rightarrow> string option \<Rightarrow> bool \<Rightarrow> bool \<Rightarrow> string list \<Rightarrow> darwin_mgr \<Rightarrow> 'k \<Rightarrow> darwin_mgr \<times> 'k" where
  "renew_bypass t changed old g4 g6 v4 v6 [] m k = (m, k)"
| "renew_bypass t changed old g4 g6 v4 v6 (ip # ips) m k =
     (if ip = '''' \<or> \<not> changed \<and> ip \<in> set old then renew_bypass t changed old g4 g6 v4 v6 ips m k
      else case ep_family ip of
        None \<Rightarrow> renew_bypass t changed old g4 g6 v4 v6 ips m k
      | Some six \<Rightarrow>
          (if six \<and> \<not> v6 \<or> \<not> six \<and> \<not> v4 then renew_bypass t changed old g4 g6 v4 v6 ips m k
           else let (m, k, ok) = addBypassForIP t ip g4 g6 m k;
                    (m, k) = (if ok then (m, k) else installBlackholeBypass t ip six m k)
                in renew_bypass t changed old g4 g6 v4 v6 ips m k))"

text \<open>The routing part of \<open>reapply\<close>; what it does for DNS and MTU afterwards is left out.\<close>

definition reapply :: "'k rttool \<Rightarrow> darwin_mgr \<Rightarrow> 'k \<Rightarrow> darwin_mgr \<times> 'k" where
  "reapply t m k =
     (if dm_iface m = '''' then (m, k)
      else let live = (if rt_peers t (dm_iface m) k = [] then dm_endpoints m else rt_peers t (dm_iface m) k);
               g4 = getDefaultGatewayFor t False k;
               g6 = getDefaultGatewayFor t True k;
               changed = (gateway_text g4 \<noteq> dm_gw4 m \<or> gateway_text g6 \<noteq> dm_gw6 m);
               moved = (\<not> stringSetEqual (dm_endpoints m) live)
           in if \<not> ((dm_v4 m \<or> dm_v6 m) \<and> (changed \<or> moved)) then (m, k)
              else let old = dm_endpoints m;
                       (m, k) = drop_bypass t changed live (dm_bypass m) (m\<lparr>dm_bypass := []\<rparr>) k;
                       (m, k) = renew_bypass t changed old g4 g6 (dm_v4 m) (dm_v6 m) live m k
                   in (m\<lparr>dm_endpoints := live, dm_gw4 := gateway_text g4, dm_gw6 := gateway_text g6,
                         dm_upstream := (if dm_pin m then getDefaultInterface t k else '''')\<rparr>, k))"

section \<open>Removing\<close>

text \<open>The rows of \<open>netstat\<close> that belong to the interface, by the columns of its header.\<close>

fun owned_rows :: "string \<Rightarrow> bool \<Rightarrow> (nat option \<times> nat option) \<Rightarrow> nat option \<Rightarrow> string list list \<Rightarrow> string list" where
  "owned_rows iface v6 dg n [] = []"
| "owned_rows iface v6 (d, g) n (fs # rest) =
     (case n of
        None \<Rightarrow> owned_rows iface v6 (case column ''Destination'' fs of None \<Rightarrow> d | Some i \<Rightarrow> Some i,
                                    case column ''Gateway'' fs of None \<Rightarrow> g | Some i \<Rightarrow> Some i) (column ''Netif'' fs) rest
      | Some ni \<Rightarrow>
          (case (d, g) of
             (Some di, Some gi) \<Rightarrow>
               (if length fs \<le> max ni (max di gi) then owned_rows iface v6 (d, g) n rest
                else if fs ! ni = iface \<or> v6 \<and> has_prefix (fs ! ni) ''lo'' \<and> fs ! gi = iface
                then fs ! di # owned_rows iface v6 (d, g) n rest
                else owned_rows iface v6 (d, g) n rest)
           | _ \<Rightarrow> owned_rows iface v6 (d, g) n rest))"

definition deleteInterfaceRoutes :: "'k rttool \<Rightarrow> string \<Rightarrow> bool \<Rightarrow> 'k \<Rightarrow> 'k" where
  "deleteInterfaceRoutes t iface v6 k =
     (let (ok, out) = rt_ask t (Netstat v6) k
      in if \<not> ok then k
         else foldl (\<lambda>k d. fst (rt_run t (RtDelete v6 d) k)) k (owned_rows iface v6 (None, None) None (map str_fields (out_lines out))))"

definition dm_RemoveRoutes :: "'k rttool \<Rightarrow> string \<Rightarrow> darwin_mgr \<Rightarrow> 'k \<Rightarrow> darwin_mgr \<times> 'k" where
  "dm_RemoveRoutes t iface m k =
     (let k = deleteInterfaceRoutes t iface True (deleteInterfaceRoutes t iface False k);
          k = foldl (\<lambda>k ip. fst (rt_run t (RtDelete (CHR '':'' \<in> set ip) ip) k)) k (dm_bypass m)
      in (m\<lparr>dm_bypass := [], dm_iface := '''', dm_endpoints := [], dm_v4 := False, dm_v6 := False, dm_gw4 := '''', dm_gw6 := '''',
            dm_key := '''', dm_has_dns := False\<rparr>, k))"

end
