(* ===== verification/DarwinRoutesProps.thy ===== *)
theory DarwinRoutesProps
  imports DarwinRoutes
begin

text \<open>
  What the macOS routes promise: while a full tunnel is set up, no packet for an endpoint is ever routed into the tunnel
  it should carry; and where that fails. The promise is made of every state on the way, which the tool of \<open>logged\<close> writes
  down.
\<close>

section \<open>What is documented of \<open>route\<close>\<close>

text \<open>A destination is an address or a prefix of its family; a route exists once per destination.\<close>

definition rt_dest :: "bool \<Rightarrow> string \<Rightarrow> prefix option" where
  "rt_dest v6 s =
     (case (if CHR ''/'' \<in> set s then map_option prefix_masked (netip_parse_prefix s)
            else case parse_addr s of Some (a, []) \<Rightarrow> Some (Prefix a (bit_len a)) | _ \<Rightarrow> None) of
        None \<Rightarrow> None
      | Some p \<Rightarrow> if is4 (paddr p) = (\<not> v6) then Some p else None)"

definition set_hop :: "prefix \<Rightarrow> hop \<Rightarrow> hop rib \<Rightarrow> hop rib" where
  "set_hop p h r = map (\<lambda>(q, b). if q = p then (q, h) else (q, b)) r"

fun rt_effect :: "rt_cmd \<Rightarrow> hop rib \<Rightarrow> hop rib option" where
  "rt_effect (RtAdd v6 d h) r = (case rt_dest v6 d of None \<Rightarrow> None | Some p \<Rightarrow> if p \<in> fst ` set r then None else Some ((p, h) # r))"
| "rt_effect (RtChange v6 d h) r = (case rt_dest v6 d of None \<Rightarrow> None | Some p \<Rightarrow> if p \<in> fst ` set r then Some (set_hop p h r) else None)"
| "rt_effect (RtDelete v6 d) r =
     (case rt_dest v6 d of None \<Rightarrow> None | Some p \<Rightarrow> if p \<in> fst ` set r then Some (filter (\<lambda>(q, b). q \<noteq> p) r) else None)"

definition into :: "string \<Rightarrow> hop rib \<Rightarrow> ip_addr \<Rightarrow> bool" where
  "into iface r a \<longleftrightarrow> (case route_for r a of None \<Rightarrow> False | Some (p, h) \<Rightarrow> h = Iface iface)"

section \<open>Safe tables\<close>

text \<open>Either nothing of the tunnel covers the address, or a host route stands in front of everything that does.\<close>

definition clear :: "string \<Rightarrow> ip_addr \<Rightarrow> hop rib \<Rightarrow> bool" where
  "clear iface a r \<longleftrightarrow> (\<forall>(p, h) \<in> set r. h = Iface iface \<longrightarrow> \<not> prefix_contains p a)"

definition walled :: "string \<Rightarrow> ip_addr \<Rightarrow> hop rib \<Rightarrow> bool" where
  "walled iface a r \<longleftrightarrow> (\<exists>h. (Prefix a (bit_len a), h) \<in> set r) \<and>
     (\<forall>(p, h) \<in> set r. h = Iface iface \<and> prefix_contains p a \<longrightarrow> pbits p < bit_len a)"

lemma host_contains: "prefix_contains (Prefix a (bit_len a)) a"
  by (cases a) simp_all

lemma safe_not_into: "clear iface a r \<or> walled iface a r \<Longrightarrow> \<not> into iface r a"
proof
  assume s: "clear iface a r \<or> walled iface a r" and "into iface r a"
  then obtain p where "route_for r a = Some (p, Iface iface)" by (auto simp: into_def split: option.splits)
  note f = route_for_Some[OF this]
  have "\<not> clear iface a r" using f by (auto simp: clear_def)
  with s have w: "walled iface a r" by simp
  then obtain h where "(Prefix a (bit_len a), h) \<in> set r" by (auto simp: walled_def)
  then have "bit_len a \<le> pbits p" using f host_contains[of a] by fastforce
  then show False using f w by (auto simp: walled_def)
qed

definition harmless :: "string \<Rightarrow> ip_addr \<Rightarrow> rt_cmd \<Rightarrow> bool" where
  "harmless iface a c \<longleftrightarrow> (case c of
      RtAdd v6 d h \<Rightarrow> h = Iface iface \<longrightarrow> (\<forall>p. rt_dest v6 d = Some p \<longrightarrow> \<not> prefix_contains p a)
    | RtChange v6 d h \<Rightarrow> h \<noteq> Iface iface
    | RtDelete v6 d \<Rightarrow> False)"

lemma add_effect: "rt_effect (RtAdd v6 d h) r = Some r' \<longleftrightarrow> (\<exists>p. rt_dest v6 d = Some p \<and> p \<notin> fst ` set r \<and> r' = (p, h) # r)"
  by (auto split: option.splits)

lemma change_effect: "rt_effect (RtChange v6 d h) r = Some r' \<longleftrightarrow> (\<exists>p. rt_dest v6 d = Some p \<and> p \<in> fst ` set r \<and> r' = set_hop p h r)"
  by (auto split: option.splits)

lemma delete_effect:
  "rt_effect (RtDelete v6 d) r = Some r' \<longleftrightarrow> (\<exists>p. rt_dest v6 d = Some p \<and> p \<in> fst ` set r \<and> r' = filter (\<lambda>(q, b). q \<noteq> p) r)"
  by (auto split: option.splits)

declare rt_effect.simps [simp del]

lemma set_hop_other: "(q, b) \<in> set (set_hop p h r) \<Longrightarrow> b \<noteq> h \<Longrightarrow> (q, b) \<in> set r"
  by (auto simp: set_hop_def split: if_splits)

lemma set_hop_keeps: "(q, b) \<in> set r \<Longrightarrow> \<exists>c. (q, c) \<in> set (set_hop p h r)"
  by (rule exI[of _ "if q = p then h else b"]) (auto simp: set_hop_def image_iff intro!: bexI[of _ "(q, b)"])

lemma set_hop_new: "p \<in> fst ` set r \<Longrightarrow> (p, h) \<in> set (set_hop p h r)"
  by (force simp: set_hop_def)

lemma clear_set_hop: "h \<noteq> Iface iface \<Longrightarrow> clear iface a r \<Longrightarrow> clear iface a (set_hop p h r)"
  unfolding clear_def using set_hop_other[of _ "Iface iface" p h r] by fastforce

lemma walled_set_hop: "h \<noteq> Iface iface \<Longrightarrow> walled iface a r \<Longrightarrow> walled iface a (set_hop p h r)"
  unfolding walled_def using set_hop_other[of _ "Iface iface" p h r] set_hop_keeps[of _ _ r p h] by fastforce

lemma harmless_clear: "harmless iface a c \<Longrightarrow> clear iface a r \<Longrightarrow> rt_effect c r = Some r' \<Longrightarrow> clear iface a r'"
  by (cases c) (auto simp: harmless_def add_effect change_effect clear_set_hop, auto simp: clear_def)

lemma harmless_walled: "harmless iface a c \<Longrightarrow> walled iface a r \<Longrightarrow> rt_effect c r = Some r' \<Longrightarrow> walled iface a r'"
  by (cases c) (auto simp: harmless_def add_effect change_effect walled_set_hop, auto simp: walled_def)

text \<open>A half route does no harm behind a host route.\<close>

lemma half_walled:
  assumes "walled iface a r" "rt_effect (RtAdd v6 d (Iface iface)) r = Some r'" "\<And>p. rt_dest v6 d = Some p \<Longrightarrow> pbits p < bit_len a"
  shows "walled iface a r'"
  using assms by (auto simp: walled_def add_effect)

text \<open>A host route for the address to anywhere else builds the wall.\<close>

lemma wall_front:
  assumes "clear iface a r \<or> walled iface a r" "(Prefix a (bit_len a), h) \<in> set r"
  shows "walled iface a r"
  using assms by (fastforce simp: walled_def clear_def)

lemma builds_wall:
  assumes d: "rt_dest v6 d = Some (Prefix a (bit_len a))" and h: "h \<noteq> Iface iface" and s: "clear iface a r \<or> walled iface a r"
    and e: "rt_effect (RtAdd v6 d h) r = Some r' \<or> rt_effect (RtChange v6 d h) r = Some r'"
  shows "walled iface a r'"
proof (rule wall_front)
  have "harmless iface a (RtAdd v6 d h)" "harmless iface a (RtChange v6 d h)" using h by (simp_all add: harmless_def)
  then show "clear iface a r' \<or> walled iface a r'" using s e harmless_clear harmless_walled by blast
  show "(Prefix a (bit_len a), h) \<in> set r'" using e d by (auto simp: add_effect change_effect intro: set_hop_new)
qed

section \<open>Every state on the way\<close>

text \<open>The tool with a record of every state a command or a wait leaves.\<close>

definition logged :: "'k rttool \<Rightarrow> ('k \<times> 'k list) rttool" where
  "logged t = \<lparr>rt_run = (\<lambda>c (k, log). let (k', ok) = rt_run t c k in ((k', log @ [k']), ok)),
     rt_ask = (\<lambda>q (k, log). rt_ask t q k), rt_usable = (\<lambda>i (k, log). rt_usable t i k),
     rt_peers = (\<lambda>i (k, log). rt_peers t i k), rt_wait = (\<lambda>(k, log). (rt_wait t k, log @ [rt_wait t k]))\<rparr>"

definition all_safe :: "('k \<Rightarrow> hop rib) \<Rightarrow> string \<Rightarrow> ip_addr \<Rightarrow> 'k \<times> 'k list \<Rightarrow> bool" where
  "all_safe view iface a s \<longleftrightarrow> (\<forall>q \<in> set (snd s). \<not> into iface (view q) a)"

definition clear_at :: "('k \<Rightarrow> hop rib) \<Rightarrow> string \<Rightarrow> ip_addr \<Rightarrow> 'k \<times> 'k list \<Rightarrow> bool" where
  "clear_at view iface a s \<longleftrightarrow> clear iface a (view (fst s)) \<and> all_safe view iface a s"

definition walled_at :: "('k \<Rightarrow> hop rib) \<Rightarrow> string \<Rightarrow> ip_addr \<Rightarrow> 'k \<times> 'k list \<Rightarrow> bool" where
  "walled_at view iface a s \<longleftrightarrow> walled iface a (view (fst s)) \<and> all_safe view iface a s"

abbreviation safe_at :: "('k \<Rightarrow> hop rib) \<Rightarrow> string \<Rightarrow> ip_addr \<Rightarrow> 'k \<times> 'k list \<Rightarrow> bool" where
  "safe_at view iface a s \<equiv> clear_at view iface a s \<or> walled_at view iface a s"

lemma logged_run:
  assumes d: "documented rt_effect view (rt_run t)" and r: "rt_run (logged t) c s = (s', ok)"
  shows "(\<And>P. (\<not> ok \<Longrightarrow> P (view (fst s))) \<Longrightarrow> (\<And>r'. ok \<Longrightarrow> rt_effect c (view (fst s)) = Some r' \<Longrightarrow> P r') \<Longrightarrow> P (view (fst s')))"
    and "snd s' = snd s @ [fst s']"
proof -
  obtain k log where s: "s = (k, log)" by (cases s)
  obtain k' where k: "rt_run t c k = (k', ok)" "s' = (k', log @ [k'])" using r by (auto simp: logged_def s split: prod.splits)
  show "snd s' = snd s @ [fst s']" by (simp add: s k)
  fix P assume "\<not> ok \<Longrightarrow> P (view (fst s))" "\<And>r'. ok \<Longrightarrow> rt_effect c (view (fst s)) = Some r' \<Longrightarrow> P r'"
  then show "P (view (fst s'))" using documentedD[OF d k(1)] by (cases ok) (auto simp: s k)
qed

lemma logged_ok:
  assumes "documented rt_effect view (rt_run t)" "rt_run (logged t) c s = (s', True)"
  shows "rt_effect c (view (fst s)) = Some (view (fst s'))"
  using logged_run(1)[OF assms, of "\<lambda>r. rt_effect c (view (fst s)) = Some r"] by simp

lemma extend_safe: "snd s' = snd s @ [fst s'] \<Longrightarrow> all_safe view iface a s \<Longrightarrow> \<not> into iface (view (fst s')) a \<Longrightarrow> all_safe view iface a s'"
  by (auto simp: all_safe_def)

lemma run_clear:
  assumes "documented rt_effect view (rt_run t)" "rt_run (logged t) c s = (s', ok)" "harmless iface a c" "clear_at view iface a s"
  shows "clear_at view iface a s'"
proof -
  have "clear iface a (view (fst s'))"
    using logged_run(1)[OF assms(1,2), of "clear iface a"] assms(3,4) harmless_clear by (auto simp: clear_at_def)
  then show ?thesis using extend_safe[OF logged_run(2)[OF assms(1,2)]] assms(4) safe_not_into by (auto simp: clear_at_def)
qed

lemma run_walled:
  assumes "documented rt_effect view (rt_run t)" "rt_run (logged t) c s = (s', ok)" "walled_at view iface a s"
    and "\<And>r r'. walled iface a r \<Longrightarrow> rt_effect c r = Some r' \<Longrightarrow> walled iface a r'"
  shows "walled_at view iface a s'"
proof -
  have "walled iface a (view (fst s'))"
    using logged_run(1)[OF assms(1,2), of "walled iface a"] assms(3,4) by (auto simp: walled_at_def)
  then show ?thesis using extend_safe[OF logged_run(2)[OF assms(1,2)]] assms(3) safe_not_into by (auto simp: walled_at_def)
qed

lemma run_safe:
  assumes "documented rt_effect view (rt_run t)" "rt_run (logged t) c s = (s', ok)" "harmless iface a c"
  shows "clear_at view iface a s \<Longrightarrow> clear_at view iface a s'" "walled_at view iface a s \<Longrightarrow> walled_at view iface a s'"
  using run_clear[OF assms] run_walled[OF assms(1,2)] harmless_walled[OF assms(3)] by blast+

lemma add_or_change_safe:
  assumes "documented rt_effect view (rt_run t)" "add_or_change (logged t) v6 ip (Gateway gw sc) s = (s', ok)"
  shows "clear_at view iface a s \<Longrightarrow> clear_at view iface a s'" "walled_at view iface a s \<Longrightarrow> walled_at view iface a s'"
    and "ok \<Longrightarrow> rt_dest v6 ip = Some (Prefix a (bit_len a)) \<Longrightarrow> safe_at view iface a s \<Longrightarrow> walled_at view iface a s'"
proof -
  have h: "harmless iface a (RtAdd v6 ip (Gateway gw sc))" "harmless iface a (RtChange v6 ip (Gateway gw sc))"
    by (simp_all add: harmless_def)
  obtain s1 ok1 where r1: "rt_run (logged t) (RtAdd v6 ip (Gateway gw sc)) s = (s1, ok1)" by fastforce
  have r2: "if ok1 then s' = s1 \<and> ok else rt_run (logged t) (RtChange v6 ip (Gateway gw sc)) s1 = (s', ok)"
    using assms(2) r1 by (auto simp: add_or_change_def)
  note safe = run_safe[OF assms(1) r1 h(1)]
  have safe2: "clear_at view iface a s1 \<Longrightarrow> clear_at view iface a s'" "walled_at view iface a s1 \<Longrightarrow> walled_at view iface a s'"
    using r2 run_safe[OF assms(1) _ h(2), of s1 s' ok] by (auto split: if_splits)
  show "clear_at view iface a s \<Longrightarrow> clear_at view iface a s'" "walled_at view iface a s \<Longrightarrow> walled_at view iface a s'"
    using safe safe2 by blast+
  assume ok: "ok" and d: "rt_dest v6 ip = Some (Prefix a (bit_len a))" and s: "safe_at view iface a s"
  have "\<exists>r. (clear iface a r \<or> walled iface a r) \<and>
    (rt_effect (RtAdd v6 ip (Gateway gw sc)) r = Some (view (fst s')) \<or> rt_effect (RtChange v6 ip (Gateway gw sc)) r = Some (view (fst s')))"
  proof (cases ok1)
    case True
    then have "rt_effect (RtAdd v6 ip (Gateway gw sc)) (view (fst s)) = Some (view (fst s'))" using r1 r2 logged_ok[OF assms(1), of _ s s1] by auto
    then show ?thesis using s by (auto simp: clear_at_def walled_at_def)
  next
    case False
    then have "rt_effect (RtChange v6 ip (Gateway gw sc)) (view (fst s1)) = Some (view (fst s'))" using r2 ok logged_ok[OF assms(1), of _ s1 s'] by auto
    then show ?thesis using s safe by (auto simp: clear_at_def walled_at_def)
  qed
  then have "walled iface a (view (fst s'))" using builds_wall[OF d] by blast
  then show "walled_at view iface a s'" using s safe safe2 by (auto simp: clear_at_def walled_at_def)
qed

section \<open>The setup\<close>

text \<open>The endpoint text names the address, to the program and to the tool.\<close>

definition names_addr :: "string \<Rightarrow> ip_addr \<Rightarrow> bool" where
  "names_addr ep a \<longleftrightarrow> ep_family ep = Some (\<not> is4 a) \<and> rt_dest (\<not> is4 a) ep = Some (Prefix a (bit_len a))"

lemma bypass_safe:
  assumes d: "documented rt_effect view (rt_run t)" and r: "addBypassForIP (logged t) ep g4 g6 m s = (m', s', ok)"
  shows "clear_at view iface a s \<Longrightarrow> safe_at view iface a s'" "walled_at view iface a s \<Longrightarrow> walled_at view iface a s'"
    and "ok \<Longrightarrow> names_addr ep a \<Longrightarrow> safe_at view iface a s \<Longrightarrow> walled_at view iface a s'"
proof -
  obtain ip where ip: "net_parse_ip ep = Some ip \<or> net_parse_ip ep = None \<and> s' = s \<and> \<not> ok"
    using r by (cases "net_parse_ip ep") (auto simp: addBypassForIP_def)
  let ?v6 = "\<not> is4 (to_net_ip ip)"
  have "s' = s \<and> \<not> ok \<or> (\<exists>gw sc. add_or_change (logged t) ?v6 ep (Gateway gw sc) s = (s', ok)) \<or>
    (\<exists>gw sc sc' s1. add_or_change (logged t) ?v6 ep (Gateway gw sc) s = (s1, False) \<and>
       add_or_change (logged t) ?v6 ep (Gateway gw sc') s1 = (s', ok))"
    using r ip by (fastforce simp: addBypassForIP_def Let_def split: option.splits prod.splits if_splits)
  then consider (skip) "s' = s" "\<not> ok"
    | (one) gw sc where "add_or_change (logged t) ?v6 ep (Gateway gw sc) s = (s', ok)"
    | (two) gw sc sc' s1 where "add_or_change (logged t) ?v6 ep (Gateway gw sc) s = (s1, False)"
        "add_or_change (logged t) ?v6 ep (Gateway gw sc') s1 = (s', ok)"
    by blast
  note cs = this
  show "clear_at view iface a s \<Longrightarrow> safe_at view iface a s'"
    using cs by cases (use add_or_change_safe(1)[OF d] in blast)+
  show "walled_at view iface a s \<Longrightarrow> walled_at view iface a s'"
    using cs by cases (use add_or_change_safe(2)[OF d] in blast)+
  assume ok: "ok" and n: "names_addr ep a" and s: "safe_at view iface a s"
  have v6: "?v6 = (\<not> is4 a)" using n ip ok by (auto simp: names_addr_def ep_family_def split: if_splits)
  have dest: "rt_dest ?v6 ep = Some (Prefix a (bit_len a))" using n v6 by (simp add: names_addr_def)
  from cs show "walled_at view iface a s'"
  proof cases
    case one
    then show ?thesis using add_or_change_safe(3)[OF d one ok dest s] by simp
  next
    case two
    have "safe_at view iface a s1" using add_or_change_safe(1,2)[OF d two(1)] s by blast
    from add_or_change_safe(3)[OF d two(2) ok dest this] show ?thesis .
  qed (use ok in simp)
qed

lemma bypass_all_safe:
  assumes d: "documented rt_effect view (rt_run t)"
  shows "bypass_all (logged t) g4 g6 eps m s = (m', s', ok) \<Longrightarrow> safe_at view iface a s \<Longrightarrow>
    safe_at view iface a s' \<and> (walled_at view iface a s \<longrightarrow> walled_at view iface a s') \<and>
    (ok \<and> (\<exists>ep \<in> set eps. names_addr ep a) \<longrightarrow> walled_at view iface a s')"
proof (induction eps arbitrary: m s)
  case (Cons ep eps)
  obtain m1 s1 ok1 where r: "addBypassForIP (logged t) ep g4 g6 m s = (m1, s1, ok1)" by (metis prod_cases3)
  note b = bypass_safe[OF d r, where iface = iface and a = a]
  show ?case using Cons.prems b r Cons.IH[of m1 s1] by (cases ok1) auto
qed auto

lemma specific_safe:
  assumes d: "documented rt_effect view (rt_run t)"
  shows "add_specific (logged t) iface cs s = (s', ok) \<Longrightarrow> clear_at view iface a s \<Longrightarrow>
    \<forall>cidr \<in> set cs. cidr \<noteq> ''0.0.0.0/0'' \<and> cidr \<noteq> ''::/0'' \<longrightarrow> harmless iface a (RtAdd (CHR '':'' \<in> set cidr) cidr (Iface iface)) \<Longrightarrow>
    clear_at view iface a s'"
proof (induction cs arbitrary: s)
  case (Cons cidr cs)
  then show ?case using run_clear[OF d, of "RtAdd (CHR '':'' \<in> set cidr) cidr (Iface iface)" s]
    by (auto simp: Let_def split: if_splits prod.splits)
qed simp

text \<open>Time passing puts no route into the tunnel.\<close>

definition patient :: "('k \<Rightarrow> hop rib) \<Rightarrow> 'k rttool \<Rightarrow> string \<Rightarrow> bool" where
  "patient view t iface \<longleftrightarrow> (\<forall>k p. (p, Iface iface) \<in> set (view (rt_wait t k)) \<longrightarrow> (p, Iface iface) \<in> set (view k))"

lemma poll_safe:
  assumes "patient view t iface"
  shows "poll_gateways (logged t) v4 v6 n s = (g4, g6, s') \<Longrightarrow> clear_at view iface a s \<Longrightarrow> clear_at view iface a s'"
proof (induction n arbitrary: s)
  case (Suc n)
  have "clear_at view iface a (rt_wait (logged t) s)"
  proof -
    obtain k log where s: "s = (k, log)" by (cases s)
    have "clear iface a (view (rt_wait t k))"
      using assms Suc.prems(2) by (fastforce simp: clear_at_def clear_def patient_def s)
    then show ?thesis using Suc.prems(2) safe_not_into[of iface a "view (rt_wait t k)"]
      by (auto simp: clear_at_def all_safe_def logged_def s)
  qed
  then show ?case using Suc by (subst (asm) (2) poll_gateways.simps) (auto simp: Let_def split: if_splits)
qed (subst (asm) poll_gateways.simps, auto simp: Let_def)

lemma half_dests:
  "rt_dest False ''0.0.0.0/1'' = Some (Prefix (V4 0) 1)" "rt_dest False ''128.0.0.0/1'' = Some (Prefix (V4 0x80000000) 1)"
  "rt_dest True ''::/1'' = Some (Prefix (V6 0) 1)" "rt_dest True ''8000::/1'' = Some (Prefix (V6 0x80000000000000000000000000000000) 1)"
  by code_simp+

lemma halves_cases: "(six, h) \<in> set (halves v4 v6) \<Longrightarrow> (\<exists>p. rt_dest six h = Some p \<and> pbits p = 1 \<and> is4 (paddr p) = (\<not> six)) \<and> (if six then v6 else v4)"
  by (auto simp: halves_def half_dests split: if_splits)

lemma halves_safe:
  assumes d: "documented rt_effect view (rt_run t)"
  shows "add_halves (logged t) iface hs s = (s', ok) \<Longrightarrow> \<forall>(six, h) \<in> set hs. (six, h) \<in> set (halves v4 v6) \<Longrightarrow>
    walled_at view iface a s \<or> clear_at view iface a s \<and> \<not> (if is4 a then v4 else v6) \<Longrightarrow> safe_at view iface a s'"
proof (induction hs arbitrary: s)
  case (Cons x hs)
  obtain six h where x: "x = (six, h)" by (cases x)
  obtain p where p: "rt_dest six h = Some p" "pbits p = 1" "is4 (paddr p) = (\<not> six)" "if six then v6 else v4"
    using halves_cases[of six h v4 v6] Cons.prems(2) x by auto
  obtain s1 ok1 where r: "rt_run (logged t) (RtAdd six h (Iface iface)) s = (s1, ok1)" by fastforce
  have "walled_at view iface a s1" if "walled_at view iface a s"
  proof (rule run_walled[OF d r that])
    fix q q' assume "walled iface a q" "rt_effect (RtAdd six h (Iface iface)) q = Some q'"
    then show "walled iface a q'" using half_walled[of iface a q six h q'] p(1,2) by (cases a) auto
  qed
  moreover have "clear_at view iface a s1" if "clear_at view iface a s" "\<not> (if is4 a then v4 else v6)"
  proof (rule run_clear[OF d r _ that(1)])
    have "is4 a \<noteq> is4 (paddr p)" using that(2) p(3,4) by (cases six; cases "is4 a") simp_all
    then show "harmless iface a (RtAdd six h (Iface iface))"
      using p(1) by (cases p; cases a; cases "paddr p") (auto simp: harmless_def)
  qed
  ultimately have s1: "walled_at view iface a s1 \<or> clear_at view iface a s1 \<and> \<not> (if is4 a then v4 else v6)" using Cons.prems(3) by blast
  show ?case using Cons.prems(1,2) Cons.IH[OF _ _ s1] s1 r by (cases ok1) (auto simp: x)
qed auto

lemma set_insert_back: "set (insert_back xs c) = insert c (set xs)"
proof -
  let ?P = "\<lambda>x. prefixLen x < prefixLen c"
  let ?w = "takeWhile ?P (rev xs)" and ?d = "dropWhile ?P (rev xs)"
  have xs: "xs = rev ?d @ rev ?w" by (metis rev_append rev_rev_ident takeWhile_dropWhile_id)
  then have "length xs - length ?w = length (rev ?d)" by (metis add_diff_cancel_right' length_append length_rev)
  then have "take (length xs - length ?w) xs = rev ?d" by (subst (2) xs) simp
  then have "insert_back xs c = rev ?d @ c # rev ?w" by (simp add: insert_back_def Let_def)
  moreover have "set xs = set (rev ?d) \<union> set (rev ?w)" by (subst xs) (simp only: set_append)
  ultimately show ?thesis by auto
qed

lemma set_sort [simp]: "set (sortAllowedIPs cidrs) = set cidrs"
proof -
  have "set (foldl insert_back xs cidrs) = set xs \<union> set cidrs" for xs
    by (induction cidrs arbitrary: xs) (auto simp: set_insert_back)
  then show ?thesis by (simp add: sortAllowedIPs_def)
qed

lemma halves_installed:
  assumes d: "documented rt_effect view (rt_run t)"
  shows "add_halves (logged t) iface hs s = (s', True) \<Longrightarrow> set (view (fst s)) \<subseteq> set (view (fst s')) \<and>
    (\<forall>(six, h) \<in> set hs. \<forall>p. rt_dest six h = Some p \<longrightarrow> (p, Iface iface) \<in> set (view (fst s')))"
proof (induction hs arbitrary: s)
  case (Cons x hs)
  obtain six h where x: "x = (six, h)" by (cases x)
  obtain s1 where r: "rt_run (logged t) (RtAdd six h (Iface iface)) s = (s1, True)" "add_halves (logged t) iface hs s1 = (s', True)"
    using Cons.prems by (auto simp: x split: prod.splits if_splits)
  then obtain p where "rt_dest six h = Some p" "view (fst s1) = (p, Iface iface) # view (fst s)"
    using logged_ok[OF d r(1)] by (auto simp: add_effect)
  then show ?case using Cons.IH[OF r(2)] by (auto simp: x)
qed simp

lemma halves_in_place:
  assumes "documented rt_effect view (rt_run t)" "add_halves (logged t) iface (halves v4 v6) s = (s', True)"
  shows "v4 \<longrightarrow> {(Prefix (V4 0) 1, Iface iface), (Prefix (V4 0x80000000) 1, Iface iface)} \<subseteq> set (view (fst s'))"
    and "v6 \<longrightarrow> {(Prefix (V6 0) 1, Iface iface), (Prefix (V6 0x80000000000000000000000000000000) 1, Iface iface)} \<subseteq> set (view (fst s'))"
  using halves_installed[OF assms] half_dests by (cases v4; cases v6; simp add: halves_def)+

lemma stage_parts:
  assumes "dm_AddRoutes t iface allowed full eps tbl m k = (m', k', ok)" "\<not> equal_fold tbl ''off''"
  shows "\<exists>k1 ok1 v4 v6 m1 g4 g6 k2. add_specific t iface (sortAllowedIPs allowed) k = (k1, ok1) \<and> v4 = (''0.0.0.0/0'' \<in> set allowed) \<and>
    v6 = (''::/0'' \<in> set allowed) \<and> poll_gateways t v4 v6 20 k1 = (g4, g6, k2) \<and>
    ((k' = k1 \<or> k' = k2) \<and> \<not> ok \<or> (\<exists>m2 k3 ok3. bypass_all t g4 g6 (classified v4 v6 eps) m1 k2 = (m2, k3, ok3) \<and>
       (if ok3 then add_halves t iface (halves v4 v6) k3 = (k', ok) else k' = k3 \<and> \<not> ok)))"
proof -
  let ?v4 = "''0.0.0.0/0'' \<in> set allowed" and ?v6 = "''::/0'' \<in> set allowed"
  obtain k1 ok1 where s: "add_specific t iface (sortAllowedIPs allowed) k = (k1, ok1)" by fastforce
  obtain g4 g6 k2 where p: "poll_gateways t ?v4 ?v6 20 k1 = (g4, g6, k2)" by (metis prod_cases3)
  obtain m1 where m1: "m1 = (if dm_bind m \<noteq> '''' then m\<lparr>dm_upstream := dm_bind m\<rparr>
    else if dm_pin m then m\<lparr>dm_upstream := getDefaultInterface t k1\<rparr> else m)" by blast
  obtain m2 k3 ok3 where b: "bypass_all t g4 g6 (classified ?v4 ?v6 eps) m1 k2 = (m2, k3, ok3)" by (metis prod_cases3)
  obtain k4 ok4 where h: "add_halves t iface (halves ?v4 ?v6) k3 = (k4, ok4)" by fastforce
  have "(k' = k1 \<or> k' = k2) \<and> \<not> ok \<or> (if ok3 then add_halves t iface (halves ?v4 ?v6) k3 = (k', ok) else k' = k3 \<and> \<not> ok)"
    using assms unfolding dm_AddRoutes_def Let_def s split_conv p m1[symmetric] b h by (auto split: if_splits)
  then show ?thesis using s p b by blast
qed

text \<open>C12: While a full tunnel is set up on macOS, in every state between two commands, whichever fail and however long
  the code waits for a gateway, packets for an endpoint are not routed into the tunnel, if no narrower prefix of the
  configuration covers it; and when the setup succeeds the two halves of the default route of each family the
  configuration names are in place. Beforehand no route leads into the tunnel, and time passing adds none.\<close>

theorem endpoint_never_enters:
  assumes d: "documented rt_effect view (rt_run t)" and w: "patient view t iface"
    and fresh: "\<forall>(p, h) \<in> set (view k). h \<noteq> Iface iface"
    and ep: "ep \<in> set eps" "names_addr ep a"
    and apart: "\<forall>cidr \<in> set allowed. cidr \<noteq> ''0.0.0.0/0'' \<and> cidr \<noteq> ''::/0'' \<longrightarrow>
      harmless iface a (RtAdd (CHR '':'' \<in> set cidr) cidr (Iface iface))"
    and run: "dm_AddRoutes (logged t) iface allowed full eps tbl m (k, []) = (m', (k', log), ok)"
  shows "(\<forall>q \<in> set log. \<not> into iface (view q) a) \<and>
    (ok \<and> \<not> equal_fold tbl ''off'' \<longrightarrow>
      (''0.0.0.0/0'' \<in> set allowed \<longrightarrow>
        {(Prefix (V4 0) 1, Iface iface), (Prefix (V4 0x80000000) 1, Iface iface)} \<subseteq> set (view k')) \<and>
      (''::/0'' \<in> set allowed \<longrightarrow>
        {(Prefix (V6 0) 1, Iface iface), (Prefix (V6 0x80000000000000000000000000000000) 1, Iface iface)} \<subseteq> set (view k')))"
proof (cases "equal_fold tbl ''off''")
  case True
  then show ?thesis using run by (simp add: dm_AddRoutes_def)
next
  case False
  have start: "clear_at view iface a (k, [])" using fresh by (auto simp: clear_at_def clear_def all_safe_def)
  obtain k1 ok1 v4 v6 m1 g4 g6 k2 where p: "add_specific (logged t) iface (sortAllowedIPs allowed) (k, []) = (k1, ok1)"
    "v4 = (''0.0.0.0/0'' \<in> set allowed)" "v6 = (''::/0'' \<in> set allowed)" "poll_gateways (logged t) v4 v6 20 k1 = (g4, g6, k2)"
    and rest: "((k', log) = k1 \<or> (k', log) = k2) \<and> \<not> ok \<or> (\<exists>m2 k3 ok3. bypass_all (logged t) g4 g6 (classified v4 v6 eps) m1 k2 = (m2, k3, ok3) \<and>
       (if ok3 then add_halves (logged t) iface (halves v4 v6) k3 = ((k', log), ok) else (k', log) = k3 \<and> \<not> ok))"
    using stage_parts[OF run False] by blast
  have s1: "clear_at view iface a k1" using specific_safe[OF d p(1) start] apart by simp
  have s2: "clear_at view iface a k2" by (rule poll_safe[OF w p(4) s1])
  from rest show ?thesis
  proof (elim disjE exE conjE)
    fix m2 k3 ok3
    assume b: "bypass_all (logged t) g4 g6 (classified v4 v6 eps) m1 k2 = (m2, k3, ok3)"
      and e: "if ok3 then add_halves (logged t) iface (halves v4 v6) k3 = ((k', log), ok) else (k', log) = k3 \<and> \<not> ok"
    note s3 = bypass_all_safe[OF d b disjI1[OF s2]]
    show ?thesis
    proof (cases ok3)
      case True
      then have h: "add_halves (logged t) iface (halves v4 v6) k3 = ((k', log), ok)" using e by simp
      have "clear_at view iface a k3 \<and> \<not> (if is4 a then v4 else v6) \<or> walled_at view iface a k3"
        using s3 True ep by (cases "if is4 a then v4 else v6") (auto simp: classified_def names_addr_def split: if_splits)
      moreover have "\<forall>(six, h) \<in> set (halves v4 v6). (six, h) \<in> set (halves v4 v6)" by auto
      ultimately have "safe_at view iface a (k', log)" using halves_safe[OF d h] by blast
      moreover have "ok \<longrightarrow> (v4 \<longrightarrow> {(Prefix (V4 0) 1, Iface iface), (Prefix (V4 0x80000000) 1, Iface iface)} \<subseteq> set (view k')) \<and>
          (v6 \<longrightarrow> {(Prefix (V6 0) 1, Iface iface), (Prefix (V6 0x80000000000000000000000000000000) 1, Iface iface)} \<subseteq> set (view k'))"
        using halves_in_place[OF d, of iface v4 v6 k3 "(k', log)"] h by simp
      ultimately show ?thesis using p(2,3) by (auto simp: clear_at_def walled_at_def all_safe_def)
    qed (use e s3 in \<open>auto simp: clear_at_def walled_at_def all_safe_def\<close>)
  qed (use s1 s2 in \<open>auto simp: clear_at_def all_safe_def\<close>)
qed

section \<open>A machine\<close>

text \<open>The kernel is its table; the gateway is 192.168.1.1 on \<open>en0\<close>.\<close>

definition plain_rt :: "hop rib rttool" where
  "plain_rt = \<lparr>rt_run = (\<lambda>c r. case rt_effect c r of None \<Rightarrow> (r, False) | Some r' \<Rightarrow> (r', True)),
     rt_ask = (\<lambda>q r. case q of
        Netstat v6 \<Rightarrow> (True, if v6 then '''' else join [CHR 0x0A] [''Destination Gateway Flags Netif'', ''default 192.168.1.1 UGScg en0''])
      | RouteGet v6 d \<Rightarrow> (True, ''interface: en0'')),
     rt_usable = (\<lambda>i r. True), rt_peers = (\<lambda>i r. []), rt_wait = (\<lambda>r. r)\<rparr>"

definition at_home :: "hop rib" where
  "at_home = [(Prefix (V4 0) 0, Gateway ''192.168.1.1'' (Some ''en0''))]"

definition darwin_mgr0 :: darwin_mgr where
  "darwin_mgr0 = \<lparr>dm_bypass = [], dm_iface = '''', dm_endpoints = [], dm_v4 = False, dm_v6 = False, dm_gw4 = '''', dm_gw6 = '''',
     dm_upstream = '''', dm_pin = False, dm_bind = '''', dm_key = '''', dm_has_dns = False\<rparr>"

lemma plain_rt_documented: "documented rt_effect (\<lambda>r. r) (rt_run plain_rt)"
  by (auto simp: documented_def plain_rt_def split: option.splits)

lemma plain_rt_patient: "patient (\<lambda>r. r) plain_rt iface"
  by (simp add: patient_def plain_rt_def)

text \<open>A full tunnel with a private network beside it, the peer at 198.51.100.7.\<close>

definition demo_setup :: "string list \<Rightarrow> darwin_mgr \<times> (hop rib \<times> hop rib list) \<times> bool" where
  "demo_setup allowed = dm_AddRoutes (logged plain_rt) ''utun4'' allowed True [''198.51.100.7''] '''' darwin_mgr0 (at_home, [])"

definition demo_full :: "string list" where
  "demo_full = [''0.0.0.0/0'', ''10.9.0.0/16'']"

lemma demo_full_runs: "snd (snd (demo_setup demo_full))" "length (snd (fst (snd (demo_setup demo_full)))) = 4"
  by code_simp+

lemma demo_full_meets:
  "list_all (\<lambda>(p, h). h \<noteq> Iface ''utun4'') at_home" "names_addr ''198.51.100.7'' (V4 0xC6336407)"
  "rt_dest False ''10.9.0.0/16'' = Some (Prefix (V4 0x0A090000) 16)" "\<not> prefix_contains (Prefix (V4 0x0A090000) 16) (V4 0xC6336407)"
  "\<not> equal_fold '''' ''off''"
  by code_simp+

text \<open>Four states: the private network, the host route, the two halves.\<close>

theorem endpoint_never_enters_witness:
  "length (snd (fst (snd (demo_setup demo_full)))) = 4 \<and>
   \<not> into ''utun4'' (snd (fst (snd (demo_setup demo_full))) ! 2) (V4 0xC6336407) \<and>
   (Prefix (V4 0x80000000) 1, Iface ''utun4'') \<in> set (fst (fst (snd (demo_setup demo_full))))"
proof -
  let ?log = "snd (fst (snd (demo_setup demo_full)))"
  have run: "dm_AddRoutes (logged plain_rt) ''utun4'' demo_full True [''198.51.100.7''] '''' darwin_mgr0 (at_home, []) =
    (fst (demo_setup demo_full), (fst (fst (snd (demo_setup demo_full))), ?log), snd (snd (demo_setup demo_full)))"
    by (simp add: demo_setup_def)
  have fresh: "\<forall>(p, h) \<in> set at_home. h \<noteq> Iface ''utun4''" using demo_full_meets(1) by (simp add: list_all_iff)
  have apart: "\<forall>cidr \<in> set demo_full. cidr \<noteq> ''0.0.0.0/0'' \<and> cidr \<noteq> ''::/0'' \<longrightarrow>
      harmless ''utun4'' (V4 0xC6336407) (RtAdd (CHR '':'' \<in> set cidr) cidr (Iface ''utun4''))"
    using demo_full_meets(3,4) by (simp add: demo_full_def harmless_def)
  note claim = endpoint_never_enters[OF plain_rt_documented plain_rt_patient fresh _ demo_full_meets(2) apart run]
  have "?log ! 2 \<in> set ?log" using demo_full_runs(2) by simp
  then show ?thesis using claim demo_full_runs demo_full_meets(5) by (simp add: demo_full_def)
qed

section \<open>Where the code falls short\<close>

text \<open>A private network of the configuration that covers the peer is added before the host route: for as long as the code
  waits for a gateway, packets for the peer go into the tunnel.\<close>

lemma specific_before_bypass:
  "(let (m, (r, log), ok) = demo_setup [''0.0.0.0/0'', ''198.51.100.0/24'']
    in ok \<and> into ''utun4'' (log ! 0) (V4 0xC6336407) \<and> \<not> into ''utun4'' r (V4 0xC6336407))"
  by code_simp

text \<open>The whole address space written as two halves is no default route to the code: there is no host route at all.\<close>

lemma written_halves_loop:
  "(let (m, (r, log), ok) = demo_setup [''0.0.0.0/1'', ''128.0.0.0/1''] in ok \<and> dm_bypass m = [] \<and> into ''utun4'' r (V4 0xC6336407))"
  by code_simp

text \<open>A network event with the same gateways and endpoints changes nothing.\<close>

lemma reapply_idle:
  assumes "gateway_text (getDefaultGatewayFor t False k) = dm_gw4 m" "gateway_text (getDefaultGatewayFor t True k) = dm_gw6 m"
    and "stringSetEqual (dm_endpoints m) (if rt_peers t (dm_iface m) k = [] then dm_endpoints m else rt_peers t (dm_iface m) k)"
  shows "reapply t m k = (m, k)"
  using assms by (simp add: reapply_def Let_def)

text \<open>The interface the tunnel is bound to was gone while the gateway changed: the peer is black-holed. When the interface is
  back nothing happens, because the gateway stays as it is.\<close>

definition moved_mgr :: "darwin_mgr" where
  "moved_mgr = darwin_mgr0\<lparr>dm_iface := ''utun4'', dm_endpoints := [''198.51.100.7''], dm_v4 := True, dm_gw4 := ''10.0.0.1'', dm_bind := ''en7''\<rparr>"

lemma blackhole_stays:
  "(let (m, r) = reapply (plain_rt\<lparr>rt_usable := (\<lambda>i r. False)\<rparr>) moved_mgr at_home
    in (Prefix (V4 0xC6336407) 32, Blackhole) \<in> set r \<and> reapply plain_rt m r = (m, r))"
  by code_simp

end
