(* ===== verification/DarwinFirewall.thy ===== *)
theory DarwinFirewall
  imports RouteKernel GoPrelude
begin

text \<open>
  The macOS firewall (\<open>internal/firewall/darwin.go\<close>): the kill switch and the port 53 enforcement as pf anchors, the
  memory of whether pf was on before, and the recovery after a crash. The command \<open>pfctl\<close> is a parameter; what is
  documented of it is \<open>pf_effect\<close>.
\<close>

section \<open>Rules as printed\<close>

datatype pf_rule =
    PassLo
  | PassOutUdp string string
  | PassOutPorts int int
  | PassDev string
  | SubAnchor string
  | BlockOut
  | BlockIn
  | PassDns string string
  | BlockDns

datatype pf_cmd =
    LoadAnchor string "pf_rule list" | FlushRules string | FlushAnchor string | LoadDefault | PfOn | PfOff

text \<open>\<open>pf_status\<close>: what \<open>pfctl -si\<close> says, with its error; \<open>pf_disk_ok\<close>: whether the state file can be written.\<close>

record 'k pf_tool =
  pf_run :: "(pf_cmd, 'k) runner"
  pf_status :: "'k \<Rightarrow> string option"
  pf_disk_ok :: bool

definition anchorName :: string where "anchorName = ''com.apple/wireguideplus''"
definition dnsAnchorName :: string where "dnsAnchorName = anchorName @ ''/dns''"

section \<open>The manager\<close>

record darwin_fw =
  df_kill_switch :: bool
  df_dns :: bool
  df_was_enabled :: bool
  df_dns_iface :: string
  df_dns_servers :: "string list"
  df_tunnels :: "(string \<times> string list) list"

definition NewDarwinFirewall :: darwin_fw where
  "NewDarwinFirewall = \<lparr>df_kill_switch = False, df_dns = False, df_was_enabled = False, df_dns_iface = '''', df_dns_servers = [], df_tunnels = []\<rparr>"

text \<open>The machine: the kernel and the file \<open>pf-was-enabled\<close>.\<close>

record 'k pf_host =
  ph_kernel :: 'k
  ph_file :: "string option"

definition lower_letter :: "char \<Rightarrow> bool" where
  "lower_letter c = (let n = of_char c :: int in 97 \<le> n \<and> n \<le> 122)"

definition decimal_digit :: "char \<Rightarrow> bool" where
  "decimal_digit c = (let n = of_char c :: int in 48 \<le> n \<and> n \<le> 57)"

definition valid_utun :: "string \<Rightarrow> bool" where
  "valid_utun s \<longleftrightarrow> takeWhile lower_letter s \<noteq> '''' \<and> dropWhile lower_letter s \<noteq> '''' \<and> list_all decimal_digit (dropWhile lower_letter s)"

definition pf_cmd_on :: "'k pf_tool \<Rightarrow> pf_cmd \<Rightarrow> 'k pf_host \<Rightarrow> 'k pf_host \<times> bool" where
  "pf_cmd_on t c h = (let (k, ok) = pf_run t c (ph_kernel h) in (h\<lparr>ph_kernel := k\<rparr>, ok))"

definition isPfEnabled :: "'k pf_tool \<Rightarrow> 'k pf_host \<Rightarrow> bool" where
  "isPfEnabled t h = (case pf_status t (ph_kernel h) of None \<Rightarrow> False | Some out \<Rightarrow> str_contains out ''Status: Enabled'')"

definition persistPfEnabledState :: "'k pf_tool \<Rightarrow> bool \<Rightarrow> 'k pf_host \<Rightarrow> 'k pf_host" where
  "persistPfEnabledState t b h = (if pf_disk_ok t then h\<lparr>ph_file := Some (if b then ''1'' else ''0'')\<rparr> else h)"

definition readPersistedPfState :: "'k pf_host \<Rightarrow> bool" where
  "readPersistedPfState h = (case ph_file h of None \<Rightarrow> True | Some s \<Rightarrow> trim_space s = ''1'')"

definition removePfStateFile :: "'k pf_host \<Rightarrow> 'k pf_host" where
  "removePfStateFile h = h\<lparr>ph_file := None\<rparr>"

definition flushAllAnchors :: "'k pf_tool \<Rightarrow> 'k pf_host \<Rightarrow> 'k pf_host \<times> bool" where
  "flushAllAnchors t h =
     (let (h, ok1) = pf_cmd_on t (FlushRules dnsAnchorName) h;
          (h, ok2) = pf_cmd_on t (FlushAnchor anchorName) h;
          h = fst (pf_cmd_on t (FlushRules ''com.apple/wireguide/dns'') h);
          h = fst (pf_cmd_on t (FlushAnchor ''com.apple/wireguide'') h)
      in (h, ok1 \<and> ok2))"

section \<open>Rendering\<close>

text \<open>The endpoint permits over the sorted interfaces, each endpoint once; \<open>None\<close> is an address that does not parse.\<close>

definition pf_endpoint_rule :: "string \<Rightarrow> pf_rule list option" where
  "pf_endpoint_rule ep =
     (let (ip, port) = (case split_host_port ep of None \<Rightarrow> ('''', '''') | Some hp \<Rightarrow> hp);
          ip = (if ip = '''' then ep else ip)
      in if ip = '''' then Some []
         else if net_parse_ip ip = None then None
         else Some [PassOutUdp ip port])"

fun pf_endpoint_rules :: "string list \<Rightarrow> pf_rule list option" where
  "pf_endpoint_rules [] = Some []"
| "pf_endpoint_rules (ep # eps) =
     (case pf_endpoint_rule ep of None \<Rightarrow> None | Some rs \<Rightarrow> map_option ((@) rs) (pf_endpoint_rules eps))"

definition buildKillSwitchRulesForTunnels :: "(string \<times> string list) list \<Rightarrow> pf_rule list option" where
  "buildKillSwitchRulesForTunnels tunnels =
     (if \<not> list_all valid_utun (map fst tunnels) then None
      else let names = sort (map fst tunnels)
           in case pf_endpoint_rules (dedup (concat (map (\<lambda>n. case map_of tunnels n of None \<Rightarrow> [] | Some es \<Rightarrow> es) names))) of
                None \<Rightarrow> None
              | Some eps \<Rightarrow> Some ([PassLo] @ eps @ [PassOutPorts 68 67, PassOutPorts 546 547] @ map PassDev names @
                  [SubAnchor ''dns'', BlockOut, BlockIn]))"

definition pf_dns_rules :: "string \<Rightarrow> string list \<Rightarrow> pf_rule list option" where
  "pf_dns_rules iface servers =
     (if list_all (\<lambda>s. net_parse_ip s \<noteq> None) servers then Some (map (PassDns iface) servers @ [BlockDns]) else None)"

definition loadDNSSubAnchor :: "'k pf_tool \<Rightarrow> string \<Rightarrow> string list \<Rightarrow> 'k pf_host \<Rightarrow> 'k pf_host \<times> bool" where
  "loadDNSSubAnchor t iface servers h =
     (if \<not> valid_utun iface then (h, False)
      else case pf_dns_rules iface servers of
        None \<Rightarrow> (h, False)
      | Some rs \<Rightarrow> pf_cmd_on t (LoadAnchor dnsAnchorName rs) h)"

definition reapplyDNSSubAnchorIfActive :: "'k pf_tool \<Rightarrow> darwin_fw \<Rightarrow> 'k pf_host \<Rightarrow> 'k pf_host" where
  "reapplyDNSSubAnchorIfActive t f h =
     (if \<not> df_dns f \<or> df_dns_iface f = '''' \<or> df_dns_servers f = [] then h
      else fst (loadDNSSubAnchor t (df_dns_iface f) (df_dns_servers f) h))"

section \<open>Kill switch\<close>

definition pf_EnableKillSwitch :: "'k pf_tool \<Rightarrow> string \<Rightarrow> string list \<Rightarrow> darwin_fw \<Rightarrow> 'k pf_host \<Rightarrow> darwin_fw \<times> 'k pf_host \<times> bool" where
  "pf_EnableKillSwitch t iface eps f h =
     (if iface \<noteq> '''' \<and> \<not> valid_utun iface then (f, h, False)
      else let was = isPfEnabled t h;
               h = persistPfEnabledState t was h;
               h = fst (pf_cmd_on t LoadDefault h);
               tunnels = (if iface = '''' then [] else [(iface, eps)])
           in case buildKillSwitchRulesForTunnels tunnels of
                None \<Rightarrow> (f, h, False)
              | Some rs \<Rightarrow>
                  (let (h, ok) = pf_cmd_on t (LoadAnchor anchorName rs) h
                   in if \<not> ok then (f, h, False)
                      else let h = reapplyDNSSubAnchorIfActive t f h;
                               h = fst (pf_cmd_on t PfOn h)
                           in (f\<lparr>df_was_enabled := was, df_kill_switch := True, df_tunnels := tunnels\<rparr>, h, True)))"

definition pf_rebuild :: "'k pf_tool \<Rightarrow> (string \<times> string list) list \<Rightarrow> darwin_fw \<Rightarrow> 'k pf_host \<Rightarrow> darwin_fw \<times> 'k pf_host \<times> bool" where
  "pf_rebuild t tunnels f h =
     (case buildKillSwitchRulesForTunnels tunnels of
        None \<Rightarrow> (f, h, False)
      | Some rs \<Rightarrow>
          (let (h, ok) = pf_cmd_on t (LoadAnchor anchorName rs) h
           in if \<not> ok then (f, h, False)
              else (f\<lparr>df_tunnels := tunnels\<rparr>, reapplyDNSSubAnchorIfActive t f h, True)))"

definition pf_AddKillSwitchTunnel :: "'k pf_tool \<Rightarrow> string \<Rightarrow> string list \<Rightarrow> darwin_fw \<Rightarrow> 'k pf_host \<Rightarrow> darwin_fw \<times> 'k pf_host \<times> bool" where
  "pf_AddKillSwitchTunnel t iface eps f h =
     (if iface = '''' \<or> \<not> valid_utun iface then (f, h, False)
      else if \<not> df_kill_switch f then (f, h, True)
      else pf_rebuild t (AList.update iface eps (df_tunnels f)) f h)"

definition pf_RemoveKillSwitchTunnel :: "'k pf_tool \<Rightarrow> string \<Rightarrow> darwin_fw \<Rightarrow> 'k pf_host \<Rightarrow> darwin_fw \<times> 'k pf_host \<times> bool" where
  "pf_RemoveKillSwitchTunnel t iface f h =
     (if \<not> df_kill_switch f then (f, h, True) else pf_rebuild t (AList.delete iface (df_tunnels f)) f h)"

definition pf_DisableKillSwitch :: "'k pf_tool \<Rightarrow> darwin_fw \<Rightarrow> 'k pf_host \<Rightarrow> darwin_fw \<times> 'k pf_host" where
  "pf_DisableKillSwitch t f h =
     (let h = fst (flushAllAnchors t h);
          (h, reapplied) =
            (if df_dns f \<and> df_dns_iface f \<noteq> '''' \<and> df_dns_servers f \<noteq> [] then
               case pf_dns_rules (df_dns_iface f) (df_dns_servers f) of
                 None \<Rightarrow> (h, False)
               | Some rs \<Rightarrow> pf_cmd_on t (LoadAnchor anchorName rs) h
             else (h, False));
          h = (if \<not> df_was_enabled f \<and> \<not> reapplied then fst (pf_cmd_on t PfOff h) else h);
          h = (if \<not> reapplied then removePfStateFile h else h)
      in (f\<lparr>df_kill_switch := False, df_tunnels := []\<rparr>, h))"

section \<open>Port 53\<close>

definition pf_EnableDNSProtection :: "'k pf_tool \<Rightarrow> string \<Rightarrow> string list \<Rightarrow> darwin_fw \<Rightarrow> 'k pf_host \<Rightarrow> darwin_fw \<times> 'k pf_host \<times> bool" where
  "pf_EnableDNSProtection t iface servers f h =
     (if servers = [] then (f, h, True)
      else if \<not> valid_utun iface then (f, h, False)
      else case pf_dns_rules iface servers of
        None \<Rightarrow> (f, h, False)
      | Some rs \<Rightarrow>
          (let owned = (\<lambda>f. f\<lparr>df_dns := True, df_dns_iface := iface, df_dns_servers := servers\<rparr>)
           in if df_kill_switch f then
                (let (h, ok) = pf_cmd_on t (LoadAnchor dnsAnchorName rs) h in if ok then (owned f, h, True) else (f, h, False))
              else
                (let was = isPfEnabled t h;
                     h = persistPfEnabledState t was h;
                     h = fst (pf_cmd_on t LoadDefault h);
                     (h, ok) = pf_cmd_on t (LoadAnchor anchorName rs) h
                 in if \<not> ok then (f, h, False)
                    else (owned (f\<lparr>df_was_enabled := was\<rparr>), fst (pf_cmd_on t PfOn h), True))))"

definition pf_DisableDNSProtection :: "'k pf_tool \<Rightarrow> darwin_fw \<Rightarrow> 'k pf_host \<Rightarrow> darwin_fw \<times> 'k pf_host" where
  "pf_DisableDNSProtection t f h =
     (let h = (if df_kill_switch f then fst (pf_cmd_on t (FlushRules dnsAnchorName) h)
               else let h = removePfStateFile (fst (flushAllAnchors t h))
                    in if \<not> df_was_enabled f then fst (pf_cmd_on t PfOff h) else h)
      in (f\<lparr>df_dns := False, df_dns_iface := '''', df_dns_servers := []\<rparr>, h))"

definition pf_Cleanup :: "'k pf_tool \<Rightarrow> darwin_fw \<Rightarrow> 'k pf_host \<Rightarrow> darwin_fw \<times> 'k pf_host \<times> bool" where
  "pf_Cleanup t f h =
     (let (h, flushed) = flushAllAnchors t h;
          h = (if df_kill_switch f \<or> df_dns f
               then removePfStateFile (if \<not> df_was_enabled f then fst (pf_cmd_on t PfOff h) else h) else h);
          f = (if flushed then f\<lparr>df_dns_iface := '''', df_dns_servers := []\<rparr> else f)
      in (f\<lparr>df_dns := False, df_kill_switch := False, df_tunnels := [], df_was_enabled := False\<rparr>, h, flushed))"

definition RecoverSavedRules :: "'k pf_tool \<Rightarrow> 'k pf_host \<Rightarrow> 'k pf_host \<times> bool" where
  "RecoverSavedRules t h =
     (if ph_file h = None then (h, False)
      else let was = readPersistedPfState h;
               h = fst (flushAllAnchors t h);
               h = (if \<not> was then fst (pf_cmd_on t PfOff h) else h)
           in (removePfStateFile h, True))"

section \<open>What is documented of \<open>pfctl\<close>\<close>

text \<open>
  Loading an anchor replaces its rules. The anchors are visited only while pf is on and the main rule set of
  \<open>/etc/pf.conf\<close> is loaded. Rules apply in order; a quick rule that matches decides, and every rule here that can
  decide is quick but the two last blocks, so the last match is the block.
\<close>

record pf_view =
  pv_on :: bool
  pv_default :: bool
  pv_anchors :: "string \<Rightarrow> pf_rule list"

fun pf_effect :: "pf_cmd \<Rightarrow> pf_view \<Rightarrow> pf_view option" where
  "pf_effect (LoadAnchor a rs) v = Some (v\<lparr>pv_anchors := (pv_anchors v)(a := rs)\<rparr>)"
| "pf_effect (FlushRules a) v = Some (v\<lparr>pv_anchors := (pv_anchors v)(a := [])\<rparr>)"
| "pf_effect (FlushAnchor a) v = Some (v\<lparr>pv_anchors := (pv_anchors v)(a := [])\<rparr>)"
| "pf_effect LoadDefault v = Some (v\<lparr>pv_default := True\<rparr>)"
| "pf_effect PfOn v = Some (v\<lparr>pv_on := True\<rparr>)"
| "pf_effect PfOff v = Some (v\<lparr>pv_on := False\<rparr>)"

datatype pf_l4 = PfTcp | PfUdp

record pf_packet =
  pp_out :: bool
  pp_dev :: string
  pp_dst :: ip_addr
  pp_l4 :: "pf_l4 option"
  pp_sport :: int
  pp_dport :: int

definition pf_to :: "string \<Rightarrow> pf_packet \<Rightarrow> bool" where
  "pf_to s p \<longleftrightarrow> net_parse_ip s = Some (pp_dst p)"

text \<open>A quick rule's answer: pass, drop, or no match.\<close>

fun pf_quick :: "pf_rule \<Rightarrow> pf_packet \<Rightarrow> bool option" where
  "pf_quick PassLo p = (if pp_dev p = ''lo0'' then Some True else None)"
| "pf_quick (PassOutUdp ip port) p =
     (if pp_out p \<and> pp_l4 p = Some PfUdp \<and> pf_to ip p \<and> (port = '''' \<or> atoi port = Some (pp_dport p)) then Some True else None)"
| "pf_quick (PassOutPorts s d) p = (if pp_out p \<and> pp_l4 p = Some PfUdp \<and> pp_sport p = s \<and> pp_dport p = d then Some True else None)"
| "pf_quick (PassDev d) p = (if pp_dev p = d then Some True else None)"
| "pf_quick (PassDns d s) p = (if pp_out p \<and> pp_dev p = d \<and> pp_l4 p \<noteq> None \<and> pf_to s p \<and> pp_dport p = 53 then Some True else None)"
| "pf_quick BlockDns p = (if pp_out p \<and> pp_l4 p \<noteq> None \<and> pp_dport p = 53 then Some False else None)"
| "pf_quick _ p = None"

fun pf_quicks :: "pf_rule list \<Rightarrow> pf_packet \<Rightarrow> bool option" where
  "pf_quicks [] p = None"
| "pf_quicks (r # rs) p = (case pf_quick r p of Some b \<Rightarrow> Some b | None \<Rightarrow> pf_quicks rs p)"

fun pf_eval :: "(string \<Rightarrow> pf_rule list) \<Rightarrow> pf_rule list \<Rightarrow> bool \<Rightarrow> pf_packet \<Rightarrow> bool" where
  "pf_eval sub [] b p = b"
| "pf_eval sub (SubAnchor a # rs) b p = (case pf_quicks (sub a) p of Some c \<Rightarrow> c | None \<Rightarrow> pf_eval sub rs b p)"
| "pf_eval sub (BlockOut # rs) b p = pf_eval sub rs (b \<and> \<not> pp_out p) p"
| "pf_eval sub (BlockIn # rs) b p = pf_eval sub rs (b \<and> pp_out p) p"
| "pf_eval sub (r # rs) b p = (case pf_quick r p of Some c \<Rightarrow> c | None \<Rightarrow> pf_eval sub rs b p)"

definition pf_passes :: "pf_view \<Rightarrow> pf_packet \<Rightarrow> bool" where
  "pf_passes v p \<longleftrightarrow> \<not> pv_on v \<or> \<not> pv_default v \<or>
     pf_eval (\<lambda>a. pv_anchors v (anchorName @ ''/'' @ a)) (pv_anchors v anchorName) True p"

end
