(* ===== verification/LinuxFirewall.thy ===== *)
theory LinuxFirewall
  imports RouteKernel
begin

text \<open>
  The Linux firewall (\<open>internal/firewall/linux.go\<close>): the kill switch and the port 53 enforcement as nftables rule
  sets. The command \<open>nft\<close> is a parameter (\<open>nft_tool\<close>) with its error text; each printed rule is a constructor.
\<close>

section \<open>Rules as printed\<close>

datatype ip_word = Ip | Ip6
datatype l4 = Tcp | Udp
datatype hook = HookOutput | HookInput | HookForward | HookPrerouting | HookPostrouting

datatype nft_rule =
    AcceptOutLo
  | AcceptInLo
  | AcceptOutDev string
  | AcceptInDev string
  | AcceptUdp int int
  | AcceptEndpoint ip_word string "int option"
  | AcceptEstablished
  | DropForeign string ip_word string
  | RestoreMark int
  | SaveMark int
  | AcceptDnsLo l4
  | AcceptDns ip_word string l4 string
  | DropDns l4

record chain =
  ch_name :: string
  ch_hook :: hook
  ch_drops :: bool
  ch_rules :: "nft_rule list"

datatype nft_cmd = Apply string "chain list" | DeleteTable string

record 'k nft_tool =
  nft_run :: "(nft_cmd, 'k) runner"
  nft_msg :: "nft_cmd \<Rightarrow> 'k \<Rightarrow> string"

section \<open>The manager\<close>

record linux_fw =
  lf_kill_switch :: bool
  lf_dns :: bool
  lf_fwmark :: int
  lf_tunnels :: "(string \<times> string list) list"
  lf_addresses :: "(string \<times> string list) list"

definition NewLinuxFirewall :: linux_fw where
  "NewLinuxFirewall = \<lparr>lf_kill_switch = False, lf_dns = False, lf_fwmark = 51820, lf_tunnels = [], lf_addresses = []\<rparr>"

definition nftTable :: string where "nftTable = ''wireguideplus''"
definition nftDnsTable :: string where "nftDnsTable = nftTable @ ''_dns''"

definition iface_char :: "char \<Rightarrow> bool" where
  "iface_char c = (let n = of_char c :: int in
     48 \<le> n \<and> n \<le> 57 \<or> 65 \<le> n \<and> n \<le> 90 \<or> 97 \<le> n \<and> n \<le> 122 \<or> n = 95 \<or> n = 45)"

definition validIfaceName :: "string \<Rightarrow> bool" where
  "validIfaceName s \<longleftrightarrow> s \<noteq> '''' \<and> length s \<le> 15 \<and> list_all iface_char s"

definition SetFwMark :: "int \<Rightarrow> linux_fw \<Rightarrow> linux_fw" where
  "SetFwMark mark f = (if 0 < mark then f\<lparr>lf_fwmark := mark\<rparr> else f)"

text \<open>The accept rule of one endpoint; an address or a port that does not parse is skipped.\<close>

definition endpoint_rule :: "string \<Rightarrow> nft_rule list" where
  "endpoint_rule ep =
     (let (ip, port) = (case split_host_port ep of None \<Rightarrow> ('''', '''') | Some hp \<Rightarrow> hp);
          ip = (if ip = '''' then ep else ip);
          kw = (if CHR '':'' \<in> set ip then Ip6 else Ip)
      in if net_parse_ip ip = None then []
         else if port = '''' then [AcceptEndpoint kw ip None]
         else case atoi port of
           None \<Rightarrow> []
         | Some p \<Rightarrow> if p < 1 \<or> 65535 < p then [] else [AcceptEndpoint kw ip (Some p)])"

definition foreign_rule :: "string \<Rightarrow> string \<Rightarrow> nft_rule list" where
  "foreign_rule iface addr =
     (case (case parse_cidr addr of Some (ip, n) \<Rightarrow> Some ip | None \<Rightarrow> net_parse_ip addr) of
        None \<Rightarrow> []
      | Some ip \<Rightarrow> [DropForeign iface (if is4 (to_net_ip ip) then Ip else Ip6) (net_ip_str ip)])"

text \<open>The rule set of the kill switch; Go walks the tunnels in any order.\<close>

definition kill_switch_chains :: "linux_fw \<Rightarrow> chain list" where
  "kill_switch_chains f =
     (let names = map fst (lf_tunnels f);
          eps = concat (map (\<lambda>(n, es). concat (map endpoint_rule es)) (lf_tunnels f));
          pre = concat (map (\<lambda>n. concat (map (foreign_rule n) (case map_of (lf_addresses f) n of None \<Rightarrow> [] | Some as \<Rightarrow> as))) names)
      in [\<lparr>ch_name = ''output'', ch_hook = HookOutput, ch_drops = True,
           ch_rules = [AcceptOutLo, AcceptUdp 68 67, AcceptUdp 546 547] @ eps @ map AcceptOutDev names @ [AcceptEstablished]\<rparr>,
          \<lparr>ch_name = ''input'', ch_hook = HookInput, ch_drops = True,
           ch_rules = [AcceptInLo] @ map AcceptInDev names @ [AcceptUdp 67 68, AcceptUdp 547 546, AcceptEstablished]\<rparr>,
          \<lparr>ch_name = ''forward'', ch_hook = HookForward, ch_drops = True,
           ch_rules = concat (map (\<lambda>n. [AcceptOutDev n, AcceptInDev n]) names)\<rparr>,
          \<lparr>ch_name = ''preraw'', ch_hook = HookPrerouting, ch_drops = False, ch_rules = pre\<rparr>,
          \<lparr>ch_name = ''premangle'', ch_hook = HookPrerouting, ch_drops = False, ch_rules = [RestoreMark (lf_fwmark f)]\<rparr>,
          \<lparr>ch_name = ''postmangle'', ch_hook = HookPostrouting, ch_drops = False, ch_rules = [SaveMark (lf_fwmark f)]\<rparr>])"

definition nftApply :: "'k nft_tool \<Rightarrow> string \<Rightarrow> chain list \<Rightarrow> 'k \<Rightarrow> 'k \<times> bool" where
  "nftApply t table body k = nft_run t (Apply table body) k"

text \<open>\<open>nftFlush\<close> and \<open>nftDeleteDNSTable\<close>: after a delete that worked the table of earlier versions is swept.\<close>

definition delete_table :: "'k nft_tool \<Rightarrow> string \<Rightarrow> string \<Rightarrow> 'k \<Rightarrow> 'k \<times> string option" where
  "delete_table t table old k =
     (let (k', ok) = nft_run t (DeleteTable table) k
      in if ok then (fst (nft_run t (DeleteTable old) k'), None) else (k', Some (nft_msg t (DeleteTable table) k)))"

definition nftFlush :: "'k nft_tool \<Rightarrow> 'k \<Rightarrow> 'k \<times> string option" where
  "nftFlush t k = delete_table t nftTable ''wireguide'' k"

definition nftDeleteDNSTable :: "'k nft_tool \<Rightarrow> 'k \<Rightarrow> 'k \<times> string option" where
  "nftDeleteDNSTable t k = delete_table t nftDnsTable ''wireguide_dns'' k"

definition isNftNotFound :: "string \<Rightarrow> bool" where
  "isNftNotFound msg \<longleftrightarrow>
     str_contains (to_lower msg) ''no such file or directory'' \<or> str_contains (to_lower msg) ''does not exist''"

section \<open>Kill switch\<close>

definition applyKillSwitchLocked :: "'k nft_tool \<Rightarrow> bool \<Rightarrow> linux_fw \<Rightarrow> 'k \<Rightarrow> 'k \<times> bool" where
  "applyKillSwitchLocked t replacing f k =
     (let (k, err) = (if replacing then nftFlush t k else (k, None))
      in case err of
        Some msg \<Rightarrow> (if isNftNotFound msg then nftApply t nftTable (kill_switch_chains f) k else (k, False))
      | None \<Rightarrow> nftApply t nftTable (kill_switch_chains f) k)"

definition EnableKillSwitch :: "'k nft_tool \<Rightarrow> string \<Rightarrow> string list \<Rightarrow> string list \<Rightarrow> linux_fw \<Rightarrow> 'k \<Rightarrow> linux_fw \<times> 'k \<times> bool" where
  "EnableKillSwitch t iface addresses eps f k =
     (if iface \<noteq> '''' \<and> \<not> validIfaceName iface then (f, k, False)
      else let f = f\<lparr>lf_tunnels := (if iface = '''' then [] else [(iface, eps)]),
                     lf_addresses := (if iface = '''' then [] else [(iface, addresses)])\<rparr>;
               (k, ok) = applyKillSwitchLocked t False f k
           in if ok then (f\<lparr>lf_kill_switch := True\<rparr>, k, True) else (f, k, False))"

definition AddKillSwitchTunnel :: "'k nft_tool \<Rightarrow> string \<Rightarrow> string list \<Rightarrow> string list \<Rightarrow> linux_fw \<Rightarrow> 'k \<Rightarrow> linux_fw \<times> 'k \<times> bool" where
  "AddKillSwitchTunnel t iface addresses eps f k =
     (if \<not> lf_kill_switch f then (f, k, True)
      else if \<not> validIfaceName iface then (f, k, False)
      else let f = f\<lparr>lf_tunnels := AList.update iface eps (lf_tunnels f),
                     lf_addresses := AList.update iface addresses (lf_addresses f)\<rparr>
           in (f, applyKillSwitchLocked t True f k))"

definition RemoveKillSwitchTunnel :: "'k nft_tool \<Rightarrow> string \<Rightarrow> linux_fw \<Rightarrow> 'k \<Rightarrow> linux_fw \<times> 'k \<times> bool" where
  "RemoveKillSwitchTunnel t iface f k =
     (if \<not> lf_kill_switch f then (f, k, True)
      else let f = f\<lparr>lf_tunnels := AList.delete iface (lf_tunnels f), lf_addresses := AList.delete iface (lf_addresses f)\<rparr>
           in (f, applyKillSwitchLocked t True f k))"

definition DisableKillSwitch :: "'k nft_tool \<Rightarrow> linux_fw \<Rightarrow> 'k \<Rightarrow> linux_fw \<times> 'k \<times> bool" where
  "DisableKillSwitch t f k =
     (let (k, err) = nftFlush t k
      in (f\<lparr>lf_kill_switch := False, lf_tunnels := [], lf_addresses := []\<rparr>, k,
          case err of None \<Rightarrow> True | Some msg \<Rightarrow> isNftNotFound msg))"

section \<open>Port 53\<close>

definition dns_rules :: "string \<Rightarrow> string list \<Rightarrow> nft_rule list" where
  "dns_rules iface servers =
     concat (map (\<lambda>s. let kw = (if CHR '':'' \<in> set s then Ip6 else Ip)
                      in [AcceptDns kw s Tcp iface, AcceptDns kw s Udp iface])
       (filter (\<lambda>s. net_parse_ip s \<noteq> None) servers))"

definition dns_chain :: "string \<Rightarrow> string list \<Rightarrow> chain" where
  "dns_chain iface servers = \<lparr>ch_name = ''dns_output'', ch_hook = HookOutput, ch_drops = False,
     ch_rules = [AcceptDnsLo Tcp, AcceptDnsLo Udp] @ dns_rules iface servers @ [DropDns Tcp, DropDns Udp]\<rparr>"

definition EnableDNSProtection :: "'k nft_tool \<Rightarrow> string \<Rightarrow> string list \<Rightarrow> linux_fw \<Rightarrow> 'k \<Rightarrow> linux_fw \<times> 'k \<times> bool" where
  "EnableDNSProtection t iface servers f k =
     (if servers = [] then (f, k, True)
      else if \<not> validIfaceName iface then (f, k, False)
      else let (k, ok) = nftApply t nftDnsTable [dns_chain iface servers] k
           in if ok then (f\<lparr>lf_dns := True\<rparr>, k, True) else (f, k, False))"

definition DisableDNSProtection :: "'k nft_tool \<Rightarrow> linux_fw \<Rightarrow> 'k \<Rightarrow> linux_fw \<times> 'k \<times> bool" where
  "DisableDNSProtection t f k = (f\<lparr>lf_dns := False\<rparr>, fst (nftDeleteDNSTable t k), True)"

definition fw_Cleanup :: "'k nft_tool \<Rightarrow> linux_fw \<Rightarrow> 'k \<Rightarrow> linux_fw \<times> 'k \<times> string option" where
  "fw_Cleanup t f k =
     (let (k, err) = nftFlush t k in (f\<lparr>lf_kill_switch := False, lf_dns := False\<rparr>, fst (nftDeleteDNSTable t k), err))"

section \<open>What is documented of \<open>nft\<close>\<close>

text \<open>
  The tables by name. Loading a table that exists appends the rules to its chains of the same name; one file is one
  transaction. An interface named with \<open>oif\<close> is looked up when the rule is loaded: \<open>nv_index\<close>.
\<close>

record nft_view =
  nv_tables :: "string \<Rightarrow> chain list option"
  nv_index :: "string \<Rightarrow> nat option"

fun rule_loads :: "(string \<Rightarrow> nat option) \<Rightarrow> nft_rule \<Rightarrow> bool" where
  "rule_loads ix (AcceptDns kw s p iface) \<longleftrightarrow> ix iface \<noteq> None"
| "rule_loads ix r \<longleftrightarrow> True"

definition add_chain :: "chain \<Rightarrow> chain list \<Rightarrow> chain list" where
  "add_chain c cs =
     (if ch_name c \<in> ch_name ` set cs
      then map (\<lambda>d. if ch_name d = ch_name c then d\<lparr>ch_drops := ch_drops c, ch_rules := ch_rules d @ ch_rules c\<rparr> else d) cs
      else cs @ [c])"

fun nft_effect :: "nft_cmd \<Rightarrow> nft_view \<Rightarrow> nft_view option" where
  "nft_effect (Apply n body) v =
     (if \<forall>c \<in> set body. \<forall>r \<in> set (ch_rules c). rule_loads (nv_index v) r
      then Some (v\<lparr>nv_tables := (nv_tables v)(n := Some (fold add_chain body (case nv_tables v n of None \<Rightarrow> [] | Some cs \<Rightarrow> cs)))\<rparr>)
      else None)"
| "nft_effect (DeleteTable n) v = (if nv_tables v n = None then None else Some (v\<lparr>nv_tables := (nv_tables v)(n := None)\<rparr>))"

record packet =
  pk_hook :: hook
  pk_in :: string
  pk_out :: string
  pk_dst :: ip_addr
  pk_l4 :: "l4 option"
  pk_sport :: int
  pk_dport :: int
  pk_established :: bool
  pk_local :: bool

fun word_is :: "ip_word \<Rightarrow> ip_addr \<Rightarrow> bool" where
  "word_is Ip a = is4 a"
| "word_is Ip6 a = (\<not> is4 a)"

definition to_host :: "ip_word \<Rightarrow> string \<Rightarrow> packet \<Rightarrow> bool" where
  "to_host kw s p \<longleftrightarrow> parse_addr s = Some (pk_dst p, '''') \<and> word_is kw (pk_dst p)"

text \<open>What one rule says: accept, drop, or nothing.\<close>

fun rule_verdict :: "nft_rule \<Rightarrow> packet \<Rightarrow> bool option" where
  "rule_verdict AcceptOutLo p = (if pk_out p = ''lo'' then Some True else None)"
| "rule_verdict AcceptInLo p = (if pk_in p = ''lo'' then Some True else None)"
| "rule_verdict (AcceptOutDev d) p = (if pk_out p = d then Some True else None)"
| "rule_verdict (AcceptInDev d) p = (if pk_in p = d then Some True else None)"
| "rule_verdict (AcceptUdp s d) p = (if pk_l4 p = Some Udp \<and> pk_sport p = s \<and> pk_dport p = d then Some True else None)"
| "rule_verdict (AcceptEndpoint kw s port) p =
     (if to_host kw s p \<and> (case port of None \<Rightarrow> True | Some n \<Rightarrow> pk_l4 p = Some Udp \<and> pk_dport p = n) then Some True else None)"
| "rule_verdict AcceptEstablished p = (if pk_established p then Some True else None)"
| "rule_verdict (DropForeign d kw s) p = (if pk_in p \<noteq> d \<and> to_host kw s p \<and> \<not> pk_local p then Some False else None)"
| "rule_verdict (RestoreMark m) p = None"
| "rule_verdict (SaveMark m) p = None"
| "rule_verdict (AcceptDnsLo l) p = (if pk_out p = ''lo'' \<and> pk_l4 p = Some l \<and> pk_dport p = 53 then Some True else None)"
| "rule_verdict (AcceptDns kw s l d) p = (if to_host kw s p \<and> pk_l4 p = Some l \<and> pk_dport p = 53 \<and> pk_out p = d then Some True else None)"
| "rule_verdict (DropDns l) p = (if pk_l4 p = Some l \<and> pk_dport p = 53 then Some False else None)"

fun chain_accepts :: "bool \<Rightarrow> nft_rule list \<Rightarrow> packet \<Rightarrow> bool" where
  "chain_accepts drops [] p = (\<not> drops)"
| "chain_accepts drops (r # rs) p = (case rule_verdict r p of Some b \<Rightarrow> b | None \<Rightarrow> chain_accepts drops rs p)"

text \<open>A packet passes a table when no chain on its hook drops it, and the machine when it passes every table.\<close>

definition passes_table :: "nft_view \<Rightarrow> string \<Rightarrow> packet \<Rightarrow> bool" where
  "passes_table v n p \<longleftrightarrow> (case nv_tables v n of None \<Rightarrow> True
     | Some cs \<Rightarrow> (\<forall>c \<in> set cs. ch_hook c = pk_hook p \<longrightarrow> chain_accepts (ch_drops c) (ch_rules c) p))"

section \<open>Chains\<close>

text \<open>A chain of accept rules under a drop policy accepts exactly what one of them accepts.\<close>

lemma accept_chain:
  "\<forall>r \<in> set rs. rule_verdict r p \<noteq> Some False \<Longrightarrow> chain_accepts True rs p \<longleftrightarrow> (\<exists>r \<in> set rs. rule_verdict r p = Some True)"
proof (induction rs)
  case (Cons r rs)
  then show ?case by (cases "rule_verdict r p") auto
qed simp

lemma chain_append: "chain_accepts b (xs @ ys) p =
    (if \<exists>r \<in> set xs. rule_verdict r p \<noteq> None then chain_accepts b xs p else chain_accepts b ys p)"
  by (induction xs) (auto split: option.splits)

lemma chain_append_default:
  "\<exists>r \<in> set xs. rule_verdict r p \<noteq> None \<Longrightarrow> chain_accepts b xs p = chain_accepts c xs p"
  by (induction xs) (auto split: option.splits)

lemma printed_rules:
  "r \<in> set (endpoint_rule ep) \<Longrightarrow> \<exists>kw h port. r = AcceptEndpoint kw h port"
  "r \<in> set (foreign_rule d a) \<Longrightarrow> \<exists>kw h. r = DropForeign d kw h"
  by (auto simp: endpoint_rule_def foreign_rule_def Let_def split: option.splits if_splits prod.splits)

lemma endpoint_rules_in:
  "(\<exists>r \<in> set (concat (map (\<lambda>(n, es). concat (map endpoint_rule es)) ts)). P r) \<longleftrightarrow>
   (\<exists>(n, es) \<in> set ts. \<exists>ep \<in> set es. \<exists>r \<in> set (endpoint_rule ep). P r)"
  by (simp only: set_concat set_map UN_simps bex_UN split_def)

lemma kill_switch_loads:
  assumes "c \<in> set (kill_switch_chains f)" "r \<in> set (ch_rules c)"
  shows "rule_loads ix r"
proof -
  have e: "\<forall>r \<in> set (endpoint_rule ep). rule_loads ix r" for ep using printed_rules(1) by fastforce
  have d: "\<forall>r \<in> set (foreign_rule n a). rule_loads ix r" for n a using printed_rules(2) by fastforce
  show ?thesis using assms e d by (auto simp: kill_switch_chains_def Let_def)
qed

lemma kill_switch_fresh: "fold add_chain (kill_switch_chains f) [] = kill_switch_chains f"
  by (simp add: kill_switch_chains_def add_chain_def Let_def)

text \<open>The endpoints an output rule lets through.\<close>

definition endpoint_packet :: "string \<Rightarrow> packet \<Rightarrow> bool" where
  "endpoint_packet ep p \<longleftrightarrow> (\<exists>r \<in> set (endpoint_rule ep). rule_verdict r p = Some True)"

lemma endpoint_rule_accepts: "r \<in> set (endpoint_rule ep) \<Longrightarrow> rule_verdict r p \<noteq> Some False"
  by (auto dest!: printed_rules(1) split: if_splits)

definition allowed_by_kill_switch :: "linux_fw \<Rightarrow> packet \<Rightarrow> bool" where
  "allowed_by_kill_switch f p \<longleftrightarrow>
     (case pk_hook p of
        HookOutput \<Rightarrow> pk_out p = ''lo'' \<or> pk_out p \<in> fst ` set (lf_tunnels f) \<or> pk_established p \<or>
          pk_l4 p = Some Udp \<and> (pk_sport p = 68 \<and> pk_dport p = 67 \<or> pk_sport p = 546 \<and> pk_dport p = 547) \<or>
          (\<exists>(n, es) \<in> set (lf_tunnels f). \<exists>ep \<in> set es. endpoint_packet ep p)
      | HookInput \<Rightarrow> pk_in p = ''lo'' \<or> pk_in p \<in> fst ` set (lf_tunnels f) \<or> pk_established p \<or>
          pk_l4 p = Some Udp \<and> (pk_sport p = 67 \<and> pk_dport p = 68 \<or> pk_sport p = 547 \<and> pk_dport p = 546)
      | HookForward \<Rightarrow> pk_out p \<in> fst ` set (lf_tunnels f) \<or> pk_in p \<in> fst ` set (lf_tunnels f)
      | _ \<Rightarrow> True)"

lemma output_chain:
  "chain_accepts True ([AcceptOutLo, AcceptUdp 68 67, AcceptUdp 546 547] @ concat (map (\<lambda>(n, es). concat (map endpoint_rule es)) ts) @
     map AcceptOutDev (map fst ts) @ [AcceptEstablished]) p \<longleftrightarrow>
   pk_out p = ''lo'' \<or> pk_out p \<in> fst ` set ts \<or> pk_established p \<or>
     pk_l4 p = Some Udp \<and> (pk_sport p = 68 \<and> pk_dport p = 67 \<or> pk_sport p = 546 \<and> pk_dport p = 547) \<or>
     (\<exists>(n, es) \<in> set ts. \<exists>ep \<in> set es. endpoint_packet ep p)"
proof -
  let ?eps = "concat (map (\<lambda>(n, es). concat (map endpoint_rule es)) ts)"
  have no: "\<forall>r \<in> set ?eps. rule_verdict r p \<noteq> Some False" using endpoint_rule_accepts by auto
  have eps: "(\<exists>r \<in> set ?eps. rule_verdict r p = Some True) \<longleftrightarrow> (\<exists>(n, es) \<in> set ts. \<exists>ep \<in> set es. endpoint_packet ep p)"
    by (simp only: endpoint_rules_in endpoint_packet_def)
  have devs: "(\<exists>r \<in> set (map AcceptOutDev (map fst ts)). rule_verdict r p = Some True) \<longleftrightarrow> pk_out p \<in> fst ` set ts" by auto
  have "\<forall>r \<in> set ([AcceptOutLo, AcceptUdp 68 67, AcceptUdp 546 547] @ ?eps @ map AcceptOutDev (map fst ts) @ [AcceptEstablished]).
      rule_verdict r p \<noteq> Some False"
    unfolding set_append ball_Un by (intro conjI no) (auto split: if_splits)
  note accept_chain[OF this]
  also have "(\<exists>r \<in> set ([AcceptOutLo, AcceptUdp 68 67, AcceptUdp 546 547] @ ?eps @ map AcceptOutDev (map fst ts) @ [AcceptEstablished]).
      rule_verdict r p = Some True) \<longleftrightarrow> (\<exists>r \<in> set [AcceptOutLo, AcceptUdp 68 67, AcceptUdp 546 547]. rule_verdict r p = Some True) \<or>
      (\<exists>r \<in> set ?eps. rule_verdict r p = Some True) \<or> (\<exists>r \<in> set (map AcceptOutDev (map fst ts)). rule_verdict r p = Some True) \<or>
      pk_established p" by (simp only: set_append bex_Un) simp
  finally show ?thesis unfolding eps devs by auto
qed

lemma input_chain:
  "chain_accepts True ([AcceptInLo] @ map AcceptInDev ns @ [AcceptUdp 67 68, AcceptUdp 547 546, AcceptEstablished]) p \<longleftrightarrow>
   pk_in p = ''lo'' \<or> pk_in p \<in> set ns \<or> pk_established p \<or>
     pk_l4 p = Some Udp \<and> (pk_sport p = 67 \<and> pk_dport p = 68 \<or> pk_sport p = 547 \<and> pk_dport p = 546)"
  by (subst accept_chain) (auto split: if_splits)

lemma forward_chain:
  "chain_accepts True (concat (map (\<lambda>n. [AcceptOutDev n, AcceptInDev n]) ns)) p \<longleftrightarrow> pk_out p \<in> set ns \<or> pk_in p \<in> set ns"
  by (subst accept_chain) (auto split: if_splits)

lemma kill_switch_passes:
  assumes "nv_tables v nftTable = Some (kill_switch_chains f)" "pk_hook p \<noteq> HookPrerouting" "pk_hook p \<noteq> HookPostrouting"
  shows "passes_table v nftTable p \<longleftrightarrow> allowed_by_kill_switch f p"
  using assms output_chain[of "lf_tunnels f" p] input_chain[of "map fst (lf_tunnels f)" p] forward_chain[of "map fst (lf_tunnels f)" p]
  by (cases "pk_hook p") (simp_all add: passes_table_def kill_switch_chains_def allowed_by_kill_switch_def Let_def)

end
