(* ===== verification/LinuxFirewallProps.thy ===== *)
theory LinuxFirewallProps
  imports LinuxFirewall
begin

text \<open>
  What the Linux firewall does: port 53 passes only through the owning tunnel to its servers, the kill switch passes
  exactly what it lists, and the kernel's rule set stays that of the manager.
\<close>

section \<open>Port 53\<close>

definition dns_packet :: "packet \<Rightarrow> bool" where
  "dns_packet p \<longleftrightarrow> pk_hook p = HookOutput \<and> pk_dport p = 53 \<and> (pk_l4 p = Some Tcp \<or> pk_l4 p = Some Udp)"

definition to_server :: "string list \<Rightarrow> packet \<Rightarrow> bool" where
  "to_server servers p \<longleftrightarrow> (\<exists>s \<in> set servers. net_parse_ip s \<noteq> None \<and> to_host (if CHR '':'' \<in> set s then Ip6 else Ip) s p)"

lemma dns_rules_verdict:
  assumes "dns_packet p"
  shows "(\<exists>r \<in> set (dns_rules iface servers). rule_verdict r p \<noteq> None) \<longleftrightarrow> pk_out p = iface \<and> to_server servers p"
    and "r \<in> set (dns_rules iface servers) \<Longrightarrow> rule_verdict r p \<noteq> Some False"
  using assms by (auto simp: dns_rules_def to_server_def dns_packet_def Let_def split: if_splits)

lemma chain_accepts_early:
  "\<exists>r \<in> set xs. rule_verdict r p \<noteq> None \<Longrightarrow> \<forall>r \<in> set xs. rule_verdict r p \<noteq> Some False \<Longrightarrow> chain_accepts b (xs @ ys) p"
  by (induction xs) (auto split: option.splits)

lemma dns_body:
  assumes "dns_packet p"
  shows "chain_accepts b (ch_rules (dns_chain iface servers) @ rest) p \<longleftrightarrow> pk_out p = ''lo'' \<or> pk_out p = iface \<and> to_server servers p"
proof -
  let ?xs = "[AcceptDnsLo Tcp, AcceptDnsLo Udp] @ dns_rules iface servers" and ?ys = "[DropDns Tcp, DropDns Udp] @ rest"
  have some: "(\<exists>r \<in> set ?xs. rule_verdict r p \<noteq> None) \<longleftrightarrow> pk_out p = ''lo'' \<or> pk_out p = iface \<and> to_server servers p"
    unfolding set_append bex_Un dns_rules_verdict(1)[OF assms] using assms by (auto simp: dns_packet_def)
  have none: "\<forall>r \<in> set ?xs. rule_verdict r p \<noteq> Some False"
    unfolding set_append ball_Un using dns_rules_verdict(2)[OF assms] by (auto split: if_splits)
  have drop: "\<not> chain_accepts b ?ys p" using assms by (auto simp: dns_packet_def)
  have "chain_accepts b (?xs @ ?ys) p \<longleftrightarrow> (\<exists>r \<in> set ?xs. rule_verdict r p \<noteq> None)"
    using chain_append[of b ?xs ?ys p] chain_accepts_early[OF _ none, of b ?ys] drop by auto
  moreover have "ch_rules (dns_chain iface servers) @ rest = ?xs @ ?ys" by (simp add: dns_chain_def)
  ultimately show ?thesis by (simp only: some)
qed

lemma other_body:
  assumes "pk_dport p \<noteq> 53 \<or> pk_l4 p = None"
  shows "chain_accepts False (ch_rules (dns_chain iface servers)) p"
proof -
  have "\<forall>r \<in> set (dns_rules iface servers). \<exists>kw s l. r = AcceptDns kw s l iface" by (auto simp: dns_rules_def Let_def)
  then have "\<forall>r \<in> set (dns_rules iface servers). rule_verdict r p = None" using assms by fastforce
  then have "chain_accepts False (dns_rules iface servers @ [DropDns Tcp, DropDns Udp]) p"
    unfolding chain_append using assms by auto
  then show ?thesis using assms by (auto simp: dns_chain_def)
qed

lemma apply_view:
  assumes "documented nft_effect view (nft_run t)" "nftApply t n body k = (k', True)"
  shows "nv_tables (view k') = (nv_tables (view k))(n := Some (fold add_chain body (case nv_tables (view k) n of None \<Rightarrow> [] | Some cs \<Rightarrow> cs)))"
proof -
  have "nft_run t (Apply n body) k = (k', True)" using assms(2) by (simp add: nftApply_def)
  from documentedD(1)[OF assms(1) this] have "view k' = (view k)\<lparr>nv_tables := (nv_tables (view k))(n := Some (fold add_chain body
      (case nv_tables (view k) n of None \<Rightarrow> [] | Some cs \<Rightarrow> cs)))\<rparr>" by (simp split: if_splits)
  then show ?thesis by simp
qed

lemma delete_table_view:
  assumes "documented nft_effect view (nft_run t)" "delete_table t n old k = (k', err)" "m \<noteq> old"
  shows "nv_tables (view k') m = (if m = n \<and> err = None then None else nv_tables (view k) m)"
proof -
  obtain k1 ok1 where r1: "nft_run t (DeleteTable n) k = (k1, ok1)" by fastforce
  obtain k2 ok2 where r2: "nft_run t (DeleteTable old) k1 = (k2, ok2)" by fastforce
  have "nv_tables (view k2) m = nv_tables (view k1) m"
    using documentedD[OF assms(1) r2] assms(3) by (cases ok2) (auto split: if_splits dest!: sym[of _ "view k2"])
  moreover have "nv_tables (view k1) m = (if m = n \<and> ok1 then None else nv_tables (view k) m)"
    using documentedD[OF assms(1) r1] by (cases ok1) (auto split: if_splits dest!: sym[of _ "view k1"])
  ultimately show ?thesis using assms(2) by (auto simp: delete_table_def r1 r2 Let_def split: if_splits)
qed

lemma dns_up_table:
  assumes "documented nft_effect view (nft_run t)" "EnableDNSProtection t iface servers f k = (f', k', True)" "servers \<noteq> []"
    "nv_tables (view k) nftDnsTable = None"
  shows "nv_tables (view k') nftDnsTable = Some [dns_chain iface servers] \<and> lf_dns f'"
proof -
  have r: "nftApply t nftDnsTable [dns_chain iface servers] k = (k', True)" and f: "lf_dns f'"
    using assms(2,3) by (auto simp: EnableDNSProtection_def split: if_splits prod.splits)
  show ?thesis using f apply_view[OF assms(1) r] assms(4) by (simp add: add_chain_def)
qed

lemma dns_chain_kind [simp]: "ch_hook (dns_chain iface servers) = HookOutput" "ch_drops (dns_chain iface servers) = False"
  by (simp_all add: dns_chain_def)

lemma dns_up:
  assumes "documented nft_effect view (nft_run t)" "EnableDNSProtection t iface servers f k = (f', k', True)" "servers \<noteq> []"
    "nv_tables (view k) nftDnsTable = None" "dns_packet p"
  shows "passes_table (view k') nftDnsTable p \<longleftrightarrow> pk_out p = ''lo'' \<or> pk_out p = iface \<and> to_server servers p"
  using dns_up_table[OF assms(1-4)] dns_body[OF assms(5), of False iface servers "[]"] assms(5)
  by (simp add: passes_table_def dns_packet_def)

text \<open>Once the port 53 enforcement of a tunnel is up on a machine without one, a DNS packet leaves exactly if it goes
  to the loopback, or through the tunnel to one of its servers, whatever interface or resolver a process picks; no
  other packet is touched, and when it is taken down every packet passes again.\<close>

theorem dns_enforced:
  assumes "documented nft_effect view (nft_run t)"
    and "EnableDNSProtection t iface servers f k = (f', k', True)" and "servers \<noteq> []"
    and "nv_tables (view k) nftDnsTable = None"
  shows "lf_dns f' \<and> (dns_packet p \<longrightarrow> (passes_table (view k') nftDnsTable p \<longleftrightarrow> pk_out p = ''lo'' \<or> pk_out p = iface \<and> to_server servers p)) \<and>
    (pk_dport p \<noteq> 53 \<or> pk_l4 p = None \<longrightarrow> passes_table (view k') nftDnsTable p) \<and>
    (snd (nftDeleteDNSTable t k') = None \<longrightarrow>
       (let (f2, k2, ok) = DisableDNSProtection t f' k' in \<not> lf_dns f2 \<and> passes_table (view k2) nftDnsTable p))"
proof -
  have "passes_table (view k2) nftDnsTable p" if "nftDeleteDNSTable t k' = (k2, None)" for k2
    using delete_table_view[OF assms(1) that[unfolded nftDeleteDNSTable_def], of nftDnsTable]
    by (simp add: passes_table_def nftDnsTable_def nftTable_def)
  then show ?thesis
    using dns_up_table[OF assms] dns_up[OF assms] other_body[of p iface servers]
    by (auto simp: passes_table_def DisableDNSProtection_def case_prod_beta prod_eq_iff)
qed

section \<open>A second tunnel on the path\<close>

text \<open>Enabling again without disabling appends behind the drop rules of the first tunnel.\<close>

lemma second_enable_blocks:
  assumes "documented nft_effect view (nft_run t)" and "EnableDNSProtection t b srvb f k = (f', k', True)" and "srvb \<noteq> []"
    and "nv_tables (view k) nftDnsTable = Some [dns_chain a srva]" and "dns_packet p" and "pk_out p = b" and "b \<noteq> a" and "b \<noteq> ''lo''"
  shows "\<not> passes_table (view k') nftDnsTable p"
proof -
  have r: "nftApply t nftDnsTable [dns_chain b srvb] k = (k', True)"
    using assms(2,3) by (auto simp: EnableDNSProtection_def split: if_splits prod.splits)
  have "nv_tables (view k') nftDnsTable = Some [(dns_chain a srva)\<lparr>ch_rules := ch_rules (dns_chain a srva) @ ch_rules (dns_chain b srvb)\<rparr>]"
    using apply_view[OF assms(1) r] assms(4) by (simp add: add_chain_def dns_chain_def)
  then show ?thesis using dns_body[OF assms(5), of _ a srva] assms(5-8) by (simp add: passes_table_def dns_packet_def dns_chain_def)
qed

section \<open>The kill switch\<close>

text \<open>The kernel's table is that of the manager's record.\<close>

definition in_step :: "linux_fw \<Rightarrow> nft_view \<Rightarrow> bool" where
  "in_step f v \<longleftrightarrow> nv_tables v nftTable = (if lf_kill_switch f then Some (kill_switch_chains f) else None)"

datatype ks_op = KsAdd string "string list" "string list" | KsRemove string | KsDisable | KsEnable string "string list" "string list"

fun ks_step :: "'k nft_tool \<Rightarrow> ks_op \<Rightarrow> linux_fw \<times> 'k \<Rightarrow> linux_fw \<times> 'k \<times> bool" where
  "ks_step t (KsAdd i as es) (f, k) = AddKillSwitchTunnel t i as es f k"
| "ks_step t (KsRemove i) (f, k) = RemoveKillSwitchTunnel t i f k"
| "ks_step t KsDisable (f, k) = DisableKillSwitch t f k"
| "ks_step t (KsEnable i as es) (f, k) = EnableKillSwitch t i as es f k"

text \<open>A run whose operations all report success; it enables the switch only while it is off.\<close>

fun is_enable :: "ks_op \<Rightarrow> bool" where
  "is_enable (KsEnable i as es) = True"
| "is_enable _ = False"

fun ks_run :: "'k nft_tool \<Rightarrow> ks_op list \<Rightarrow> linux_fw \<times> 'k \<Rightarrow> (linux_fw \<times> 'k) option" where
  "ks_run t [] s = Some s"
| "ks_run t (op # ops) s =
     (let (f, k, ok) = ks_step t op s in if ok \<and> \<not> (is_enable op \<and> lf_kill_switch (fst s)) then ks_run t ops (f, k) else None)"

text \<open>A tool that refuses nothing that is possible.\<close>

definition nft_obliging :: "('k \<Rightarrow> nft_view) \<Rightarrow> 'k nft_tool \<Rightarrow> bool" where
  "nft_obliging view t \<longleftrightarrow> documented nft_effect view (nft_run t) \<and> (\<forall>c. obliging nft_effect view (nft_run t) c)"

text \<open>A tool that may refuse anything, but says that a table does not exist only when that is so.\<close>

definition nft_honest :: "('k \<Rightarrow> nft_view) \<Rightarrow> 'k nft_tool \<Rightarrow> bool" where
  "nft_honest view t \<longleftrightarrow> documented nft_effect view (nft_run t) \<and>
     (\<forall>k. \<not> snd (nft_run t (DeleteTable nftTable) k) \<and> isNftNotFound (nft_msg t (DeleteTable nftTable) k) \<longrightarrow>
       nv_tables (view k) nftTable = None)"

lemma flush_view:
  assumes o: "nft_honest view t" and "nftFlush t k = (k', err)" and "err = None \<or> (\<exists>msg. err = Some msg \<and> isNftNotFound msg)"
  shows "nv_tables (view k') nftTable = None"
proof (cases err)
  case None
  then show ?thesis using delete_table_view[of view t nftTable "''wireguide''" k k' err nftTable] assms
    by (simp add: nft_honest_def nftFlush_def nftTable_def)
next
  case (Some msg)
  then have r: "nft_run t (DeleteTable nftTable) k = (k', False)" and m: "msg = nft_msg t (DeleteTable nftTable) k"
    using assms(2) by (auto simp: nftFlush_def delete_table_def split: prod.splits if_splits)
  have "nv_tables (view k) nftTable = None" using o r m Some assms(3) by (simp add: nft_honest_def)
  then show ?thesis using documentedD(2)[of nft_effect view "nft_run t" _ k k' False] o r by (simp add: nft_honest_def)
qed

lemma apply_table:
  assumes "nft_honest view t" and "nv_tables (view k) nftTable = None" and "nftApply t nftTable (kill_switch_chains f) k = (k', True)"
  shows "nv_tables (view k') nftTable = Some (kill_switch_chains f)"
  using apply_view[OF _ assms(3), of view] assms(1,2) by (simp add: kill_switch_fresh nft_honest_def)

lemma apply_in_step:
  assumes "nft_honest view t" and "applyKillSwitchLocked t replacing f k = (k', True)"
    and "\<not> replacing \<Longrightarrow> nv_tables (view k) nftTable = None"
  shows "nv_tables (view k') nftTable = Some (kill_switch_chains f)"
proof -
  obtain k1 err where r: "(if replacing then nftFlush t k else (k, None)) = (k1, err)" by fastforce
  have a: "nftApply t nftTable (kill_switch_chains f) k1 = (k', True)" and e: "err = None \<or> (\<exists>msg. err = Some msg \<and> isNftNotFound msg)"
    using assms(2) unfolding applyKillSwitchLocked_def r by (auto split: option.splits if_splits)
  have "nv_tables (view k1) nftTable = None"
    using r e assms(3) flush_view[OF assms(1), of k k1 err] by (cases replacing) auto
  then show ?thesis by (rule apply_table[OF assms(1) _ a])
qed

lemma ks_step_in_step:
  assumes o: "nft_honest view t" and s: "in_step f (view k)" "ks_step t op (f, k) = (f', k', True)"
    and fresh: "\<not> (is_enable op \<and> lf_kill_switch f)"
  shows "in_step f' (view k')"
proof -
  note rep = apply_in_step[OF o, of True] and new = apply_in_step[OF o, of False]
  show ?thesis
  proof (cases op)
    case (KsAdd i as es)
    show ?thesis using s by (auto simp: KsAdd AddKillSwitchTunnel_def in_step_def case_prod_beta Let_def prod_eq_iff split: if_splits intro!: rep)
  next
    case (KsRemove i)
    show ?thesis using s by (auto simp: KsRemove RemoveKillSwitchTunnel_def in_step_def case_prod_beta Let_def prod_eq_iff split: if_splits intro!: rep)
  next
    case KsDisable
    show ?thesis using s flush_view[OF o, of k]
      by (auto simp: KsDisable DisableKillSwitch_def in_step_def split: prod.splits option.splits)
  next
    case (KsEnable i as es)
    show ?thesis using s fresh
      by (auto simp: KsEnable EnableKillSwitch_def in_step_def kill_switch_chains_def[abs_def] Let_def split: if_splits prod.splits dest!: new)
  qed
qed

lemma ks_run_in_step:
  assumes o: "nft_honest view t"
  shows "ks_run t ops s = Some s' \<Longrightarrow> in_step (fst s) (view (snd s)) \<Longrightarrow> in_step (fst s') (view (snd s'))"
proof (induction ops arbitrary: s)
  case (Cons op ops)
  obtain f k ok where st: "ks_step t op s = (f, k, ok)" by (metis prod_cases3)
  then have r: "ok" "\<not> (is_enable op \<and> lf_kill_switch (fst s))" "ks_run t ops (f, k) = Some s'"
    using Cons.prems(1) by (auto split: if_splits)
  have "in_step f (view k)"
    using ks_step_in_step[OF o Cons.prems(2) _ r(2)] st r(1) by simp
  with Cons.IH[OF r(3)] show ?case by simp
qed simp

text \<open>C19: Over any run of kill switch operations that all report success, on a tool that may refuse anything, as long as
  the switch is only enabled while it is off, the kernel holds exactly the rule set of the manager's record (none while the
  switch is off): while it is on, an incoming, outgoing or forwarded packet passes if and only if it belongs to a tunnel or
  endpoint on record, to the loopback, to DHCP, or to an established connection.\<close>

theorem kill_switch_in_step:
  assumes "nft_honest view t" and "nv_tables (view k0) nftTable = None"
    and "ks_run t ops (NewLinuxFirewall, k0) = Some (f, k)"
    and "pk_hook p \<noteq> HookPrerouting" and "pk_hook p \<noteq> HookPostrouting"
  shows "passes_table (view k) nftTable p \<longleftrightarrow> \<not> lf_kill_switch f \<or> allowed_by_kill_switch f p"
proof -
  have "in_step f (view k)"
    using ks_run_in_step[OF assms(1,3)] assms(2) by (simp add: in_step_def NewLinuxFirewall_def)
  then show ?thesis using kill_switch_passes[OF _ assms(4,5), of "view k" f] by (auto simp: in_step_def passes_table_def split: if_splits)
qed

section \<open>A machine\<close>

definition plain_nft :: "nft_view nft_tool" where
  "plain_nft = \<lparr>nft_run = (\<lambda>c v. case nft_effect c v of None \<Rightarrow> (v, False) | Some w \<Rightarrow> (w, True)),
     nft_msg = (\<lambda>c v. ''Error: No such file or directory'')\<rparr>"

definition bare_nft :: nft_view where
  "bare_nft = \<lparr>nv_tables = (\<lambda>n. None), nv_index = (\<lambda>i. Some 7)\<rparr>"

lemma plain_nft_obliging: "nft_obliging (\<lambda>v. v) plain_nft"
  by (auto simp: nft_obliging_def documented_def obliging_def plain_nft_def split: option.splits)

lemma plain_nft_honest: "nft_honest (\<lambda>v. v) plain_nft"
  using plain_nft_obliging by (auto simp: nft_honest_def nft_obliging_def plain_nft_def split: option.splits if_splits)

definition query :: "string \<Rightarrow> 32 word \<Rightarrow> packet" where
  "query dev dst = \<lparr>pk_hook = HookOutput, pk_in = '''', pk_out = dev, pk_dst = V4 dst, pk_l4 = Some Udp, pk_sport = 40000, pk_dport = 53,
     pk_established = False, pk_local = False\<rparr>"

text \<open>With the enforcement of \<open>wg0\<close> up a query to 8.8.8.8 through \<open>eth0\<close> is dropped.\<close>

theorem dns_enforced_witness:
  "\<not> passes_table (fst (snd (EnableDNSProtection plain_nft ''wg0'' [''10.0.0.1''] NewLinuxFirewall bare_nft))) nftDnsTable (query ''eth0'' 0x08080808)"
proof -
  let ?r = "EnableDNSProtection plain_nft ''wg0'' [''10.0.0.1''] NewLinuxFirewall bare_nft"
  have "snd (snd ?r)" by code_simp
  then have r: "?r = (fst ?r, fst (snd ?r), True)" by (simp add: prod_eq_iff)
  have "documented nft_effect (\<lambda>v. v) (nft_run plain_nft)" using plain_nft_obliging by (simp add: nft_obliging_def)
  from dns_enforced[OF this r, of "query ''eth0'' 0x08080808"] show ?thesis
    by (simp add: bare_nft_def dns_packet_def query_def)
qed

definition one_tunnel_up :: "(linux_fw \<times> nft_view) option" where
  "one_tunnel_up = ks_run plain_nft [KsEnable ''wg0'' [] [''198.51.100.7:51820'']] (NewLinuxFirewall, bare_nft)"

theorem kill_switch_in_step_witness:
  "\<exists>f v. one_tunnel_up = Some (f, v) \<and> lf_kill_switch f \<and> \<not> passes_table v nftTable (query ''eth0'' 0x08080808)"
proof -
  have "one_tunnel_up \<noteq> None \<and> lf_kill_switch (fst (the one_tunnel_up)) \<and>
    \<not> allowed_by_kill_switch (fst (the one_tunnel_up)) (query ''eth0'' 0x08080808)" by code_simp
  then obtain f v where up: "one_tunnel_up = Some (f, v)" "lf_kill_switch f" "\<not> allowed_by_kill_switch f (query ''eth0'' 0x08080808)"
    by (metis option.exhaust_sel prod.collapse)
  have "nv_tables bare_nft nftTable = None" by (simp add: bare_nft_def)
  from kill_switch_in_step[OF plain_nft_honest this up(1)[unfolded one_tunnel_up_def], of "query ''eth0'' 0x08080808"] up(2,3)
  have "\<not> passes_table v nftTable (query ''eth0'' 0x08080808)" by (simp add: query_def)
  with up show ?thesis by blast
qed

section \<open>Where the code falls short\<close>

text \<open>A tool that deletes but refuses to load: the operation reports the error, and the switch stays on for the manager and
  is off in the kernel.\<close>

definition stuck_nft :: "nft_view nft_tool" where
  "stuck_nft = \<lparr>nft_run = (\<lambda>c v. case c of Apply n body \<Rightarrow> (v, False) | DeleteTable n \<Rightarrow> nft_run plain_nft c v),
     nft_msg = (\<lambda>c v. ''busy'')\<rparr>"

lemma failed_replace_opens:
  "(let (f, v, ok) = ks_step plain_nft (KsEnable '''' [] []) (NewLinuxFirewall, bare_nft);
        (f', v', ok') = ks_step stuck_nft (KsRemove ''wg0'') (f, v)
    in ok \<and> \<not> ok' \<and> lf_kill_switch f' \<and> passes_table v' nftTable (query ''eth0'' 0x08080808) \<and>
       \<not> passes_table v nftTable (query ''eth0'' 0x08080808))"
  by code_simp

text \<open>Enabling while the switch is on appends to the table: what the first call let through stays open although the record
  of the manager has forgotten it.\<close>

definition wg0_on :: linux_fw where
  "wg0_on = NewLinuxFirewall\<lparr>lf_kill_switch := True, lf_tunnels := [(''wg0'', [])], lf_addresses := [(''wg0'', [])]\<rparr>"

definition wg0_kernel :: nft_view where
  "wg0_kernel = bare_nft\<lparr>nv_tables := (\<lambda>n. if n = nftTable then Some (kill_switch_chains wg0_on) else None)\<rparr>"

lemma second_enable_keeps_permits:
  "in_step wg0_on wg0_kernel \<and>
   (let (f, v, ok) = EnableKillSwitch plain_nft ''wg1'' [] [] wg0_on wg0_kernel
    in ok \<and> lf_tunnels f = [(''wg1'', [])] \<and> passes_table v nftTable (query ''wg0'' 0x08080808))"
proof
  show "in_step wg0_on wg0_kernel" by (simp add: in_step_def wg0_kernel_def wg0_on_def)
  show "let (f, v, ok) = EnableKillSwitch plain_nft ''wg1'' [] [] wg0_on wg0_kernel
    in ok \<and> lf_tunnels f = [(''wg1'', [])] \<and> passes_table v nftTable (query ''wg0'' 0x08080808)" by code_simp
qed

text \<open>Two tunnels on the DNS path one after the other: the second one cannot resolve.\<close>

lemma takeover_blocks_dns:
  "(let (f, v, ok) = EnableDNSProtection plain_nft ''wg0'' [''10.0.0.1''] NewLinuxFirewall bare_nft;
        (f', v', ok') = EnableDNSProtection plain_nft ''wg1'' [''10.9.0.1''] f v
    in ok \<and> ok' \<and> \<not> passes_table v' nftDnsTable (query ''wg1'' 0x0A090001))"
  by code_simp

end
