(* ===== verification/FirewallContract.thy ===== *)
theory FirewallContract
  imports DarwinFirewall LinuxFirewallProps
begin

text \<open>
  The port 53 part of the \<open>FirewallManager\<close> interface (\<open>internal/firewall/interface.go\<close>) as a locale, proved of the
  Linux and of the macOS model, and what macOS leaves behind when the enforcement or the process ends.
\<close>

section \<open>The contract\<close>

text \<open>
  \<open>ready\<close> states accept an owner of the DNS path; while it owns it, a DNS packet passes exactly if it is one the owner
  lets through; disabling makes the state ready again.
\<close>

locale dns_enforcer =
  fixes enable :: "string \<Rightarrow> string list \<Rightarrow> 's \<Rightarrow> 's \<times> bool"
    and disable :: "'s \<Rightarrow> 's"
    and ready :: "'s \<Rightarrow> bool"
    and passes :: "'s \<Rightarrow> 'p \<Rightarrow> bool"
    and dns :: "'p \<Rightarrow> bool"
    and lets :: "string \<Rightarrow> string list \<Rightarrow> 'p \<Rightarrow> bool"
  assumes enforced: "ready s \<Longrightarrow> servers \<noteq> [] \<Longrightarrow> enable iface servers s = (s', True) \<Longrightarrow> dns p \<Longrightarrow> passes s' p \<longleftrightarrow> lets iface servers p"
    and released: "ready s \<Longrightarrow> ready (disable (fst (enable iface servers s)))"
begin

definition tenure :: "'s \<Rightarrow> string \<times> string list \<Rightarrow> 's" where
  "tenure s own = disable (fst (enable (fst own) (snd own) s))"

lemma tenures_ready: "ready s \<Longrightarrow> ready (foldl tenure s owners)"
  by (induction owners arbitrary: s) (auto simp: tenure_def released)

lemma next_owner_enforced:
  "ready s \<Longrightarrow> servers \<noteq> [] \<Longrightarrow> enable iface servers (foldl tenure s owners) = (s', True) \<Longrightarrow> dns p \<Longrightarrow>
   passes s' p \<longleftrightarrow> lets iface servers p"
  using enforced tenures_ready by blast

end

section \<open>Linux\<close>

text \<open>The whole state: the view of the kernel, the tool, the manager and the kernel.\<close>

type_synonym 'k linux_state = "('k \<Rightarrow> nft_view) \<times> 'k nft_tool \<times> linux_fw \<times> 'k"

definition lin_enable :: "string \<Rightarrow> string list \<Rightarrow> 'k linux_state \<Rightarrow> 'k linux_state \<times> bool" where
  "lin_enable iface servers s = (case s of (w, t, f, k) \<Rightarrow> let (f, k, ok) = EnableDNSProtection t iface servers f k in ((w, t, f, k), ok))"

definition lin_disable :: "'k linux_state \<Rightarrow> 'k linux_state" where
  "lin_disable s = (case s of (w, t, f, k) \<Rightarrow> let (f, k, ok) = DisableDNSProtection t f k in (w, t, f, k))"

definition lin_ready :: "'k linux_state \<Rightarrow> bool" where
  "lin_ready s = (case s of (w, t, f, k) \<Rightarrow> nft_obliging w t \<and> nv_tables (w k) nftDnsTable = None)"

definition lin_passes :: "'k linux_state \<Rightarrow> packet \<Rightarrow> bool" where
  "lin_passes s p = (case s of (w, t, f, k) \<Rightarrow> passes_table (w k) nftDnsTable p)"

definition lin_lets :: "string \<Rightarrow> string list \<Rightarrow> packet \<Rightarrow> bool" where
  "lin_lets iface servers p \<longleftrightarrow> pk_out p = ''lo'' \<or> pk_out p = iface \<and> to_server servers p"

lemma dns_table_names: "nftDnsTable \<noteq> ''wireguide_dns''" "nftDnsTable \<noteq> nftTable"
  by (simp_all add: nftDnsTable_def nftTable_def)

lemma lin_released:
  assumes "nft_obliging w t"
  shows "nv_tables (w (fst (nftDeleteDNSTable t k))) nftDnsTable = None"
proof -
  have d: "documented nft_effect w (nft_run t)" using assms by (simp add: nft_obliging_def)
  obtain k' err where r: "nftDeleteDNSTable t k = (k', err)" by fastforce
  note v = delete_table_view[OF d r[unfolded nftDeleteDNSTable_def] dns_table_names(1)]
  show ?thesis
  proof (cases err)
    case (Some msg)
    then have "nft_run t (DeleteTable nftDnsTable) k = (k', False)"
      using r by (auto simp: nftDeleteDNSTable_def delete_table_def split: prod.splits if_splits)
    then have "nv_tables (w k) nftDnsTable = None"
      using assms unfolding nft_obliging_def obliging_def by (metis nft_effect.simps(2) option.distinct(1) snd_conv)
    then show ?thesis using v Some r by simp
  qed (use v r in simp)
qed

interpretation lin: dns_enforcer lin_enable lin_disable "lin_ready :: 'k linux_state \<Rightarrow> bool" lin_passes dns_packet lin_lets
proof unfold_locales
  fix s :: "'k linux_state" and servers iface s' p
  assume a: "lin_ready s" "servers \<noteq> []" "lin_enable iface servers s = (s', True)" "dns_packet p"
  obtain w t f k where s: "s = (w, t, f, k)" by (cases s) auto
  obtain f' k' where r: "EnableDNSProtection t iface servers f k = (f', k', True)" "s' = (w, t, f', k')"
    using a(3) by (auto simp: lin_enable_def s split: prod.splits)
  have d: "documented nft_effect w (nft_run t)" using a(1) by (simp add: lin_ready_def s nft_obliging_def)
  have n: "nv_tables (w k) nftDnsTable = None" using a(1) by (simp add: lin_ready_def s)
  from dns_up[OF d r(1) a(2) n a(4)] show "lin_passes s' p \<longleftrightarrow> lin_lets iface servers p" by (simp add: lin_passes_def r(2) lin_lets_def)
next
  fix s :: "'k linux_state" and iface servers
  assume "lin_ready s"
  then show "lin_ready (lin_disable (fst (lin_enable iface servers s)))"
    by (cases s) (auto simp: lin_ready_def lin_disable_def lin_enable_def DisableDNSProtection_def lin_released split: prod.splits)
qed

section \<open>macOS\<close>

text \<open>A pfctl that does what is documented, reports its status truthfully, and a state file that can be written.\<close>

definition pf_obliging :: "('k \<Rightarrow> pf_view) \<Rightarrow> 'k pf_tool \<Rightarrow> bool" where
  "pf_obliging w t \<longleftrightarrow> documented pf_effect w (pf_run t) \<and> (\<forall>c. obliging pf_effect w (pf_run t) c) \<and> pf_disk_ok t \<and>
     (\<forall>h. isPfEnabled t h \<longleftrightarrow> pv_on (w (ph_kernel h)))"

lemma pf_effect_some: "\<exists>v'. pf_effect c v = Some v'"
  by (cases c) auto

lemma pf_cmd_view:
  assumes "pf_obliging w t"
  shows "snd (pf_cmd_on t c h) \<and> pf_effect c (w (ph_kernel h)) = Some (w (ph_kernel (fst (pf_cmd_on t c h)))) \<and>
    ph_file (fst (pf_cmd_on t c h)) = ph_file h"
proof -
  obtain k ok where r: "pf_run t c (ph_kernel h) = (k, ok)" by fastforce
  have "ok" using assms pf_effect_some[of c "w (ph_kernel h)"] r unfolding pf_obliging_def obliging_def by (metis option.distinct(1) snd_conv)
  then show ?thesis using documentedD(1)[of pf_effect w "pf_run t" c "ph_kernel h" k ok] assms r by (simp add: pf_cmd_on_def pf_obliging_def)
qed

lemma pf_cmd_ok [simp]:
  assumes "pf_obliging w t"
  shows "snd (pf_cmd_on t c h)" "ph_file (fst (pf_cmd_on t c h)) = ph_file h"
    "w (ph_kernel (fst (pf_cmd_on t c h))) = the (pf_effect c (w (ph_kernel h)))"
  using pf_cmd_view[OF assms, of c h] by auto

lemma flush_all_view:
  assumes "pf_obliging w t"
  shows "pv_on (w (ph_kernel (fst (flushAllAnchors t h)))) = pv_on (w (ph_kernel h)) \<and>
    pv_default (w (ph_kernel (fst (flushAllAnchors t h)))) = pv_default (w (ph_kernel h)) \<and>
    ph_file (fst (flushAllAnchors t h)) = ph_file h \<and>
    (\<forall>a. pv_anchors (w (ph_kernel (fst (flushAllAnchors t h)))) a =
      (if a \<in> {anchorName, dnsAnchorName, ''com.apple/wireguide'', ''com.apple/wireguide/dns''} then [] else pv_anchors (w (ph_kernel h)) a))"
  using assms by (simp add: flushAllAnchors_def Let_def case_prod_beta)

definition pf_dns_packet :: "pf_packet \<Rightarrow> bool" where
  "pf_dns_packet p \<longleftrightarrow> pp_out p \<and> pp_l4 p \<noteq> None \<and> pp_dport p = 53"

definition pf_lets :: "string \<Rightarrow> string list \<Rightarrow> pf_packet \<Rightarrow> bool" where
  "pf_lets iface servers p \<longleftrightarrow> pp_dev p = iface \<and> (\<exists>s \<in> set servers. pf_to s p)"

lemma pf_dns_eval:
  assumes "pf_dns_packet p"
  shows "pf_eval sub (map (PassDns iface) servers @ [BlockDns]) b p \<longleftrightarrow> pf_lets iface servers p"
  using assms by (induction servers) (auto simp: pf_dns_packet_def pf_lets_def split: option.splits)

lemma pf_other_eval:
  assumes "\<not> pf_dns_packet p"
  shows "pf_eval sub (map (PassDns iface) servers @ [BlockDns]) b p = b"
  using assms by (induction servers) (auto simp: pf_dns_packet_def)

text \<open>The machine right after an enforcement without the kill switch.\<close>

lemma pf_dns_up:
  assumes o: "pf_obliging w t" and "\<not> df_kill_switch f" "servers \<noteq> []" "pf_EnableDNSProtection t iface servers f h = (f', h', True)"
  shows "pv_on (w (ph_kernel h')) \<and> pv_default (w (ph_kernel h')) \<and>
    pv_anchors (w (ph_kernel h')) = (pv_anchors (w (ph_kernel h)))(anchorName := map (PassDns iface) servers @ [BlockDns]) \<and>
    df_was_enabled f' = pv_on (w (ph_kernel h)) \<and> \<not> df_kill_switch f' \<and> df_dns f' \<and>
    ph_file h' = Some (if pv_on (w (ph_kernel h)) then ''1'' else ''0'')"
proof -
  have on: "isPfEnabled t h = pv_on (w (ph_kernel h))" and disk: "pf_disk_ok t" using o by (simp_all add: pf_obliging_def)
  have "pf_dns_rules iface servers = Some (map (PassDns iface) servers @ [BlockDns])"
    using assms(3,4) by (auto simp: pf_EnableDNSProtection_def pf_dns_rules_def split: if_splits)
  then show ?thesis using assms on disk
    by (auto simp: pf_EnableDNSProtection_def Let_def case_prod_beta persistPfEnabledState_def split: if_splits)
qed

type_synonym 'k mac_state = "('k \<Rightarrow> pf_view) \<times> 'k pf_tool \<times> darwin_fw \<times> 'k pf_host"

definition mac_enable :: "string \<Rightarrow> string list \<Rightarrow> 'k mac_state \<Rightarrow> 'k mac_state \<times> bool" where
  "mac_enable iface servers s = (case s of (w, t, f, h) \<Rightarrow> let (f, h, ok) = pf_EnableDNSProtection t iface servers f h in ((w, t, f, h), ok))"

definition mac_disable :: "'k mac_state \<Rightarrow> 'k mac_state" where
  "mac_disable s = (case s of (w, t, f, h) \<Rightarrow> let (f, h) = pf_DisableDNSProtection t f h in (w, t, f, h))"

definition mac_ready :: "'k mac_state \<Rightarrow> bool" where
  "mac_ready s = (case s of (w, t, f, h) \<Rightarrow> pf_obliging w t \<and> \<not> df_kill_switch f)"

definition mac_passes :: "'k mac_state \<Rightarrow> pf_packet \<Rightarrow> bool" where
  "mac_passes s p = (case s of (w, t, f, h) \<Rightarrow> pf_passes (w (ph_kernel h)) p)"

lemma pf_switch_kept:
  "df_kill_switch (fst (pf_EnableDNSProtection t iface servers f h)) = df_kill_switch f"
  "df_kill_switch (fst (pf_DisableDNSProtection t f h)) = df_kill_switch f"
  by (auto simp: pf_EnableDNSProtection_def pf_DisableDNSProtection_def Let_def case_prod_beta split: option.splits)

interpretation mac: dns_enforcer mac_enable mac_disable "mac_ready :: 'k mac_state \<Rightarrow> bool" mac_passes pf_dns_packet pf_lets
proof unfold_locales
  fix s :: "'k mac_state" and servers iface s' p
  assume a: "mac_ready s" "servers \<noteq> []" "mac_enable iface servers s = (s', True)" "pf_dns_packet p"
  obtain w t f h where s: "s = (w, t, f, h)" by (cases s) auto
  obtain f' h' where r: "pf_EnableDNSProtection t iface servers f h = (f', h', True)" "s' = (w, t, f', h')"
    using a(3) by (auto simp: mac_enable_def s split: prod.splits)
  have "pf_obliging w t" "\<not> df_kill_switch f" using a(1) by (simp_all add: mac_ready_def s)
  from pf_dns_up[OF this a(2) r(1)] pf_dns_eval[OF a(4)] show "mac_passes s' p \<longleftrightarrow> pf_lets iface servers p"
    by (simp add: mac_passes_def r(2) pf_passes_def)
next
  fix s :: "'k mac_state" and iface servers
  assume "mac_ready s"
  then show "mac_ready (mac_disable (fst (mac_enable iface servers s)))"
    by (cases s) (auto simp: mac_ready_def mac_disable_def mac_enable_def case_prod_beta pf_switch_kept)
qed

text \<open>C11: On both systems, with tools that do what is asked, after any history of tunnels owning the DNS path one after
  the other (each enforcement taken down before the next, whether or not it had come up), the enforcement of the next
  owner lets a DNS packet through exactly if it goes through that tunnel to one of its own servers; on Linux also if
  it goes to the loopback. On macOS the kill switch is off, on Linux no enforcement was there at first.\<close>

theorem every_owner_enforced:
  "(nft_obliging w t \<and> nv_tables (w k) nftDnsTable = None \<and> servers \<noteq> [] \<and> dns_packet p \<and>
     lin_enable iface servers (foldl lin.tenure (w, t, f, k) owners) = (s, True) \<longrightarrow>
     lin_passes s p = (pk_out p = ''lo'' \<or> pk_out p = iface \<and> to_server servers p)) \<and>
   (pf_obliging w' t' \<and> \<not> df_kill_switch f' \<and> servers' \<noteq> [] \<and> pf_dns_packet q \<and>
     mac_enable iface' servers' (foldl mac.tenure (w', t', f', h') owners') = (s', True) \<longrightarrow>
     mac_passes s' q = (pp_dev q = iface' \<and> (\<exists>s \<in> set servers'. pf_to s q)))"
  using lin.next_owner_enforced[of "(w, t, f, k)" servers iface owners s p]
    mac.next_owner_enforced[of "(w', t', f', h')" servers' iface' owners' s' q]
  by (auto simp: lin_ready_def lin_lets_def mac_ready_def pf_lets_def)

section \<open>What macOS gives back\<close>

text \<open>C23: With the kill switch off, and on a pf whose commands do what is asked: when the enforcement is enabled once and
  the next thing is that it ends, or that the helper dies and a new one recovers from the saved state, then pf is on
  exactly if it was on before the enabling, both anchors are empty and the state file is gone.\<close>

theorem pf_given_back:
  assumes o: "pf_obliging w t" and "\<not> df_kill_switch f" and "servers \<noteq> []"
    and up: "pf_EnableDNSProtection t iface servers f h = (f', h', True)"
    and "h2 = snd (pf_DisableDNSProtection t f' h') \<or> h2 = fst (RecoverSavedRules t h')"
  shows "pv_on (w (ph_kernel h2)) = pv_on (w (ph_kernel h)) \<and> pv_anchors (w (ph_kernel h2)) anchorName = [] \<and>
    pv_anchors (w (ph_kernel h2)) dnsAnchorName = [] \<and> ph_file h2 = None \<and> snd (RecoverSavedRules t h')"
proof -
  note u = pf_dns_up[OF o assms(2,3) up]
  have t1: "trim_space ''1'' = ''1''" and t0: "trim_space ''0'' \<noteq> ''1''" by code_simp+
  have r: "readPersistedPfState h' = pv_on (w (ph_kernel h))" using u t1 t0 by (simp add: readPersistedPfState_def)
  show ?thesis using assms(5) u r flush_all_view[OF o, of h'] o
    by (auto simp: pf_DisableDNSProtection_def RecoverSavedRules_def removePfStateFile_def Let_def case_prod_beta)
qed

section \<open>A machine\<close>

definition plain_pf :: "pf_view pf_tool" where
  "plain_pf = \<lparr>pf_run = (\<lambda>c v. (the (pf_effect c v), True)),
     pf_status = (\<lambda>v. Some (if pv_on v then ''Status: Enabled'' else ''Status: Disabled'')), pf_disk_ok = True\<rparr>"

definition bare_pf :: "pf_view pf_host" where
  "bare_pf = \<lparr>ph_kernel = \<lparr>pv_on = False, pv_default = False, pv_anchors = (\<lambda>a. [])\<rparr>, ph_file = None\<rparr>"

lemma plain_pf_obliging: "pf_obliging (\<lambda>v. v) plain_pf"
proof -
  have s: "str_contains ''Status: Enabled'' ''Status: Enabled''" "\<not> str_contains ''Status: Disabled'' ''Status: Enabled''" by code_simp+
  have "pf_effect c v = Some (the (pf_effect c v))" for c v using pf_effect_some[of c v] by auto
  then show ?thesis using s by (auto simp: pf_obliging_def documented_def obliging_def plain_pf_def isPfEnabled_def)
qed

definition pf_query :: "string \<Rightarrow> 32 word \<Rightarrow> pf_packet" where
  "pf_query dev dst = \<lparr>pp_out = True, pp_dev = dev, pp_dst = V4 dst, pp_l4 = Some PfUdp, pp_sport = 40000, pp_dport = 53\<rparr>"

definition lin0 :: "nft_view linux_state" where
  "lin0 = (\<lambda>v. v, plain_nft, NewLinuxFirewall, bare_nft)"

definition mac0 :: "pf_view mac_state" where
  "mac0 = (\<lambda>v. v, plain_pf, NewDarwinFirewall, bare_pf)"

lemma plain_nft_index: "nv_index (fst (nft_run plain_nft c v)) = nv_index v"
  by (cases c) (auto simp: plain_nft_def)

lemma plain_enables:
  assumes "validIfaceName iface" "\<forall>i. nv_index k i \<noteq> None"
  shows "snd (lin_enable iface servers (w, plain_nft, f, k))"
proof -
  have "rule_loads (nv_index k) r" for r using assms(2) by (cases r) auto
  then show ?thesis using assms(1) by (simp add: lin_enable_def EnableDNSProtection_def nftApply_def plain_nft_def)
qed

lemma plain_tenure_index:
  "\<exists>f' k'. lin.tenure (w, plain_nft, f, k) own = (w, plain_nft, f', k') \<and> nv_index k' = nv_index k"
  by (auto simp: lin.tenure_def lin_enable_def lin_disable_def EnableDNSProtection_def DisableDNSProtection_def nftApply_def
        nftDeleteDNSTable_def delete_table_def case_prod_beta plain_nft_index Let_def)

lemma obliging_pf_enables:
  assumes "pf_obliging w t" "valid_utun iface" "list_all (\<lambda>s. net_parse_ip s \<noteq> None) servers"
  shows "snd (mac_enable iface servers (w, t, f, h))"
  using assms by (auto simp: mac_enable_def pf_EnableDNSProtection_def pf_dns_rules_def Let_def case_prod_beta)

lemma mac_tenure_tool: "\<exists>f' h'. mac.tenure (w, t, f, h) own = (w, t, f', h')"
  by (auto simp: mac.tenure_def mac_enable_def mac_disable_def case_prod_beta Let_def)

lemma owners_run:
  "snd (lin_enable ''wg1'' [''10.9.0.1''] (foldl lin.tenure lin0 [(''wg0'', [''10.0.0.1''])]))"
  "snd (mac_enable ''utun4'' [''10.9.0.1''] (foldl mac.tenure mac0 [(''utun3'', [''10.0.0.1''])]))"
proof -
  have n: "validIfaceName ''wg1''" "valid_utun ''utun4''" "net_parse_ip ''10.9.0.1'' \<noteq> None" by code_simp+
  obtain f k where l: "lin.tenure lin0 (''wg0'', [''10.0.0.1'']) = (\<lambda>v. v, plain_nft, f, k)" "nv_index k = nv_index bare_nft"
    using plain_tenure_index[of "\<lambda>v. v" NewLinuxFirewall bare_nft "(''wg0'', [''10.0.0.1''])"] by (auto simp: lin0_def)
  show "snd (lin_enable ''wg1'' [''10.9.0.1''] (foldl lin.tenure lin0 [(''wg0'', [''10.0.0.1''])]))"
    using plain_enables[OF n(1), of k] by (simp add: l bare_nft_def)
  obtain f' h' where m: "mac.tenure mac0 (''utun3'', [''10.0.0.1'']) = (\<lambda>v. v, plain_pf, f', h')"
    using mac_tenure_tool[of "\<lambda>v. v" plain_pf NewDarwinFirewall bare_pf "(''utun3'', [''10.0.0.1''])"] by (auto simp: mac0_def)
  show "snd (mac_enable ''utun4'' [''10.9.0.1''] (foldl mac.tenure mac0 [(''utun3'', [''10.0.0.1''])]))"
    using obliging_pf_enables[OF plain_pf_obliging n(2), of "[''10.9.0.1'']"] n(3) by (simp add: m)
qed

theorem every_owner_enforced_witness:
  "\<not> lin_passes (fst (lin_enable ''wg1'' [''10.9.0.1''] (foldl lin.tenure lin0 [(''wg0'', [''10.0.0.1''])]))) (query ''wg0'' 0x0A000001) \<and>
   \<not> mac_passes (fst (mac_enable ''utun4'' [''10.9.0.1''] (foldl mac.tenure mac0 [(''utun3'', [''10.0.0.1''])]))) (pf_query ''utun3'' 0x0A000001)"
proof -
  let ?l = "lin_enable ''wg1'' [''10.9.0.1''] (foldl lin.tenure lin0 [(''wg0'', [''10.0.0.1''])])"
  let ?m = "mac_enable ''utun4'' [''10.9.0.1''] (foldl mac.tenure mac0 [(''utun3'', [''10.0.0.1''])])"
  have l: "?l = (fst ?l, True)" and m: "?m = (fst ?m, True)" using owners_run by (simp_all only: prod_eq_iff fst_conv snd_conv)
  note e = every_owner_enforced[where w = "\<lambda>v. v" and t = plain_nft and f = NewLinuxFirewall and k = bare_nft
      and servers = "[''10.9.0.1'']" and iface = "''wg1''" and owners = "[(''wg0'', [''10.0.0.1''])]" and s = "fst ?l"
      and p = "query ''wg0'' 0x0A000001" and w' = "\<lambda>v. v" and t' = plain_pf and f' = NewDarwinFirewall and h' = bare_pf
      and servers' = "[''10.9.0.1'']" and iface' = "''utun4''" and owners' = "[(''utun3'', [''10.0.0.1''])]" and s' = "fst ?m"
      and q = "pf_query ''utun3'' 0x0A000001", folded lin0_def mac0_def]
  have d: "dns_packet (query ''wg0'' 0x0A000001)" "pf_dns_packet (pf_query ''utun3'' 0x0A000001)"
    by (simp_all add: dns_packet_def query_def pf_dns_packet_def pf_query_def)
  have dev: "pk_out (query ''wg0'' 0x0A000001) = ''wg0''" "pp_dev (pf_query ''utun3'' 0x0A000001) = ''utun3''"
    by (simp_all add: query_def pf_query_def)
  have n: "nv_tables bare_nft nftDnsTable = None" "\<not> df_kill_switch NewDarwinFirewall"
    by (simp_all add: bare_nft_def NewDarwinFirewall_def)
  have "lin_passes (fst ?l) (query ''wg0'' 0x0A000001) = (''wg0'' = ''lo'' \<or> ''wg0'' = ''wg1'' \<and> to_server [''10.9.0.1''] (query ''wg0'' 0x0A000001))"
    using e[THEN conjunct1] plain_nft_obliging n(1) d(1) l unfolding dev(1) by blast
  moreover have "mac_passes (fst ?m) (pf_query ''utun3'' 0x0A000001) = (''utun3'' = ''utun4'' \<and> (\<exists>s \<in> set [''10.9.0.1'']. pf_to s (pf_query ''utun3'' 0x0A000001)))"
    using e[THEN conjunct2] plain_pf_obliging n(2) d(2) m unfolding dev(2) by blast
  ultimately show ?thesis by (simp del: foldl.simps)
qed

theorem pf_given_back_witness:
  "\<not> pv_on (ph_kernel (fst (RecoverSavedRules plain_pf (fst (snd (pf_EnableDNSProtection plain_pf ''utun3'' [''10.0.0.1''] NewDarwinFirewall bare_pf))))))"
proof -
  let ?r = "pf_EnableDNSProtection plain_pf ''utun3'' [''10.0.0.1''] NewDarwinFirewall bare_pf"
  have "snd (snd ?r)" by code_simp
  then have r: "?r = (fst ?r, fst (snd ?r), True)" by (simp add: prod_eq_iff)
  show ?thesis
    using pf_given_back[OF plain_pf_obliging _ _ r disjI2[OF refl]] by (simp add: NewDarwinFirewall_def bare_pf_def)
qed

section \<open>Where macOS falls short\<close>

text \<open>A configuration that lists a search domain beside its servers is refused: nothing is enforced.\<close>

lemma search_domain_defeats_enforcement:
  "pf_EnableDNSProtection t iface [''10.0.0.1'', ''corp.example''] f h = (f, h, False)"
proof -
  have "net_parse_ip ''corp.example'' = None" by code_simp
  then show ?thesis by (simp add: pf_EnableDNSProtection_def pf_dns_rules_def)
qed

text \<open>A tunnel that takes the path over remembers pf as it found it, on: pf stays on for good, also after a crash.\<close>

lemma takeover_keeps_pf_on:
  "(let (f1, h1, ok1) = pf_EnableDNSProtection plain_pf ''utun3'' [''10.0.0.1''] NewDarwinFirewall bare_pf;
        (f2, h2, ok2) = pf_EnableDNSProtection plain_pf ''utun4'' [''10.9.0.1''] f1 h1
    in ok1 \<and> ok2 \<and> pv_on (ph_kernel (snd (pf_DisableDNSProtection plain_pf f2 h2))) \<and> pv_on (ph_kernel (fst (RecoverSavedRules plain_pf h2))))"
  by code_simp

text \<open>With the kill switch on, the permit of a tunnel comes before the DNS anchor: inside any tunnel every resolver is reachable.\<close>

lemma kill_switch_bypasses_dns:
  "(let (f1, h1, ok1) = pf_EnableKillSwitch plain_pf ''utun3'' [] NewDarwinFirewall bare_pf;
        (f2, h2, ok2) = pf_EnableDNSProtection plain_pf ''utun3'' [''10.0.0.1''] f1 h1
    in ok1 \<and> ok2 \<and> pf_passes (ph_kernel h2) (pf_query ''utun3'' 0x08080808))"
  by code_simp

end
