(* ===== verification/IpcWire.thy ===== *)
theory IpcWire
  imports "HOL-Library.Word"
begin

text \<open>
  The wire between GUI and helper (\<open>internal/ipc/framing.go\<close>, \<open>protocol.go\<close>, \<open>server.go\<close>, \<open>client.go\<close>):
  length-prefixed frames over a byte stream, the request loop of a connection, and the client that matches responses to
  calls. A stream is the octets the peer sends before it closes or stalls past the deadline. Coding a message as JSON is a
  field of the environment.
\<close>

section \<open>Frames\<close>

type_synonym octets = "8 word list"

definition maxFrameSize :: nat where "maxFrameSize = 1048576"

definition put_be32 :: "32 word \<Rightarrow> octets" where
  "put_be32 n = [ucast (drop_bit 24 n), ucast (drop_bit 16 n), ucast (drop_bit 8 n), ucast n]"

fun get_be32 :: "octets \<Rightarrow> 32 word" where
  "get_be32 [a, b, c, d] = or (push_bit 24 (ucast a)) (or (push_bit 16 (ucast b)) (or (push_bit 8 (ucast c)) (ucast d)))"
| "get_be32 _ = 0"

text \<open>What \<open>WriteFrame\<close> hands to the connection in one write; \<open>None\<close> is an error before anything is written.\<close>

definition WriteFrame :: "octets option \<Rightarrow> octets option" where
  "WriteFrame marshalled =
     (case marshalled of
        None \<Rightarrow> None
      | Some data \<Rightarrow> (if maxFrameSize < length data then None else Some (put_be32 (of_nat (length data)) @ data)))"

text \<open>\<open>frameBytes\<close>, used for events, has no such check.\<close>

definition frameBytes :: "octets \<Rightarrow> octets" where
  "frameBytes data =
     (let n = int (length data)
      in [word_of_int (drop_bit 24 n), word_of_int (drop_bit 16 n), word_of_int (drop_bit 8 n), word_of_int n] @ data)"

datatype frame_error = NoHeader | TooLarge | EmptyFrame | ShortBody

text \<open>\<open>ReadFrameRaw\<close> with what is left of the stream.\<close>

definition ReadFrameRaw :: "octets \<Rightarrow> (frame_error + octets) \<times> octets" where
  "ReadFrameRaw s =
     (if length s < 4 then (Inl NoHeader, [])
      else let n = unat (get_be32 (take 4 s)); body = drop 4 s
           in if maxFrameSize < n then (Inl TooLarge, body)
              else if n = 0 then (Inl EmptyFrame, body)
              else if length body < n then (Inl ShortBody, [])
              else (Inr (take n body), drop n body))"

lemma read_shrinks: "ReadFrameRaw s = (Inr body, rest) \<Longrightarrow> length rest < length s"
  by (auto simp: ReadFrameRaw_def Let_def split: if_splits)

text \<open>A reader that goes on until an error, like \<open>eventLoop\<close>.\<close>

function read_frames :: "octets \<Rightarrow> octets list \<times> frame_error" where
  "read_frames s =
     (case ReadFrameRaw s of
        (Inl e, rest) \<Rightarrow> ([], e)
      | (Inr body, rest) \<Rightarrow> (body # fst (read_frames rest), snd (read_frames rest)))"
  by pat_completeness auto
termination by (relation "measure length") (auto intro: read_shrinks dest!: sym[of _ "ReadFrameRaw _"])

declare read_frames.simps [simp del]

section \<open>Requests and responses\<close>

record 'p request =
  rq_id :: "64 word"
  rq_method :: string
  rq_params :: 'p
  rq_transient :: bool

datatype 'v response = Success "64 word" 'v | Failure "64 word" int string

fun rs_id :: "'v response \<Rightarrow> 64 word" where
  "rs_id (Success i v) = i"
| "rs_id (Failure i c m) = i"

definition IsNotification :: "'p request \<Rightarrow> bool" where
  "IsNotification r \<longleftrightarrow> rq_id r = 0"

datatype app_error = AppError string | CodedError int string

definition MethodSubscribe :: string where "MethodSubscribe = ''Helper.Subscribe''"

text \<open>The handlers thread the state of the helper; \<open>rp_unfit\<close> is the error of a result that cannot be marshalled.\<close>

record ('p, 'v, 's) rpc =
  rp_handler :: "string \<Rightarrow> ('p \<Rightarrow> 's \<Rightarrow> 's \<times> (app_error + 'v)) option"
  rp_unfit :: "'v \<Rightarrow> string option"
  rp_decode :: "octets \<Rightarrow> 'p request option"
  rp_encode :: "'v response \<Rightarrow> octets option"
  rp_encode_rq :: "'p request \<Rightarrow> octets option"
  rp_decode_rs :: "octets \<Rightarrow> 'v response option"

definition dispatch :: "('p, 'v, 's) rpc \<Rightarrow> 'p request \<Rightarrow> 's \<Rightarrow> 's \<times> 'v response" where
  "dispatch env r s =
     (case rp_handler env (rq_method r) of
        None \<Rightarrow> (s, Failure (rq_id r) (-32601) (''method not found: '' @ rq_method r))
      | Some h \<Rightarrow>
          (case h (rq_params r) s of
             (s', Inl (AppError m)) \<Rightarrow> (s', Failure (rq_id r) (-32000) m)
           | (s', Inl (CodedError c m)) \<Rightarrow> (s', Failure (rq_id r) c m)
           | (s', Inr v) \<Rightarrow> (s', case rp_unfit env v of None \<Rightarrow> Success (rq_id r) v | Some m \<Rightarrow> Failure (rq_id r) (-32603) m)))"

section \<open>The request loop of a connection\<close>

text \<open>
  What the loop leaves: the octets written, whether the connection became a control connection, the state of the helper,
  and the id of a subscription it was upgraded for. \<open>room\<close> counts the writes the peer still takes.
\<close>

record 's conn_end =
  ce_sent :: octets
  ce_control :: bool
  ce_state :: 's
  ce_upgrade :: "64 word option"

function handleConn :: "('p, 'v, 's) rpc \<Rightarrow> nat \<Rightarrow> bool \<Rightarrow> 's \<Rightarrow> octets \<Rightarrow> 's conn_end" where
  "handleConn env room control s stream =
     (case ReadFrameRaw stream of
        (Inl e, rest) \<Rightarrow> \<lparr>ce_sent = [], ce_control = control, ce_state = s, ce_upgrade = None\<rparr>
      | (Inr body, rest) \<Rightarrow>
          (case rp_decode env body of
             None \<Rightarrow> \<lparr>ce_sent = [], ce_control = control, ce_state = s, ce_upgrade = None\<rparr>
           | Some r \<Rightarrow>
               (if rq_method r = MethodSubscribe then \<lparr>ce_sent = [], ce_control = control, ce_state = s, ce_upgrade = Some (rq_id r)\<rparr>
                else let control = (control \<or> \<not> rq_transient r)
                in if IsNotification r then handleConn env room control s rest
                else let (s', resp) = dispatch env r s
                in case WriteFrame (rp_encode env resp) of
                     None \<Rightarrow> \<lparr>ce_sent = [], ce_control = control, ce_state = s', ce_upgrade = None\<rparr>
                   | Some bs \<Rightarrow>
                       (if room = 0 then \<lparr>ce_sent = [], ce_control = control, ce_state = s', ce_upgrade = None\<rparr>
                        else let e = handleConn env (room - 1) control s' rest in e\<lparr>ce_sent := bs @ ce_sent e\<rparr>))))"
  by pat_completeness auto
termination by (relation "measure (\<lambda>(env, room, control, s, stream). length stream)") (auto intro: read_shrinks dest!: sym[of _ "ReadFrameRaw _"])

declare handleConn.simps [simp del]

section \<open>The client\<close>

definition NewRequest :: "64 word \<Rightarrow> bool \<Rightarrow> string \<times> 'p \<Rightarrow> 'p request" where
  "NewRequest i transient c = \<lparr>rq_id = i, rq_method = fst c, rq_params = snd c, rq_transient = transient\<rparr>"

text \<open>The requests of the calls of a client, numbered from the counter on.\<close>

fun number_calls :: "64 word \<Rightarrow> bool \<Rightarrow> (string \<times> 'p) list \<Rightarrow> 'p request list" where
  "number_calls nextID transient [] = []"
| "number_calls nextID transient (c # cs) = NewRequest (nextID + 1) transient c # number_calls (nextID + 1) transient cs"

text \<open>\<open>readLoop\<close>: a response goes to the call waiting for its id; each channel takes one. It ends at the first frame that cannot be read or decoded.\<close>

fun deliver :: "64 word set \<Rightarrow> 'v response list \<Rightarrow> (64 word \<Rightarrow> 'v response option) \<Rightarrow> (64 word \<Rightarrow> 'v response option)" where
  "deliver waiting [] got = got"
| "deliver waiting (r # rs) got =
     deliver waiting rs (if rs_id r \<in> waiting \<and> got (rs_id r) = None then got(rs_id r \<mapsto> r) else got)"

fun decode_all :: "(octets \<Rightarrow> 'a option) \<Rightarrow> octets list \<Rightarrow> 'a list" where
  "decode_all dec [] = []"
| "decode_all dec (b # bs) = (case dec b of None \<Rightarrow> [] | Some x \<Rightarrow> x # decode_all dec bs)"

definition readLoop :: "('p, 'v, 's) rpc \<Rightarrow> 64 word set \<Rightarrow> octets \<Rightarrow> (64 word \<Rightarrow> 'v response option)" where
  "readLoop env waiting stream = deliver waiting (decode_all (rp_decode_rs env) (fst (read_frames stream))) (\<lambda>i. None)"

definition majorOf :: "string \<Rightarrow> string" where
  "majorOf v = takeWhile (\<lambda>c. c \<noteq> CHR ''.'') v"

definition MajorVersionMatches :: "string \<Rightarrow> string \<Rightarrow> bool" where
  "MajorVersionMatches a b \<longleftrightarrow> majorOf a = majorOf b"

end
