(* ===== verification/IpcWireProps.thy ===== *)
theory IpcWireProps
  imports IpcWire
begin

text \<open>
  What the wire promises: frames survive any cut of the stream, no reader is made to hold more than the limit, and a
  remote call does what the handler does when called in place. Also the one sender without the limit.
\<close>

section \<open>Frames\<close>

lemma put_get [simp]: "get_be32 (put_be32 n) = n"
proof (rule bit_word_eqI)
  fix i assume "i < LENGTH(32)"
  then consider "i < 8" | "8 \<le> i" "i < 16" | "16 \<le> i" "i < 24" | "24 \<le> i" "i < 32" by fastforce
  then show "bit (get_be32 (put_be32 n)) i = bit n i" by cases (auto simp: put_be32_def bit_simps)
qed

lemma length_put [simp]: "length (put_be32 n) = 4"
  by (simp add: put_be32_def)

definition fits :: "octets \<Rightarrow> bool" where
  "fits b \<longleftrightarrow> b \<noteq> [] \<and> length b \<le> maxFrameSize"

lemma unat_length:
  assumes "length b \<le> maxFrameSize"
  shows "unat (of_nat (length b) :: 32 word) = length b"
  using assms by (simp add: maxFrameSize_def unat_of_nat)

lemma write_fits: "fits b \<Longrightarrow> WriteFrame (Some b) = Some (put_be32 (of_nat (length b)) @ b)"
  by (simp add: WriteFrame_def fits_def)

lemma read_frame [simp]:
  assumes "fits b"
  shows "ReadFrameRaw (put_be32 (of_nat (length b)) @ b @ rest) = (Inr b, rest)"
  using assms unat_length[of b] by (simp add: ReadFrameRaw_def fits_def Let_def)

lemma read_cut:
  assumes "fits b" "n < length (put_be32 (of_nat (length b)) @ b)"
  shows "\<exists>e. e \<in> {NoHeader, ShortBody} \<and> ReadFrameRaw (take n (put_be32 (of_nat (length b)) @ b)) = (Inl e, [])"
proof (cases "n < 4")
  case False
  then have "take 4 (take n (put_be32 (of_nat (length b)) @ b)) = put_be32 (of_nat (length b))"
    "drop 4 (take n (put_be32 (of_nat (length b)) @ b)) = take (n - 4) b" by (simp_all add: drop_take)
  then show ?thesis using False assms unat_length[of b] by (auto simp: ReadFrameRaw_def fits_def Let_def)
qed (simp add: ReadFrameRaw_def)

definition frame :: "octets \<Rightarrow> octets" where
  "frame b = put_be32 (of_nat (length b)) @ b"

lemma read_frames_cons:
  "fits b \<Longrightarrow> read_frames (frame b @ rest) = (b # fst (read_frames rest), snd (read_frames rest))"
  by (subst read_frames.simps) (simp add: frame_def)

lemma read_frames_all:
  "\<forall>b \<in> set bs. fits b \<Longrightarrow> read_frames (concat (map frame bs) @ rest) = (bs @ fst (read_frames rest), snd (read_frames rest))"
  by (induction bs) (simp_all add: read_frames_cons)

text \<open>C34: However the stream is cut after some frames and inside the next one, the reader gets exactly the complete
  messages, unchanged and in order, and then an error: never a shortened or a shifted message.\<close>

theorem frames_survive_cut:
  assumes "\<forall>b \<in> set bs. WriteFrame (Some b) \<noteq> None \<and> b \<noteq> []" and "WriteFrame (Some next) = Some w" and "next \<noteq> []" and "n < length w"
  shows "fst (read_frames (concat (map (\<lambda>b. the (WriteFrame (Some b))) bs) @ take n w)) = bs \<and>
    snd (read_frames (concat (map (\<lambda>b. the (WriteFrame (Some b))) bs) @ take n w)) \<in> {NoHeader, ShortBody}"
proof -
  have f: "\<forall>b \<in> set bs. fits b" and fn: "fits next"
    using assms(1-3) by (auto simp: WriteFrame_def fits_def split: if_splits)
  then have m: "map (\<lambda>b. the (WriteFrame (Some b))) bs = map frame bs" by (simp add: write_fits frame_def)
  have "w = put_be32 (of_nat (length next)) @ next" using assms(2) write_fits[OF fn] by simp
  then obtain e where e: "e \<in> {NoHeader, ShortBody}" "ReadFrameRaw (take n w) = (Inl e, [])" using read_cut[OF fn, of n] assms(4) by auto
  then have "read_frames (take n w) = ([], e)" by (subst read_frames.simps) simp
  with read_frames_all[OF f, of "take n w"] e(1) show ?thesis by (simp only: m) simp
qed

text \<open>C40: Whatever a peer sends, every message the reader accepts has between one byte and the limit of one megabyte,
  and together they are no longer than what was sent.\<close>

theorem messages_bounded:
  "list_all (\<lambda>b. 0 < length b \<and> length b \<le> maxFrameSize) (fst (read_frames s)) \<and>
   sum_list (map length (fst (read_frames s))) + 4 * length (fst (read_frames s)) \<le> length s"
proof (induction s rule: read_frames.induct)
  case (1 s)
  show ?case
  proof (cases "ReadFrameRaw s")
    case (Pair r rest)
    show ?thesis
    proof (cases r)
      case (Inl e)
      then show ?thesis by (subst (1 2 3) read_frames.simps) (simp add: Pair)
    next
      case (Inr body)
      have b: "0 < length body \<and> length body \<le> maxFrameSize \<and> length body + 4 + length rest = length s"
        using Pair Inr by (auto simp: ReadFrameRaw_def Let_def split: if_splits)
      show ?thesis using 1[OF Pair[symmetric] Inr] b by (subst (1 2 3) read_frames.simps) (simp add: Pair Inr)
    qed
  qed
qed

text \<open>An event over the limit is sent all the same, and ends the event stream of the receiver.\<close>

lemma frameBytes_frame: "frameBytes b = frame b"
proof -
  have "word_of_int (drop_bit k (int n)) = (ucast (drop_bit k (of_nat n :: 32 word)) :: 8 word)" if "k \<le> 24" for k n
    by (rule bit_word_eqI) (use that in \<open>auto simp: bit_simps\<close>)
  from this[of 24] this[of 16] this[of 8] this[of 0] show ?thesis by (simp add: frameBytes_def frame_def put_be32_def Let_def)
qed

lemma large_event_ends_stream:
  assumes "maxFrameSize < length b" "length b < 2 ^ 32"
  shows "read_frames (frameBytes b @ rest) = ([], TooLarge)"
proof -
  have "unat (of_nat (length b) :: 32 word) = length b" using assms(2) by (simp add: unat_of_nat)
  then have "ReadFrameRaw (frameBytes b @ rest) = (Inl TooLarge, b @ rest)"
    using assms(1) by (simp add: frameBytes_frame frame_def ReadFrameRaw_def Let_def)
  then show ?thesis by (subst read_frames.simps) simp
qed

section \<open>Calls\<close>

text \<open>The call made in place: the handler on the state, with the code and text of an error.\<close>

definition local_call :: "('p, 'v, 's) rpc \<Rightarrow> string \<times> 'p \<Rightarrow> 's \<Rightarrow> 's \<times> (int \<times> string + 'v)" where
  "local_call env c s =
     (case rp_handler env (fst c) of
        None \<Rightarrow> (s, Inl (-32601, ''method not found: '' @ fst c))
      | Some h \<Rightarrow>
          (case h (snd c) s of
             (s', Inl (AppError m)) \<Rightarrow> (s', Inl (-32000, m))
           | (s', Inl (CodedError k m)) \<Rightarrow> (s', Inl (k, m))
           | (s', Inr v) \<Rightarrow> (s', case rp_unfit env v of None \<Rightarrow> Inr v | Some m \<Rightarrow> Inl (-32603, m))))"

fun local_calls :: "('p, 'v, 's) rpc \<Rightarrow> (string \<times> 'p) list \<Rightarrow> 's \<Rightarrow> 's \<times> (int \<times> string + 'v) list" where
  "local_calls env [] s = (s, [])"
| "local_calls env (c # cs) s =
     (let (s1, r) = local_call env c s; (s2, rs) = local_calls env cs s1 in (s2, r # rs))"

fun answer :: "64 word \<Rightarrow> int \<times> string + 'v \<Rightarrow> 'v response" where
  "answer i (Inl (k, m)) = Failure i k m"
| "answer i (Inr v) = Success i v"

lemma answer_id [simp]: "rs_id (answer i r) = i"
  by (cases "(i, r)" rule: answer.cases) auto

lemma dispatch_local:
  "dispatch env (NewRequest i tr c) s = (fst (local_call env c s), answer i (snd (local_call env c s)))"
  by (auto simp: dispatch_def local_call_def NewRequest_def split: option.splits prod.splits sum.splits app_error.splits)

text \<open>The answers with the numbers of their calls.\<close>

fun answers :: "64 word \<Rightarrow> (int \<times> string + 'v) list \<Rightarrow> 'v response list" where
  "answers n [] = []"
| "answers n (r # rs) = answer (n + 1) r # answers (n + 1) rs"

definition coded :: "('a \<Rightarrow> octets option) \<Rightarrow> 'a \<Rightarrow> bool" where
  "coded enc x \<longleftrightarrow> (case enc x of None \<Rightarrow> False | Some b \<Rightarrow> fits b)"

lemma codedE: "coded enc x \<Longrightarrow> \<exists>b. enc x = Some b \<and> fits b"
  by (auto simp: coded_def split: option.splits)

definition to_wire :: "('a \<Rightarrow> octets option) \<Rightarrow> 'a list \<Rightarrow> octets" where
  "to_wire enc xs = concat (map (\<lambda>x. the (WriteFrame (enc x))) xs)"

lemma to_wire_cons: "coded enc x \<Longrightarrow> to_wire enc (x # xs) = frame (the (enc x)) @ to_wire enc xs"
  by (auto simp: to_wire_def write_fits frame_def dest!: codedE)

lemma handle_one:
  assumes "coded (rp_encode_rq env) r" "\<And>r b. rp_encode_rq env r = Some b \<Longrightarrow> rp_decode env b = Some r"
    "rq_method r \<noteq> MethodSubscribe" "rq_id r \<noteq> 0" "coded (rp_encode env) (snd (dispatch env r s))"
  shows "handleConn env (Suc room) control s (frame (the (rp_encode_rq env r)) @ rest) =
    (let e = handleConn env room (control \<or> \<not> rq_transient r) (fst (dispatch env r s)) rest
     in e\<lparr>ce_sent := frame (the (rp_encode env (snd (dispatch env r s)))) @ ce_sent e\<rparr>)"
proof -
  obtain b where b: "rp_encode_rq env r = Some b" "fits b" using codedE[OF assms(1)] by blast
  obtain a where a: "rp_encode env (snd (dispatch env r s)) = Some a" "fits a" using codedE[OF assms(5)] by blast
  show ?thesis using b a assms(2-4)
    by (subst handleConn.simps) (simp add: frame_def IsNotification_def write_fits Let_def case_prod_beta)
qed

lemma number_range:
  "r \<in> set (number_calls n tr calls) \<Longrightarrow> unat n + length calls < 2 ^ 64 \<Longrightarrow> unat n < unat (rq_id r) \<and> unat (rq_id r) \<le> unat n + length calls"
proof (induction calls arbitrary: n)
  case (Cons c calls)
  have "unat (n + 1) = unat n + 1" using Cons.prems(2) by (simp add: unat_word_ariths)
  then show ?case using Cons by (fastforce simp: NewRequest_def)
qed simp

lemma serve_calls:
  assumes "\<And>r b. rp_encode_rq env r = Some b \<Longrightarrow> rp_decode env b = Some r"
  shows "unat n + length calls < 2 ^ 64 \<Longrightarrow> MethodSubscribe \<notin> fst ` set calls \<Longrightarrow>
    list_all (coded (rp_encode_rq env)) (number_calls n tr calls) \<Longrightarrow>
    list_all (coded (rp_encode env)) (answers n (snd (local_calls env calls s))) \<Longrightarrow> length calls \<le> room \<Longrightarrow>
    ce_state (handleConn env room control s (to_wire (rp_encode_rq env) (number_calls n tr calls))) = fst (local_calls env calls s) \<and>
    ce_sent (handleConn env room control s (to_wire (rp_encode_rq env) (number_calls n tr calls))) =
      to_wire (rp_encode env) (answers n (snd (local_calls env calls s)))"
proof (induction calls arbitrary: n s room control)
  case Nil
  then show ?case by (subst (1 2) handleConn.simps) (simp add: to_wire_def ReadFrameRaw_def)
next
  case (Cons c calls)
  obtain room' where room: "room = Suc room'" "length calls \<le> room'" using Cons.prems(5) by (cases room) auto
  have n1: "unat (n + 1) = unat n + 1" using Cons.prems(1) by (simp add: unat_word_ariths)
  then have "n + 1 \<noteq> 0" by (metis add_is_0 one_neq_zero unat_0)
  then have "rq_method (NewRequest (n + 1) tr c) \<noteq> MethodSubscribe" "rq_id (NewRequest (n + 1) tr c) \<noteq> 0"
    "coded (rp_encode_rq env) (NewRequest (n + 1) tr c)" "coded (rp_encode env) (snd (dispatch env (NewRequest (n + 1) tr c) s))"
    "rq_transient (NewRequest (n + 1) tr c) = tr"
    using Cons.prems(2-4) by (auto simp: dispatch_local case_prod_beta) (auto simp: NewRequest_def)
  note r = this
  have one: "handleConn env room control s (to_wire (rp_encode_rq env) (number_calls n tr (c # calls))) =
    (let e = handleConn env room' (control \<or> \<not> tr) (fst (local_call env c s)) (to_wire (rp_encode_rq env) (number_calls (n + 1) tr calls))
     in e\<lparr>ce_sent := frame (the (rp_encode env (answer (n + 1) (snd (local_call env c s))))) @ ce_sent e\<rparr>)"
    using handle_one[OF r(3) assms r(1,2,4), of room' control] by (simp add: to_wire_cons r(3,5) dispatch_local room(1))
  show ?case unfolding one using Cons.IH[of "n + 1" "fst (local_call env c s)" room' "control \<or> \<not> tr"] Cons.prems room(2) n1
    by (simp add: Let_def case_prod_beta to_wire_cons)
qed

lemma decode_to_wire:
  assumes "\<And>x b. enc x = Some b \<Longrightarrow> dec b = Some x" "list_all (coded enc) xs"
  shows "decode_all dec (fst (read_frames (to_wire enc xs))) = xs"
proof -
  have "list_all (coded enc) xs \<Longrightarrow> read_frames (to_wire enc xs) = (map (\<lambda>x. the (enc x)) xs, NoHeader)" for xs
  proof (induction xs)
    case Nil
    show ?case by (subst read_frames.simps) (simp add: to_wire_def ReadFrameRaw_def)
  next
    case (Cons x xs)
    then show ?case using codedE[of enc x] by (auto simp: to_wire_cons read_frames_cons)
  qed
  moreover have "list_all (coded enc) xs \<Longrightarrow> decode_all dec (map (\<lambda>x. the (enc x)) xs) = xs" for xs
    using assms(1) by (induction xs) (auto dest!: codedE)
  ultimately show ?thesis using assms(2) by simp
qed

lemma deliver_kept: "got i = Some x \<Longrightarrow> deliver waiting rs got i = Some x"
proof (induction rs arbitrary: got)
  case (Cons r rs)
  have "got (rs_id r) = None \<Longrightarrow> i \<noteq> rs_id r" using Cons.prems by auto
  then have "(if rs_id r \<in> waiting \<and> got (rs_id r) = None then got(rs_id r \<mapsto> r) else got) i = Some x" using Cons.prems by simp
  then show ?case unfolding deliver.simps by (rule Cons.IH)
qed simp

lemma deliver_nth:
  "distinct (map rs_id rs) \<Longrightarrow> set (map rs_id rs) \<subseteq> waiting \<Longrightarrow> \<forall>r \<in> set rs. got (rs_id r) = None \<Longrightarrow> k < length rs \<Longrightarrow>
   deliver waiting rs got (rs_id (rs ! k)) = Some (rs ! k)"
proof (induction rs arbitrary: got k)
  case (Cons r rs)
  then have "\<forall>x \<in> set rs. rs_id x \<noteq> rs_id r" by (auto simp: image_iff)
  then have "\<forall>x \<in> set rs. (got(rs_id r \<mapsto> r)) (rs_id x) = None" using Cons.prems(3) by simp
  then show ?case using Cons Cons.IH[of "got(rs_id r \<mapsto> r)"] by (cases k) (auto simp: deliver_kept)
qed simp

lemma answer_ids: "length rs = length calls \<Longrightarrow> map rs_id (answers n rs) = map rq_id (number_calls n tr calls)"
  by (induction rs calls arbitrary: n rule: list_induct2) (auto simp: NewRequest_def)

lemma local_length: "length (snd (local_calls env calls s)) = length calls"
  by (induction calls arbitrary: s) (auto simp: case_prod_beta)

lemma answers_nth: "k < length rs \<Longrightarrow> answers n rs ! k = answer (n + 1 + of_nat k) (rs ! k)"
  by (induction rs arbitrary: n k) (auto simp: nth_Cons algebra_simps split: nat.splits)

lemma answers_length [simp]: "length (answers n rs) = length rs"
  by (induction rs arbitrary: n) auto

lemma number_distinct: "unat n + length calls < 2 ^ 64 \<Longrightarrow> distinct (map rq_id (number_calls n tr calls))"
proof (induction calls arbitrary: n)
  case (Cons c calls)
  have "unat (n + 1) = unat n + 1" using Cons.prems by (simp add: unat_word_ariths)
  then show ?case using Cons number_range[of _ "n + 1" tr calls] by (fastforce simp: NewRequest_def)
qed simp

text \<open>C20: Over the byte stream a client's calls do what the handlers do when called in place one after the other: the
  helper ends in the same state, and every call receives exactly its own result, code and error text included.\<close>

theorem remote_is_local:
  assumes "\<And>r b. rp_encode_rq env r = Some b \<Longrightarrow> rp_decode env b = Some r"
    and "\<And>x b. rp_encode env x = Some b \<Longrightarrow> rp_decode_rs env b = Some x"
    and "unat n + length calls < 2 ^ 64" and "MethodSubscribe \<notin> fst ` set calls"
    and "list_all (coded (rp_encode_rq env)) (number_calls n tr calls)"
    and "list_all (coded (rp_encode env)) (answers n (snd (local_calls env calls s)))"
    and "length calls \<le> room" and "k < length calls"
    and e: "handleConn env room control s (to_wire (rp_encode_rq env) (number_calls n tr calls)) = e"
  shows "ce_state e = fst (local_calls env calls s) \<and>
    readLoop env (rq_id ` set (number_calls n tr calls)) (ce_sent e) (n + 1 + of_nat k) =
      Some (answer (n + 1 + of_nat k) (snd (local_calls env calls s) ! k))"
proof -
  let ?as = "answers n (snd (local_calls env calls s))"
  have sent: "ce_state e = fst (local_calls env calls s)" "ce_sent e = to_wire (rp_encode env) ?as"
    using serve_calls[OF assms(1,3-7)] e by auto
  have ids: "map rs_id ?as = map rq_id (number_calls n tr calls)" by (rule answer_ids) (rule local_length)
  have "deliver (rq_id ` set (number_calls n tr calls)) ?as (\<lambda>i. None) (rs_id (?as ! k)) = Some (?as ! k)"
    by (rule deliver_nth) (use ids number_distinct[OF assms(3), of tr] assms(8) in \<open>auto simp: local_length simp flip: set_map\<close>)
  then show ?thesis
    using sent decode_to_wire[OF assms(2,6)] assms(8) by (simp add: readLoop_def answers_nth local_length)
qed

section \<open>Concrete streams\<close>

theorem frames_survive_cut_witness:
  "fst (read_frames (the (WriteFrame (Some [1, 2])) @ take 5 (the (WriteFrame (Some [3, 4, 5]))))) = [[1, 2]]"
  using frames_survive_cut[of "[[1, 2]]" "[3, 4, 5]" "the (WriteFrame (Some [3, 4, 5]))" 5]
  by (simp add: WriteFrame_def maxFrameSize_def)

text \<open>A counter with one method, and the codes of its two requests and answers.\<close>

definition counter_rq :: "64 word \<Rightarrow> nat request" where
  "counter_rq i = \<lparr>rq_id = i, rq_method = ''Add'', rq_params = 5, rq_transient = True\<rparr>"

definition counter_rpc :: "(nat, nat, nat) rpc" where
  "counter_rpc = \<lparr>rp_handler = (\<lambda>m. if m = ''Add'' then Some (\<lambda>p s. (s + p, Inr (s + p))) else None), rp_unfit = (\<lambda>v. None),
     rp_decode = (\<lambda>b. if b = [1] then Some (counter_rq 1) else if b = [2] then Some (counter_rq 2) else None),
     rp_encode = (\<lambda>r. if r = Success 1 8 then Some [3] else if r = Success 2 13 then Some [4] else None),
     rp_encode_rq = (\<lambda>r. if r = counter_rq 1 then Some [1] else if r = counter_rq 2 then Some [2] else None),
     rp_decode_rs = (\<lambda>b. if b = [3] then Some (Success 1 8) else if b = [4] then Some (Success 2 13) else None)\<rparr>"

theorem remote_is_local_witness:
  "readLoop counter_rpc {1, 2} (ce_sent (handleConn counter_rpc 2 False 3
     (to_wire (rp_encode_rq counter_rpc) (number_calls 0 True [(''Add'', 5), (''Add'', 5)])))) 2 = Some (Success 2 13)"
proof -
  have calls: "number_calls 0 True [(''Add'', 5), (''Add'', 5)] = [counter_rq 1, counter_rq 2]"
    by (simp add: NewRequest_def counter_rq_def)
  have loc: "local_calls counter_rpc [(''Add'', 5), (''Add'', 5)] 3 = (13, [Inr 8, Inr 13])"
    by (simp add: local_call_def counter_rpc_def)
  have two: "counter_rq 1 \<noteq> counter_rq 2" "fits [w]" for w by (simp_all add: counter_rq_def fits_def maxFrameSize_def)
  have rq: "rp_encode_rq counter_rpc r = Some b \<Longrightarrow> rp_decode counter_rpc b = Some r" for r b
    by (auto simp: counter_rpc_def split: if_splits)
  have rs: "rp_encode counter_rpc x = Some b \<Longrightarrow> rp_decode_rs counter_rpc b = Some x" for x b
    by (auto simp: counter_rpc_def split: if_splits)
  have c: "list_all (coded (rp_encode_rq counter_rpc)) [counter_rq 1, counter_rq 2]"
    "list_all (coded (rp_encode counter_rpc)) (answers 0 [Inr 8, Inr 13])"
    using two by (simp_all add: coded_def counter_rpc_def)
  have "readLoop counter_rpc (rq_id ` set [counter_rq 1, counter_rq 2])
      (ce_sent (handleConn counter_rpc 2 False 3 (to_wire (rp_encode_rq counter_rpc) [counter_rq 1, counter_rq 2]))) (0 + 1 + of_nat 1) =
    Some (answer (0 + 1 + of_nat 1) ([Inr 8, Inr 13] ! 1))"
    using remote_is_local[of counter_rpc 0 "[(''Add'', 5), (''Add'', 5)]" True 3 2 1 False, OF rq rs _ _ _ _ _ _ refl]
    using c unfolding calls loc by (simp add: MethodSubscribe_def)
  then show ?thesis unfolding calls by (simp add: counter_rq_def)
qed

end
