(* ===== verification/IpcServer.thy ===== *)
theory IpcServer
  imports Main
begin

text \<open>
  The connections of the helper and its life time: the accept loop with its slots (\<open>internal/ipc/server.go\<close>), the
  grace window after which a helper without GUI and tunnel shuts itself down (\<open>internal/helper/helper.go\<close>), and the
  requests that order it to (\<open>handlers.go\<close>). Each goroutine runs its own few steps; a step is what it does under one
  lock or with one read.
\<close>

section \<open>Accepting\<close>

definition maxConcurrentConns :: nat where "maxConcurrentConns = 32"

datatype accept_event = Incoming nat | AcceptFails | Finished nat

datatype serve_state = Accepting "nat set" nat | GaveUp

text \<open>\<open>Serve\<close>: a connection takes a slot or is dropped; more than a hundred failures in a row end the loop.\<close>

fun serve_step :: "accept_event \<Rightarrow> serve_state \<Rightarrow> serve_state" where
  "serve_step e GaveUp = GaveUp"
| "serve_step (Incoming c) (Accepting slots errs) = Accepting (if card slots < maxConcurrentConns then insert c slots else slots) 0"
| "serve_step AcceptFails (Accepting slots errs) = (if 100 < errs + 1 then GaveUp else Accepting slots (errs + 1))"
| "serve_step (Finished c) (Accepting slots errs) = Accepting (slots - {c}) errs"

lemma slots_bounded:
  "fold serve_step es (Accepting {} 0) = Accepting slots errs \<Longrightarrow> finite slots \<and> card slots \<le> 32 \<and> errs \<le> 100"
proof (induction es arbitrary: slots errs rule: rev_induct)
  case (snoc e es)
  then obtain sl er where s: "fold serve_step es (Accepting {} 0) = Accepting sl er"
    by (cases "fold serve_step es (Accepting {} 0)") auto
  show ?case using snoc.IH[OF s] snoc.prems s
    by (cases e) (auto simp: maxConcurrentConns_def card_insert_if card_Diff_singleton_if split: if_splits intro: le_trans)
qed simp

section \<open>The grace window\<close>

text \<open>
  Where the goroutine of a connection stands: before its first request, with the attach callback to run, serving, with
  the detach callback to run, inside \<open>armShutdownTimer\<close> after the read of the active tunnel, or gone.
\<close>

datatype conn_pc = Fresh | Attaching | Serving | Detaching | Arming bool | Gone

datatype teardown_pc = Quiet | Checking | WillArm | TeardownArming bool

record life =
  li_control :: "nat set"
  li_pc :: "nat \<Rightarrow> conn_pc"
  li_tunnel :: bool
  li_teardown :: teardown_pc
  li_timer :: bool
  li_firing :: bool
  li_ordered :: bool
  li_quit_sent :: bool
  li_down :: bool

text \<open>A helper that starts arms the window unless recovery left a tunnel up.\<close>

definition life0 :: "bool \<Rightarrow> life" where
  "life0 recovered = \<lparr>li_control = {}, li_pc = (\<lambda>c. Fresh), li_tunnel = recovered, li_teardown = Quiet, li_timer = (\<not> recovered),
     li_firing = False, li_ordered = False, li_quit_sent = False, li_down = False\<rparr>"

datatype life_event =
    Attach nat | RunOnConnect nat | Detach nat | ReadActive nat | Arm nat
  | TunnelUp | TunnelDown | TunnelLost | CheckControl | TeardownRead | TeardownArm
  | TimerFires | FireEnds
  | AskShutdown | AskQuit | OrderRuns

definition set_pc :: "nat \<Rightarrow> conn_pc \<Rightarrow> life \<Rightarrow> life" where
  "set_pc c p s = s\<lparr>li_pc := (li_pc s)(c := p)\<rparr>"

text \<open>The requests that order the end; the goroutine they leave behind is \<open>OrderRuns\<close>.\<close>

definition handleShutdown :: "life \<Rightarrow> life" where
  "handleShutdown s = s\<lparr>li_ordered := True\<rparr>"

definition handleRequestQuit :: "life \<Rightarrow> life" where
  "handleRequestQuit s = (if li_control s \<noteq> {} then s\<lparr>li_quit_sent := True\<rparr> else s\<lparr>li_ordered := True\<rparr>)"

lemmas order_defs [simp] = handleShutdown_def handleRequestQuit_def

text \<open>
  \<open>None\<close> where the step cannot happen. \<open>TunnelDown\<close> is a disconnect by a handler or a rule, which goes on to
  \<open>maybeArmShutdownAfterTeardown\<close>; \<open>TunnelLost\<close> a tunnel that goes away otherwise: the reconnect monitor takes it down
  and does not bring it back, or a connect in progress fails. \<open>AskShutdown\<close> is \<open>handleShutdown\<close> or
  \<open>handleForceShutdown\<close>, \<open>AskQuit\<close> is \<open>handleRequestQuit\<close>, which hands the request on to an attached GUI; \<open>OrderRuns\<close>
  is the goroutine they leave behind, which ends the process a moment later.
\<close>

fun life_step :: "life_event \<Rightarrow> life \<Rightarrow> life option" where
  "life_step (Attach c) s = (if li_pc s c = Fresh then Some (set_pc c Attaching (s\<lparr>li_control := insert c (li_control s)\<rparr>)) else None)"
| "life_step (RunOnConnect c) s = (if li_pc s c = Attaching then Some (set_pc c Serving (s\<lparr>li_timer := False\<rparr>)) else None)"
| "life_step (Detach c) s =
     (if li_pc s c = Serving
      then let s = s\<lparr>li_control := li_control s - {c}\<rparr> in Some (set_pc c (if li_control s = {} then Detaching else Gone) s)
      else None)"
| "life_step (ReadActive c) s = (if li_pc s c = Detaching then Some (set_pc c (Arming (li_tunnel s)) s) else None)"
| "life_step (Arm c) s = (case li_pc s c of Arming active \<Rightarrow> Some (set_pc c Gone (s\<lparr>li_timer := \<not> active\<rparr>)) | _ \<Rightarrow> None)"
| "life_step TunnelUp s = Some (s\<lparr>li_tunnel := True\<rparr>)"
| "life_step TunnelDown s = (if li_teardown s = Quiet then Some (s\<lparr>li_tunnel := False, li_teardown := Checking\<rparr>) else None)"
| "life_step TunnelLost s = Some (s\<lparr>li_tunnel := False\<rparr>)"
| "life_step CheckControl s =
     (if li_teardown s = Checking then Some (s\<lparr>li_teardown := (if li_control s = {} then WillArm else Quiet)\<rparr>) else None)"
| "life_step TeardownRead s = (if li_teardown s = WillArm then Some (s\<lparr>li_teardown := TeardownArming (li_tunnel s)\<rparr>) else None)"
| "life_step TeardownArm s =
     (case li_teardown s of TeardownArming active \<Rightarrow> Some (s\<lparr>li_teardown := Quiet, li_timer := \<not> active\<rparr>) | _ \<Rightarrow> None)"
| "life_step TimerFires s = (if li_timer s \<and> \<not> li_firing s then Some (s\<lparr>li_timer := False, li_firing := True\<rparr>) else None)"
| "life_step FireEnds s = (if li_firing s then Some (s\<lparr>li_firing := False, li_down := li_down s \<or> \<not> li_tunnel s\<rparr>) else None)"
| "life_step AskShutdown s = Some (handleShutdown s)"
| "life_step AskQuit s = Some (handleRequestQuit s)"
| "life_step OrderRuns s = (if li_ordered s then Some (s\<lparr>li_down := True\<rparr>) else None)"

fun life_run :: "life_event list \<Rightarrow> life \<Rightarrow> life option" where
  "life_run [] s = Some s"
| "life_run (e # es) s = (case life_step e s of None \<Rightarrow> None | Some s' \<Rightarrow> life_run es s')"

lemma life_run_append: "life_run (es @ fs) s = (case life_run es s of None \<Rightarrow> None | Some t \<Rightarrow> life_run fs t)"
  by (induction es arbitrary: s) (auto split: option.splits)

section \<open>Callbacks that do not overlap\<close>

text \<open>An occasion with everything the code does on it, before the next one.\<close>

datatype occasion =
    GuiAttaches nat | GuiDetaches nat | TunnelComesUp | TunnelTakenDown | TunnelDrops | WindowEnds | ShutdownOrdered | QuitAsked

fun occasion_steps :: "occasion \<Rightarrow> life \<Rightarrow> life_event list" where
  "occasion_steps (GuiAttaches c) s = (if li_pc s c = Fresh then [Attach c, RunOnConnect c] else [])"
| "occasion_steps (GuiDetaches c) s =
     (if li_pc s c = Serving then Detach c # (if li_control s - {c} = {} then [ReadActive c, Arm c] else []) else [])"
| "occasion_steps TunnelComesUp s = [TunnelUp]"
| "occasion_steps TunnelTakenDown s = TunnelDown # CheckControl # (if li_control s = {} then [TeardownRead, TeardownArm] else [])"
| "occasion_steps TunnelDrops s = [TunnelLost]"
| "occasion_steps WindowEnds s = (if li_timer s then [TimerFires, FireEnds] else [])"
| "occasion_steps ShutdownOrdered s = [AskShutdown, OrderRuns]"
| "occasion_steps QuitAsked s = AskQuit # (if li_control s = {} then [OrderRuns] else [])"

text \<open>Once the server is closed nothing more happens.\<close>

definition occurs :: "occasion \<Rightarrow> life \<Rightarrow> life" where
  "occurs x s = (if li_down s then s else the (life_run (occasion_steps x s) s))"

text \<open>Between occasions no callback is in flight and the control connections are those served.\<close>

definition at_rest :: "life \<Rightarrow> bool" where
  "at_rest s \<longleftrightarrow> (\<forall>c. li_pc s c \<in> {Fresh, Serving, Gone} \<and> (li_pc s c = Serving \<longleftrightarrow> c \<in> li_control s)) \<and> li_teardown s = Quiet \<and> \<not> li_firing s"

lemma at_rest_kept:
  assumes "at_rest s"
  shows "at_rest (occurs x s)"
proof (cases x)
  case (GuiAttaches c)
  then show ?thesis using assms by (auto simp: occurs_def at_rest_def set_pc_def)
next
  case (GuiDetaches c)
  then show ?thesis using assms by (auto simp: occurs_def at_rest_def set_pc_def Let_def)
qed (use assms in \<open>auto simp: occurs_def at_rest_def\<close>)

text \<open>What one occasion does to what matters.\<close>

lemma occurs_effect:
  assumes "at_rest s" "\<not> li_down s"
  shows "li_timer s \<longrightarrow> li_control s = {} \<Longrightarrow> li_timer (occurs x s) \<longrightarrow> li_control (occurs x s) = {}"
    and "li_control s = {} \<and> \<not> li_tunnel s \<longrightarrow> li_timer s \<Longrightarrow> x \<noteq> TunnelDrops \<Longrightarrow>
      li_control (occurs x s) = {} \<and> \<not> li_tunnel (occurs x s) \<and> \<not> li_down (occurs x s) \<longrightarrow> li_timer (occurs x s)"
    and "li_timer s \<longrightarrow> li_control s = {} \<Longrightarrow> li_down (occurs x s) \<Longrightarrow> x \<noteq> ShutdownOrdered \<Longrightarrow>
      li_control (occurs x s) = {} \<and> (x \<noteq> QuitAsked \<longrightarrow> \<not> li_tunnel (occurs x s))"
  using assms by (cases x; auto simp: occurs_def at_rest_def set_pc_def Let_def split: if_splits)+

text \<open>Unless a shutdown was ordered, the helper is down only without a GUI, and unless a quit was asked for, without a tunnel.\<close>

definition guarded :: "occasion list \<Rightarrow> life \<Rightarrow> bool" where
  "guarded xs s \<longleftrightarrow> at_rest s \<and> (li_timer s \<longrightarrow> li_control s = {}) \<and>
     (li_down s \<and> ShutdownOrdered \<notin> set xs \<longrightarrow> li_control s = {} \<and> (QuitAsked \<notin> set xs \<longrightarrow> \<not> li_tunnel s))"

lemma guarded_kept: "guarded xs s \<Longrightarrow> guarded (xs @ [x]) (occurs x s)"
  using at_rest_kept[of s x] occurs_effect[of s x] unfolding guarded_def by (cases "li_down s") (auto simp: occurs_def)

lemma guarded_run: "guarded xs (fold occurs xs (life0 recovered))"
proof (induction xs rule: rev_induct)
  case Nil
  show ?case by (simp add: guarded_def at_rest_def life0_def)
qed (simp add: guarded_kept)

definition watched :: "life \<Rightarrow> bool" where
  "watched s \<longleftrightarrow> (li_control s = {} \<and> \<not> li_tunnel s \<and> \<not> li_down s \<longrightarrow> li_timer s)"

lemma watched_kept: "at_rest s \<Longrightarrow> watched s \<Longrightarrow> x \<noteq> TunnelDrops \<Longrightarrow> watched (occurs x s)"
  using occurs_effect(2)[of s x] unfolding watched_def by (cases "li_down s") (auto simp: occurs_def)

lemma watched_run: "TunnelDrops \<notin> set xs \<Longrightarrow> watched (fold occurs xs (life0 recovered))"
proof (induction xs rule: rev_induct)
  case Nil
  show ?case by (simp add: watched_def life0_def)
next
  case (snoc x xs)
  then show ?case using guarded_run[of xs recovered] by (auto simp: guarded_def intro!: watched_kept)
qed

lemma window_end: "at_rest s \<Longrightarrow> li_timer s \<Longrightarrow> \<not> li_tunnel s \<Longrightarrow> li_down (occurs WindowEnds s)"
  by (simp add: occurs_def at_rest_def)

text \<open>C24: When each callback finishes before the next occasion, a helper that was not ordered to shut down never does so
  while a GUI is attached, not even when a quit is asked for, and without such a request never while a tunnel is up. As
  long as every tunnel that goes down is taken down by a handler or a rule, a helper with neither has its window running:
  its end shuts the helper down, so none is left behind.\<close>

theorem helper_lives_as_long_as_needed:
  assumes s: "s = fold occurs xs (life0 recovered)"
  shows "(li_down s \<and> ShutdownOrdered \<notin> set xs \<longrightarrow> li_control s = {} \<and> (QuitAsked \<notin> set xs \<longrightarrow> \<not> li_tunnel s)) \<and>
    (TunnelDrops \<notin> set xs \<and> li_control s = {} \<and> \<not> li_tunnel s \<longrightarrow> li_down (occurs WindowEnds s))"
proof -
  have g: "guarded xs s" using guarded_run s by simp
  moreover have "li_down (occurs WindowEnds s)" if "TunnelDrops \<notin> set xs" "li_control s = {}" "\<not> li_tunnel s"
  proof (cases "li_down s")
    case False
    then have "li_timer s" using watched_run[OF that(1), of recovered] that(2,3) s by (simp add: watched_def)
    then show ?thesis using window_end g that(3) by (simp add: guarded_def)
  qed (simp add: occurs_def)
  ultimately show ?thesis by (simp add: guarded_def)
qed

theorem helper_lives_as_long_as_needed_witness:
  "li_down (occurs WindowEnds (fold occurs [GuiAttaches 1, TunnelComesUp, GuiDetaches 1, WindowEnds, TunnelTakenDown] (life0 False)))"
  using helper_lives_as_long_as_needed[OF refl, of "[GuiAttaches 1, TunnelComesUp, GuiDetaches 1, WindowEnds, TunnelTakenDown]" False]
  by (simp add: occurs_def life0_def set_pc_def)

section \<open>Callbacks that do\<close>

text \<open>The detach callback of a closed GUI runs after a new GUI attached: the helper shuts down under it.\<close>

lemma late_detach_callback_kills:
  "(case life_run [Attach 1, RunOnConnect 1, Detach 1, Attach 2, RunOnConnect 2, ReadActive 1, Arm 1, TimerFires, FireEnds] (life0 False) of
      None \<Rightarrow> False | Some s \<Rightarrow> li_down s \<and> li_control s = {2} \<and> li_pc s 2 = Serving)"
  by (simp add: life0_def set_pc_def)

text \<open>The active tunnel is read before the lock is taken: an arm by a teardown in between is undone, and nobody arms again.\<close>

lemma stale_read_disarms:
  "(case life_run [Attach 1, RunOnConnect 1, TunnelUp, Detach 1, ReadActive 1, TunnelDown, CheckControl, TeardownRead, TeardownArm, Arm 1] (life0 False) of
      None \<Rightarrow> False | Some s \<Rightarrow> at_rest s \<and> li_control s = {} \<and> \<not> li_tunnel s \<and> \<not> li_timer s \<and> \<not> li_down s)"
  by (auto simp: life0_def set_pc_def at_rest_def)

text \<open>A tunnel the reconnect monitor gives up leaves a helper without GUI, tunnel and window.\<close>

lemma lost_tunnel_leaves_helper:
  "(let s = fold occurs [GuiAttaches 1, TunnelComesUp, GuiDetaches 1, TunnelDrops] (life0 False)
    in li_control s = {} \<and> \<not> li_tunnel s \<and> \<not> li_timer s \<and> \<not> li_down s)"
  by (simp add: occurs_def life0_def set_pc_def)

text \<open>A quit asked for while no GUI is attached ends the helper under one that attaches before the order runs.\<close>

lemma quit_ends_under_new_gui:
  "(case life_run [AskQuit, Attach 1, RunOnConnect 1, OrderRuns] (life0 False) of
      None \<Rightarrow> False | Some s \<Rightarrow> li_down s \<and> li_control s = {1} \<and> \<not> li_quit_sent s)"
  by (simp add: life0_def set_pc_def)

end
