(* ===== verification/History.thy ===== *)
theory History
  imports "HOL-Library.Sublist"
begin

text \<open>
  The session history (\<open>internal/storage/history.go\<close>): a cache with deferred writes over one file. Times are
  nanoseconds; the fractional second Go computes with is cut off, as the conversion to \<open>int64\<close> does. JSON coding and the
  outcome of the file operations are the environment.
\<close>

section \<open>Data\<close>

record hist_session =
  ss_id :: string
  ss_tunnel :: string
  ss_start :: int
  ss_end :: "int option"
  ss_dur :: int
  ss_rx :: int
  ss_tx :: int
  ss_reason :: string

datatype content = Damaged | Records "hist_session list"

record hist_disk =
  hd_file :: "content option"
  hd_corrupt :: "content option"

record history =
  hs_cache :: "hist_session list"
  hs_valid :: bool
  hs_dirty :: bool
  hs_timer :: bool

record hist_env =
  he_read :: bool
  he_rename :: bool
  he_save :: bool
  he_remove :: bool

definition HistoryMaxRecords :: nat where "HistoryMaxRecords = 200"

definition NewHistoryStore :: history where
  "NewHistoryStore = \<lparr>hs_cache = [], hs_valid = False, hs_dirty = False, hs_timer = False\<rparr>"

section \<open>Loading and saving\<close>

definition loadLocked :: "hist_env \<Rightarrow> history \<Rightarrow> hist_disk \<Rightarrow> hist_session list \<times> history \<times> hist_disk" where
  "loadLocked env h d =
     (if hs_valid h then (hs_cache h, h, d)
      else let none = h\<lparr>hs_cache := [], hs_valid := True\<rparr>
      in case (if he_read env then hd_file d else None) of
           None \<Rightarrow> ([], none, d)
         | Some Damaged \<Rightarrow> ([], none, if he_rename env then d\<lparr>hd_file := None, hd_corrupt := Some Damaged\<rparr> else d)
         | Some (Records ss) \<Rightarrow> (ss, h\<lparr>hs_cache := ss, hs_valid := True\<rparr>, d))"

definition saveLocked :: "hist_env \<Rightarrow> hist_session list \<Rightarrow> hist_disk \<Rightarrow> hist_disk \<times> bool" where
  "saveLocked env ss d = (if he_save env then (d\<lparr>hd_file := Some (Records ss)\<rparr>, True) else (d, False))"

definition scheduleFlushLocked :: "history \<Rightarrow> history" where
  "scheduleFlushLocked h = h\<lparr>hs_dirty := True, hs_timer := True\<rparr>"

definition commitLocked :: "hist_session list \<Rightarrow> history \<Rightarrow> history" where
  "commitLocked ss h = scheduleFlushLocked (h\<lparr>hs_cache := ss, hs_valid := True\<rparr>)"

text \<open>The body of the timer, and \<open>Flush\<close>.\<close>

definition write_back :: "hist_env \<Rightarrow> history \<Rightarrow> hist_disk \<Rightarrow> history \<times> hist_disk" where
  "write_back env h d = (let (d, ok) = saveLocked env (hs_cache h) d in (if ok then h\<lparr>hs_dirty := False\<rparr> else h, d))"

definition deferred_flush :: "hist_env \<Rightarrow> history \<Rightarrow> hist_disk \<Rightarrow> history \<times> hist_disk" where
  "deferred_flush env h d =
     (if \<not> hs_timer h then (h, d)
      else let h = h\<lparr>hs_timer := False\<rparr>
           in if \<not> hs_dirty h \<or> \<not> hs_valid h then (h, d) else write_back env h d)"

definition Flush :: "hist_env \<Rightarrow> history \<Rightarrow> hist_disk \<Rightarrow> history \<times> hist_disk" where
  "Flush env h d =
     (if \<not> hs_dirty h \<or> \<not> hs_valid h then (h, d) else write_back env (h\<lparr>hs_timer := False\<rparr>) d)"

section \<open>Operations\<close>

definition trimSessions :: "hist_session list \<Rightarrow> hist_session list" where
  "trimSessions ss = (if length ss \<le> HistoryMaxRecords then ss else drop (length ss - HistoryMaxRecords) ss)"

definition RecordConnect :: "hist_env \<Rightarrow> string \<Rightarrow> string \<Rightarrow> int \<Rightarrow> history \<Rightarrow> hist_disk \<Rightarrow> history \<times> hist_disk" where
  "RecordConnect env i tunnel now h d =
     (let (ss, h, d) = loadLocked env h d;
          s = \<lparr>ss_id = i, ss_tunnel = tunnel, ss_start = now, ss_end = None, ss_dur = 0, ss_rx = 0, ss_tx = 0, ss_reason = ''''\<rparr>
      in (commitLocked (trimSessions (ss @ [s])) h, d))"

text \<open>\<open>int64(now.Sub(start).Seconds())\<close>, not below zero.\<close>

definition elapsed :: "int \<Rightarrow> hist_session \<Rightarrow> int" where
  "elapsed now s = (let dt = now - ss_start s in if dt < 0 then 0 else dt div 1000000000)"

definition close_session :: "int \<Rightarrow> int \<Rightarrow> int \<Rightarrow> string \<Rightarrow> hist_session \<Rightarrow> hist_session" where
  "close_session now rx tx reason s =
     s\<lparr>ss_end := Some now, ss_dur := elapsed now s, ss_rx := rx, ss_tx := tx, ss_reason := reason\<rparr>"

fun close_first :: "string \<Rightarrow> int \<Rightarrow> int \<Rightarrow> int \<Rightarrow> string \<Rightarrow> hist_session list \<Rightarrow> hist_session list option" where
  "close_first i now rx tx reason [] = None"
| "close_first i now rx tx reason (s # ss) =
     (if ss_id s \<noteq> i \<or> ss_end s \<noteq> None then map_option ((#) s) (close_first i now rx tx reason ss)
      else if elapsed now s = 0 \<and> rx = 0 \<and> tx = 0 then Some ss
      else Some (close_session now rx tx reason s # ss))"

definition RecordDisconnect :: "hist_env \<Rightarrow> string \<Rightarrow> int \<Rightarrow> int \<Rightarrow> string \<Rightarrow> int \<Rightarrow> history \<Rightarrow> hist_disk \<Rightarrow> history \<times> hist_disk" where
  "RecordDisconnect env i rx tx reason now h d =
     (if i = '''' then (h, d)
      else let (ss, h, d) = loadLocked env h d
           in case close_first i now rx tx reason ss of None \<Rightarrow> (h, d) | Some ss' \<Rightarrow> (commitLocked ss' h, d))"

text \<open>The loop of \<open>CloseOpenSessions\<close>: open sessions of no duration are dropped, the bytes of the others stay as they are.\<close>

fun close_all :: "int \<Rightarrow> string \<Rightarrow> hist_session list \<Rightarrow> hist_session list" where
  "close_all now reason [] = []"
| "close_all now reason (s # ss) =
     (if ss_end s \<noteq> None then s # close_all now reason ss
      else if elapsed now s = 0 then close_all now reason ss
      else s\<lparr>ss_end := Some now, ss_dur := elapsed now s, ss_reason := reason\<rparr> # close_all now reason ss)"

definition CloseOpenSessions :: "hist_env \<Rightarrow> string \<Rightarrow> int \<Rightarrow> history \<Rightarrow> hist_disk \<Rightarrow> history \<times> hist_disk" where
  "CloseOpenSessions env reason now h d =
     (let (ss, h, d) = loadLocked env h d
      in if list_all (\<lambda>s. ss_end s \<noteq> None) ss then (h, d) else (commitLocked (close_all now reason ss) h, d))"

definition phantom :: "hist_session \<Rightarrow> bool" where
  "phantom s \<longleftrightarrow> ss_end s \<noteq> None \<and> ss_dur s = 0 \<and> ss_rx s = 0 \<and> ss_tx s = 0"

definition GetAll :: "hist_env \<Rightarrow> history \<Rightarrow> hist_disk \<Rightarrow> hist_session list \<times> history \<times> hist_disk" where
  "GetAll env h d = (let (ss, h, d) = loadLocked env h d in (filter (\<lambda>s. \<not> phantom s) (rev ss), h, d))"

definition Clear :: "hist_env \<Rightarrow> history \<Rightarrow> hist_disk \<Rightarrow> history \<times> hist_disk" where
  "Clear env h d =
     (\<lparr>hs_cache = [], hs_valid = True, hs_dirty = False, hs_timer = False\<rparr>, if he_remove env then d\<lparr>hd_file := None\<rparr> else d)"

definition aged :: "int \<Rightarrow> hist_session \<Rightarrow> bool" where
  "aged cutoff s \<longleftrightarrow> (case ss_end s of None \<Rightarrow> False | Some e \<Rightarrow> e < cutoff)"

definition TrimByAge :: "hist_env \<Rightarrow> int \<Rightarrow> int \<Rightarrow> history \<Rightarrow> hist_disk \<Rightarrow> nat \<times> history \<times> hist_disk" where
  "TrimByAge env maxAge now h d =
     (if maxAge \<le> 0 then (0, h, d)
      else let (ss, h, d) = loadLocked env h d;
               removed = length (filter (aged (now - maxAge)) ss)
           in if removed = 0 then (0, h, d)
              else (removed, commitLocked (filter (\<lambda>s. \<not> aged (now - maxAge) s) ss) h, d))"

section \<open>Runs\<close>

text \<open>One event of a process; the environment may differ from one to the next.\<close>

datatype hist_event =
    Connected string string int | Disconnected string int int string int | CloseOpen string int | Aging int int
  | Cleared | FlushNow | TimerFired | Shown

fun hist_step :: "hist_env \<times> hist_event \<Rightarrow> history \<times> hist_disk \<Rightarrow> history \<times> hist_disk" where
  "hist_step (env, Connected i tunnel now) (h, d) = RecordConnect env i tunnel now h d"
| "hist_step (env, Disconnected i rx tx reason now) (h, d) = RecordDisconnect env i rx tx reason now h d"
| "hist_step (env, CloseOpen reason now) (h, d) = CloseOpenSessions env reason now h d"
| "hist_step (env, Aging maxAge now) (h, d) = snd (TrimByAge env maxAge now h d)"
| "hist_step (env, Cleared) (h, d) = Clear env h d"
| "hist_step (env, FlushNow) (h, d) = Flush env h d"
| "hist_step (env, TimerFired) (h, d) = deferred_flush env h d"
| "hist_step (env, Shown) (h, d) = snd (GetAll env h d)"

definition hist_run :: "(hist_env \<times> hist_event) list \<Rightarrow> history \<times> hist_disk \<Rightarrow> history \<times> hist_disk" where
  "hist_run es s = fold hist_step es s"

text \<open>What a new process would find, and what this one shows.\<close>

definition on_disk :: "hist_disk \<Rightarrow> hist_session list" where
  "on_disk d = (case hd_file d of Some (Records ss) \<Rightarrow> ss | _ \<Rightarrow> [])"

definition shown :: "history \<times> hist_disk \<Rightarrow> hist_session list" where
  "shown s = (if hs_valid (fst s) then hs_cache (fst s) else on_disk (snd s))"

section \<open>What a crash loses\<close>

lemma load_shape:
  "loadLocked env h d = (ss, h', d') \<Longrightarrow>
   hs_valid h' \<and> hs_cache h' = ss \<and> hs_dirty h' = hs_dirty h \<and> hs_timer h' = hs_timer h \<and> on_disk d' = on_disk d"
  by (auto simp: loadLocked_def on_disk_def Let_def split: if_splits option.splits content.splits)

lemma step_disk:
  "on_disk (snd (hist_step e s)) = on_disk (snd s) \<or> on_disk (snd (hist_step e s)) = shown (hist_step e s)"
proof (cases "(e, s)" rule: hist_step.cases)
  case (1 env i tunnel now h d)
  then show ?thesis by (auto simp: RecordConnect_def Let_def dest!: load_shape split: prod.splits)
next
  case (2 env i rx tx reason now h d)
  then show ?thesis by (auto simp: RecordDisconnect_def Let_def dest!: load_shape split: prod.splits option.splits)
next
  case (3 env reason now h d)
  then show ?thesis by (auto simp: CloseOpenSessions_def Let_def dest!: load_shape split: prod.splits)
next
  case (4 env maxAge now h d)
  then show ?thesis by (auto simp: TrimByAge_def Let_def dest!: load_shape split: prod.splits)
next
  case (5 env h d)
  then show ?thesis by (auto simp: Clear_def shown_def on_disk_def)
next
  case (6 env h d)
  then show ?thesis by (auto simp: Flush_def write_back_def saveLocked_def shown_def on_disk_def)
next
  case (7 env h d)
  then show ?thesis by (auto simp: deferred_flush_def write_back_def saveLocked_def shown_def on_disk_def Let_def)
next
  case (8 env h d)
  then show ?thesis by (auto simp: GetAll_def dest!: load_shape split: prod.splits)
qed

text \<open>The history as a plain log: what each event does to the list, oldest first.\<close>

fun log_event :: "hist_event \<Rightarrow> hist_session list \<Rightarrow> hist_session list" where
  "log_event (Connected i tunnel now) ss = trimSessions (ss @ [\<lparr>ss_id = i, ss_tunnel = tunnel, ss_start = now, ss_end = None,
     ss_dur = 0, ss_rx = 0, ss_tx = 0, ss_reason = ''''\<rparr>])"
| "log_event (Disconnected i rx tx reason now) ss =
     (if i = '''' then ss else case close_first i now rx tx reason ss of None \<Rightarrow> ss | Some ss' \<Rightarrow> ss')"
| "log_event (CloseOpen reason now) ss = close_all now reason ss"
| "log_event (Aging maxAge now) ss = (if maxAge \<le> 0 then ss else filter (\<lambda>s. \<not> aged (now - maxAge) s) ss)"
| "log_event Cleared ss = []"
| "log_event _ ss = ss"

lemma load_reads:
  assumes "loadLocked env h d = (ss, h', d')" "he_read env"
  shows "ss = shown (h, d)"
  using assms by (auto simp: loadLocked_def shown_def on_disk_def Let_def split: if_splits option.splits content.splits)

lemma load_sound:
  assumes "loadLocked env h d = (ss, h', d')" "he_read env"
  shows "ss = shown (h, d)" "shown (h', d') = shown (h, d)"
  using load_reads[OF assms] load_shape[OF assms(1)] by (auto simp: shown_def)

lemma commit_shown [simp]: "shown (commitLocked ss h, d) = ss"
  by (simp add: shown_def commitLocked_def scheduleFlushLocked_def)

lemma close_all_ended: "list_all (\<lambda>s. ss_end s \<noteq> None) ss \<Longrightarrow> close_all now reason ss = ss"
  by (induction ss) auto

lemma none_aged: "length (filter (aged c) ss) = 0 \<Longrightarrow> filter (\<lambda>s. \<not> aged c s) ss = ss"
  by (induction ss) (auto split: if_splits)

lemma step_log:
  assumes "he_read (fst e)"
  shows "shown (hist_step e s) = log_event (snd e) (shown s)"
proof (cases "(e, s)" rule: hist_step.cases)
  case (1 env i tunnel now h d)
  then show ?thesis using assms by (auto simp: RecordConnect_def Let_def dest!: load_reads split: prod.splits)
next
  case (2 env i rx tx reason now h d)
  then show ?thesis using assms load_sound[of env h d] by (auto simp: RecordDisconnect_def Let_def split: prod.splits option.splits)
next
  case (3 env reason now h d)
  then show ?thesis using assms load_sound[of env h d] by (auto simp: CloseOpenSessions_def Let_def close_all_ended split: prod.splits)
next
  case (4 env maxAge now h d)
  then show ?thesis using assms load_sound[of env h d] none_aged by (auto simp: TrimByAge_def Let_def split: prod.splits)
next
  case (8 env h d)
  then show ?thesis using assms load_sound[of env h d] by (auto simp: GetAll_def split: prod.splits)
qed (auto simp: Clear_def Flush_def deferred_flush_def write_back_def saveLocked_def shown_def on_disk_def Let_def)

lemma run_log:
  "\<forall>e \<in> set es. he_read (fst e) \<Longrightarrow> shown (hist_run es s) = fold log_event (map snd es) (shown s)"
  by (induction es arbitrary: s) (simp_all add: hist_run_def step_log)

text \<open>What is not marked dirty is on disk.\<close>

definition tidy :: "history \<times> hist_disk \<Rightarrow> bool" where
  "tidy s \<longleftrightarrow> (hs_valid (fst s) \<and> \<not> hs_dirty (fst s) \<longrightarrow> hs_cache (fst s) = on_disk (snd s)) \<and> (hs_dirty (fst s) \<longrightarrow> hs_valid (fst s))"

lemma load_tidy:
  assumes "loadLocked env h d = (ss, h', d')" "he_read env" "tidy (h, d)"
  shows "tidy (h', d')"
  using assms by (auto simp: loadLocked_def tidy_def on_disk_def Let_def split: if_splits option.splits content.splits)

lemma commit_tidy [simp]: "tidy (commitLocked ss h, d)"
  by (simp add: tidy_def commitLocked_def scheduleFlushLocked_def)

lemma step_tidy:
  assumes "he_read (fst e)" "he_remove (fst e)" "tidy s"
  shows "tidy (hist_step e s)"
proof (cases "(e, s)" rule: hist_step.cases)
  case (5 env h d)
  then show ?thesis using assms by (simp add: Clear_def tidy_def on_disk_def)
next
  case (6 env h d)
  then show ?thesis using assms by (auto simp: Flush_def write_back_def saveLocked_def tidy_def on_disk_def)
next
  case (7 env h d)
  then show ?thesis using assms by (auto simp: deferred_flush_def write_back_def saveLocked_def tidy_def on_disk_def Let_def)
qed (use assms load_tidy in \<open>auto simp: RecordConnect_def RecordDisconnect_def CloseOpenSessions_def TrimByAge_def GetAll_def Let_def
    split: prod.splits option.splits\<close>)

lemma run_tidy:
  "\<forall>e \<in> set es. he_read (fst e) \<and> he_remove (fst e) \<Longrightarrow> tidy s \<Longrightarrow> tidy (hist_run es s)"
  by (induction es arbitrary: s) (simp_all add: hist_run_def step_tidy)

lemma flush_saves:
  assumes "he_save env" "tidy s"
  shows "on_disk (snd (hist_step (env, FlushNow) s)) = shown s"
  using assms by (cases s) (auto simp: Flush_def write_back_def saveLocked_def tidy_def shown_def on_disk_def)

lemma prefix_on_disk:
  "\<exists>n \<le> length es. on_disk (snd (hist_run es (NewHistoryStore, d))) = shown (hist_run (take n es) (NewHistoryStore, d))"
proof (induction es rule: rev_induct)
  case Nil
  show ?case by (simp add: hist_run_def shown_def NewHistoryStore_def)
next
  case (snoc e es)
  have last: "hist_run (es @ [e]) s = hist_step e (hist_run es s)" for s by (simp add: hist_run_def)
  from snoc obtain n where n: "n \<le> length es" "on_disk (snd (hist_run es (NewHistoryStore, d))) = shown (hist_run (take n es) (NewHistoryStore, d))"
    by blast
  consider "on_disk (snd (hist_run (es @ [e]) (NewHistoryStore, d))) = on_disk (snd (hist_run es (NewHistoryStore, d)))"
    | "on_disk (snd (hist_run (es @ [e]) (NewHistoryStore, d))) = shown (hist_run (es @ [e]) (NewHistoryStore, d))"
    using step_disk[of e "hist_run es (NewHistoryStore, d)"] unfolding last by blast
  then show ?case
  proof cases
    case 1
    then show ?thesis using n by (intro exI[of _ n]) simp
  next
    case 2
    then show ?thesis by (intro exI[of _ "Suc (length es)"]) simp
  qed
qed

text \<open>C29: Whenever a process dies, whatever failed before, the history a new one finds is the one the old process showed
  after some prefix of its events: a crash loses the newest changes, never one in the middle. After a flush that
  could write, with a file that could be read and removed, it is the whole history.\<close>

theorem crash_keeps_a_prefix:
  "(\<exists>n \<le> length es. on_disk (snd (hist_run es (NewHistoryStore, d))) = shown (hist_run (take n es) (NewHistoryStore, d))) \<and>
   (he_save env \<and> list_all (\<lambda>e. he_read (fst e) \<and> he_remove (fst e)) es \<longrightarrow>
     on_disk (snd (hist_run (es @ [(env, FlushNow)]) (NewHistoryStore, d))) = shown (hist_run es (NewHistoryStore, d)))"
proof -
  have "tidy (NewHistoryStore, d)" by (simp add: tidy_def NewHistoryStore_def)
  then have "list_all (\<lambda>e. he_read (fst e) \<and> he_remove (fst e)) es \<Longrightarrow> tidy (hist_run es (NewHistoryStore, d))"
    using run_tidy[of es] by (simp add: list_all_iff)
  then show ?thesis using prefix_on_disk[of es d] flush_saves[of env "hist_run es (NewHistoryStore, d)"] by (auto simp: hist_run_def)
qed

section \<open>The log stays well formed\<close>

definition wf_session :: "hist_session \<Rightarrow> bool" where
  "wf_session s \<longleftrightarrow> \<not> phantom s \<and> 0 \<le> ss_dur s \<and> (ss_end s = None \<longrightarrow> ss_dur s = 0 \<and> ss_rx s = 0 \<and> ss_tx s = 0)"

definition wf_log :: "hist_session list \<Rightarrow> bool" where
  "wf_log ss \<longleftrightarrow> length ss \<le> HistoryMaxRecords \<and> distinct (map ss_id ss) \<and> list_all wf_session ss"

text \<open>The sessions of a list are those of another, some left out, some closed.\<close>

lemma elapsed_nonneg [simp]: "0 \<le> elapsed now s"
  by (simp add: elapsed_def Let_def pos_imp_zdiv_nonneg_iff)

lemma close_first_wf:
  "close_first i now rx tx reason ss = Some ss' \<Longrightarrow> list_all wf_session ss \<Longrightarrow>
   list_all wf_session ss' \<and> subseq (map ss_id ss') (map ss_id ss)"
  by (induction ss arbitrary: ss') (auto simp: close_session_def wf_session_def phantom_def split: if_splits)

lemma close_all_wf:
  "list_all wf_session ss \<Longrightarrow> list_all wf_session (close_all now reason ss) \<and> subseq (map ss_id (close_all now reason ss)) (map ss_id ss)"
  by (induction ss) (auto simp: wf_session_def phantom_def)

lemma subseq_ids: "subseq xs ys \<Longrightarrow> distinct ys \<Longrightarrow> distinct xs \<and> set xs \<subseteq> set ys"
  by (auto simp: subseq_conv_nths intro: distinct_nthsI dest: in_set_nthsD)

lemma wf_subseq:
  assumes "wf_log ss" "list_all wf_session ss'" "subseq (map ss_id ss') (map ss_id ss)"
  shows "wf_log ss' \<and> ss_id ` set ss' \<subseteq> ss_id ` set ss"
  using assms list_emb_length[OF assms(3)] subseq_ids[OF assms(3)] by (auto simp: wf_log_def)

fun opened :: "hist_event \<Rightarrow> string list" where
  "opened (Connected i tunnel now) = [i]"
| "opened _ = []"

lemma log_event_wf:
  assumes "wf_log ss" "set (opened e) \<inter> ss_id ` set ss = {}"
  shows "wf_log (log_event e ss) \<and> ss_id ` set (log_event e ss) \<subseteq> ss_id ` set ss \<union> set (opened e)"
proof -
  have w: "list_all wf_session ss" using assms(1) by (simp add: wf_log_def)
  show ?thesis
  proof (cases e)
    case (Connected i tunnel now)
    then show ?thesis using assms
      by (auto simp: wf_log_def trimSessions_def HistoryMaxRecords_def wf_session_def phantom_def drop_map[symmetric] distinct_drop
          list_all_iff dest!: in_set_dropD)
  next
    case (Disconnected i rx tx reason now)
    then show ?thesis using assms(1) close_first_wf[OF _ w] wf_subseq[OF assms(1)] by (auto split: option.splits)
  next
    case (CloseOpen reason now)
    then show ?thesis using wf_subseq[OF assms(1)] close_all_wf[OF w, of now reason] by auto
  next
    case (Aging maxAge now)
    then show ?thesis using assms(1) wf_subseq[OF assms(1), of "filter (\<lambda>s. \<not> aged (now - maxAge) s) ss"] w
      by (auto simp: list_all_iff subseq_map)
  qed (use assms(1) in \<open>auto simp: wf_log_def\<close>)
qed

lemma fresh_later: "ids' \<subseteq> ids \<union> new \<Longrightarrow> later \<inter> ids = {} \<Longrightarrow> new \<inter> later = {} \<Longrightarrow> later \<inter> ids' = {}"
  by blast

lemma log_run_wf:
  "wf_log ss \<Longrightarrow> distinct (concat (map opened es)) \<Longrightarrow> set (concat (map opened es)) \<inter> ss_id ` set ss = {} \<Longrightarrow> wf_log (fold log_event es ss)"
proof (induction es arbitrary: ss)
  case (Cons e es)
  have "set (opened e) \<inter> ss_id ` set ss = {}" using Cons.prems(3) by auto
  note w = log_event_wf[OF Cons.prems(1) this]
  have "set (concat (map opened es)) \<inter> ss_id ` set (log_event e ss) = {}"
    by (rule fresh_later[OF w[THEN conjunct2]]) (use Cons.prems(2,3) in auto)
  then show ?case using Cons.IH[OF w[THEN conjunct1]] Cons.prems(2) by simp
qed simp

lemma phantom_free: "wf_log ss \<Longrightarrow> filter (\<lambda>s. \<not> phantom s) (rev ss) = rev ss"
  by (auto simp: wf_log_def wf_session_def list_all_iff)

section \<open>What the user is shown\<close>

text \<open>
  The specification, on the view itself: newest first, written without the operations of the store. A session that
  ended within its first second without a byte counts as never having been.
\<close>

definition never_was :: "hist_session \<Rightarrow> bool" where
  "never_was s \<longleftrightarrow> ss_end s \<noteq> None \<and> ss_dur s = 0 \<and> ss_rx s = 0 \<and> ss_tx s = 0"

definition whole_seconds :: "int \<Rightarrow> int \<Rightarrow> int" where
  "whole_seconds t0 t1 = max 0 ((t1 - t0) div 1000000000)"

definition ended :: "int \<Rightarrow> string \<Rightarrow> hist_session \<Rightarrow> hist_session" where
  "ended now reason s = s\<lparr>ss_end := Some now, ss_dur := whole_seconds (ss_start s) now, ss_reason := reason\<rparr>"

fun view_event :: "hist_event \<Rightarrow> hist_session list \<Rightarrow> hist_session list" where
  "view_event (Connected i tunnel now) vs = take 200 (\<lparr>ss_id = i, ss_tunnel = tunnel, ss_start = now, ss_end = None,
     ss_dur = 0, ss_rx = 0, ss_tx = 0, ss_reason = ''''\<rparr> # vs)"
| "view_event (Disconnected i rx tx reason now) vs =
     (if i = '''' then vs
      else filter (\<lambda>s. \<not> never_was s)
        (map (\<lambda>s. if ss_id s = i \<and> ss_end s = None then (ended now reason s)\<lparr>ss_rx := rx, ss_tx := tx\<rparr> else s) vs))"
| "view_event (CloseOpen reason now) vs =
     filter (\<lambda>s. \<not> never_was s) (map (\<lambda>s. if ss_end s = None then ended now reason s else s) vs)"
| "view_event (Aging maxAge now) vs = filter (\<lambda>s. case ss_end s of None \<Rightarrow> True | Some e \<Rightarrow> 0 < maxAge \<longrightarrow> now - maxAge \<le> e) vs"
| "view_event Cleared vs = []"
| "view_event FlushNow vs = vs"
| "view_event TimerFired vs = vs"
| "view_event Shown vs = vs"

lemma never_was_phantom: "never_was s = phantom s"
  by (auto simp: never_was_def phantom_def)

lemma elapsed_whole: "elapsed now s = whole_seconds (ss_start s) now"
proof (cases "now - ss_start s < 0")
  case True
  then have "(now - ss_start s) div 1000000000 < 0" by (simp add: neg_imp_zdiv_neg_iff)
  with True show ?thesis by (simp add: elapsed_def whole_seconds_def)
next
  case False
  then have "0 \<le> (now - ss_start s) div 1000000000" by (simp add: pos_imp_zdiv_nonneg_iff)
  with False show ?thesis by (simp add: elapsed_def whole_seconds_def)
qed

lemma kept_sessions: "list_all wf_session ss \<Longrightarrow> filter (\<lambda>s. \<not> never_was s) ss = ss"
  by (induction ss) (auto simp: wf_session_def never_was_phantom)

lemma other_ids: "i \<notin> ss_id ` set ss \<Longrightarrow> map (\<lambda>s. if ss_id s = i \<and> ss_end s = None then f s else s) ss = ss"
  by (induction ss) auto

lemma ended_once:
  assumes "ss_end s = None"
  shows "never_was ((ended now reason s)\<lparr>ss_rx := rx, ss_tx := tx\<rparr>) \<longleftrightarrow> elapsed now s = 0 \<and> rx = 0 \<and> tx = 0"
    and "(ended now reason s)\<lparr>ss_rx := rx, ss_tx := tx\<rparr> = close_session now rx tx reason s"
  by (simp_all add: never_was_def ended_def close_session_def elapsed_whole)

lemma close_first_view:
  "list_all wf_session ss \<Longrightarrow> distinct (map ss_id ss) \<Longrightarrow>
    (case close_first i now rx tx reason ss of None \<Rightarrow> ss | Some ss' \<Rightarrow> ss') =
    filter (\<lambda>s. \<not> never_was s)
      (map (\<lambda>s. if ss_id s = i \<and> ss_end s = None then (ended now reason s)\<lparr>ss_rx := rx, ss_tx := tx\<rparr> else s) ss)"
proof (induction ss)
  case (Cons s ss)
  show ?case
  proof (cases "ss_id s = i \<and> ss_end s = None")
    case True
    then have "i \<notin> ss_id ` set ss" using Cons.prems(2) by auto
    with True Cons.prems(1) show ?thesis using ended_once[of s] by (simp add: other_ids kept_sessions)
  next
    case False
    have s: "\<not> never_was s" using Cons.prems(1) by (simp add: wf_session_def never_was_phantom)
    show ?thesis using Cons.IH Cons.prems False s
      by (cases "close_first i now rx tx reason ss") (auto split: if_splits)
  qed
qed simp

lemma close_all_view:
  "list_all wf_session ss \<Longrightarrow> close_all now reason ss =
    filter (\<lambda>s. \<not> never_was s) (map (\<lambda>s. if ss_end s = None then ended now reason s else s) ss)"
proof (induction ss)
  case (Cons s ss)
  have "never_was (ended now reason s) \<longleftrightarrow> elapsed now s = 0" if "ss_end s = None"
    using that Cons.prems by (auto simp: never_was_def ended_def wf_session_def elapsed_whole)
  moreover have "\<not> never_was s" using Cons.prems by (simp add: wf_session_def never_was_phantom)
  ultimately show ?case using Cons by (auto simp: ended_def elapsed_whole)
qed simp

lemma trim_view: "length ss \<le> 200 \<Longrightarrow> rev (trimSessions (ss @ [s])) = take 200 (s # rev ss)"
  by (auto simp: trimSessions_def HistoryMaxRecords_def rev_drop rev_take take_Cons' drop_Cons')

lemma event_view:
  assumes "wf_log ss"
  shows "rev (log_event e ss) = view_event e (rev ss)"
proof -
  have w: "list_all wf_session ss" "distinct (map ss_id ss)" "length ss \<le> 200"
    using assms by (simp_all add: wf_log_def HistoryMaxRecords_def)
  show ?thesis
  proof (cases e)
    case (Disconnected i rx tx reason now)
    then show ?thesis by (simp add: close_first_view[OF w(1,2)] rev_filter[symmetric] rev_map[symmetric])
  next
    case (CloseOpen reason now)
    then show ?thesis by (simp add: close_all_view[OF w(1)] rev_filter[symmetric] rev_map[symmetric])
  next
    case (Aging maxAge now)
    show ?thesis
    proof (cases "maxAge \<le> 0")
      case True
      have "filter (\<lambda>s. case ss_end s of None \<Rightarrow> True | Some e \<Rightarrow> 0 < maxAge \<longrightarrow> now - maxAge \<le> e) (rev ss) = rev ss"
        by (rule filter_True) (use True in \<open>simp split: option.split\<close>)
      with True Aging show ?thesis by simp
    next
      case False
      have "filter (\<lambda>s. \<not> aged (now - maxAge) s) (rev ss) =
          filter (\<lambda>s. case ss_end s of None \<Rightarrow> True | Some e \<Rightarrow> 0 < maxAge \<longrightarrow> now - maxAge \<le> e) (rev ss)"
        by (rule filter_cong) (use False in \<open>auto simp: aged_def split: option.splits\<close>)
      with False Aging show ?thesis by (simp only: log_event.simps view_event.simps rev_filter if_False)
    qed
  qed (simp_all add: trim_view[OF w(3)])
qed

lemma log_run_view:
  "wf_log ss \<Longrightarrow> distinct (concat (map opened es)) \<Longrightarrow> set (concat (map opened es)) \<inter> ss_id ` set ss = {} \<Longrightarrow>
    rev (fold log_event es ss) = fold view_event es (rev ss)"
proof (induction es arbitrary: ss)
  case (Cons e es)
  have "set (opened e) \<inter> ss_id ` set ss = {}" using Cons.prems(3) by auto
  note w = log_event_wf[OF Cons.prems(1) this]
  have "set (concat (map opened es)) \<inter> ss_id ` set (log_event e ss) = {}"
    by (rule fresh_later[OF w[THEN conjunct2]]) (use Cons.prems(2,3) in auto)
  then show ?case using Cons.IH[OF w[THEN conjunct1]] Cons.prems(2) event_view[OF Cons.prems(1), of e] by simp
qed simp

text \<open>C37: When the file can be read and holds a well-formed history, and every connect gets a fresh id, what the store shows
  after any run of events is what the specification says, written without the store's operations: the newest two hundred
  sessions, newest first; a disconnect ends exactly the open session of its id; sessions that ended at once without a
  byte are gone; aging drops exactly the sessions that ended before the limit. No id is shown twice and no duration is negative.\<close>

theorem history_is_its_log:
  assumes "list_all (\<lambda>e. he_read (fst e)) es" and "he_read env" and "wf_log (on_disk d)"
    and "distinct (concat (map (opened \<circ> snd) es))" and "set (concat (map (opened \<circ> snd) es)) \<inter> ss_id ` set (on_disk d) = {}"
    and run: "hist_run es (NewHistoryStore, d) = (h, d')" and v: "v = fst (GetAll env h d')"
  shows "v = fold view_event (map snd es) (rev (on_disk d)) \<and>
    length v \<le> 200 \<and> distinct (map ss_id v) \<and> list_all (\<lambda>s. \<not> never_was s \<and> 0 \<le> ss_dur s) v"
proof -
  let ?log = "fold log_event (map snd es) (on_disk d)"
  have "shown (NewHistoryStore, d) = on_disk d" by (simp add: shown_def NewHistoryStore_def)
  then have s: "shown (h, d') = ?log"
    using run_log[of es "(NewHistoryStore, d)"] assms(1) run by (simp add: list_all_iff)
  have ids: "distinct (concat (map opened (map snd es)))" "set (concat (map opened (map snd es))) \<inter> ss_id ` set (on_disk d) = {}"
    using assms(4,5) by (simp_all add: comp_def)
  note wf = log_run_wf[OF assms(3) ids] and view = log_run_view[OF assms(3) ids]
  have v: "v = rev ?log"
    using load_reads[of env h d', OF _ assms(2)] s v phantom_free[OF wf] by (auto simp: GetAll_def split: prod.splits)
  have "length (rev ?log) \<le> 200 \<and> distinct (map ss_id (rev ?log)) \<and> list_all (\<lambda>s. \<not> never_was s \<and> 0 \<le> ss_dur s) (rev ?log)"
    using wf by (simp add: wf_log_def HistoryMaxRecords_def rev_map[symmetric] wf_session_def list_all_iff never_was_phantom)
  with view show ?thesis unfolding v by (intro conjI) simp_all
qed

section \<open>Concrete histories\<close>

definition good_env :: hist_env where
  "good_env = \<lparr>he_read = True, he_rename = True, he_save = True, he_remove = True\<rparr>"

definition empty_disk :: hist_disk where
  "empty_disk = \<lparr>hd_file = None, hd_corrupt = None\<rparr>"

theorem crash_keeps_a_prefix_witness:
  "map ss_id (on_disk (snd (hist_run [(good_env, Connected ''a'' ''wg0'' 0), (good_env, FlushNow)] (NewHistoryStore, empty_disk)))) = [''a'']"
  using crash_keeps_a_prefix[of "[(good_env, Connected ''a'' ''wg0'' 0)]" empty_disk good_env]
  by (simp add: hist_run_def RecordConnect_def loadLocked_def NewHistoryStore_def empty_disk_def good_env_def trimSessions_def HistoryMaxRecords_def)

theorem history_is_its_log_witness:
  "map ss_id (fst (case hist_run [(good_env, Connected ''a'' ''wg0'' 0), (good_env, Connected ''b'' ''wg1'' 0),
      (good_env, Disconnected ''a'' 0 0 ''user'' 5), (good_env, Disconnected ''b'' 9 0 ''user'' 3000000000)] (NewHistoryStore, empty_disk) of
        (h, d) \<Rightarrow> GetAll good_env h d)) = [''b'']"
proof -
  let ?es = "[(good_env, Connected ''a'' ''wg0'' 0), (good_env, Connected ''b'' ''wg1'' 0),
      (good_env, Disconnected ''a'' 0 0 ''user'' 5), (good_env, Disconnected ''b'' 9 0 ''user'' 3000000000)]"
  have "map ss_id (fold view_event (map snd ?es) []) = [''b'']" by code_simp
  moreover have "on_disk empty_disk = []" "he_read good_env" "wf_log []"
    by (simp_all add: on_disk_def empty_disk_def good_env_def wf_log_def)
  ultimately show ?thesis
    using history_is_its_log[of ?es good_env empty_disk _ _ _, OF _ _ _ _ _ _ refl] by (cases "hist_run ?es (NewHistoryStore, empty_disk)") simp
qed

text \<open>A file that exists but cannot be read for a moment counts as empty, and the next write replaces it.\<close>

lemma unreadable_history_is_lost:
  "(let s = hist_run [(good_env\<lparr>he_read := False\<rparr>, Shown), (good_env, Connected ''b'' ''wg0'' 0), (good_env, TimerFired)]
       (NewHistoryStore, empty_disk\<lparr>hd_file := Some (Records [old])\<rparr>)
    in map ss_id (on_disk (snd s)) = [''b''])"
  by (simp add: hist_run_def GetAll_def RecordConnect_def loadLocked_def NewHistoryStore_def empty_disk_def good_env_def trimSessions_def
      HistoryMaxRecords_def deferred_flush_def write_back_def saveLocked_def on_disk_def commitLocked_def scheduleFlushLocked_def)

text \<open>The cap counts open sessions too: the session of a tunnel that stays up is dropped by two hundred later connects of another.\<close>

lemma cap_drops_live_session:
  assumes "length (live # ss) = HistoryMaxRecords"
  shows "log_event (Connected i tunnel now) (live # ss) = ss @ [\<lparr>ss_id = i, ss_tunnel = tunnel, ss_start = now, ss_end = None,
     ss_dur = 0, ss_rx = 0, ss_tx = 0, ss_reason = ''''\<rparr>]"
  using assms by (simp add: trimSessions_def)

end
