(* ===== verification/Spec2Isabelle.thy ===== *)
theory Spec2Isabelle
  imports WifiAutomation PolicyReport ManagerMachine Settings Endpoint ConfigRoundtrip Validator HelperDNS UpdateSchedule TunnelStoreProps
    LinuxRoutesProps LinuxDNS DarwinRoutesProps FirewallContract IpcWireProps IpcServer History
begin

text \<open>
  WireGuide Plus is a WireGuard client in two processes: a GUI of the desktop user and a privileged helper. The helper
  owns the tunnels, the routes, DNS and the firewall; it decides by rules which tunnels to connect, watches them, and
  talks to the GUI over a local socket. This library models the logic of \<open>internal/\<close> as functions on explicit states and
  proves what makes each part correct. The theories, from the bottom:

  Go itself. \<open>GoPrelude\<close> has the collections and lemmas shared by all, \<open>GoStrings\<close> the functions of the string packages,
  \<open>GoNet\<close> addresses and prefixes as \<open>net\<close> and \<open>net/netip\<close> parse and print them, \<open>GoURL\<close> what the update client uses of
  \<open>net/url\<close>. They are written after the documentation of the standard library.

  Configurations. \<open>Domain\<close> (\<open>domain/config.go\<close>, \<open>status.go\<close>) holds the records; \<open>Config\<close> and \<open>ConfigRoundtrip\<close>
  (\<open>config/parser.go\<close>) the parser, the serializer and their round trip; \<open>Validator\<close> (\<open>config/validator.go\<close>) the checks,
  with a grammar-level result on what an accepted text can contain. \<open>Settings\<close> (\<open>storage/settings.go\<close>) is the settings
  model with its latches and renames; \<open>FileStore\<close>, \<open>TunnelStore\<close>, \<open>TunnelStoreProps\<close> (\<open>storage/rename.go\<close>,
  \<open>tunnels.go\<close>) the tunnel files on a directory whose every operation may fail and lose power; \<open>History\<close>
  (\<open>storage/history.go\<close>) the session log with its deferred writes, against a specification of the view written without
  the store's operations. The contract of a keyed store is a locale,
  interpreted on the association lists that stand for Go maps; that of a machine with an invariant is interpreted on
  the settings and on the goroutines of the manager.

  Decisions. \<open>WifiAutomation\<close> (\<open>wifi/automation.go\<close>) evaluates the rules and Default State of a tunnel on a network.
  \<open>Policy\<close>, \<open>PolicyGeometry\<close>, \<open>PolicyReport\<close> (\<open>policy/\<close>) find conflicts of routes, DNS and protection between tunnels;
  geometry is the reading of prefixes as sets of addresses, and the report lemmas say what a report without a blocking
  conflict guarantees. \<open>Endpoint\<close> (\<open>endpoint/pick.go\<close>, \<open>helper/endpoint_switch.go\<close>, \<open>endpoint_dynamic.go\<close>) chooses and
  switches endpoints.

  Tunnels. \<open>TunnelManager\<close>, \<open>TunnelStatus\<close>, \<open>ManagerProps\<close>, \<open>ManagerMachine\<close> (\<open>tunnel/manager.go\<close>,
  \<open>connect_phases.go\<close>, \<open>manager_status.go\<close>, \<open>manager_dns.go\<close>, \<open>manager_pin.go\<close>, \<open>recovery.go\<close>, \<open>status.go\<close>,
  \<open>status_engine.go\<close>): the phases of a connect as a list of steps any of which can fail, each with the rollback of its
  own error branch, teardown, crash recovery, and the goroutines of several connects and disconnects as a step
  relation, with invariants of the reachable states; the two readers of a device's status, the text scanner checked
  against a reading of the protocol that knows nothing of its state.

  The helper. \<open>Helper\<close>, \<open>HelperOps\<close>, \<open>HelperProps\<close>, \<open>HelperDNS\<close> (\<open>helper/helper.go\<close>, \<open>handlers.go\<close>, \<open>decision.go\<close>,
  \<open>policy.go\<close>, \<open>conflict_pause.go\<close>, \<open>dns_path.go\<close>, \<open>automation_rules.go\<close>): the state of the helper, the decision on each
  tunnel, connects and disconnects by hand and by rule, and the owner of the DNS path. A connect by rule is in two
  parts, what it asks before it waits for \<open>connectMu\<close> and what it does under it; the engine's round is modelled with
  the lock free, and \<open>automation_race\<close> shows what a wait can change. \<open>ReconnectMonitor\<close>,
  \<open>MonitorProps\<close>, \<open>HelperMonitor\<close> (\<open>reconnect/monitor.go\<close>): sessions of retries, their slots and triggers, and the
  callbacks of the helper they run on; the monitor's view of the helper is a locale, interpreted on it. \<open>IpcWire\<close>,
  \<open>IpcWireProps\<close> (\<open>ipc/framing.go\<close>, \<open>protocol.go\<close>, \<open>server.go\<close>, \<open>client.go\<close>): frames over a byte stream and calls over
  frames; \<open>IpcServer\<close> (\<open>ipc/server.go\<close>, \<open>helper/helper.go\<close>, the shutdown and quit requests of \<open>handlers.go\<close>): how
  connections, tunnels and requests decide how long the helper lives.

  The system. \<open>RouteKernel\<close> states longest-prefix lookup and what it means that a command does what is documented.
  \<open>LinuxRoutes\<close>, \<open>LinuxRoutesProps\<close>, \<open>LinuxDNS\<close> (\<open>network/linux.go\<close>) set up and remove routes, rules and
  \<open>resolv.conf\<close>; \<open>DarwinRoutes\<close>, \<open>DarwinRoutesProps\<close> (\<open>network/darwin.go\<close>) do the routes on macOS, command by command;
  \<open>LinuxFirewall\<close>, \<open>LinuxFirewallProps\<close> (\<open>firewall/linux.go\<close>) and \<open>DarwinFirewall\<close>
  (\<open>firewall/darwin.go\<close>) render kill switch and DNS enforcement as nftables and pf rules, whose meaning for a packet is
  defined here; \<open>FirewallContract\<close> states the enforcement as a locale and proves it of both.

  Updates. \<open>UpdateFeed\<close>, \<open>UpdateClient\<close>, \<open>UpdateProps\<close>, \<open>UpdateSchedule\<close> (\<open>update/\<close>, the check in
  \<open>app/settings_ops.go\<close>): release feed, asset choice, hosts a request may reach, verification before installing, and the
  scheduler across restarts.

  Parameters. Code that is not in the repository is an argument: the commands \<open>ip\<close>, \<open>wg\<close>, \<open>nft\<close>, \<open>route\<close>, \<open>netstat\<close> and \<open>pfctl\<close> are
  functions on an abstract kernel, and the theorems on them assume \<open>documented\<close> (a command that reports success had its
  documented effect on the view of the kernel, one that fails had none) and, where the text of the theorem says so,
  \<open>obliging\<close> (it succeeds where it can); \<open>truthful\<close> says that the listing of policy rules shows their priorities. The
  witnesses give concrete machines for which they hold. Cryptography, JSON, the clock, the resolver, the engine
  (\<open>wireguard-go\<close>) and the outcome of every file operation are fields of an environment, and unless a theorem says
  otherwise they may behave in any way.

  Loops. Recursion follows the data wherever the code walks data. The retry session of the monitor runs on fuel, and
  \<open>limited_session_ends\<close> shows how much is enough when attempts are limited; without a limit the code does not promise
  to end. The drain of duplicate rules on Linux has the code's own bound of fifty, the search for a free table its bound
  of a hundred, the wait for a gateway on macOS its twenty quarters of a second. Integers are \<open>int\<close> where the code cannot come near the bound of an \<open>int64\<close>; ids, frame lengths and
  addresses are words.

  Nothing in the repository turns the kill switch on; its operations are modelled and proved as the interface of the
  firewall offers them.

  Where the code falls short of what it says, a lemma shows it on a concrete run: the order of the policy rules on Linux
  (the witness of \<open>full_tunnel_captures\<close>), named routing tables, two full tunnels, prefixes that cover an endpoint on macOS, the second owner of port 53 on Linux
  and macOS, the races of the grace window, events too large for a frame, a history that could not be read, and others
  in \<open>UpdateSchedule\<close>, \<open>HelperMonitor\<close>, \<open>MonitorProps\<close> and \<open>TunnelStoreProps\<close>.

  Not modelled: the GUI (\<open>gui/\<close>, \<open>frontend/\<close>, \<open>hotkey/\<close>, \<open>autostart/\<close>), the command line and the facade of \<open>app/\<close>, which
  shape data and pass calls on; network and firewall backends of Windows, whose meaning lies in an API given by C
  structures, and the DNS and interface addresses on macOS; the detectors of sleep, networks and sessions, which only raise the
  triggers the monitor takes in any order; the diagnostics in \<open>diag/\<close>, which measure; elevation, sockets and peer
  credentials; the one-time migration of an older install.
\<close>

end
